(* ===== verification/Prelude.thy ===== *)
theory Prelude
  imports Complex_Main "HOL-Library.Multiset"
begin

text \<open>
  Shared vocabulary of the development: Rust's \<open>Result\<close> as a sum (\<open>Inl\<close> is \<open>Err\<close>, \<open>Inr\<close> is \<open>Ok\<close>), the
  \<open>?\<close> operator as \<open>and_then\<close>, guards, \<open>Option::ok_or\<close>, early-exit loops over slices, and the
  stable \<open>slice::sort_by\<close>. The collection \<open>result_simps\<close> holds the inversion rules that open a
  chain of fallible steps; component proofs start with \<open>simp add: result_simps\<close>.
\<close>

named_theorems result_simps "inversion of fallible computations"

section \<open>Result\<close>

definition and_then :: "'e + 'a \<Rightarrow> ('a \<Rightarrow> 'e + 'b) \<Rightarrow> 'e + 'b" where
  "and_then m f = (case m of Inl e \<Rightarrow> Inl e | Inr x \<Rightarrow> f x)"

definition ensure :: "bool \<Rightarrow> 'e \<Rightarrow> 'e + unit" where
  "ensure b e = (if b then Inr () else Inl e)"

definition ok_or :: "'a option \<Rightarrow> 'e \<Rightarrow> 'e + 'a" where
  "ok_or m e = (case m of None \<Rightarrow> Inl e | Some x \<Rightarrow> Inr x)"

definition map_err :: "('e \<Rightarrow> 'f) \<Rightarrow> 'e + 'a \<Rightarrow> 'f + 'a" where
  "map_err g m = (case m of Inl e \<Rightarrow> Inl (g e) | Inr x \<Rightarrow> Inr x)"

definition is_ok :: "'e + 'a \<Rightarrow> bool" where
  "is_ok m = (case m of Inl _ \<Rightarrow> False | Inr _ \<Rightarrow> True)"

lemma and_then_simps [simp]:
  "and_then (Inl e) f = Inl e"
  "and_then (Inr x) f = f x"
  by (simp_all add: and_then_def)

lemma and_then_assoc: "and_then (and_then m f) g = and_then m (\<lambda>x. and_then (f x) g)"
  by (cases m) simp_all

lemma and_then_cong: "m = m' \<Longrightarrow> (\<And>x. m' = Inr x \<Longrightarrow> f x = g x) \<Longrightarrow> and_then m f = and_then m' g"
  by (cases m') simp_all

lemma and_then_eq_Inr [result_simps]:
  "and_then m f = Inr y \<longleftrightarrow> (\<exists>x. m = Inr x \<and> f x = Inr y)"
  by (cases m) simp_all

lemma and_then_eq_Inl:
  "and_then m f = Inl e \<longleftrightarrow> m = Inl e \<or> (\<exists>x. m = Inr x \<and> f x = Inl e)"
  by (cases m) simp_all

lemma ensure_simps [simp]:
  "ensure True e = Inr ()"
  "ensure False e = Inl e"
  by (simp_all add: ensure_def)

lemma ensure_eq_Inr [result_simps]: "ensure b e = Inr u \<longleftrightarrow> b"
  by (simp add: ensure_def)

lemma ensure_eq_Inl [result_simps]: "ensure b e = Inl e' \<longleftrightarrow> \<not> b \<and> e' = e"
  by (auto simp: ensure_def)

lemma if_Inl_eq_Inr [result_simps]: "(if b then Inl e else m) = Inr x \<longleftrightarrow> \<not> b \<and> m = Inr x"
  by simp

lemma ok_or_simps [simp]:
  "ok_or None e = Inl e"
  "ok_or (Some x) e = Inr x"
  by (simp_all add: ok_or_def)

lemma ok_or_eq_Inr [result_simps]: "ok_or m e = Inr x \<longleftrightarrow> m = Some x"
  by (cases m) simp_all

lemma ok_or_eq_Inl [result_simps]: "ok_or m e = Inl e' \<longleftrightarrow> m = None \<and> e' = e"
  by (cases m) auto

lemma map_err_simps [simp]:
  "map_err g (Inl e) = Inl (g e)"
  "map_err g (Inr x) = Inr x"
  by (simp_all add: map_err_def)

lemma map_err_eq_Inr [result_simps]: "map_err g m = Inr x \<longleftrightarrow> m = Inr x"
  by (cases m) simp_all

lemma map_err_eq_Inl [result_simps]: "map_err g m = Inl e \<longleftrightarrow> (\<exists>e'. m = Inl e' \<and> e = g e')"
  by (cases m) auto

lemma is_ok_simps [simp]: "\<not> is_ok (Inl e)" "is_ok (Inr x)"
  by (simp_all add: is_ok_def)

lemma is_ok_iff: "is_ok m \<longleftrightarrow> (\<exists>x. m = Inr x)"
  by (cases m) simp_all

lemma not_is_ok_iff: "\<not> is_ok m \<longleftrightarrow> (\<exists>e. m = Inl e)"
  by (cases m) simp_all

text \<open>\<open>Option::is_some_and\<close>.\<close>

definition is_some_and :: "'a option \<Rightarrow> ('a \<Rightarrow> bool) \<Rightarrow> bool" where
  "is_some_and m P = (case m of None \<Rightarrow> False | Some x \<Rightarrow> P x)"

lemma is_some_and_simps [simp]: "\<not> is_some_and None P" "is_some_and (Some x) P = P x"
  by (simp_all add: is_some_and_def)

lemma is_some_and_iff: "is_some_and m P \<longleftrightarrow> (\<exists>x. m = Some x \<and> P x)"
  by (cases m) simp_all

section \<open>Early-exit loops over slices\<close>

text \<open>\<open>for x in xs { f(x)?; }\<close>: the first error leaves the loop.\<close>

fun try_each :: "('a \<Rightarrow> 'e + unit) \<Rightarrow> 'a list \<Rightarrow> 'e + unit" where
  "try_each f [] = Inr ()"
| "try_each f (x # xs) = and_then (f x) (\<lambda>_. try_each f xs)"

lemma try_each_eq_Inr [result_simps]:
  "try_each f xs = Inr u \<longleftrightarrow> (\<forall>x \<in> set xs. f x = Inr ())"
  by (induction xs) (auto simp: result_simps)

text \<open>\<open>for x in xs { match f(x)? { Some(y) => out.push(y), None => continue } }\<close>.\<close>

fun try_filter_map :: "('a \<Rightarrow> 'e + 'b option) \<Rightarrow> 'a list \<Rightarrow> 'e + 'b list" where
  "try_filter_map f [] = Inr []"
| "try_filter_map f (x # xs) =
     and_then (f x) (\<lambda>r. and_then (try_filter_map f xs) (\<lambda>ys.
       Inr (case r of None \<Rightarrow> ys | Some y \<Rightarrow> y # ys)))"

lemma try_filter_map_sound:
  "try_filter_map f xs = Inr ys \<Longrightarrow>
     (\<forall>y \<in> set ys. \<exists>x \<in> set xs. f x = Inr (Some y)) \<and>
     (\<forall>x \<in> set xs. \<exists>r. f x = Inr r \<and> (\<forall>y. r = Some y \<longrightarrow> y \<in> set ys))"
  by (induction xs arbitrary: ys) (force simp: result_simps split: option.splits)+

lemma try_filter_map_filter:
  assumes "try_filter_map f xs = Inr ys"
    and "\<And>x r. x \<in> set xs \<Longrightarrow> f x = Inr r \<Longrightarrow> r = (if P x then Some (g x) else None)"
  shows "ys = map g (filter P xs)"
  using assms
proof (induction xs arbitrary: ys)
  case (Cons x xs)
  obtain r zs where r: "f x = Inr r" "try_filter_map f xs = Inr zs"
    "ys = (case r of None \<Rightarrow> zs | Some y \<Rightarrow> y # zs)"
    using Cons.prems(1) by (auto simp: result_simps)
  have "zs = map g (filter P xs)" using Cons.IH [OF r(2)] Cons.prems(2) by simp
  with r Cons.prems(2) [of x r] show ?case by (auto split: if_splits)
qed simp

section \<open>Stable sorting by a comparator\<close>

text \<open>
  Rust's \<open>slice::sort_by\<close> is stable. For a comparator that is a total preorder its result is
  determined by the comparator, so insertion from the right, which keeps equal elements in their
  order, is that result. \<open>le x y\<close> is \<open>cmp(x, y) != Greater\<close>.
\<close>

fun insert_by :: "('a \<Rightarrow> 'a \<Rightarrow> bool) \<Rightarrow> 'a \<Rightarrow> 'a list \<Rightarrow> 'a list" where
  "insert_by le x [] = [x]"
| "insert_by le x (y # ys) = (if le x y then x # y # ys else y # insert_by le x ys)"

fun sort_by :: "('a \<Rightarrow> 'a \<Rightarrow> bool) \<Rightarrow> 'a list \<Rightarrow> 'a list" where
  "sort_by le [] = []"
| "sort_by le (x # xs) = insert_by le x (sort_by le xs)"

lemma mset_insert_by [simp]: "mset (insert_by le x ys) = add_mset x (mset ys)"
  by (induction ys) auto

lemma mset_sort_by [simp]: "mset (sort_by le xs) = mset xs"
  by (induction xs) auto

lemma set_insert_by [simp]: "set (insert_by le x ys) = insert x (set ys)"
  by (induction ys) auto

lemma set_sort_by [simp]: "set (sort_by le xs) = set xs"
  by (induction xs) auto

lemma length_sort_by [simp]: "length (sort_by le xs) = length xs"
  by (metis mset_sort_by size_mset)

lemma sort_by_eq_Nil [simp]: "sort_by le xs = [] \<longleftrightarrow> xs = []"
  by (metis length_0_conv length_sort_by)

text \<open>The contract of a comparator, and what sorting by it gives its clients.\<close>

locale comparator =
  fixes le :: "'a \<Rightarrow> 'a \<Rightarrow> bool"
  assumes le_total: "le x y \<or> le y x"
    and le_trans: "le x y \<Longrightarrow> le y z \<Longrightarrow> le x z"
begin

lemma le_refl: "le x x"
  using le_total [of x x] by simp

lemma sorted_insert_by: "sorted_wrt le ys \<Longrightarrow> sorted_wrt le (insert_by le x ys)"
proof (induction ys)
  case Nil
  then show ?case by simp
next
  case (Cons y ys)
  show ?case
  proof (cases "le x y")
    case True
    with Cons.prems show ?thesis by (auto intro: le_trans)
  next
    case False
    with le_total have "le y x" by blast
    with False Cons show ?thesis by auto
  qed
qed

lemma sorted_sort_by: "sorted_wrt le (sort_by le xs)"
  by (induction xs) (simp_all add: sorted_insert_by)

lemma hd_sort_by_least: "xs \<noteq> [] \<Longrightarrow> y \<in> set xs \<Longrightarrow> le (hd (sort_by le xs)) y"
  using sorted_sort_by [of xs] le_refl
  by (cases "sort_by le xs") (metis length_0_conv length_sort_by,
      metis list.sel(1) set_ConsD set_sort_by sorted_wrt.simps(2))

lemma sort_by_sorted: "sorted_wrt le xs \<Longrightarrow> sort_by le xs = xs"
proof (induction xs)
  case Nil
  then show ?case by simp
next
  case (Cons x xs)
  then have "sort_by le xs = xs" by simp
  with Cons.prems show ?case by (cases xs) auto
qed

lemma sort_by_unique:
  assumes strict: "\<And>x y. x \<in> set xs \<Longrightarrow> y \<in> set xs \<Longrightarrow> le x y \<Longrightarrow> le y x \<Longrightarrow> x = y"
    and perm: "mset ys = mset xs" and sorted: "sorted_wrt le ys"
  shows "ys = sort_by le xs"
proof -
  have *: "sorted_wrt le as \<Longrightarrow> sorted_wrt le bs \<Longrightarrow> mset as = mset bs \<Longrightarrow> set as \<subseteq> set xs \<Longrightarrow> as = bs"
    for as bs
  proof (induction as arbitrary: bs)
    case Nil
    then show ?case by simp
  next
    case (Cons a as)
    then obtain b bs' where bs: "bs = b # bs'" by (cases bs) auto
    from Cons.prems bs have ab: "a \<in> set bs" "b \<in> set (a # as)"
      by (metis list.set_intros(1) set_mset_mset)+
    with Cons.prems bs have "le a b" "le b a" by (auto intro: le_refl)
    with strict Cons.prems ab have "a = b" by auto
    with Cons.prems bs have "as = bs'" by (intro Cons.IH) auto
    with \<open>a = b\<close> bs show ?case by simp
  qed
  from perm have "set ys = set xs" by (metis set_mset_mset)
  with perm sorted show ?thesis by (intro * [OF sorted sorted_sort_by]) simp_all
qed

end

end
