(* ===== verification/MachInt.thy ===== *)
theory MachInt
  imports Prelude "HOL-Library.Word" "HOL-Library.Signed_Division"
begin

text \<open>
  Rust's fixed-width integers as words of their width. A signed type is read with \<open>sint\<close>, an
  unsigned one with \<open>unat\<close>; the comparisons of the code are comparisons of those readings. The
  checked operations compute the wrapped result and return it exactly when it is the true one,
  which the characterising lemmas turn into equations between readings.
\<close>

type_synonym i16 = "16 word"
type_synonym i32 = "32 word"
type_synonym i64 = "64 word"
type_synonym i128 = "128 word"
type_synonym u16 = "16 word"
type_synonym u32 = "32 word"
type_synonym u64 = "64 word"
type_synonym u128 = "128 word"

text \<open>
  Identifiers (\<open>Uuid\<close>) are 128-bit words, and an \<open>OffsetDateTime\<close> is its number of Unix
  nanoseconds, the quantity by which the code orders, subtracts and stores it.
\<close>

type_synonym Uuid = "128 word"
type_synonym OffsetDateTime = int

section \<open>Signed operations\<close>

definition s_checked_add :: "'a::len word \<Rightarrow> 'a word \<Rightarrow> 'a word option" where
  "s_checked_add a b = (let c = a + b in if sint c = sint a + sint b then Some c else None)"

definition s_checked_mul :: "'a::len word \<Rightarrow> 'a word \<Rightarrow> 'a word option" where
  "s_checked_mul a b = (let c = a * b in if sint c = sint a * sint b then Some c else None)"

text \<open>\<open>T::from\<close> between signed widths (sign extension) and \<open>T::try_from\<close>.\<close>

definition s_from :: "'a::len word \<Rightarrow> 'b::len word" where
  "s_from a = scast a"

definition s_try_from :: "'a::len word \<Rightarrow> 'b::len word option" where
  "s_try_from a = (let c = s_from a in if sint c = sint a then Some c else None)"

text \<open>Rust's \<open>/\<close> truncates towards zero; every divisor of the code is a non-zero constant.\<close>

definition s_div :: "'a::len word \<Rightarrow> 'a word \<Rightarrow> 'a word" where
  "s_div a b = word_of_int (sint a sdiv sint b)"

lemma sint_inject: "sint a = sint b \<longleftrightarrow> a = b"
  by (auto intro: signed_word_eqI)

lemma word_eq_sintI: "sint a = sint b \<Longrightarrow> a = b"
  by (simp add: sint_inject)

lemma of_int_sint_same: "sint c = v \<Longrightarrow> of_int v = (c :: 'a::len word)"
  by auto

lemma sint_bounds:
  fixes a :: "'a::len word"
  shows "- (2 ^ (LENGTH('a) - 1)) \<le> sint a" "sint a < 2 ^ (LENGTH('a) - 1)"
  using sint_ge [of a] sint_lt [of a] by auto

lemma i64_bounds: "- 9223372036854775808 \<le> sint (a :: i64)" "sint (a :: i64) \<le> 9223372036854775807"
  using sint_bounds [of a] by auto

lemma i32_bounds: "- 2147483648 \<le> sint (a :: i32)" "sint (a :: i32) \<le> 2147483647"
  using sint_bounds [of a] by auto

lemma i128_bounds:
  "- (2 ^ 127) \<le> sint (a :: i128)" "sint (a :: i128) < 2 ^ 127"
  using sint_bounds [of a] by auto

lemma sint_word_of_int_fits_iff:
  "sint (word_of_int v :: 'a word) = v \<longleftrightarrow>
     - (2 ^ (LENGTH('a::len) - 1)) \<le> v \<and> v < 2 ^ (LENGTH('a) - 1)"
  by (simp add: sint_sbintrunc' signed_take_bit_int_eq_self_iff)

lemma ex_sint_eq:
  "(\<exists>c :: 'a::len word. sint c = v) \<longleftrightarrow> - (2 ^ (LENGTH('a) - 1)) \<le> v \<and> v < 2 ^ (LENGTH('a) - 1)"
  by (metis sint_bounds sint_word_of_int_fits_iff)

lemma s_checked_add_Some [result_simps]:
  "s_checked_add a b = Some c \<longleftrightarrow> sint c = sint a + sint b"
proof
  assume c: "sint c = sint a + sint b"
  then have "of_int (sint a + sint b) = c" by (rule of_int_sint_same)
  then have "a + b = c" by simp
  with c show "s_checked_add a b = Some c" by (simp add: s_checked_add_def)
qed (auto simp: s_checked_add_def Let_def split: if_splits)

lemma s_checked_mul_Some [result_simps]:
  "s_checked_mul a b = Some c \<longleftrightarrow> sint c = sint a * sint b"
proof
  assume c: "sint c = sint a * sint b"
  then have "of_int (sint a * sint b) = c" by (rule of_int_sint_same)
  then have "a * b = c" by simp
  with c show "s_checked_mul a b = Some c" by (simp add: s_checked_mul_def)
qed (auto simp: s_checked_mul_def Let_def split: if_splits)

lemma s_try_from_Some [result_simps]:
  "s_try_from a = Some c \<longleftrightarrow> sint c = sint a"
proof
  assume c: "sint c = sint a"
  then have "of_int (sint a) = c" by (rule of_int_sint_same)
  then have "scast a = c" by simp
  with c show "s_try_from a = Some c" by (simp add: s_try_from_def s_from_def)
qed (auto simp: s_try_from_def Let_def split: if_splits)

lemma s_checked_add_None:
  fixes a b :: "'a::len word"
  shows "s_checked_add a b = None \<longleftrightarrow>
     \<not> (- (2 ^ (LENGTH('a) - 1)) \<le> sint a + sint b \<and> sint a + sint b < 2 ^ (LENGTH('a) - 1))"
  unfolding ex_sint_eq [where 'a = 'a, symmetric] s_checked_add_Some [symmetric] by simp

lemma s_checked_mul_None:
  fixes a b :: "'a::len word"
  shows "s_checked_mul a b = None \<longleftrightarrow>
     \<not> (- (2 ^ (LENGTH('a) - 1)) \<le> sint a * sint b \<and> sint a * sint b < 2 ^ (LENGTH('a) - 1))"
  unfolding ex_sint_eq [where 'a = 'a, symmetric] s_checked_mul_Some [symmetric] by simp

lemma s_try_from_None:
  "(s_try_from a :: 'b::len word option) = None \<longleftrightarrow>
     \<not> (- (2 ^ (LENGTH('b) - 1)) \<le> sint a \<and> sint a < 2 ^ (LENGTH('b) - 1))"
  unfolding ex_sint_eq [where 'a = 'b, symmetric] s_try_from_Some [symmetric] by simp

lemma sint_s_from_wider:
  fixes a :: "'a::len word"
  assumes "LENGTH('a) \<le> LENGTH('b::len)"
  shows "sint (s_from a :: 'b word) = sint a"
proof -
  have "(2::int) ^ (LENGTH('a) - 1) \<le> 2 ^ (LENGTH('b) - 1)"
    using assms by (intro power_increasing) auto
  then have "\<exists>c :: 'b word. sint c = sint a"
    using sint_bounds [of a] by (intro ex_sint_eq [THEN iffD2]) linarith
  then obtain c :: "'b word" where c: "sint c = sint a" ..
  then have "of_int (sint a) = c" by (rule of_int_sint_same)
  then have "scast a = c" by simp
  with c show ?thesis by (simp add: s_from_def)
qed

lemma sint_i128_from_i64 [simp]: "sint (s_from (a :: i64) :: i128) = sint a"
  by (simp add: sint_s_from_wider)

lemma sint_i64_from_i32 [simp]: "sint (s_from (a :: i32) :: i64) = sint a"
  by (simp add: sint_s_from_wider)

lemma unat_u64_less: "unat (n :: u64) < 18446744073709551616"
proof -
  have "unat n < 2 ^ LENGTH(64)" by (rule unsigned_less)
  then show ?thesis by simp
qed

lemma unat_u32_less: "unat (n :: u32) < 4294967296"
proof -
  have "unat n < 2 ^ LENGTH(32)" by (rule unsigned_less)
  then show ?thesis by simp
qed

lemma unat_u16_less: "unat (n :: u16) < 65536"
proof -
  have "unat n < 2 ^ LENGTH(16)" by (rule unsigned_less)
  then show ?thesis by simp
qed

text \<open>Two 64-bit operands never leave 128 bits: the widened steps of the code cannot fail.\<close>

lemma abs_i64_le: "\<bar>sint (a :: i64)\<bar> \<le> 2 ^ 63"
  using i64_bounds [of a] by auto

lemma i64_product_bound: "\<bar>sint (a :: i64) * sint (b :: i64)\<bar> \<le> 2 ^ 126"
proof -
  have "\<bar>sint a\<bar> * \<bar>sint b\<bar> \<le> 2 ^ 63 * 2 ^ 63"
    by (rule mult_mono) (use abs_i64_le [of a] abs_i64_le [of b] in auto)
  then show ?thesis by (simp add: abs_mult)
qed

lemma i128_mul_of_i64:
  "\<exists>p. s_checked_mul (s_from (a :: i64) :: i128) (s_from (b :: i64)) = Some p \<and> sint p = sint a * sint b"
  using i64_product_bound [of a b] by (simp add: s_checked_mul_Some ex_sint_eq abs_le_iff)

lemma i128_add_of_i64:
  "\<exists>p. s_checked_add (s_from (a :: i64) :: i128) (s_from (b :: i64)) = Some p \<and> sint p = sint a + sint b"
  using i64_bounds [of a] i64_bounds [of b] by (simp add: s_checked_add_Some ex_sint_eq)

lemma sdiv_nonneg [simp]: "0 \<le> a \<Longrightarrow> 0 \<le> b \<Longrightarrow> a sdiv b = a div (b :: int)"
  by (cases "b = 0") (simp_all add: signed_divide_int_def sgn_if)

lemma zdiv_le_dividend_nonneg: "0 \<le> a \<Longrightarrow> 0 < b \<Longrightarrow> a div b \<le> (a :: int)"
  using zdiv_mono2 [of a 1 b] by simp

lemma sint_s_div_nonneg:
  fixes a b :: "'a::len word"
  assumes "0 \<le> sint a" "0 < sint b"
  shows "sint (s_div a b) = sint a div sint b"
proof -
  have "sint a div sint b \<le> sint a" "0 \<le> sint a div sint b"
    using assms by (simp_all add: pos_imp_zdiv_nonneg_iff zdiv_le_dividend_nonneg)
  then show ?thesis
    using assms sint_bounds [of a] by (simp add: s_div_def sint_word_of_int_fits_iff)
qed

end
