(* ===== verification/Fixed.thy ===== *)
theory Fixed
  imports MachInt
begin

text \<open>
  \<open>crates/mindone-accounting/src/lib.rs\<close> (the error type) and \<open>fixed.rs\<close>: the amount type
  \<open>MicroQuota\<close>, the two multiplier tables, and \<open>Settlement::calculate\<close> with its directed
  roundings. The texts of error messages are replaced by short English keys that name the failing
  check; constructors and payload numbers are the code's.

  The lemmas give each operation its exact meaning on integers (\<open>micro\<close> reads an amount), and the
  locale \<open>checked_amount\<close> states what the accounts of the other components rely on.
\<close>

section \<open>Errors\<close>

datatype AccountingError =
    NegativeAmount string
  | Overflow string
  | InsufficientBalance i64 i64
  | InvalidLedger string
  | InvalidScore string
  | InvalidRouting string
  | NoEligibleModel
  | NoEligibleNode
  | InvalidTierPolicy string
  | InvalidGlicko2 string
  | InvalidPolicy string
  | InvalidReserveRelease string
  | InvalidBilling string

type_synonym 'a acct = "AccountingError + 'a"

section \<open>MicroQuota\<close>

datatype MicroQuota = MicroQuota (as_i64: i64)

definition MicroQuota_new :: "i64 \<Rightarrow> MicroQuota acct" where
  "MicroQuota_new value =
     (if sint value < 0 then Inl (NegativeAmount ''microquota'') else Inr (MicroQuota value))"

definition MicroQuota_zero :: MicroQuota where
  "MicroQuota_zero = MicroQuota 0"

definition mq_checked_add :: "MicroQuota \<Rightarrow> MicroQuota \<Rightarrow> MicroQuota acct" where
  "mq_checked_add self other =
     and_then (ok_or (s_checked_add (as_i64 self) (as_i64 other)) (Overflow ''microquota addition''))
       MicroQuota_new"

definition mq_checked_sub :: "MicroQuota \<Rightarrow> MicroQuota \<Rightarrow> MicroQuota acct" where
  "mq_checked_sub self other =
     (if sint (as_i64 other) > sint (as_i64 self)
      then Inl (InsufficientBalance (as_i64 other) (as_i64 self))
      else MicroQuota_new (as_i64 self - as_i64 other))"

text \<open>The integer an amount stands for, and the range the constructor guarantees.\<close>

definition micro :: "MicroQuota \<Rightarrow> int" where
  "micro m = sint (as_i64 m)"

definition mq_ok :: "MicroQuota \<Rightarrow> bool" where
  "mq_ok m \<longleftrightarrow> 0 \<le> micro m"

lemma micro_simps [simp]: "micro (MicroQuota v) = sint v" "micro MicroQuota_zero = 0"
  by (simp_all add: micro_def MicroQuota_zero_def)

lemma micro_inject: "micro a = micro b \<longleftrightarrow> a = b"
  by (cases a; cases b) (simp add: sint_inject)

lemma micro_eq_0: "micro m = 0 \<longleftrightarrow> m = MicroQuota_zero"
  by (metis micro_inject micro_simps(2))

lemma micro_bounds: "- 9223372036854775808 \<le> micro m" "micro m \<le> 9223372036854775807"
  using i64_bounds [of "as_i64 m"] by (simp_all add: micro_def)

lemma mq_ok_zero [simp]: "mq_ok MicroQuota_zero"
  by (simp add: mq_ok_def)

lemma MicroQuota_new_eq_Inr [result_simps]:
  "MicroQuota_new v = Inr m \<longleftrightarrow> 0 \<le> sint v \<and> m = MicroQuota v"
  by (auto simp: MicroQuota_new_def)

lemma MicroQuota_new_nonneg [simp]: "0 \<le> sint v \<Longrightarrow> MicroQuota_new v = Inr (MicroQuota v)"
  by (simp add: MicroQuota_new_def)

lemma mq_checked_add_eq_Inr [result_simps]:
  "mq_checked_add a b = Inr c \<longleftrightarrow> micro c = micro a + micro b \<and> 0 \<le> micro c"
  by (cases a; cases b; cases c) (auto simp: mq_checked_add_def result_simps)

lemma sint_diff_i64:
  "0 \<le> sint b \<Longrightarrow> sint b \<le> sint a \<Longrightarrow> sint (a - b :: i64) = sint a - sint b"
proof -
  assume "0 \<le> sint b" "sint b \<le> sint a"
  then have "\<exists>c :: i64. sint c = sint a - sint b"
    using i64_bounds [of a] by (simp add: ex_sint_eq)
  then obtain c :: i64 where c: "sint c = sint a - sint b" ..
  then have "of_int (sint a - sint b) = c" by (rule of_int_sint_same)
  then have "a - b = c" by simp
  with c show ?thesis by simp
qed

lemma mq_checked_sub_eq_Inr [result_simps]:
  "mq_ok b \<Longrightarrow> mq_checked_sub a b = Inr c \<longleftrightarrow> micro b \<le> micro a \<and> micro c = micro a - micro b"
  by (cases a; cases b; cases c)
     (auto simp: mq_checked_sub_def mq_ok_def result_simps sint_diff_i64 intro: word_eq_sintI)

lemma mq_checked_sub_eq_Inl:
  "mq_ok b \<Longrightarrow> mq_checked_sub a b = Inl e \<longleftrightarrow>
     micro a < micro b \<and> e = InsufficientBalance (as_i64 b) (as_i64 a)"
  by (cases a; cases b) (auto simp: mq_checked_sub_def mq_ok_def MicroQuota_new_def sint_diff_i64)

text \<open>
  What an account needs of its amounts: a zero, a checked addition that is exact or fails, and a
  checked subtraction that is exact and fails precisely when the balance is too small.
\<close>

locale checked_amount =
  fixes zero :: 'm
    and add :: "'m \<Rightarrow> 'm \<Rightarrow> 'e + 'm"
    and sub :: "'m \<Rightarrow> 'm \<Rightarrow> 'e + 'm"
    and val :: "'m \<Rightarrow> int"
    and ok :: "'m \<Rightarrow> bool"
  assumes val_zero: "val zero = 0"
    and ok_zero: "ok zero"
    and ok_nonneg: "ok a \<Longrightarrow> 0 \<le> val a"
    and add_exact: "ok a \<Longrightarrow> ok b \<Longrightarrow> add a b = Inr c \<Longrightarrow> ok c \<and> val c = val a + val b"
    and sub_exact: "ok a \<Longrightarrow> ok b \<Longrightarrow> sub a b = Inr c \<Longrightarrow> ok c \<and> val c = val a - val b"
    and sub_total: "ok a \<Longrightarrow> ok b \<Longrightarrow> (\<exists>c. sub a b = Inr c) \<longleftrightarrow> val b \<le> val a"
begin

lemma sub_then_le: "ok a \<Longrightarrow> ok b \<Longrightarrow> sub a b = Inr c \<Longrightarrow> val b \<le> val a"
  using sub_total by blast

lemma sub_fails_iff: "ok a \<Longrightarrow> ok b \<Longrightarrow> (\<exists>e. sub a b = Inl e) \<longleftrightarrow> val a < val b"
  using sub_total [of a b] by (cases "sub a b") auto

lemma add_three_exact:
  assumes "ok a" "ok b" "ok c" and "and_then (add a b) (\<lambda>d. add d c) = Inr r"
  shows "ok r \<and> val r = val a + val b + val c"
proof -
  from assms(4) obtain d where d: "add a b = Inr d" "add d c = Inr r"
    by (auto simp: result_simps)
  have "ok d \<and> val d = val a + val b" by (rule add_exact) (use assms d in auto)
  moreover from this have "ok r \<and> val r = val d + val c" by (intro add_exact) (use assms d in auto)
  ultimately show ?thesis by simp
qed

text \<open>An account with totals: crediting and debiting keep \<open>balance = inflow - outflow\<close>.\<close>

lemma credit_keeps:
  assumes "ok b" "ok i" "ok x" "add b x = Inr b'" "add i x = Inr i'" "val b = val i - val out"
  shows "val b' = val i' - val out"
  using assms add_exact [of b x b'] add_exact [of i x i'] by simp

lemma debit_keeps:
  assumes "ok b" "ok out" "ok x" "sub b x = Inr b'" "add out x = Inr out'" "val b = val i - val out"
  shows "val b' = val i - val out' \<and> val out' \<le> val i"
  using assms add_exact [of out x out'] sub_exact [of b x b'] ok_nonneg [of b'] by auto

end

interpretation mq: checked_amount MicroQuota_zero mq_checked_add mq_checked_sub micro mq_ok
proof
  fix a b
  assume "mq_ok a" "mq_ok b"
  then show "(\<exists>c. mq_checked_sub a b = Inr c) \<longleftrightarrow> micro b \<le> micro a"
    by (cases "mq_checked_sub a b") (auto simp: mq_checked_sub_eq_Inl mq_checked_sub_eq_Inr)
qed (auto simp: result_simps mq_ok_def)

section \<open>Multipliers\<close>

datatype PerformanceTier = High | Medium | Low

fun tier_multiplier_milli :: "PerformanceTier \<Rightarrow> i64" where
  "tier_multiplier_milli High = 1500"
| "tier_multiplier_milli Medium = 1000"
| "tier_multiplier_milli Low = 700"

datatype TrustClass = Enhanced | Standard | Unverified

fun trust_multiplier_milli :: "TrustClass \<Rightarrow> i64" where
  "trust_multiplier_milli Enhanced = 1100"
| "trust_multiplier_milli Standard = 1000"
| "trust_multiplier_milli Unverified = 500"

definition tier_milli :: "PerformanceTier \<Rightarrow> int" where
  "tier_milli t = (case t of High \<Rightarrow> 1500 | Medium \<Rightarrow> 1000 | Low \<Rightarrow> 700)"

definition trust_milli :: "TrustClass \<Rightarrow> int" where
  "trust_milli t = (case t of Enhanced \<Rightarrow> 1100 | Standard \<Rightarrow> 1000 | Unverified \<Rightarrow> 500)"

lemma sint_tier_multiplier [simp]: "sint (tier_multiplier_milli t) = tier_milli t"
  by (cases t) (simp_all add: tier_milli_def)

lemma sint_trust_multiplier [simp]: "sint (trust_multiplier_milli t) = trust_milli t"
  by (cases t) (simp_all add: trust_milli_def)

lemma tier_milli_bounds: "700 \<le> tier_milli t" "tier_milli t \<le> 1500"
  by (cases t; simp add: tier_milli_def)+

lemma trust_milli_bounds: "500 \<le> trust_milli t" "trust_milli t \<le> 1100"
  by (cases t; simp add: trust_milli_def)+

section \<open>Directed rounding in 128 bits\<close>

definition MULTIPLIER_SCALE :: i128 where
  "MULTIPLIER_SCALE = 1000"

definition MICROQUOTA_PER_QUOTA :: i64 where
  "MICROQUOTA_PER_QUOTA = 1000000"

definition mul_ratio_ceil :: "i64 \<Rightarrow> i64 \<Rightarrow> i128 \<Rightarrow> string \<Rightarrow> i64 acct" where
  "mul_ratio_ceil value numerator denominator operation =
     and_then (ok_or (s_checked_mul (s_from value) (s_from numerator)) (Overflow operation)) (\<lambda>product.
     and_then (ok_or (s_checked_add product (denominator - 1)) (Overflow operation)) (\<lambda>adjusted.
     ok_or (s_try_from (s_div adjusted denominator)) (Overflow operation)))"

definition mul_two_ratios_floor :: "i64 \<Rightarrow> i64 \<Rightarrow> i64 \<Rightarrow> string \<Rightarrow> i64 acct" where
  "mul_two_ratios_floor value first_milli second_milli operation =
     and_then (ok_or (Option.bind (s_checked_mul (s_from value) (s_from first_milli))
        (\<lambda>current. s_checked_mul current (s_from second_milli))) (Overflow operation)) (\<lambda>product :: i128.
     ok_or (s_try_from (s_div product (MULTIPLIER_SCALE * MULTIPLIER_SCALE))) (Overflow operation))"

text \<open>The least integer not below \<open>a / d\<close>.\<close>

definition ceil_div :: "int \<Rightarrow> int \<Rightarrow> int" where
  "ceil_div a d = (a + d - 1) div d"

lemma ceil_div_least: "0 < d \<Longrightarrow> ceil_div a d \<le> n \<longleftrightarrow> a \<le> n * d"
proof -
  assume d: "0 < d"
  define q r where "q = (a + d - 1) div d" and "r = (a + d - 1) mod d"
  have eq: "a + d - 1 = q * d + r" "0 \<le> r" "r < d" using d by (simp_all add: q_def r_def)
  have cq: "ceil_div a d = q" by (simp add: ceil_div_def q_def)
  have "a \<le> n * d" if "ceil_div a d \<le> n"
  proof -
    have "q * d \<le> n * d" using that d by (intro mult_right_mono) (auto simp: cq)
    with eq show ?thesis by linarith
  qed
  moreover have "ceil_div a d \<le> n" if "a \<le> n * d"
  proof (rule ccontr)
    assume "\<not> ceil_div a d \<le> n"
    then have "(n + 1) * d \<le> q * d" using d by (intro mult_right_mono) (auto simp: cq)
    with that eq show False by (simp add: algebra_simps)
  qed
  ultimately show ?thesis by blast
qed

lemma ceil_div_nonneg: "0 < d \<Longrightarrow> 0 \<le> a \<Longrightarrow> 0 \<le> ceil_div a d"
  by (simp add: ceil_div_def pos_imp_zdiv_nonneg_iff)

lemma ceil_div_mono: "0 < d \<Longrightarrow> a \<le> b \<Longrightarrow> ceil_div a d \<le> ceil_div b d"
  by (simp add: ceil_div_def zdiv_mono1)

lemma ceil_div_ge: "0 < d \<Longrightarrow> a \<le> ceil_div a d * d"
  using ceil_div_least [of d a "ceil_div a d"] by simp

lemma ceil_div_pos: "0 < d \<Longrightarrow> 0 < a \<Longrightarrow> 0 < ceil_div a d"
  using ceil_div_least [of d a 0] by (simp add: not_le [symmetric])

lemma ceil_div_real: "0 < d \<Longrightarrow> ceil_div a d = \<lceil>of_int a / (of_int d :: real)\<rceil>"
proof (rule ceiling_unique [symmetric])
  assume d: "0 < d"
  have "a \<le> ceil_div a d * d" using d by (rule ceil_div_ge)
  then have "(of_int a :: real) \<le> of_int (ceil_div a d) * of_int d" by (metis of_int_le_iff of_int_mult)
  with d show "of_int a / (of_int d :: real) \<le> of_int (ceil_div a d)"
    by (simp add: divide_le_eq)
  have "(ceil_div a d - 1) * d < a" using ceil_div_least [OF d, of a "ceil_div a d - 1"] by simp
  then have "(of_int (ceil_div a d) - 1) * of_int d < (of_int a :: real)"
    by (metis of_int_1 of_int_diff of_int_less_iff of_int_mult)
  with d show "of_int (ceil_div a d) - 1 < of_int a / (of_int d :: real)"
    by (simp add: less_divide_eq)
qed

lemma sint_pred: "0 < sint d \<Longrightarrow> sint (d - 1 :: i128) = sint d - 1"
proof -
  assume "0 < sint d"
  then have "\<exists>c :: i128. sint c = sint d - 1"
    using i128_bounds [of d] by (simp add: ex_sint_eq)
  then obtain c :: i128 where c: "sint c = sint d - 1" ..
  then have "of_int (sint d - 1) = c" by (rule of_int_sint_same)
  then have "d - 1 = c" by simp
  with c show ?thesis by simp
qed

lemma ok_or_total: "ok_or m e = (case m of None \<Rightarrow> Inl e | Some x \<Rightarrow> Inr x)"
  by (rule ok_or_def)

text \<open>The quotient step: exact when it fits 64 bits, an overflow otherwise.\<close>

lemma i64_of_quotient:
  assumes "0 \<le> sint (p :: i128)" "0 < sint d"
  shows "s_try_from (s_div p d) = Some (r :: i64) \<longleftrightarrow> sint r = sint p div sint d"
  using assms by (simp add: s_try_from_Some sint_s_div_nonneg)

lemma mul_ratio_ceil_eq_Inr:
  assumes v: "0 \<le> sint v" and n: "0 \<le> sint n" and d: "0 < sint d" "sint d \<le> 2 ^ 64"
  shows "mul_ratio_ceil v n d op = Inr r \<longleftrightarrow> sint r = ceil_div (sint v * sint n) (sint d)"
proof -
  obtain p :: i128 where p: "s_checked_mul (s_from v) (s_from n) = Some p" "sint p = sint v * sint n"
    using i128_mul_of_i64 [of v n] by blast
  have pb: "0 \<le> sint p" "sint p \<le> 2 ^ 126"
    using v n i64_product_bound [of v n] by (simp_all add: p)
  then have "\<exists>q :: i128. sint q = sint p + sint (d - 1)"
    using d by (simp add: ex_sint_eq sint_pred)
  then obtain q :: i128 where q: "sint q = sint p + (sint d - 1)" using d by (auto simp: sint_pred)
  have "s_checked_add p (d - 1) = Some q" using q d by (simp add: s_checked_add_Some sint_pred)
  moreover have "0 \<le> sint q" using q pb d by simp
  ultimately show ?thesis
    using p q d by (simp add: mul_ratio_ceil_def ok_or_eq_Inr i64_of_quotient ceil_div_def add_diff_eq)
qed

lemma mul_ratio_ceil_cases:
  assumes "0 \<le> sint v" "0 \<le> sint n" "0 < sint d" "sint d \<le> 2 ^ 64"
  shows "(\<exists>r. mul_ratio_ceil v n d op = Inr r) \<longleftrightarrow> ceil_div (sint v * sint n) (sint d) < 2 ^ 63"
    and "mul_ratio_ceil v n d op = Inl e \<Longrightarrow> e = Overflow op"
proof -
  have "0 \<le> ceil_div (sint v * sint n) (sint d)"
    using assms by (intro ceil_div_nonneg) simp_all
  then show "(\<exists>r. mul_ratio_ceil v n d op = Inr r) \<longleftrightarrow> ceil_div (sint v * sint n) (sint d) < 2 ^ 63"
    using assms by (simp add: mul_ratio_ceil_eq_Inr ex_sint_eq)
  show "mul_ratio_ceil v n d op = Inl e \<Longrightarrow> e = Overflow op"
    by (auto simp: mul_ratio_ceil_def and_then_eq_Inl ok_or_eq_Inl)
qed

lemma mul_two_ratios_floor_eq_Inr:
  assumes v: "0 \<le> sint v" and a: "0 \<le> sint a" "sint a \<le> 4096" and b: "0 \<le> sint b" "sint b \<le> 4096"
  shows "mul_two_ratios_floor v a b op = Inr r \<longleftrightarrow> sint r = sint v * sint a * sint b div 1000000"
proof -
  obtain p :: i128 where p: "s_checked_mul (s_from v) (s_from a) = Some p" "sint p = sint v * sint a"
    using i128_mul_of_i64 [of v a] by blast
  have va: "sint v * sint a \<le> 2 ^ 63 * 4096"
    using v a i64_bounds [of v] by (intro mult_mono) auto
  have "sint v * sint a * sint b \<le> 2 ^ 63 * 4096 * 4096"
    by (rule mult_mono [OF va]) (use v a b in auto)
  moreover have nn: "0 \<le> sint v * sint a * sint b" using v a b by simp
  ultimately have "\<exists>q :: i128. sint q = sint p * sint b"
    by (simp add: ex_sint_eq p)
  then obtain q :: i128 where q: "sint q = sint p * sint b" ..
  have "s_checked_mul p (s_from b) = Some q" using q by (simp add: s_checked_mul_Some)
  with p q nn show ?thesis
    by (simp add: mul_two_ratios_floor_def ok_or_eq_Inr i64_of_quotient MULTIPLIER_SCALE_def)
qed

lemma mul_two_ratios_floor_Inl: "mul_two_ratios_floor v a b op = Inl e \<Longrightarrow> e = Overflow op"
  by (auto simp: mul_two_ratios_floor_def and_then_eq_Inl ok_or_eq_Inl)

section \<open>Settlement\<close>

record Settlement =
  base_cost :: MicroQuota
  user_deduction :: MicroQuota
  node_spendable_quota :: MicroQuota
  node_contribution_points :: MicroQuota
  reserve_inflow :: MicroQuota
  performance_tier :: PerformanceTier
  trust_class :: TrustClass

definition Settlement_calculate ::
    "MicroQuota \<Rightarrow> PerformanceTier \<Rightarrow> TrustClass \<Rightarrow> Settlement acct" where
  "Settlement_calculate base tier trust =
     and_then (mul_ratio_ceil (as_i64 base) (tier_multiplier_milli tier) MULTIPLIER_SCALE
       ''user deduction'') (\<lambda>deduction_raw.
     and_then (MicroQuota_new deduction_raw) (\<lambda>user_ded.
     and_then (mul_two_ratios_floor (as_i64 user_ded) 800 (trust_multiplier_milli trust)
       ''node spendable quota'') (\<lambda>quota_raw.
     and_then (MicroQuota_new quota_raw) (\<lambda>node_quota.
     and_then (mul_two_ratios_floor (as_i64 user_ded) 1200 (trust_multiplier_milli trust)
       ''node contribution'') (\<lambda>contribution_raw.
     and_then (MicroQuota_new contribution_raw) (\<lambda>contribution.
     and_then (mq_checked_sub user_ded node_quota) (\<lambda>inflow.
     Inr \<lparr>base_cost = base, user_deduction = user_ded, node_spendable_quota = node_quota,
          node_contribution_points = contribution, reserve_inflow = inflow,
          performance_tier = tier, trust_class = trust\<rparr>)))))))"

text \<open>The amounts the settlement contract promises, on integers.\<close>

definition spec_deduction :: "int \<Rightarrow> PerformanceTier \<Rightarrow> int" where
  "spec_deduction base tier = ceil_div (base * tier_milli tier) 1000"

definition spec_share :: "int \<Rightarrow> int \<Rightarrow> TrustClass \<Rightarrow> int" where
  "spec_share deduction permille trust = deduction * permille * trust_milli trust div 1000000"

lemma spec_deduction_nonneg: "0 \<le> base \<Longrightarrow> 0 \<le> spec_deduction base tier"
  using tier_milli_bounds [of tier] by (simp add: spec_deduction_def ceil_div_nonneg)

lemma spec_share_nonneg: "0 \<le> d \<Longrightarrow> 0 \<le> k \<Longrightarrow> 0 \<le> spec_share d k trust"
  using trust_milli_bounds [of trust] by (simp add: spec_share_def pos_imp_zdiv_nonneg_iff)

lemma spec_deduction_mono:
  "0 \<le> b \<Longrightarrow> b \<le> b' \<Longrightarrow> tier_milli t \<le> tier_milli t' \<Longrightarrow> spec_deduction b t \<le> spec_deduction b' t'"
  using tier_milli_bounds [of t]
  by (auto simp: spec_deduction_def intro!: ceil_div_mono mult_mono)

lemma spec_share_mono:
  "0 \<le> d \<Longrightarrow> d \<le> d' \<Longrightarrow> 0 \<le> k \<Longrightarrow> trust_milli c \<le> trust_milli c' \<Longrightarrow> spec_share d k c \<le> spec_share d' k c'"
  using trust_milli_bounds [of c]
  by (auto simp: spec_share_def intro!: zdiv_mono1 mult_mono)

text \<open>At most 88 percent of a deduction reaches the node's spendable quota.\<close>

lemma spec_share_quota_le: "0 \<le> d \<Longrightarrow> spec_share d 800 trust * 100 \<le> d * 88"
proof -
  assume d: "0 \<le> d"
  have "d * 800 * trust_milli trust \<le> d * 800 * 1100"
    using d trust_milli_bounds [of trust] by (intro mult_left_mono) auto
  moreover have "spec_share d 800 trust * 1000000 \<le> d * 800 * trust_milli trust"
    by (simp add: spec_share_def)
  ultimately show ?thesis by linarith
qed

lemma Settlement_calculate_eq_Inr:
  assumes base: "mq_ok base"
  shows "Settlement_calculate base tier trust = Inr s \<longleftrightarrow>
    base_cost s = base \<and> performance_tier s = tier \<and> trust_class s = trust \<and>
    micro (user_deduction s) = spec_deduction (micro base) tier \<and>
    micro (node_spendable_quota s) = spec_share (micro (user_deduction s)) 800 trust \<and>
    micro (node_contribution_points s) = spec_share (micro (user_deduction s)) 1200 trust \<and>
    micro (reserve_inflow s) = micro (user_deduction s) - micro (node_spendable_quota s)"
    (is "?lhs = ?rhs")
proof -
  have b: "0 \<le> sint (as_i64 base)" using base by (simp add: mq_ok_def micro_def)
  have ded: "mul_ratio_ceil (as_i64 base) (tier_multiplier_milli tier) MULTIPLIER_SCALE op = Inr r \<longleftrightarrow>
      sint r = spec_deduction (micro base) tier" for op r
    using b tier_milli_bounds [of tier]
    by (simp add: mul_ratio_ceil_eq_Inr spec_deduction_def MULTIPLIER_SCALE_def micro_def)
  have share: "mul_two_ratios_floor v k (trust_multiplier_milli trust) op = Inr r \<longleftrightarrow>
      sint r = spec_share (sint v) (sint k) trust"
    if "0 \<le> sint v" "0 \<le> sint k" "sint k \<le> 4096" for v k op r
    using that trust_milli_bounds [of trust] by (simp add: mul_two_ratios_floor_eq_Inr spec_share_def)
  show ?thesis
  proof
    assume ?lhs
    then show ?rhs
      using b base spec_share_nonneg
      by (auto simp: Settlement_calculate_def result_simps ded share mq_ok_def)
  next
    assume rhs: ?rhs
    obtain u q c i where parts: "user_deduction s = MicroQuota u" "node_spendable_quota s = MicroQuota q"
      "node_contribution_points s = MicroQuota c" "reserve_inflow s = MicroQuota i"
      by (meson MicroQuota.exhaust)
    have u: "0 \<le> sint u" using rhs parts base by (simp add: mq_ok_def spec_deduction_nonneg)
    have q: "0 \<le> sint q" "sint q \<le> sint u" "0 \<le> sint c"
      using rhs parts u spec_share_nonneg [OF u, of 800 trust] spec_share_nonneg [OF u, of 1200 trust]
        spec_share_quota_le [OF u, of trust] by auto
    have sub: "mq_checked_sub (MicroQuota u) (MicroQuota q) = Inr (MicroQuota i)"
      using rhs parts q by (simp add: mq_checked_sub_eq_Inr mq_ok_def)
    have "mul_ratio_ceil (as_i64 base) (tier_multiplier_milli tier) MULTIPLIER_SCALE op = Inr u" for op
      using rhs parts by (simp add: ded)
    moreover have "mul_two_ratios_floor u 800 (trust_multiplier_milli trust) op = Inr q" for op
      using rhs parts u by (simp add: share)
    moreover have "mul_two_ratios_floor u 1200 (trust_multiplier_milli trust) op = Inr c" for op
      using rhs parts u by (simp add: share)
    ultimately show ?lhs
      using rhs parts u q sub by (cases s) (simp add: Settlement_calculate_def)
  qed
qed

lemma micro_surj: "0 \<le> v \<Longrightarrow> v < 2 ^ 63 \<Longrightarrow> \<exists>m. micro m = v"
proof -
  assume "0 \<le> v" "v < 2 ^ 63"
  then have "\<exists>w :: i64. sint w = v" by (simp add: ex_sint_eq)
  then obtain w :: i64 where "sint w = v" ..
  then have "micro (MicroQuota w) = v" by simp
  then show ?thesis ..
qed

lemma Settlement_calculate_ok_iff:
  assumes "mq_ok base"
  shows "(\<exists>s. Settlement_calculate base tier trust = Inr s) \<longleftrightarrow>
      spec_deduction (micro base) tier < 2 ^ 63 \<and>
      spec_share (spec_deduction (micro base) tier) 1200 trust < 2 ^ 63" (is "?ok \<longleftrightarrow> ?fits")
proof
  let ?d = "spec_deduction (micro base) tier"
  have d0: "0 \<le> ?d" using assms by (simp add: mq_ok_def spec_deduction_nonneg)
  note nn = spec_share_nonneg [OF d0, of _ trust] and le = spec_share_quota_le [OF d0, of trust]
  show ?fits if ?ok
  proof -
    from that obtain s where "Settlement_calculate base tier trust = Inr s" ..
    then show ?thesis
      using assms micro_bounds [of "user_deduction s"] micro_bounds [of "node_contribution_points s"]
      by (simp add: Settlement_calculate_eq_Inr)
  qed
  show ?ok if fits: ?fits
  proof -
    obtain u where u: "micro u = ?d" using micro_surj [of ?d] d0 fits by blast
    obtain c where c: "micro c = spec_share ?d 1200 trust" using micro_surj nn [of 1200] fits by force
    obtain q where q: "micro q = spec_share ?d 800 trust"
      using micro_surj [of "spec_share ?d 800 trust"] nn [of 800] le fits d0 by force
    obtain i where i: "micro i = ?d - spec_share ?d 800 trust"
      using micro_surj [of "?d - spec_share ?d 800 trust"] nn [of 800] le fits d0 by force
    show ?thesis
      using assms u c q i by (auto simp: Settlement_calculate_eq_Inr intro!: exI [of _ "\<lparr>base_cost = base,
        user_deduction = u, node_spendable_quota = q, node_contribution_points = c,
        reserve_inflow = i, performance_tier = tier, trust_class = trust\<rparr>"])
  qed
qed

lemma Settlement_calculate_error:
  assumes base: "mq_ok base" and err: "Settlement_calculate base tier trust = Inl e"
  shows "\<exists>operation. e = Overflow operation"
proof -
  have b: "0 \<le> sint (as_i64 base)" using base by (simp add: mq_ok_def micro_def)
  have ded: "0 \<le> sint r"
    if "mul_ratio_ceil (as_i64 base) (tier_multiplier_milli tier) MULTIPLIER_SCALE op = Inr r" for op r
    using that b tier_milli_bounds [of tier] base
    by (simp add: mul_ratio_ceil_eq_Inr MULTIPLIER_SCALE_def ceil_div_nonneg)
  have share: "sint r = spec_share (sint v) (sint k) trust"
    if "mul_two_ratios_floor v k (trust_multiplier_milli trust) op = Inr r"
      "0 \<le> sint v" "0 \<le> sint k" "sint k \<le> 4096" for v k op r
    using that trust_milli_bounds [of trust] by (simp add: mul_two_ratios_floor_eq_Inr spec_share_def)
  show ?thesis
  proof (cases "mul_ratio_ceil (as_i64 base) (tier_multiplier_milli tier) MULTIPLIER_SCALE ''user deduction''")
    case (Inl f)
    with err show ?thesis
      by (auto simp: Settlement_calculate_def mul_ratio_ceil_def and_then_eq_Inl ok_or_eq_Inl)
  next
    case (Inr u)
    note u = ded [OF Inr]
    show ?thesis
    proof (cases "mul_two_ratios_floor u 800 (trust_multiplier_milli trust) ''node spendable quota''")
      case q: (Inl f)
      with err Inr u show ?thesis
        by (auto simp: Settlement_calculate_def dest: mul_two_ratios_floor_Inl)
    next
      case q: (Inr q)
      have sq: "sint q = spec_share (sint u) 800 trust" using share [OF q] u by simp
      then have q0: "0 \<le> sint q" "sint q \<le> sint u"
        using spec_share_nonneg [OF u, of 800 trust] spec_share_quota_le [OF u, of trust] u by auto
      show ?thesis
      proof (cases "mul_two_ratios_floor u 1200 (trust_multiplier_milli trust) ''node contribution''")
        case (Inl f)
        with err Inr u q q0 show ?thesis
          by (auto simp: Settlement_calculate_def dest: mul_two_ratios_floor_Inl)
      next
        case c: (Inr c)
        have "0 \<le> sint c" using share [OF c] spec_share_nonneg [OF u, of 1200 trust] u by simp
        moreover obtain i where "mq_checked_sub (MicroQuota u) (MicroQuota q) = Inr i"
          using q0 mq.sub_total [of "MicroQuota u" "MicroQuota q"] u by (auto simp: mq_ok_def)
        ultimately show ?thesis
          using err Inr u q q0 c by (simp add: Settlement_calculate_def)
      qed
    qed
  qed
qed

subsection \<open>Properties\<close>

text \<open>C26. A settlement of a non-negative base cost charges the consumer the base cost times the
  tier multiplier rounded up, credits the node 80 percent and 120 percent of that charge times the
  trust multiplier rounded down, and puts the rest of the charge into the reserve; it fails, with an
  overflow error, exactly when the charge or the contribution does not fit 64 bits.\<close>

theorem settlement_amounts:
  assumes "mq_ok base"
  shows "case Settlement_calculate base tier trust of
      Inr s \<Rightarrow>
        micro (user_deduction s) = \<lceil>real_of_int (micro base * tier_milli tier) / 1000\<rceil> \<and>
        micro (node_spendable_quota s) =
          \<lfloor>real_of_int (micro (user_deduction s) * 800 * trust_milli trust) / 1000000\<rfloor> \<and>
        micro (node_contribution_points s) =
          \<lfloor>real_of_int (micro (user_deduction s) * 1200 * trust_milli trust) / 1000000\<rfloor> \<and>
        micro (reserve_inflow s) = micro (user_deduction s) - micro (node_spendable_quota s) \<and>
        base_cost s = base \<and> performance_tier s = tier \<and> trust_class s = trust
    | Inl e \<Rightarrow> (\<exists>operation. e = Overflow operation) \<and>
        (2 ^ 63 \<le> spec_deduction (micro base) tier \<or>
         2 ^ 63 \<le> spec_share (spec_deduction (micro base) tier) 1200 trust)"
proof (cases "Settlement_calculate base tier trust")
  case (Inl e)
  then have "\<not> (\<exists>s. Settlement_calculate base tier trust = Inr s)" by simp
  with Inl Settlement_calculate_error [OF assms Inl] show ?thesis
    unfolding Settlement_calculate_ok_iff [OF assms] by auto
next
  case (Inr s)
  have floor: "\<lfloor>real_of_int v / 1000000\<rfloor> = v div 1000000" for v
    using floor_divide_of_int_eq [of v 1000000] by simp
  have "\<lceil>real_of_int v / 1000\<rceil> = ceil_div v 1000" for v
    using ceil_div_real [of 1000 v] by simp
  moreover note Inr [unfolded Settlement_calculate_eq_Inr [OF assms]]
  ultimately show ?thesis
    unfolding Inr by (simp add: spec_deduction_def spec_share_def floor del: of_int_mult)
qed

theorem settlement_amounts_witness:
  "mq_ok (MicroQuota 1) \<and>
   Settlement_calculate (MicroQuota 1) High Enhanced =
     Inr \<lparr>base_cost = MicroQuota 1, user_deduction = MicroQuota 2, node_spendable_quota = MicroQuota 1,
          node_contribution_points = MicroQuota 2, reserve_inflow = MicroQuota 1,
          performance_tier = High, trust_class = Enhanced\<rparr> \<and>
   (2 :: int) = \<lceil>real_of_int (1 * 1500) / 1000\<rceil>"
proof -
  have ok: "mq_ok (MicroQuota 1)" by (simp add: mq_ok_def)
  have run: "Settlement_calculate (MicroQuota 1) High Enhanced =
     Inr \<lparr>base_cost = MicroQuota 1, user_deduction = MicroQuota 2, node_spendable_quota = MicroQuota 1,
          node_contribution_points = MicroQuota 2, reserve_inflow = MicroQuota 1,
          performance_tier = High, trust_class = Enhanced\<rparr>"
    by (simp add: Settlement_calculate_eq_Inr [OF ok] spec_deduction_def spec_share_def ceil_div_def
        tier_milli_def trust_milli_def)
  with settlement_amounts [OF ok, of High Enhanced] ok show ?thesis
    by (simp add: tier_milli_def)
qed

text \<open>A settlement conserves money: the node's spendable quota and the reserve inflow are
  non-negative and sum to the consumer's charge, and a positive base cost leaves the reserve a
  positive inflow, whatever the rounding.\<close>

theorem settlement_conserves:
  assumes "mq_ok base" and "Settlement_calculate base tier trust = Inr s"
  shows "micro (user_deduction s) = micro (node_spendable_quota s) + micro (reserve_inflow s) \<and>
    0 \<le> micro (node_spendable_quota s) \<and> 0 \<le> micro (node_contribution_points s) \<and>
    0 \<le> micro (reserve_inflow s) \<and> (0 < micro base \<longrightarrow> 0 < micro (reserve_inflow s))"
proof -
  have d0: "0 \<le> micro (user_deduction s)"
    using assms by (simp add: Settlement_calculate_eq_Inr mq_ok_def spec_deduction_nonneg)
  note le = spec_share_quota_le [OF d0, of trust] and nn = spec_share_nonneg [OF d0, of _ trust]
  note eqs = assms(2) [unfolded Settlement_calculate_eq_Inr [OF assms(1)]]
  have "0 < micro (reserve_inflow s)" if "0 < micro base"
  proof -
    have "0 < micro (user_deduction s)"
      using that eqs tier_milli_bounds [of tier] by (simp add: spec_deduction_def ceil_div_pos)
    with eqs le show ?thesis by auto
  qed
  then show ?thesis
    using eqs le nn [of 800] nn [of 1200] d0 by auto
qed

theorem settlement_conserves_witness:
  "\<exists>s. Settlement_calculate (MicroQuota 1) High Enhanced = Inr s \<and>
     micro (user_deduction s) = micro (node_spendable_quota s) + micro (reserve_inflow s) \<and>
     0 < micro (reserve_inflow s)"
proof -
  have ok: "mq_ok (MicroQuota 1)" by (simp add: mq_ok_def)
  have "\<exists>s. Settlement_calculate (MicroQuota 1) High Enhanced = Inr s"
    by (simp add: Settlement_calculate_ok_iff [OF ok] spec_deduction_def spec_share_def ceil_div_def
        tier_milli_def trust_milli_def)
  then obtain s where s: "Settlement_calculate (MicroQuota 1) High Enhanced = Inr s" ..
  from settlement_conserves [OF ok s] s show ?thesis by auto
qed

end
