(* ===== verification/Billing.thy ===== *)
theory Billing
  imports Fixed
begin

text \<open>
  \<open>crates/mindone-accounting/src/billing.rs\<close>: the physical reference upper bound. A profile is the
  record the coordinator freezes; \<open>quote_server_reference_upper_bound\<close> turns a billable token count
  into three separately rounded costs; \<open>maximum_reservation_micro\<close> adds the highest tier
  multiplier. All amounts are 64-bit words, widened to 128 bits as the code does.

  The lemmas give the quote's value on integers (\<open>spec_quote\<close> and friends), its totality on every
  profile that passes \<open>validate\<close>, and its monotonicity in the token count, from which it follows
  that a reservation covers every settlement of the job.
\<close>

definition TOKENS_PER_RATE_UNIT :: i128 where "TOKENS_PER_RATE_UNIT = 1000"
definition MICROSECONDS_PER_SECOND :: i128 where "MICROSECONDS_PER_SECOND = 1000000"
definition MIB_PER_GIB :: i128 where "MIB_PER_GIB = 1024"
definition MIB_MICROSECONDS_PER_GIB_SECOND :: i128 where
  "MIB_MICROSECONDS_PER_GIB_SECOND = MIB_PER_GIB * MICROSECONDS_PER_SECOND"

lemma billing_constants [simp]:
  "sint TOKENS_PER_RATE_UNIT = 1000"
  "sint MICROSECONDS_PER_SECOND = 1000000"
  "sint MIB_MICROSECONDS_PER_GIB_SECOND = 1024000000"
  by (simp_all add: TOKENS_PER_RATE_UNIT_def MICROSECONDS_PER_SECOND_def
      MIB_MICROSECONDS_PER_GIB_SECOND_def MIB_PER_GIB_def)

record ServerReferenceBillingProfile =
  maximum_input_tokens :: i64
  maximum_output_tokens :: i64
  fixed_gpu_time_us :: i64
  gpu_time_us_per_1k_tokens :: i64
  reference_vram_mib :: i64
  token_rate_micro_per_1k :: i64
  gpu_rate_micro_per_second :: i64
  vram_rate_micro_per_gib_second :: i64

record PhysicalBillingQuote =
  billable_tokens :: i64
  reference_gpu_time_us :: i64
  reference_vram_mib_microseconds :: i64
  token_cost :: MicroQuota
  gpu_cost :: MicroQuota
  vram_cost :: MicroQuota
  quote_base_cost :: MicroQuota

section \<open>Guards and checked arithmetic\<close>

definition require_nonnegative :: "i64 \<Rightarrow> string \<Rightarrow> unit acct" where
  "require_nonnegative value field = (if sint value < 0 then Inl (NegativeAmount field) else Inr ())"

definition require_positive :: "i64 \<Rightarrow> string \<Rightarrow> unit acct" where
  "require_positive value field =
     and_then (require_nonnegative value field) (\<lambda>_.
     if sint value = 0 then Inl (InvalidBilling (field @ '' must be positive'')) else Inr ())"

definition checked_add_i64 :: "i64 \<Rightarrow> i64 \<Rightarrow> string \<Rightarrow> i64 acct" where
  "checked_add_i64 left right operation =
     and_then (ok_or (s_checked_add (s_from left :: i128) (s_from right)) (Overflow operation)) (\<lambda>sum.
     ok_or (s_try_from sum) (Overflow operation))"

definition checked_mul_i64 :: "i64 \<Rightarrow> i64 \<Rightarrow> string \<Rightarrow> i64 acct" where
  "checked_mul_i64 left right operation =
     and_then (ok_or (s_checked_mul (s_from left :: i128) (s_from right)) (Overflow operation)) (\<lambda>product.
     ok_or (s_try_from product) (Overflow operation))"

definition ceil_mul_div :: "i64 \<Rightarrow> i64 \<Rightarrow> i128 \<Rightarrow> string \<Rightarrow> i64 acct" where
  "ceil_mul_div left right denominator operation =
     and_then (require_nonnegative left ''billing_multiplicand'') (\<lambda>_.
     and_then (require_nonnegative right ''billing_multiplier'') (\<lambda>_.
     and_then (ok_or (s_checked_mul (s_from left) (s_from right)) (Overflow operation)) (\<lambda>product.
     and_then (ok_or (s_checked_add product (denominator - 1)) (Overflow operation)) (\<lambda>adjusted.
     ok_or (s_try_from (s_div adjusted denominator)) (Overflow operation)))))"

lemma require_nonnegative_eq_Inr [result_simps]: "require_nonnegative v f = Inr u \<longleftrightarrow> 0 \<le> sint v"
  by (auto simp: require_nonnegative_def)

lemma require_positive_eq_Inr [result_simps]: "require_positive v f = Inr u \<longleftrightarrow> 0 < sint v"
  by (auto simp: require_positive_def result_simps)

lemma checked_add_i64_eq_Inr [result_simps]:
  "checked_add_i64 a b op = Inr r \<longleftrightarrow> sint r = sint a + sint b"
proof -
  obtain p :: i128 where "s_checked_add (s_from a) (s_from b) = Some p" "sint p = sint a + sint b"
    using i128_add_of_i64 [of a b] by blast
  then show ?thesis by (simp add: checked_add_i64_def ok_or_eq_Inr s_try_from_Some)
qed

lemma checked_mul_i64_eq_Inr [result_simps]:
  "checked_mul_i64 a b op = Inr r \<longleftrightarrow> sint r = sint a * sint b"
proof -
  obtain p :: i128 where "s_checked_mul (s_from a) (s_from b) = Some p" "sint p = sint a * sint b"
    using i128_mul_of_i64 [of a b] by blast
  then show ?thesis by (simp add: checked_mul_i64_def ok_or_eq_Inr s_try_from_Some)
qed

lemma ceil_mul_div_mul_ratio:
  "0 \<le> sint a \<Longrightarrow> 0 \<le> sint b \<Longrightarrow> ceil_mul_div a b d op = mul_ratio_ceil a b d op"
proof -
  assume "0 \<le> sint a" "0 \<le> sint b"
  then have r: "require_nonnegative a f = Inr ()" "require_nonnegative b f = Inr ()" for f
    by (simp_all add: require_nonnegative_def)
  show ?thesis unfolding ceil_mul_div_def mul_ratio_ceil_def r and_then_simps ..
qed

lemma ceil_mul_div_eq_Inr:
  assumes "0 < sint d" "sint d \<le> 2 ^ 64"
  shows "ceil_mul_div a b d op = Inr r \<longleftrightarrow>
    0 \<le> sint a \<and> 0 \<le> sint b \<and> sint r = ceil_div (sint a * sint b) (sint d)"
proof (cases "0 \<le> sint a \<and> 0 \<le> sint b")
  case True
  then show ?thesis using assms by (simp add: ceil_mul_div_mul_ratio mul_ratio_ceil_eq_Inr)
next
  case False
  have "0 \<le> sint a \<and> 0 \<le> sint b" if "ceil_mul_div a b d op = Inr r"
    using that unfolding ceil_mul_div_def and_then_eq_Inr require_nonnegative_eq_Inr by blast
  with False show ?thesis by blast
qed

lemmas ceil_mul_div_consts [result_simps] =
  ceil_mul_div_eq_Inr [of TOKENS_PER_RATE_UNIT, simplified]
  ceil_mul_div_eq_Inr [of MICROSECONDS_PER_SECOND, simplified]
  ceil_mul_div_eq_Inr [of MIB_MICROSECONDS_PER_GIB_SECOND, simplified]

section \<open>Profiles and quotes\<close>

definition profile_validate :: "ServerReferenceBillingProfile \<Rightarrow> unit acct" where
  "profile_validate self =
     and_then (require_nonnegative (maximum_input_tokens self) ''maximum_input_tokens'') (\<lambda>_.
     and_then (require_positive (maximum_output_tokens self) ''maximum_output_tokens'') (\<lambda>_.
     and_then (require_nonnegative (fixed_gpu_time_us self) ''fixed_gpu_time_us'') (\<lambda>_.
     and_then (require_positive (gpu_time_us_per_1k_tokens self) ''gpu_time_us_per_1k_tokens'') (\<lambda>_.
     and_then (require_positive (reference_vram_mib self) ''reference_vram_mib'') (\<lambda>_.
     and_then (require_positive (token_rate_micro_per_1k self) ''token_rate_micro_per_1k'') (\<lambda>_.
     and_then (require_positive (gpu_rate_micro_per_second self) ''gpu_rate_micro_per_second'') (\<lambda>_.
     and_then (require_positive (vram_rate_micro_per_gib_second self) ''vram_rate_micro_per_gib_second'') (\<lambda>_.
     and_then (checked_add_i64 (maximum_input_tokens self) (maximum_output_tokens self)
       ''profile token bound'') (\<lambda>maximum_billable_tokens.
     and_then (ceil_mul_div maximum_billable_tokens (gpu_time_us_per_1k_tokens self)
       TOKENS_PER_RATE_UNIT ''profile GPU time bound'') (\<lambda>maximum_variable_gpu_time_us.
     and_then (checked_add_i64 (fixed_gpu_time_us self) maximum_variable_gpu_time_us
       ''profile GPU time bound sum'') (\<lambda>maximum_gpu_time_us.
     and_then (checked_mul_i64 maximum_gpu_time_us (reference_vram_mib self)
       ''profile VRAM integral bound'') (\<lambda>maximum_vram_integral.
     and_then (and_then (ceil_mul_div maximum_billable_tokens (token_rate_micro_per_1k self)
       TOKENS_PER_RATE_UNIT ''profile token cost bound'') MicroQuota_new) (\<lambda>maximum_token_cost.
     and_then (and_then (ceil_mul_div maximum_gpu_time_us (gpu_rate_micro_per_second self)
       MICROSECONDS_PER_SECOND ''profile GPU cost bound'') MicroQuota_new) (\<lambda>maximum_gpu_cost.
     and_then (and_then (ceil_mul_div maximum_vram_integral (vram_rate_micro_per_gib_second self)
       MIB_MICROSECONDS_PER_GIB_SECOND ''profile VRAM cost bound'') MicroQuota_new) (\<lambda>maximum_vram_cost.
     and_then (and_then (mq_checked_add maximum_token_cost maximum_gpu_cost)
       (\<lambda>c. mq_checked_add c maximum_vram_cost)) (\<lambda>maximum_base_cost.
     and_then (Settlement_calculate maximum_base_cost High Enhanced) (\<lambda>_.
     Inr ())))))))))))))))))"

definition quote_server_reference_upper_bound ::
    "ServerReferenceBillingProfile \<Rightarrow> i64 \<Rightarrow> PhysicalBillingQuote acct" where
  "quote_server_reference_upper_bound profile tokens =
     and_then (profile_validate profile) (\<lambda>_.
     and_then (require_positive tokens ''billable_tokens'') (\<lambda>_.
     and_then (checked_add_i64 (maximum_input_tokens profile) (maximum_output_tokens profile)
       ''profile token bound'') (\<lambda>maximum_billable_tokens.
     if sint tokens > sint maximum_billable_tokens
     then Inl (InvalidBilling ''billable_tokens exceeds the profile bound'')
     else
     and_then (ceil_mul_div tokens (gpu_time_us_per_1k_tokens profile)
       TOKENS_PER_RATE_UNIT ''reference GPU time'') (\<lambda>variable_gpu_time_us.
     and_then (checked_add_i64 (fixed_gpu_time_us profile) variable_gpu_time_us
       ''reference GPU time sum'') (\<lambda>gpu_time_us.
     and_then (checked_mul_i64 gpu_time_us (reference_vram_mib profile)
       ''reference VRAM integral'') (\<lambda>vram_mib_microseconds.
     and_then (and_then (ceil_mul_div tokens (token_rate_micro_per_1k profile)
       TOKENS_PER_RATE_UNIT ''token billing'') MicroQuota_new) (\<lambda>token_c.
     and_then (and_then (ceil_mul_div gpu_time_us (gpu_rate_micro_per_second profile)
       MICROSECONDS_PER_SECOND ''GPU time billing'') MicroQuota_new) (\<lambda>gpu_c.
     and_then (and_then (ceil_mul_div vram_mib_microseconds (vram_rate_micro_per_gib_second profile)
       MIB_MICROSECONDS_PER_GIB_SECOND ''VRAM integral billing'') MicroQuota_new) (\<lambda>vram_c.
     and_then (and_then (mq_checked_add token_c gpu_c) (\<lambda>c. mq_checked_add c vram_c)) (\<lambda>base.
     Inr \<lparr>billable_tokens = tokens, reference_gpu_time_us = gpu_time_us,
          reference_vram_mib_microseconds = vram_mib_microseconds, token_cost = token_c,
          gpu_cost = gpu_c, vram_cost = vram_c, quote_base_cost = base\<rparr>))))))))))"

definition maximum_reservation_quote ::
    "ServerReferenceBillingProfile \<Rightarrow> i64 \<Rightarrow> i64 \<Rightarrow> PhysicalBillingQuote acct" where
  "maximum_reservation_quote profile authorized_input authorized_output =
     and_then (require_nonnegative authorized_input ''authorized_input_tokens'') (\<lambda>_.
     and_then (require_positive authorized_output ''authorized_max_output_tokens'') (\<lambda>_.
     if sint authorized_input > sint (maximum_input_tokens profile)
        \<or> sint authorized_output > sint (maximum_output_tokens profile)
     then Inl (InvalidBilling ''authorized tokens exceed the profile bound'')
     else
     and_then (checked_add_i64 authorized_input authorized_output ''reservation token bound'') (\<lambda>tokens.
     quote_server_reference_upper_bound profile tokens)))"

definition maximum_reservation_micro ::
    "ServerReferenceBillingProfile \<Rightarrow> i64 \<Rightarrow> i64 \<Rightarrow> MicroQuota acct" where
  "maximum_reservation_micro profile authorized_input authorized_output =
     and_then (maximum_reservation_quote profile authorized_input authorized_output) (\<lambda>q.
     and_then (Settlement_calculate (quote_base_cost q) High Enhanced) (\<lambda>s.
     Inr (user_deduction s)))"

section \<open>The contract on integers\<close>

definition spec_gpu_time :: "ServerReferenceBillingProfile \<Rightarrow> int \<Rightarrow> int" where
  "spec_gpu_time p t = sint (fixed_gpu_time_us p) + ceil_div (t * sint (gpu_time_us_per_1k_tokens p)) 1000"

definition spec_vram :: "ServerReferenceBillingProfile \<Rightarrow> int \<Rightarrow> int" where
  "spec_vram p t = spec_gpu_time p t * sint (reference_vram_mib p)"

definition spec_token_cost :: "ServerReferenceBillingProfile \<Rightarrow> int \<Rightarrow> int" where
  "spec_token_cost p t = ceil_div (t * sint (token_rate_micro_per_1k p)) 1000"

definition spec_gpu_cost :: "ServerReferenceBillingProfile \<Rightarrow> int \<Rightarrow> int" where
  "spec_gpu_cost p t = ceil_div (spec_gpu_time p t * sint (gpu_rate_micro_per_second p)) 1000000"

definition spec_vram_cost :: "ServerReferenceBillingProfile \<Rightarrow> int \<Rightarrow> int" where
  "spec_vram_cost p t = ceil_div (spec_vram p t * sint (vram_rate_micro_per_gib_second p)) 1024000000"

definition spec_base_cost :: "ServerReferenceBillingProfile \<Rightarrow> int \<Rightarrow> int" where
  "spec_base_cost p t = spec_token_cost p t + spec_gpu_cost p t + spec_vram_cost p t"

definition spec_token_bound :: "ServerReferenceBillingProfile \<Rightarrow> int" where
  "spec_token_bound p = sint (maximum_input_tokens p) + sint (maximum_output_tokens p)"

definition profile_signs :: "ServerReferenceBillingProfile \<Rightarrow> bool" where
  "profile_signs p \<longleftrightarrow>
     0 \<le> sint (maximum_input_tokens p) \<and> 0 < sint (maximum_output_tokens p) \<and>
     0 \<le> sint (fixed_gpu_time_us p) \<and> 0 < sint (gpu_time_us_per_1k_tokens p) \<and>
     0 < sint (reference_vram_mib p) \<and> 0 < sint (token_rate_micro_per_1k p) \<and>
     0 < sint (gpu_rate_micro_per_second p) \<and> 0 < sint (vram_rate_micro_per_gib_second p)"

lemma spec_mono:
  assumes "profile_signs p" "s \<le> t"
  shows "spec_gpu_time p s \<le> spec_gpu_time p t" "spec_vram p s \<le> spec_vram p t"
    "spec_token_cost p s \<le> spec_token_cost p t" "spec_gpu_cost p s \<le> spec_gpu_cost p t"
    "spec_vram_cost p s \<le> spec_vram_cost p t" "spec_base_cost p s \<le> spec_base_cost p t"
proof -
  show g: "spec_gpu_time p s \<le> spec_gpu_time p t" and tc: "spec_token_cost p s \<le> spec_token_cost p t"
    unfolding spec_gpu_time_def spec_token_cost_def
    using assms by (auto simp: profile_signs_def intro!: ceil_div_mono mult_right_mono)
  then show v: "spec_vram p s \<le> spec_vram p t" and gc: "spec_gpu_cost p s \<le> spec_gpu_cost p t"
    unfolding spec_vram_def spec_gpu_cost_def
    using assms by (auto simp: profile_signs_def intro!: ceil_div_mono mult_right_mono)
  then show vc: "spec_vram_cost p s \<le> spec_vram_cost p t"
    unfolding spec_vram_cost_def
    using assms by (auto simp: profile_signs_def intro!: ceil_div_mono mult_right_mono)
  show "spec_base_cost p s \<le> spec_base_cost p t"
    unfolding spec_base_cost_def using tc gc vc by linarith
qed

lemma spec_nonneg:
  assumes "profile_signs p" "0 \<le> t"
  shows "0 \<le> spec_gpu_time p t" "0 \<le> spec_vram p t" "0 \<le> spec_token_cost p t"
    "0 \<le> spec_gpu_cost p t" "0 \<le> spec_vram_cost p t" "0 \<le> spec_base_cost p t"
proof -
  show g: "0 \<le> spec_gpu_time p t" and tc: "0 \<le> spec_token_cost p t"
    using assms by (auto simp: spec_gpu_time_def spec_token_cost_def profile_signs_def intro!: ceil_div_nonneg add_nonneg_nonneg)
  then show v: "0 \<le> spec_vram p t" and gc: "0 \<le> spec_gpu_cost p t"
    using assms by (auto simp: spec_vram_def spec_gpu_cost_def profile_signs_def intro!: ceil_div_nonneg)
  then show vc: "0 \<le> spec_vram_cost p t"
    using assms by (auto simp: spec_vram_cost_def profile_signs_def intro!: ceil_div_nonneg)
  show "0 \<le> spec_base_cost p t" unfolding spec_base_cost_def using tc gc vc by linarith
qed

text \<open>A non-negative value that fits is represented.\<close>

lemma ex_sint_i64: "0 \<le> v \<Longrightarrow> (\<exists>w :: i64. sint w = v) \<longleftrightarrow> v < 2 ^ 63"
  by (simp add: ex_sint_eq)

definition profile_bounds_fit :: "ServerReferenceBillingProfile \<Rightarrow> bool" where
  "profile_bounds_fit p \<longleftrightarrow>
     (let t = spec_token_bound p in
      t < 2 ^ 63 \<and> spec_gpu_time p t < 2 ^ 63 \<and> spec_vram p t < 2 ^ 63 \<and>
      spec_base_cost p t < 2 ^ 63 \<and> spec_deduction (spec_base_cost p t) High < 2 ^ 63 \<and>
      spec_share (spec_deduction (spec_base_cost p t) High) 1200 Enhanced < 2 ^ 63)"

lemma quote_values:
  assumes "profile_signs p"
    and "ceil_mul_div t (gpu_time_us_per_1k_tokens p) TOKENS_PER_RATE_UNIT o1 = Inr g0"
    and "checked_add_i64 (fixed_gpu_time_us p) g0 o2 = Inr g"
    and "checked_mul_i64 g (reference_vram_mib p) o3 = Inr v"
    and "and_then (ceil_mul_div t (token_rate_micro_per_1k p) TOKENS_PER_RATE_UNIT o4) MicroQuota_new = Inr tc"
    and "and_then (ceil_mul_div g (gpu_rate_micro_per_second p) MICROSECONDS_PER_SECOND o5) MicroQuota_new = Inr gc"
    and "and_then (ceil_mul_div v (vram_rate_micro_per_gib_second p) MIB_MICROSECONDS_PER_GIB_SECOND o6) MicroQuota_new = Inr vc"
    and "and_then (mq_checked_add tc gc) (\<lambda>c. mq_checked_add c vc) = Inr b"
  shows "0 \<le> sint t" "sint g = spec_gpu_time p (sint t)" "sint v = spec_vram p (sint t)"
    "micro tc = spec_token_cost p (sint t)" "micro gc = spec_gpu_cost p (sint t)"
    "micro vc = spec_vram_cost p (sint t)" "micro b = spec_base_cost p (sint t)"
proof -
  show t: "0 \<le> sint t" using assms(2) by (simp add: result_simps)
  show g: "sint g = spec_gpu_time p (sint t)"
    using assms(2,3) by (simp add: result_simps spec_gpu_time_def)
  then show v: "sint v = spec_vram p (sint t)"
    using assms(4) by (simp add: result_simps spec_vram_def)
  show tc: "micro tc = spec_token_cost p (sint t)"
    using assms(5) by (auto simp: result_simps spec_token_cost_def)
  show gc: "micro gc = spec_gpu_cost p (sint t)"
    using assms(6) g by (auto simp: result_simps spec_gpu_cost_def)
  show vc: "micro vc = spec_vram_cost p (sint t)"
    using assms(7) v by (auto simp: result_simps spec_vram_cost_def)
  show "micro b = spec_base_cost p (sint t)"
    using mq.add_three_exact [OF _ _ _ assms(8)] tc gc vc spec_nonneg [OF assms(1) t]
    by (simp add: mq_ok_def spec_base_cost_def)
qed

lemma quote_values_exist:
  assumes signs: "profile_signs p" and t: "0 \<le> sint t"
    and fit: "spec_gpu_time p (sint t) < 2 ^ 63" "spec_vram p (sint t) < 2 ^ 63" "spec_base_cost p (sint t) < 2 ^ 63"
  obtains g0 g v tc gc vc b where
    "\<And>o1. ceil_mul_div t (gpu_time_us_per_1k_tokens p) TOKENS_PER_RATE_UNIT o1 = Inr g0"
    "\<And>o2. checked_add_i64 (fixed_gpu_time_us p) g0 o2 = Inr g"
    "\<And>o3. checked_mul_i64 g (reference_vram_mib p) o3 = Inr v"
    "\<And>o4. and_then (ceil_mul_div t (token_rate_micro_per_1k p) TOKENS_PER_RATE_UNIT o4) MicroQuota_new = Inr tc"
    "\<And>o5. and_then (ceil_mul_div g (gpu_rate_micro_per_second p) MICROSECONDS_PER_SECOND o5) MicroQuota_new = Inr gc"
    "\<And>o6. and_then (ceil_mul_div v (vram_rate_micro_per_gib_second p) MIB_MICROSECONDS_PER_GIB_SECOND o6) MicroQuota_new = Inr vc"
    "and_then (mq_checked_add tc gc) (\<lambda>c. mq_checked_add c vc) = Inr b"
    "sint g = spec_gpu_time p (sint t)" "sint v = spec_vram p (sint t)" "micro b = spec_base_cost p (sint t)"
proof -
  note nn = spec_nonneg [OF signs t]
  have costs: "spec_token_cost p (sint t) < 2 ^ 63" "spec_gpu_cost p (sint t) < 2 ^ 63"
    "spec_vram_cost p (sint t) < 2 ^ 63" "spec_token_cost p (sint t) + spec_gpu_cost p (sint t) < 2 ^ 63"
    using nn fit by (auto simp: spec_base_cost_def)
  have k: "0 \<le> ceil_div (sint t * sint (gpu_time_us_per_1k_tokens p)) 1000"
    using signs t by (auto simp: profile_signs_def intro!: ceil_div_nonneg)
  moreover have "ceil_div (sint t * sint (gpu_time_us_per_1k_tokens p)) 1000 < 2 ^ 63"
    using fit(1) signs by (simp add: spec_gpu_time_def profile_signs_def)
  ultimately obtain g0 :: i64 where g0: "sint g0 = ceil_div (sint t * sint (gpu_time_us_per_1k_tokens p)) 1000"
    by (metis ex_sint_i64)
  obtain g :: i64 where g: "sint g = spec_gpu_time p (sint t)" using nn fit by (metis ex_sint_i64)
  obtain v :: i64 where v: "sint v = spec_vram p (sint t)" using nn fit by (metis ex_sint_i64)
  obtain tc where tc: "micro (MicroQuota tc) = spec_token_cost p (sint t)"
    using nn costs by (metis ex_sint_i64 micro_simps(1))
  obtain gc where gc: "micro (MicroQuota gc) = spec_gpu_cost p (sint t)"
    using nn costs by (metis ex_sint_i64 micro_simps(1))
  obtain vc where vc: "micro (MicroQuota vc) = spec_vram_cost p (sint t)"
    using nn costs by (metis ex_sint_i64 micro_simps(1))
  obtain c where c: "micro c = spec_token_cost p (sint t) + spec_gpu_cost p (sint t)"
    using micro_surj nn costs by (metis add_nonneg_nonneg)
  obtain b where b: "micro b = spec_base_cost p (sint t)" using micro_surj nn fit by blast
  have "mq_checked_add (MicroQuota tc) (MicroQuota gc) = Inr c" "mq_checked_add c (MicroQuota vc) = Inr b"
    using tc gc vc c b nn by (simp_all add: mq_checked_add_eq_Inr spec_base_cost_def)
  then have sum: "and_then (mq_checked_add (MicroQuota tc) (MicroQuota gc)) (\<lambda>c. mq_checked_add c (MicroQuota vc)) = Inr b"
    by simp
  have signs': "0 \<le> sint (gpu_time_us_per_1k_tokens p)" "0 \<le> sint (token_rate_micro_per_1k p)"
    "0 \<le> sint (gpu_rate_micro_per_second p)" "0 \<le> sint (vram_rate_micro_per_gib_second p)"
    using signs by (simp_all add: profile_signs_def)
  show thesis
  proof (rule that [OF _ _ _ _ _ _ sum g v b])
    show "ceil_mul_div t (gpu_time_us_per_1k_tokens p) TOKENS_PER_RATE_UNIT o1 = Inr g0" for o1
      using g0 t signs' by (simp add: ceil_mul_div_consts)
    show "checked_add_i64 (fixed_gpu_time_us p) g0 o2 = Inr g" for o2
      using g g0 by (simp add: checked_add_i64_eq_Inr spec_gpu_time_def)
    show "checked_mul_i64 g (reference_vram_mib p) o3 = Inr v" for o3
      using g v by (simp add: checked_mul_i64_eq_Inr spec_vram_def)
    show "and_then (ceil_mul_div t (token_rate_micro_per_1k p) TOKENS_PER_RATE_UNIT o4) MicroQuota_new = Inr (MicroQuota tc)" for o4
      using tc t nn signs' by (simp add: and_then_eq_Inr ceil_mul_div_consts spec_token_cost_def MicroQuota_new_eq_Inr)
    show "and_then (ceil_mul_div g (gpu_rate_micro_per_second p) MICROSECONDS_PER_SECOND o5) MicroQuota_new = Inr (MicroQuota gc)" for o5
      using gc g nn signs' by (simp add: and_then_eq_Inr ceil_mul_div_consts spec_gpu_cost_def MicroQuota_new_eq_Inr)
    show "and_then (ceil_mul_div v (vram_rate_micro_per_gib_second p) MIB_MICROSECONDS_PER_GIB_SECOND o6) MicroQuota_new = Inr (MicroQuota vc)" for o6
      using vc v nn signs' by (simp add: and_then_eq_Inr ceil_mul_div_consts spec_vram_cost_def MicroQuota_new_eq_Inr)
  qed
qed

lemma profile_validate_iff:
  "profile_validate p = Inr u \<longleftrightarrow> profile_signs p \<and> profile_bounds_fit p"
proof
  assume val: "profile_validate p = Inr u"
  then have signs: "profile_signs p"
    unfolding profile_validate_def and_then_eq_Inr require_nonnegative_eq_Inr require_positive_eq_Inr
      profile_signs_def by blast
  from val obtain t g0 g v tc gc vc b s where
    t: "sint t = spec_token_bound p" and
    chain: "ceil_mul_div t (gpu_time_us_per_1k_tokens p) TOKENS_PER_RATE_UNIT ''profile GPU time bound'' = Inr g0"
      "checked_add_i64 (fixed_gpu_time_us p) g0 ''profile GPU time bound sum'' = Inr g"
      "checked_mul_i64 g (reference_vram_mib p) ''profile VRAM integral bound'' = Inr v"
      "and_then (ceil_mul_div t (token_rate_micro_per_1k p) TOKENS_PER_RATE_UNIT ''profile token cost bound'') MicroQuota_new = Inr tc"
      "and_then (ceil_mul_div g (gpu_rate_micro_per_second p) MICROSECONDS_PER_SECOND ''profile GPU cost bound'') MicroQuota_new = Inr gc"
      "and_then (ceil_mul_div v (vram_rate_micro_per_gib_second p) MIB_MICROSECONDS_PER_GIB_SECOND ''profile VRAM cost bound'') MicroQuota_new = Inr vc"
      "and_then (mq_checked_add tc gc) (\<lambda>c. mq_checked_add c vc) = Inr b" and
    s: "Settlement_calculate b High Enhanced = Inr s"
    unfolding profile_validate_def and_then_eq_Inr [of "require_nonnegative _ _"]
      and_then_eq_Inr [of "require_positive _ _"] and_then_eq_Inr [of "checked_add_i64 _ _ _"]
      and_then_eq_Inr [of "ceil_mul_div _ _ _ _" "\<lambda>x. and_then (checked_add_i64 _ x _) _"]
      and_then_eq_Inr [of "checked_mul_i64 _ _ _"] and_then_eq_Inr [of "and_then _ _"]
      and_then_eq_Inr [of "Settlement_calculate _ _ _"] checked_add_i64_eq_Inr [of "maximum_input_tokens _"]
      spec_token_bound_def
    by blast
  note vals = quote_values [OF signs chain]
  have b: "mq_ok b" using vals spec_nonneg [OF signs vals(1)] by (simp add: mq_ok_def)
  have "profile_bounds_fit p"
    using vals t s Settlement_calculate_ok_iff [OF b, of High Enhanced] i64_bounds [of t] i64_bounds [of g]
      i64_bounds [of v] micro_bounds [of b]
    by (auto simp: profile_bounds_fit_def Let_def)
  with signs show "profile_signs p \<and> profile_bounds_fit p" ..
next
  assume R: "profile_signs p \<and> profile_bounds_fit p"
  then have signs: "profile_signs p" ..
  have b0: "0 \<le> spec_token_bound p" using signs by (simp add: profile_signs_def spec_token_bound_def)
  then obtain t :: i64 where t: "sint t = spec_token_bound p"
    using R ex_sint_i64 [of "spec_token_bound p"] by (auto simp: profile_bounds_fit_def Let_def)
  obtain g0 g v tc gc vc b where chain:
    "\<And>o1. ceil_mul_div t (gpu_time_us_per_1k_tokens p) TOKENS_PER_RATE_UNIT o1 = Inr g0"
    "\<And>o2. checked_add_i64 (fixed_gpu_time_us p) g0 o2 = Inr g"
    "\<And>o3. checked_mul_i64 g (reference_vram_mib p) o3 = Inr v"
    "\<And>o4. and_then (ceil_mul_div t (token_rate_micro_per_1k p) TOKENS_PER_RATE_UNIT o4) MicroQuota_new = Inr tc"
    "\<And>o5. and_then (ceil_mul_div g (gpu_rate_micro_per_second p) MICROSECONDS_PER_SECOND o5) MicroQuota_new = Inr gc"
    "\<And>o6. and_then (ceil_mul_div v (vram_rate_micro_per_gib_second p) MIB_MICROSECONDS_PER_GIB_SECOND o6) MicroQuota_new = Inr vc"
    "and_then (mq_checked_add tc gc) (\<lambda>c. mq_checked_add c vc) = Inr b"
    "micro b = spec_base_cost p (sint t)"
    by (rule quote_values_exist [OF signs, of t]) (use R t b0 in \<open>auto simp: profile_bounds_fit_def Let_def\<close>)
  have "mq_ok b" using chain(8) spec_nonneg [OF signs] t b0 by (simp add: mq_ok_def)
  then obtain s where s: "Settlement_calculate b High Enhanced = Inr s"
    using Settlement_calculate_ok_iff [of b High Enhanced] R chain(8) t
    by (auto simp: profile_bounds_fit_def Let_def)
  have t': "checked_add_i64 (maximum_input_tokens p) (maximum_output_tokens p) o0 = Inr t" for o0
    using t by (simp add: checked_add_i64_eq_Inr spec_token_bound_def)
  have guards: "require_nonnegative (maximum_input_tokens p) f = Inr ()"
    "require_positive (maximum_output_tokens p) f = Inr ()"
    "require_nonnegative (fixed_gpu_time_us p) f = Inr ()"
    "require_positive (gpu_time_us_per_1k_tokens p) f = Inr ()"
    "require_positive (reference_vram_mib p) f = Inr ()"
    "require_positive (token_rate_micro_per_1k p) f = Inr ()"
    "require_positive (gpu_rate_micro_per_second p) f = Inr ()"
    "require_positive (vram_rate_micro_per_gib_second p) f = Inr ()" for f
    using signs by (simp_all add: require_nonnegative_eq_Inr require_positive_eq_Inr profile_signs_def)
  show "profile_validate p = Inr u"
    unfolding profile_validate_def guards t' chain s and_then_simps by simp
qed

lemma quote_eq_Inr:
  "quote_server_reference_upper_bound p t = Inr q \<longleftrightarrow>
    profile_validate p = Inr () \<and> 0 < sint t \<and> sint t \<le> spec_token_bound p \<and>
    billable_tokens q = t \<and> sint (reference_gpu_time_us q) = spec_gpu_time p (sint t) \<and>
    sint (reference_vram_mib_microseconds q) = spec_vram p (sint t) \<and>
    micro (token_cost q) = spec_token_cost p (sint t) \<and> micro (gpu_cost q) = spec_gpu_cost p (sint t) \<and>
    micro (vram_cost q) = spec_vram_cost p (sint t) \<and> micro (quote_base_cost q) = spec_base_cost p (sint t)"
    (is "_ = Inr q \<longleftrightarrow> ?rhs q")
proof -
  have sound: "?rhs q" if "quote_server_reference_upper_bound p t = Inr q" for q
  proof -
    from that obtain u and m :: i64 and g0 g v tc gc vc b where
      val: "profile_validate p = Inr u" and t0: "0 < sint t" and
      m: "sint m = spec_token_bound p" and le: "\<not> sint t > sint m" and
      chain: "ceil_mul_div t (gpu_time_us_per_1k_tokens p) TOKENS_PER_RATE_UNIT ''reference GPU time'' = Inr g0"
        "checked_add_i64 (fixed_gpu_time_us p) g0 ''reference GPU time sum'' = Inr g"
        "checked_mul_i64 g (reference_vram_mib p) ''reference VRAM integral'' = Inr v"
        "and_then (ceil_mul_div t (token_rate_micro_per_1k p) TOKENS_PER_RATE_UNIT ''token billing'') MicroQuota_new = Inr tc"
        "and_then (ceil_mul_div g (gpu_rate_micro_per_second p) MICROSECONDS_PER_SECOND ''GPU time billing'') MicroQuota_new = Inr gc"
        "and_then (ceil_mul_div v (vram_rate_micro_per_gib_second p) MIB_MICROSECONDS_PER_GIB_SECOND ''VRAM integral billing'') MicroQuota_new = Inr vc"
        "and_then (mq_checked_add tc gc) (\<lambda>c. mq_checked_add c vc) = Inr b" and
      q: "\<lparr>billable_tokens = t, reference_gpu_time_us = g, reference_vram_mib_microseconds = v,
        token_cost = tc, gpu_cost = gc, vram_cost = vc, quote_base_cost = b\<rparr> = q"
      unfolding quote_server_reference_upper_bound_def and_then_eq_Inr [of "profile_validate _"]
        and_then_eq_Inr [of "require_positive _ _"] and_then_eq_Inr [of "checked_add_i64 _ _ _"] if_Inl_eq_Inr
        and_then_eq_Inr [of "ceil_mul_div _ _ _ _" "\<lambda>x. and_then (checked_add_i64 _ x _) _"]
        and_then_eq_Inr [of "checked_mul_i64 _ _ _"] and_then_eq_Inr [of "and_then _ _"] sum.inject
        require_positive_eq_Inr checked_add_i64_eq_Inr [of "maximum_input_tokens _"] spec_token_bound_def
      by blast
    have signs: "profile_signs p" using val by (simp add: profile_validate_iff)
    from quote_values [OF signs chain] val t0 m le show ?thesis by (simp flip: q)
  qed
  have complete: "quote_server_reference_upper_bound p t = Inr q" if rhs: "?rhs q"
  proof -
    have sf: "profile_signs p" "profile_bounds_fit p" using rhs by (simp_all add: profile_validate_iff)
    have t: "0 \<le> sint t" "sint t \<le> spec_token_bound p" using rhs by auto
    note mono = spec_mono [OF sf(1) t(2)]
    obtain g0 g v tc gc vc b where chain:
      "\<And>o1. ceil_mul_div t (gpu_time_us_per_1k_tokens p) TOKENS_PER_RATE_UNIT o1 = Inr g0"
      "\<And>o2. checked_add_i64 (fixed_gpu_time_us p) g0 o2 = Inr g"
      "\<And>o3. checked_mul_i64 g (reference_vram_mib p) o3 = Inr v"
      "\<And>o4. and_then (ceil_mul_div t (token_rate_micro_per_1k p) TOKENS_PER_RATE_UNIT o4) MicroQuota_new = Inr tc"
      "\<And>o5. and_then (ceil_mul_div g (gpu_rate_micro_per_second p) MICROSECONDS_PER_SECOND o5) MicroQuota_new = Inr gc"
      "\<And>o6. and_then (ceil_mul_div v (vram_rate_micro_per_gib_second p) MIB_MICROSECONDS_PER_GIB_SECOND o6) MicroQuota_new = Inr vc"
      "and_then (mq_checked_add tc gc) (\<lambda>c. mq_checked_add c vc) = Inr b"
      by (rule quote_values_exist [OF sf(1) t(1)]) (use sf mono in \<open>auto simp: profile_bounds_fit_def Let_def\<close>)
    obtain m :: i64 where m: "sint m = spec_token_bound p"
      using sf t ex_sint_i64 [of "spec_token_bound p"] by (auto simp: profile_bounds_fit_def Let_def)
    have m': "checked_add_i64 (maximum_input_tokens p) (maximum_output_tokens p) o0 = Inr m" for o0
      using m by (simp add: checked_add_i64_eq_Inr spec_token_bound_def)
    have guards: "profile_validate p = Inr ()" "require_positive t f = Inr ()" for f
      using rhs by (simp_all add: require_positive_eq_Inr)
    let ?q = "\<lparr>billable_tokens = t, reference_gpu_time_us = g, reference_vram_mib_microseconds = v,
        token_cost = tc, gpu_cost = gc, vram_cost = vc, quote_base_cost = b\<rparr>"
    have run: "quote_server_reference_upper_bound p t = Inr ?q"
      unfolding quote_server_reference_upper_bound_def guards m' chain and_then_simps using t m by simp
    have "?q = q"
      using rhs sound [OF run] by (cases q) (auto simp: micro_inject [symmetric] sint_inject [symmetric])
    with run show ?thesis by simp
  qed
  show ?thesis using sound [of q] complete by blast
qed

lemma maximum_reservation_quote_eq:
  assumes "0 \<le> sint ai" "0 < sint ao" "sint ai \<le> sint (maximum_input_tokens p)"
    "sint ao \<le> sint (maximum_output_tokens p)" "sint t = sint ai + sint ao"
  shows "maximum_reservation_quote p ai ao = quote_server_reference_upper_bound p t"
proof -
  have "checked_add_i64 ai ao op = Inr t" for op using assms by (simp add: checked_add_i64_eq_Inr)
  then show ?thesis
    using assms by (simp add: maximum_reservation_quote_def require_nonnegative_def require_positive_def)
qed

lemma reservation_token_sum:
  assumes "profile_validate p = Inr ()" "0 \<le> sint ai" "0 < sint ao"
    "sint ai \<le> sint (maximum_input_tokens p)" "sint ao \<le> sint (maximum_output_tokens p)"
  obtains t :: i64 where "sint t = sint ai + sint ao" "0 < sint t" "sint t \<le> spec_token_bound p"
proof -
  have "sint ai + sint ao \<le> spec_token_bound p" using assms by (simp add: spec_token_bound_def)
  moreover have "spec_token_bound p < 2 ^ 63"
    using assms(1) by (simp add: profile_validate_iff profile_bounds_fit_def Let_def)
  ultimately have "sint ai + sint ao < 2 ^ 63" by simp
  then obtain t :: i64 where "sint t = sint ai + sint ao"
    using assms ex_sint_i64 [of "sint ai + sint ao"] by auto
  with assms that show thesis by (simp add: spec_token_bound_def)
qed

lemma quote_exists:
  assumes val: "profile_validate p = Inr ()" and t: "0 < sint t" "sint t \<le> spec_token_bound p"
  shows "\<exists>q. quote_server_reference_upper_bound p t = Inr q"
proof -
  have sf: "profile_signs p" "profile_bounds_fit p" using val by (simp_all add: profile_validate_iff)
  note nn = spec_nonneg [OF sf(1), of "sint t"] and mono = spec_mono [OF sf(1) t(2)]
  have fit: "spec_gpu_time p (sint t) < 2 ^ 63" "spec_vram p (sint t) < 2 ^ 63" "spec_base_cost p (sint t) < 2 ^ 63"
    using sf(2) mono by (auto simp: profile_bounds_fit_def Let_def)
  then have costs: "spec_token_cost p (sint t) < 2 ^ 63" "spec_gpu_cost p (sint t) < 2 ^ 63"
    "spec_vram_cost p (sint t) < 2 ^ 63"
    using nn t by (auto simp: spec_base_cost_def)
  obtain g v :: i64 where "sint g = spec_gpu_time p (sint t)" "sint v = spec_vram p (sint t)"
    using nn fit t by (metis ex_sint_i64 less_imp_le)
  moreover obtain tc gc vc b where "micro tc = spec_token_cost p (sint t)" "micro gc = spec_gpu_cost p (sint t)"
    "micro vc = spec_vram_cost p (sint t)" "micro b = spec_base_cost p (sint t)"
    using nn fit costs t micro_surj by (metis less_imp_le)
  ultimately have "quote_server_reference_upper_bound p t =
      Inr \<lparr>billable_tokens = t, reference_gpu_time_us = g, reference_vram_mib_microseconds = v,
        token_cost = tc, gpu_cost = gc, vram_cost = vc, quote_base_cost = b\<rparr>"
    using val t by (simp add: quote_eq_Inr)
  then show ?thesis ..
qed

text \<open>Settling a quote within the bounds of a validated profile cannot fail, at any tier and trust.\<close>

lemma settlement_of_quote:
  assumes val: "profile_validate p = Inr ()" and q: "quote_server_reference_upper_bound p t = Inr q"
  shows "mq_ok (quote_base_cost q)"
    and "\<exists>s. Settlement_calculate (quote_base_cost q) tier trust = Inr s"
proof -
  have sf: "profile_signs p" "profile_bounds_fit p" using val by (simp_all add: profile_validate_iff)
  have t: "0 \<le> sint t" "sint t \<le> spec_token_bound p"
    and b: "micro (quote_base_cost q) = spec_base_cost p (sint t)" using q by (simp_all add: quote_eq_Inr)
  let ?B = "spec_base_cost p (spec_token_bound p)"
  have b0: "0 \<le> micro (quote_base_cost q)" "micro (quote_base_cost q) \<le> ?B"
    using b spec_nonneg [OF sf(1) t(1)] spec_mono [OF sf(1) t(2)] by simp_all
  then show ok: "mq_ok (quote_base_cost q)" by (simp add: mq_ok_def)
  have d: "spec_deduction (micro (quote_base_cost q)) tier \<le> spec_deduction ?B High"
    using b0 tier_milli_bounds [of tier] by (intro spec_deduction_mono) (auto simp: tier_milli_def)
  moreover have "spec_share (spec_deduction (micro (quote_base_cost q)) tier) 1200 trust
      \<le> spec_share (spec_deduction ?B High) 1200 Enhanced"
    using d spec_deduction_nonneg [OF b0(1)] trust_milli_bounds [of trust]
    by (intro spec_share_mono) (auto simp: trust_milli_def)
  ultimately show "\<exists>s. Settlement_calculate (quote_base_cost q) tier trust = Inr s"
    using sf(2) by (auto simp: Settlement_calculate_ok_iff [OF ok] profile_bounds_fit_def Let_def)
qed

subsection \<open>Properties\<close>

text \<open>C28. On a profile that passes validation, a quote exists exactly for the token counts from one up to
  the profile's bound; its GPU time, VRAM integral and three costs are the published formulas with
  each part rounded up on its own, and the base cost is their sum. No such quote can overflow.\<close>

theorem quote_functional:
  assumes "profile_validate p = Inr ()"
  shows "case quote_server_reference_upper_bound p t of
      Inr q \<Rightarrow> 0 < sint t \<and> sint t \<le> spec_token_bound p \<and> billable_tokens q = t \<and>
        sint (reference_gpu_time_us q) = sint (fixed_gpu_time_us p)
          + \<lceil>real_of_int (sint t * sint (gpu_time_us_per_1k_tokens p)) / 1000\<rceil> \<and>
        sint (reference_vram_mib_microseconds q) = sint (reference_gpu_time_us q) * sint (reference_vram_mib p) \<and>
        micro (token_cost q) = \<lceil>real_of_int (sint t * sint (token_rate_micro_per_1k p)) / 1000\<rceil> \<and>
        micro (gpu_cost q) =
          \<lceil>real_of_int (sint (reference_gpu_time_us q) * sint (gpu_rate_micro_per_second p)) / 1000000\<rceil> \<and>
        micro (vram_cost q) =
          \<lceil>real_of_int (sint (reference_vram_mib_microseconds q) * sint (vram_rate_micro_per_gib_second p))
             / 1024000000\<rceil> \<and>
        micro (quote_base_cost q) = micro (token_cost q) + micro (gpu_cost q) + micro (vram_cost q)
    | Inl e \<Rightarrow> \<not> (0 < sint t \<and> sint t \<le> spec_token_bound p) \<and>
        e = (if sint t < 0 then NegativeAmount ''billable_tokens''
             else if sint t = 0 then InvalidBilling ''billable_tokens must be positive''
             else InvalidBilling ''billable_tokens exceeds the profile bound'')"
proof (cases "quote_server_reference_upper_bound p t")
  case (Inr q)
  have c: "\<lceil>real_of_int v / 1000\<rceil> = ceil_div v 1000" "\<lceil>real_of_int v / 1000000\<rceil> = ceil_div v 1000000"
    "\<lceil>real_of_int v / 1024000000\<rceil> = ceil_div v 1024000000" for v
    using ceil_div_real [of 1000 v] ceil_div_real [of 1000000 v] ceil_div_real [of 1024000000 v] by simp_all
  show ?thesis
    using Inr [unfolded quote_eq_Inr] unfolding Inr
    by (simp add: c spec_gpu_time_def spec_vram_def spec_token_cost_def spec_gpu_cost_def spec_vram_cost_def
        spec_base_cost_def del: of_int_mult)
next
  case (Inl e)
  have no: "\<not> (0 < sint t \<and> sint t \<le> spec_token_bound p)"
    using quote_exists [OF assms, of t] Inl by auto
  have "spec_token_bound p < 2 ^ 63" "0 \<le> spec_token_bound p"
    using assms by (simp_all add: profile_validate_iff profile_bounds_fit_def Let_def profile_signs_def spec_token_bound_def)
  then obtain m :: i64 where m: "sint m = spec_token_bound p" by (metis ex_sint_i64)
  then have "checked_add_i64 (maximum_input_tokens p) (maximum_output_tokens p) op = Inr m" for op
    by (simp add: checked_add_i64_eq_Inr spec_token_bound_def)
  with Inl no assms m show ?thesis
    by (auto simp: quote_server_reference_upper_bound_def require_positive_def require_nonnegative_def
        split: if_splits)
qed

definition sample_profile :: ServerReferenceBillingProfile where
  "sample_profile = \<lparr>maximum_input_tokens = 4096, maximum_output_tokens = 1024,
     fixed_gpu_time_us = 100000, gpu_time_us_per_1k_tokens = 2000000, reference_vram_mib = 8192,
     token_rate_micro_per_1k = 1000000, gpu_rate_micro_per_second = 2000,
     vram_rate_micro_per_gib_second = 3000\<rparr>"

lemma sample_profile_valid: "profile_validate sample_profile = Inr ()"
  by (simp add: profile_validate_iff profile_signs_def profile_bounds_fit_def Let_def sample_profile_def
      spec_token_bound_def spec_gpu_time_def spec_vram_def spec_token_cost_def spec_gpu_cost_def
      spec_vram_cost_def spec_base_cost_def spec_deduction_def spec_share_def tier_milli_def
      trust_milli_def ceil_div_def)

theorem quote_functional_witness:
  "\<exists>q. quote_server_reference_upper_bound sample_profile 1500 = Inr q \<and>
     sint (reference_gpu_time_us q) = 3100000 \<and> micro (quote_base_cost q) = 1580600"
proof -
  obtain q where q: "quote_server_reference_upper_bound sample_profile 1500 = Inr q"
    using quote_exists [OF sample_profile_valid, of 1500]
    by (auto simp: sample_profile_def spec_token_bound_def)
  from quote_functional [OF sample_profile_valid, of 1500] q show ?thesis
    by (auto simp: sample_profile_def simp del: of_int_sint)
qed

text \<open>C27. A reservation covers the job: whatever number of tokens up to the authorised total is billed,
  and whatever the node's tier and trust class, the quote and the settlement succeed and the
  consumer is never charged more than was reserved.\<close>

theorem reservation_covers_settlement:
  assumes "maximum_reservation_micro p ai ao = Inr reserved"
    and "0 < sint t" and "sint t \<le> sint ai + sint ao"
  shows "\<exists>q s. quote_server_reference_upper_bound p t = Inr q \<and>
    Settlement_calculate (quote_base_cost q) tier trust = Inr s \<and>
    micro (user_deduction s) \<le> micro reserved"
proof -
  obtain Q S where Q: "maximum_reservation_quote p ai ao = Inr Q"
    and S: "Settlement_calculate (quote_base_cost Q) High Enhanced = Inr S" and r: "reserved = user_deduction S"
    using assms(1) unfolding maximum_reservation_micro_def by (auto simp: and_then_eq_Inr)
  obtain m where m: "sint m = sint ai + sint ao" and Qm: "quote_server_reference_upper_bound p m = Inr Q"
    using Q unfolding maximum_reservation_quote_def and_then_eq_Inr if_Inl_eq_Inr checked_add_i64_eq_Inr by blast
  have val: "profile_validate p = Inr ()" and mb: "sint m \<le> spec_token_bound p"
    and B: "micro (quote_base_cost Q) = spec_base_cost p (sint m)" using Qm by (simp_all add: quote_eq_Inr)
  have signs: "profile_signs p" using val by (simp add: profile_validate_iff)
  obtain q where q: "quote_server_reference_upper_bound p t = Inr q"
    using quote_exists [OF val assms(2)] assms(3) mb m by auto
  obtain s where s: "Settlement_calculate (quote_base_cost q) tier trust = Inr s"
    using settlement_of_quote [OF val q] by blast
  have b: "micro (quote_base_cost q) = spec_base_cost p (sint t)" using q by (simp add: quote_eq_Inr)
  have "micro (user_deduction s) = spec_deduction (micro (quote_base_cost q)) tier"
    "micro reserved = spec_deduction (micro (quote_base_cost Q)) High"
    using s S r settlement_of_quote(1) [OF val] q Qm by (simp_all add: Settlement_calculate_eq_Inr)
  moreover have "spec_deduction (micro (quote_base_cost q)) tier \<le> spec_deduction (micro (quote_base_cost Q)) High"
    using b B spec_mono [OF signs, of "sint t" "sint m"] spec_nonneg [OF signs, of "sint t"] assms(2,3) m
      tier_milli_bounds [of tier]
    by (intro spec_deduction_mono) (auto simp: tier_milli_def)
  ultimately show ?thesis using q s by auto
qed

lemma reservation_exists:
  assumes "profile_validate p = Inr ()" "0 \<le> sint ai" "0 < sint ao"
    "sint ai \<le> sint (maximum_input_tokens p)" "sint ao \<le> sint (maximum_output_tokens p)"
  shows "\<exists>r. maximum_reservation_micro p ai ao = Inr r"
proof -
  obtain t :: i64 where t: "sint t = sint ai + sint ao" "0 < sint t" "sint t \<le> spec_token_bound p"
    using reservation_token_sum [OF assms] .
  obtain q where q: "quote_server_reference_upper_bound p t = Inr q" using quote_exists [OF assms(1) t(2,3)] ..
  obtain s where "Settlement_calculate (quote_base_cost q) High Enhanced = Inr s"
    using settlement_of_quote [OF assms(1) q] by blast
  then show ?thesis
    using q maximum_reservation_quote_eq [OF assms(2-5) t(1)] by (simp add: maximum_reservation_micro_def)
qed

theorem reservation_covers_settlement_witness:
  "\<exists>reserved q s. maximum_reservation_micro sample_profile 800 200 = Inr reserved \<and>
     quote_server_reference_upper_bound sample_profile 999 = Inr q \<and>
     Settlement_calculate (quote_base_cost q) Low Unverified = Inr s \<and>
     micro (user_deduction s) \<le> micro reserved"
proof -
  obtain r where r: "maximum_reservation_micro sample_profile 800 200 = Inr r"
    using reservation_exists [OF sample_profile_valid, of 800 200] by (auto simp: sample_profile_def)
  from reservation_covers_settlement [OF r, of 999 Low Unverified] r show ?thesis by auto
qed

end
