(* ===== verification/RustStr.thy ===== *)
theory RustStr
  imports Prelude "HOL-Library.List_Lexorder"
begin

text \<open>
  Rust's \<open>String\<close> and \<open>str\<close>: a string is its list of Unicode scalar values (\<open>chars()\<close>), and its bytes are
  its UTF-8 encoding, so \<open>len()\<close> is the number of bytes and not of characters. Literals are
  written \<open>lit ''abc''\<close>. The standard library's predicates \<open>char::is_control\<close> (general category
  Cc) and \<open>char::is_whitespace\<close> (White\_Space), \<open>trim\<close>, \<open>to_ascii_lowercase\<close>, integer
  formatting and the length-prefixed field of the ledger's canonical form are defined here. The byte
  order of UTF-8 is the order of scalar values, so \<open>Ord for str\<close> is the lexicographic order of
  the list.
\<close>

type_synonym uchar = nat
type_synonym rstring = "uchar list"
type_synonym bytes = "nat list"

definition lit :: "string \<Rightarrow> rstring" where
  "lit s = map of_char s"

lemma lit_simps [simp]: "lit [] = []" "lit (c # s) = of_char c # lit s"
  by (simp_all add: lit_def)

section \<open>Characters\<close>

definition is_control :: "uchar \<Rightarrow> bool" where
  "is_control c \<longleftrightarrow> c < 32 \<or> (127 \<le> c \<and> c < 160)"

definition is_whitespace :: "uchar \<Rightarrow> bool" where
  "is_whitespace c \<longleftrightarrow>
     (9 \<le> c \<and> c \<le> 13) \<or> c = 32 \<or> c = 133 \<or> c = 160 \<or> c = 5760 \<or>
     (8192 \<le> c \<and> c \<le> 8202) \<or> c = 8232 \<or> c = 8233 \<or> c = 8239 \<or> c = 8287 \<or> c = 12288"

definition is_ascii_digit :: "nat \<Rightarrow> bool" where
  "is_ascii_digit b \<longleftrightarrow> 48 \<le> b \<and> b \<le> 57"

definition ascii_lower_char :: "uchar \<Rightarrow> uchar" where
  "ascii_lower_char c = (if 65 \<le> c \<and> c \<le> 90 then c + 32 else c)"

definition to_ascii_lowercase :: "rstring \<Rightarrow> rstring" where
  "to_ascii_lowercase s = map ascii_lower_char s"

definition is_ascii_str :: "rstring \<Rightarrow> bool" where
  "is_ascii_str s \<longleftrightarrow> list_all (\<lambda>c. c < 128) s"

definition trim :: "rstring \<Rightarrow> rstring" where
  "trim s = rev (dropWhile is_whitespace (rev (dropWhile is_whitespace s)))"

definition any_control :: "rstring \<Rightarrow> bool" where
  "any_control s \<longleftrightarrow> list_ex is_control s"

lemma trim_Nil [simp]: "trim [] = []"
  by (simp add: trim_def)

lemma trim_eq_Nil_iff: "trim s = [] \<longleftrightarrow> (\<forall>c \<in> set s. is_whitespace c)"
proof
  assume "trim s = []"
  then have ws: "\<forall>c \<in> set (dropWhile is_whitespace s). is_whitespace c"
    by (simp add: trim_def dropWhile_eq_Nil_conv)
  have "dropWhile is_whitespace s = []"
  proof (rule ccontr)
    assume ne: "dropWhile is_whitespace s \<noteq> []"
    with ws hd_dropWhile [OF ne] show False by simp
  qed
  then show "\<forall>c \<in> set s. is_whitespace c" by (simp add: dropWhile_eq_Nil_conv)
next
  assume "\<forall>c \<in> set s. is_whitespace c"
  then have d: "dropWhile is_whitespace s = []" by (simp add: dropWhile_eq_Nil_conv)
  show "trim s = []" unfolding trim_def d by simp
qed

lemma dropWhile_hd: "s \<noteq> [] \<Longrightarrow> \<not> P (hd s) \<Longrightarrow> dropWhile P s = s"
  by (cases s) auto

lemma trim_no_ws: "s \<noteq> [] \<Longrightarrow> \<not> is_whitespace (hd s) \<Longrightarrow> \<not> is_whitespace (last s) \<Longrightarrow> trim s = s"
  by (simp add: trim_def dropWhile_hd hd_rev)

lemma hd_trim: "trim s \<noteq> [] \<Longrightarrow> \<not> is_whitespace (hd (trim s))"
proof -
  assume ne: "trim s \<noteq> []"
  define t where "t = dropWhile is_whitespace s"
  obtain w where w: "t = rev (dropWhile is_whitespace (rev t)) @ w"
    by (metis rev_append rev_rev_ident takeWhile_dropWhile_id)
  have tr: "trim s = rev (dropWhile is_whitespace (rev t))" by (simp add: trim_def t_def)
  with ne w have "hd (trim s) = hd t" "t \<noteq> []" by (metis hd_append2, metis append_is_Nil_conv)
  then show ?thesis unfolding t_def using hd_dropWhile by metis
qed

lemma last_trim: "trim s \<noteq> [] \<Longrightarrow> \<not> is_whitespace (last (trim s))"
  unfolding trim_def by (metis hd_dropWhile last_rev rev_is_Nil_conv)

lemma trim_trim [simp]: "trim (trim s) = trim s"
  using trim_no_ws hd_trim last_trim by (cases "trim s = []") auto

lemma ascii_lower_char_idem [simp]: "ascii_lower_char (ascii_lower_char c) = ascii_lower_char c"
  by (simp add: ascii_lower_char_def)

lemma to_ascii_lowercase_idem [simp]:
  "to_ascii_lowercase (to_ascii_lowercase s) = to_ascii_lowercase s"
  by (simp add: to_ascii_lowercase_def)

lemma is_whitespace_lower [simp]: "is_whitespace (ascii_lower_char c) \<longleftrightarrow> is_whitespace c"
  by (auto simp: is_whitespace_def ascii_lower_char_def)

lemma trim_lower: "trim (to_ascii_lowercase s) = to_ascii_lowercase (trim s)"
  by (simp add: trim_def to_ascii_lowercase_def dropWhile_map rev_map comp_def)

section \<open>UTF-8\<close>

definition utf8_char :: "uchar \<Rightarrow> bytes" where
  "utf8_char c =
     (if c < 128 then [c]
      else if c < 2048 then [192 + c div 64, 128 + c mod 64]
      else if c < 65536 then [224 + c div 4096, 128 + c div 64 mod 64, 128 + c mod 64]
      else [240 + c div 262144, 128 + c div 4096 mod 64, 128 + c div 64 mod 64, 128 + c mod 64])"

definition utf8 :: "rstring \<Rightarrow> bytes" where
  "utf8 s = concat (map utf8_char s)"

definition str_len :: "rstring \<Rightarrow> nat" where
  "str_len s = length (utf8 s)"

lemma utf8_simps [simp]: "utf8 [] = []" "utf8 (c # s) = utf8_char c @ utf8 s" "utf8 (s @ t) = utf8 s @ utf8 t"
  by (simp_all add: utf8_def)

lemma utf8_char_neq_Nil [simp]: "utf8_char c \<noteq> []"
  by (simp add: utf8_char_def)

lemma str_len_simps [simp]:
  "str_len [] = 0"
  "str_len (c # s) = length (utf8_char c) + str_len s"
  "str_len (s @ t) = str_len s + str_len t"
  by (simp_all add: str_len_def)

lemma length_utf8_char:
  "length (utf8_char c) = (if c < 128 then 1 else if c < 2048 then 2 else if c < 65536 then 3 else 4)"
  by (simp add: utf8_char_def)

lemma str_len_ge_length: "length s \<le> str_len s"
  by (induction s) (auto simp: length_utf8_char)

lemma utf8_ascii: "is_ascii_str s \<Longrightarrow> utf8 s = s"
  by (induction s) (auto simp: is_ascii_str_def utf8_char_def)

lemma str_len_ascii: "is_ascii_str s \<Longrightarrow> str_len s = length s"
  by (simp add: str_len_def utf8_ascii)

lemma str_len_eq_0 [simp]: "str_len s = 0 \<longleftrightarrow> s = []"
  by (cases s) auto

text \<open>UTF-8 is a prefix code: the first byte fixes the number of bytes.\<close>

lemma utf8_char_prefix_free: "utf8_char c @ r = utf8_char d @ q \<Longrightarrow> c = d \<and> r = q"
proof -
  have split2: "n = n div 64 * 64 + n mod 64" for n :: nat by simp
  assume eq: "utf8_char c @ r = utf8_char d @ q"
  have len: "length (utf8_char c) = length (utf8_char d)"
    using eq by (auto simp: utf8_char_def split: if_splits)
  with eq have "utf8_char c = utf8_char d" "r = q" by auto
  then show ?thesis
  proof (intro conjI)
    assume u: "utf8_char c = utf8_char d"
    consider "c < 128" | "\<not> c < 128" "c < 2048" | "\<not> c < 2048" "c < 65536" | "\<not> c < 65536" by linarith
    then show "c = d"
    proof cases
      case 1
      with u len show ?thesis by (auto simp: utf8_char_def split: if_splits)
    next
      case 2
      with u len have "c div 64 = d div 64 \<and> c mod 64 = d mod 64"
        by (auto simp: utf8_char_def split: if_splits)
      then show ?thesis by (metis split2)
    next
      case 3
      with u len have "c div 64 div 64 = d div 64 div 64 \<and> c div 64 mod 64 = d div 64 mod 64 \<and> c mod 64 = d mod 64"
        by (auto simp: utf8_char_def div_mult2_eq [of _ 64 64, simplified] split: if_splits)
      then show ?thesis by (metis split2)
    next
      case 4
      with u len have "c div 64 div 64 div 64 = d div 64 div 64 div 64
          \<and> c div 64 div 64 mod 64 = d div 64 div 64 mod 64
          \<and> c div 64 mod 64 = d div 64 mod 64 \<and> c mod 64 = d mod 64"
        by (auto simp: utf8_char_def div_mult2_eq [of _ 64 64, simplified]
            div_mult2_eq [of _ 64 4096, simplified] split: if_splits)
      then show ?thesis by (metis split2)
    qed
  qed
qed

lemma utf8_inject: "utf8 s = utf8 t \<longleftrightarrow> s = t"
proof (induction s arbitrary: t)
  case Nil
  then show ?case by (cases t) auto
next
  case (Cons c s)
  then show ?case by (cases t) (auto dest: utf8_char_prefix_free)
qed

section \<open>Formatting integers\<close>

fun dec_nat :: "nat \<Rightarrow> rstring" where
  "dec_nat n = (if n < 10 then [48 + n] else dec_nat (n div 10) @ [48 + n mod 10])"

declare dec_nat.simps [simp del]

definition dec_int :: "int \<Rightarrow> rstring" where
  "dec_int i = (if i < 0 then 45 # dec_nat (nat (- i)) else dec_nat (nat i))"

definition undec :: "rstring \<Rightarrow> nat" where
  "undec s = foldl (\<lambda>a c. a * 10 + (c - 48)) 0 s"

lemma undec_dec_nat: "undec (dec_nat n) = n"
proof (induction n rule: dec_nat.induct)
  case (1 n)
  show ?case
  proof (cases "n < 10")
    case True
    then show ?thesis by (simp add: dec_nat.simps [of n] undec_def)
  next
    case False
    with 1 have "undec (dec_nat (n div 10)) = n div 10" by simp
    with False show ?thesis by (simp add: dec_nat.simps [of n] undec_def)
  qed
qed

lemma dec_nat_inject [simp]: "dec_nat m = dec_nat n \<longleftrightarrow> m = n"
  by (metis undec_dec_nat)

lemma dec_nat_digits: "c \<in> set (dec_nat n) \<Longrightarrow> is_ascii_digit c"
proof (induction n rule: dec_nat.induct)
  case (1 n)
  then show ?case
    by (cases "n < 10") (auto simp: dec_nat.simps [of n] is_ascii_digit_def)
qed

lemma dec_int_inject [simp]: "dec_int i = dec_int j \<longleftrightarrow> i = j"
proof -
  have "45 # s \<noteq> dec_nat n" for s n
  proof
    assume "45 # s = dec_nat n"
    then have "45 \<in> set (dec_nat n)" by (metis list.set_intros(1))
    then show False using dec_nat_digits [of 45 n] by (simp add: is_ascii_digit_def)
  qed
  then show ?thesis by (auto simp: dec_int_def) metis
qed

lemma dec_nat_ascii: "utf8 (dec_nat n) = dec_nat n"
  by (rule utf8_ascii) (force simp: is_ascii_str_def list_all_iff is_ascii_digit_def dest: dec_nat_digits)

section \<open>Hexadecimal digests\<close>

text \<open>\<open>len() == 64 && bytes().all(|b| b.is_ascii_digit() || (b'a'..=b'f').contains(&b))\<close>\<close>

definition is_lower_hex :: "nat \<Rightarrow> bool" where
  "is_lower_hex b \<longleftrightarrow> is_ascii_digit b \<or> (97 \<le> b \<and> b \<le> 102)"

end
