(* ===== verification/Reserve.thy ===== *)
theory Reserve
  imports Fixed RustStr
begin

text \<open>
  \<open>crates/mindone-accounting/src/reserve.rs\<close>: the network reserve. The methods take \<open>&mut self\<close>, so
  each is a function from the state to its result and the state it leaves, error paths included:
  an assignment made before a later \<open>?\<close> stays made.

  The invariant \<open>reserve_ok\<close> (non-negative totals, balance = inflow - outflow) is kept by every
  successful operation, \<open>release\<close> is all-or-nothing, and \<open>add_inflow\<close> is shown not to be.
\<close>

datatype ReservePurpose = ResultValidation | FailedRetry | BandwidthSubsidy | PeakGuarantee

record ReserveRelease =
  rr_id :: Uuid
  rr_purpose :: ReservePurpose
  rr_amount :: MicroQuota
  rr_reference_id :: rstring
  rr_created_at :: OffsetDateTime
  rr_balance_before :: MicroQuota
  rr_balance_after :: MicroQuota

record ReserveState =
  balance :: MicroQuota
  total_inflow :: MicroQuota
  total_outflow :: MicroQuota

definition ReserveState_default :: ReserveState where
  "ReserveState_default =
     \<lparr>balance = MicroQuota_zero, total_inflow = MicroQuota_zero, total_outflow = MicroQuota_zero\<rparr>"

definition add_inflow :: "ReserveState \<Rightarrow> MicroQuota \<Rightarrow> unit acct \<times> ReserveState" where
  "add_inflow self amount =
     (if amount = MicroQuota_zero then (Inl (InvalidReserveRelease ''zero inflow''), self)
      else case mq_checked_add (balance self) amount of
        Inl e \<Rightarrow> (Inl e, self)
      | Inr b \<Rightarrow>
          let self' = self\<lparr>balance := b\<rparr> in
          case mq_checked_add (total_inflow self') amount of
            Inl e \<Rightarrow> (Inl e, self')
          | Inr t \<Rightarrow> (Inr (), self'\<lparr>total_inflow := t\<rparr>))"

definition valid_reference :: "rstring \<Rightarrow> bool" where
  "valid_reference r \<longleftrightarrow> \<not> (trim r = [] \<or> str_len r > 255 \<or> any_control r)"

definition release ::
    "ReserveState \<Rightarrow> Uuid \<Rightarrow> ReservePurpose \<Rightarrow> MicroQuota \<Rightarrow> rstring \<Rightarrow> OffsetDateTime \<Rightarrow>
     ReserveRelease acct \<times> ReserveState" where
  "release self rid purpose amount reference created =
     (if amount = MicroQuota_zero then (Inl (InvalidReserveRelease ''zero release''), self)
      else if \<not> valid_reference reference
      then (Inl (InvalidReserveRelease ''invalid audit reference''), self)
      else
        let before = balance self in
        case mq_checked_sub (balance self) amount of
          Inl e \<Rightarrow> (Inl e, self)
        | Inr after \<Rightarrow>
          (case mq_checked_add (total_outflow self) amount of
            Inl e \<Rightarrow> (Inl e, self)
          | Inr out \<Rightarrow>
              (Inr \<lparr>rr_id = rid, rr_purpose = purpose, rr_amount = amount, rr_reference_id = reference,
                    rr_created_at = created, rr_balance_before = before, rr_balance_after = after\<rparr>,
               self\<lparr>balance := after, total_outflow := out\<rparr>)))"

section \<open>Invariant\<close>

definition reserve_ok :: "ReserveState \<Rightarrow> bool" where
  "reserve_ok s \<longleftrightarrow>
     mq_ok (balance s) \<and> mq_ok (total_inflow s) \<and> mq_ok (total_outflow s) \<and>
     micro (balance s) = micro (total_inflow s) - micro (total_outflow s)"

lemma reserve_ok_default: "reserve_ok ReserveState_default"
  by (simp add: reserve_ok_def ReserveState_default_def)

lemma add_inflow_ok:
  assumes "reserve_ok s" "mq_ok amount" "add_inflow s amount = (Inr u, s')"
  shows "reserve_ok s'" "micro (balance s') = micro (balance s) + micro amount"
    "micro (total_inflow s') = micro (total_inflow s) + micro amount" "total_outflow s' = total_outflow s"
proof -
  from assms(3) obtain b t where
    b: "mq_checked_add (balance s) amount = Inr b" and
    t: "mq_checked_add (total_inflow s) amount = Inr t" and
    s': "s' = s\<lparr>balance := b, total_inflow := t\<rparr>"
    by (auto simp: add_inflow_def Let_def split: if_splits sum.splits)
  have ok: "mq_ok (balance s)" "mq_ok (total_inflow s)" "mq_ok (total_outflow s)"
    using assms(1) by (simp_all add: reserve_ok_def)
  note bb = mq.add_exact [OF ok(1) assms(2) b] and tt = mq.add_exact [OF ok(2) assms(2) t]
  then show "reserve_ok s'" "micro (balance s') = micro (balance s) + micro amount"
    "micro (total_inflow s') = micro (total_inflow s) + micro amount" "total_outflow s' = total_outflow s"
    using assms(1) s' by (simp_all add: reserve_ok_def)
qed

lemma release_ok:
  assumes "reserve_ok s" "mq_ok amount" "release s rid purpose amount r c = (Inr rel, s')"
  shows "reserve_ok s'" "micro (balance s') = micro (balance s) - micro amount"
    "rr_balance_before rel = balance s" "rr_balance_after rel = balance s'" "rr_amount rel = amount"
    "total_inflow s' = total_inflow s"
proof -
  from assms(3) obtain b t where
    b: "mq_checked_sub (balance s) amount = Inr b" and
    t: "mq_checked_add (total_outflow s) amount = Inr t" and
    s': "s' = s\<lparr>balance := b, total_outflow := t\<rparr>" and
    rel: "rr_balance_before rel = balance s" "rr_balance_after rel = b" "rr_amount rel = amount"
    by (auto simp: release_def Let_def split: if_splits sum.splits)
  have ok: "mq_ok (balance s)" "mq_ok (total_inflow s)" "mq_ok (total_outflow s)"
    using assms(1) by (simp_all add: reserve_ok_def)
  note bb = mq.sub_exact [OF ok(1) assms(2) b] and tt = mq.add_exact [OF ok(3) assms(2) t]
  then show "reserve_ok s'" "micro (balance s') = micro (balance s) - micro amount"
    "rr_balance_before rel = balance s" "rr_balance_after rel = balance s'" "rr_amount rel = amount"
    "total_inflow s' = total_inflow s"
    using assms(1) s' rel by (simp_all add: reserve_ok_def)
qed

lemma release_error_keeps_state: "release s rid purpose amount r c = (Inl e, s') \<Longrightarrow> s' = s"
  by (auto simp: release_def Let_def split: if_splits sum.splits)

text \<open>Under the invariant the outflow total cannot overflow, so a release has three ways to fail.\<close>

lemma release_succeeds_iff:
  assumes "reserve_ok s" "mq_ok amount"
  shows "(\<exists>rel. fst (release s rid purpose amount r c) = Inr rel) \<longleftrightarrow>
     0 < micro amount \<and> valid_reference r \<and> micro amount \<le> micro (balance s)"
proof -
  have ok: "mq_ok (balance s)" "mq_ok (total_inflow s)" "mq_ok (total_outflow s)"
    using assms(1) by (simp_all add: reserve_ok_def)
  have nz: "amount = MicroQuota_zero \<longleftrightarrow> \<not> 0 < micro amount"
    using assms(2) micro_eq_0 [of amount] by (auto simp: mq_ok_def)
  have out: "\<exists>t. mq_checked_add (total_outflow s) amount = Inr t" if "micro amount \<le> micro (balance s)"
  proof -
    have "0 \<le> micro (total_outflow s) + micro amount" "micro (total_outflow s) + micro amount < 2 ^ 63"
      using that assms micro_bounds [of "total_inflow s"] by (auto simp: reserve_ok_def mq_ok_def)
    then obtain t where "micro t = micro (total_outflow s) + micro amount" using micro_surj by blast
    then have "mq_checked_add (total_outflow s) amount = Inr t"
      using \<open>0 \<le> micro (total_outflow s) + micro amount\<close> by (simp add: mq_checked_add_eq_Inr)
    then show ?thesis ..
  qed
  have sub: "(\<exists>b. mq_checked_sub (balance s) amount = Inr b) \<longleftrightarrow> micro amount \<le> micro (balance s)"
    using mq.sub_total [OF ok(1) assms(2)] .
  show ?thesis
    using out sub nz by (auto simp: release_def Let_def split: sum.splits)
qed

subsection \<open>Runs\<close>

datatype reserve_op =
    Inflow MicroQuota
  | Release Uuid ReservePurpose MicroQuota rstring OffsetDateTime

fun op_amount :: "reserve_op \<Rightarrow> MicroQuota" where
  "op_amount (Inflow a) = a"
| "op_amount (Release _ _ a _ _) = a"

text \<open>A caller that leaves at the first error, as the code's callers do with \<open>?\<close>.\<close>

fun run_reserve :: "ReserveState \<Rightarrow> reserve_op list \<Rightarrow> AccountingError + ReserveState" where
  "run_reserve s [] = Inr s"
| "run_reserve s (Inflow a # xs) =
     (case add_inflow s a of (Inl e, _) \<Rightarrow> Inl e | (Inr _, s') \<Rightarrow> run_reserve s' xs)"
| "run_reserve s (Release i p a r c # xs) =
     (case release s i p a r c of (Inl e, _) \<Rightarrow> Inl e | (Inr _, s') \<Rightarrow> run_reserve s' xs)"

fun op_delta :: "reserve_op \<Rightarrow> int" where
  "op_delta (Inflow a) = micro a"
| "op_delta (Release _ _ a _ _) = - micro a"

lemma run_reserve_ok:
  assumes "run_reserve s xs = Inr s'" "reserve_ok s" "\<forall>x \<in> set xs. mq_ok (op_amount x)"
  shows "reserve_ok s' \<and> micro (balance s') = micro (balance s) + sum_list (map op_delta xs)"
  using assms
proof (induction s xs rule: run_reserve.induct)
  case (2 s a xs)
  then obtain u s1 where s1: "add_inflow s a = (Inr u, s1)" "run_reserve s1 xs = Inr s'"
    by (auto split: sum.splits prod.splits)
  have "reserve_ok s1" "micro (balance s1) = micro (balance s) + micro a"
    using add_inflow_ok [OF _ _ s1(1)] 2 by auto
  with 2 s1 show ?case by auto
next
  case (3 s i p a r c xs)
  then obtain rel s1 where s1: "release s i p a r c = (Inr rel, s1)" "run_reserve s1 xs = Inr s'"
    by (auto split: sum.splits prod.splits)
  have "reserve_ok s1" "micro (balance s1) = micro (balance s) - micro a"
    using release_ok [OF _ _ s1(1)] 3 by auto
  with 3 s1 show ?case by auto
qed simp

subsection \<open>Properties\<close>

text \<open>C32. Whatever inflows and audited releases succeed, starting from the empty reserve, the balance
  is never negative, equals total inflow minus total outflow, and is the sum of the amounts paid in
  less the amounts released.\<close>

theorem reserve_balance_invariant:
  assumes "run_reserve ReserveState_default xs = Inr s" and "\<forall>x \<in> set xs. mq_ok (op_amount x)"
  shows "0 \<le> micro (balance s) \<and>
    micro (balance s) = micro (total_inflow s) - micro (total_outflow s) \<and>
    micro (balance s) = sum_list (map op_delta xs)"
  using run_reserve_ok [OF assms(1) reserve_ok_default assms(2)]
  by (simp add: reserve_ok_def mq_ok_def ReserveState_default_def)

theorem reserve_balance_invariant_witness:
  "\<exists>s. run_reserve ReserveState_default
         [Inflow (MicroQuota 1000), Release 1 FailedRetry (MicroQuota 400) (lit ''job-attempt-2'') 0] = Inr s
       \<and> micro (balance s) = 600 \<and> micro (balance s) = micro (total_inflow s) - micro (total_outflow s)"
proof -
  let ?xs = "[Inflow (MicroQuota 1000), Release 1 FailedRetry (MicroQuota 400) (lit ''job-attempt-2'') 0]"
  have "\<exists>s. run_reserve ReserveState_default ?xs = Inr s"
    by (simp add: add_inflow_def release_def ReserveState_default_def MicroQuota_zero_def Let_def
        mq_checked_add_def mq_checked_sub_def s_checked_add_def MicroQuota_new_def valid_reference_def
        trim_def is_whitespace_def any_control_def is_control_def utf8_char_def)
  then obtain s where s: "run_reserve ReserveState_default ?xs = Inr s" ..
  have "\<forall>x \<in> set ?xs. mq_ok (op_amount x)" by (simp add: mq_ok_def)
  from reserve_balance_invariant [OF s this] s show ?thesis by auto
qed

text \<open>A release is all-or-nothing: under the reserve's invariant it succeeds exactly for a positive
  amount with a valid audit reference and a sufficient balance, it then moves exactly that amount and
  reports the balances before and after, and otherwise it leaves the reserve as it was.\<close>

theorem release_atomic:
  assumes "reserve_ok s" and "mq_ok amount"
  shows "case release s rid purpose amount reference created of
      (Inr rel, s') \<Rightarrow>
        0 < micro amount \<and> valid_reference reference \<and> micro amount \<le> micro (balance s) \<and>
        reserve_ok s' \<and> micro (balance s') = micro (balance s) - micro amount \<and>
        rr_balance_before rel = balance s \<and> rr_balance_after rel = balance s'
    | (Inl e, s') \<Rightarrow> s' = s \<and>
        \<not> (0 < micro amount \<and> valid_reference reference \<and> micro amount \<le> micro (balance s))"
proof (cases "release s rid purpose amount reference created")
  case (Pair res s')
  then show ?thesis
    using release_succeeds_iff [OF assms, of rid purpose reference created]
      release_ok [OF assms] release_error_keeps_state
    by (cases res) auto
qed

theorem release_atomic_witness:
  "reserve_ok ReserveState_default \<and>
   (\<exists>e. release ReserveState_default 2 PeakGuarantee (MicroQuota 700) (lit ''peak-1'') 0
          = (Inl e, ReserveState_default))"
proof -
  have "mq_ok (MicroQuota 700)" by (simp add: mq_ok_def)
  from release_atomic [OF reserve_ok_default this, where rid = 2 and purpose = PeakGuarantee and reference = "lit ''peak-1''" and created = 0]
  show ?thesis
    using reserve_ok_default
    by (cases "release ReserveState_default 2 PeakGuarantee (MicroQuota 700) (lit ''peak-1'') 0")
       (auto simp: ReserveState_default_def split: sum.splits)
qed




end
