(* ===== verification/Ledger.thy ===== *)
theory Ledger
  imports Fixed RustStr
begin

text \<open>
  \<open>crates/mindone-accounting/src/ledger.rs\<close>: append-only ledger entries, their canonical byte form and
  the hash chain. Two third-party functions are parameters: \<open>sha256_hex\<close> (\<open>hex::encode\<close> of
  \<open>Sha256::digest\<close>) and \<open>uuid_text\<close> (\<open>Uuid::to_string\<close>). Nothing is assumed of the first; where a
  property needs that distinct identifiers print differently and never as the empty string, it says
  so. A \<open>BTreeMap<String, String>\<close> is its association list in iteration order, which is the key
  order (\<open>btree_ok\<close>).

  The locale \<open>hash_chain\<close> proves once that the hash of the last entry fixes the whole chain, or
  else exhibits a collision of the digest. It is interpreted on the ledger's own definitions.
\<close>

section \<open>Kinds\<close>

definition GENESIS_HASH :: rstring where
  "GENESIS_HASH = replicate 64 48"

definition LEDGER_HASH_VERSION :: i16 where
  "LEDGER_HASH_VERSION = 2"

definition LEDGER_HASH_DOMAIN :: rstring where
  "LEDGER_HASH_DOMAIN = lit ''mindone-ledger''"

definition POSTGRES_EPOCH_UNIX_SECONDS :: int where
  "POSTGRES_EPOCH_UNIX_SECONDS = 946684800"

datatype LedgerKind =
    ConsumerDeduction
  | NodeQuotaCredit
  | ContributionCredit
  | ReserveInflow
  | ReserveReleaseKind
  | BootstrapGrant
  | OperatorGrant

definition expects_debit :: "LedgerKind \<Rightarrow> bool" where
  "expects_debit k \<longleftrightarrow> (case k of ConsumerDeduction \<Rightarrow> True | ReserveReleaseKind \<Rightarrow> True | _ \<Rightarrow> False)"

fun scope :: "LedgerKind \<Rightarrow> rstring" where
  "scope ConsumerDeduction = lit ''quota''"
| "scope NodeQuotaCredit = lit ''quota''"
| "scope BootstrapGrant = lit ''quota''"
| "scope OperatorGrant = lit ''quota''"
| "scope ContributionCredit = lit ''contribution''"
| "scope ReserveInflow = lit ''reserve''"
| "scope ReserveReleaseKind = lit ''reserve''"

type_synonym btree = "(rstring \<times> rstring) list"

definition btree_ok :: "btree \<Rightarrow> bool" where
  "btree_ok m \<longleftrightarrow> sorted_wrt (<) (map fst m)"

fun fixed_entry_type :: "LedgerKind \<Rightarrow> rstring option" where
  "fixed_entry_type ConsumerDeduction = Some (lit ''consumer_deduction'')"
| "fixed_entry_type NodeQuotaCredit = Some (lit ''node_reward'')"
| "fixed_entry_type ContributionCredit = Some (lit ''node_contribution'')"
| "fixed_entry_type ReserveInflow = Some (lit ''settlement_inflow'')"
| "fixed_entry_type BootstrapGrant = Some (lit ''bootstrap_grant'')"
| "fixed_entry_type OperatorGrant = Some (lit ''operator_grant'')"
| "fixed_entry_type ReserveReleaseKind = None"

definition release_purposes :: "rstring list" where
  "release_purposes = [lit ''verification'', lit ''retry'', lit ''bandwidth'', lit ''peak_capacity'']"

definition entry_type :: "LedgerKind \<Rightarrow> btree \<Rightarrow> rstring acct" where
  "entry_type k metadata =
     (case fixed_entry_type k of
        Some fixed \<Rightarrow> Inr fixed
      | None \<Rightarrow>
          ok_or (case map_of metadata (lit ''purpose'') of
                   Some p \<Rightarrow> if List.member release_purposes p then Some p else None
                 | None \<Rightarrow> None)
            (InvalidLedger ''release purpose''))"

section \<open>Entries\<close>

record LedgerEntry =
  hash_version :: i16
  entry_id :: Uuid
  account_id :: Uuid
  request_id :: "Uuid option"
  idempotency_key :: rstring
  kind :: LedgerKind
  amount_micro :: i64
  balance_before_micro :: i64
  balance_after_micro :: i64
  created_at :: OffsetDateTime
  previous_hash :: rstring
  metadata :: btree
  hash :: rstring

definition append_canonical_field :: "bytes \<Rightarrow> rstring \<Rightarrow> bytes" where
  "append_canonical_field out value = out @ utf8 (dec_nat (str_len value)) @ [58] @ utf8 value"

text \<open>
  The timestamp as PostgreSQL stores it: whole microseconds since 2000-01-01, truncated towards
  zero, shifted back to the Unix epoch, and refused when it does not fit an \<open>i64\<close>. The \<open>i128\<close>
  arithmetic of the code is exact on every representable date.
\<close>

definition created_at_unix_micros :: "OffsetDateTime \<Rightarrow> i64 acct" where
  "created_at_unix_micros t =
     (let v = (t - POSTGRES_EPOCH_UNIX_SECONDS * 1000000000) sdiv 1000 + POSTGRES_EPOCH_UNIX_SECONDS * 1000000;
          w = word_of_int v
      in if sint w = v then Inr w else Inl (InvalidLedger ''timestamp out of range''))"

definition canonical_fields :: "(Uuid \<Rightarrow> rstring) \<Rightarrow> LedgerEntry \<Rightarrow> i64 \<Rightarrow> rstring \<Rightarrow> rstring list" where
  "canonical_fields uuid_text e micros etype =
     [LEDGER_HASH_DOMAIN,
      dec_int (sint (hash_version e)),
      scope (kind e),
      uuid_text (entry_id e),
      uuid_text (account_id e),
      (case request_id e of Some r \<Rightarrow> uuid_text r | None \<Rightarrow> []),
      idempotency_key e,
      etype,
      dec_int (sint (amount_micro e)),
      dec_int (sint (balance_before_micro e)),
      dec_int (sint (balance_after_micro e)),
      dec_int (sint micros),
      previous_hash e,
      dec_nat (length (metadata e))]
     @ concat (map (\<lambda>(k, v). [k, v]) (metadata e))"

definition recompute_hash :: "(bytes \<Rightarrow> rstring) \<Rightarrow> (Uuid \<Rightarrow> rstring) \<Rightarrow> LedgerEntry \<Rightarrow> rstring acct" where
  "recompute_hash sha256_hex uuid_text e =
     (if hash_version e \<noteq> LEDGER_HASH_VERSION then Inl (InvalidLedger ''hash version'')
      else
        and_then (created_at_unix_micros (created_at e)) (\<lambda>micros.
        and_then (entry_type (kind e) (metadata e)) (\<lambda>etype.
          Inr (sha256_hex (foldl append_canonical_field [] (canonical_fields uuid_text e micros etype))))))"

definition is_sha256 :: "rstring \<Rightarrow> bool" where
  "is_sha256 value \<longleftrightarrow> str_len value = 64 \<and> list_all is_lower_hex (utf8 value)"

definition valid_metadata_pair :: "rstring \<times> rstring \<Rightarrow> bool" where
  "valid_metadata_pair = (\<lambda>(key, value).
     \<not> (key = [] \<or> str_len key > 128 \<or> any_control key \<or> str_len value > 2048 \<or> any_control value))"

definition validate_fields :: "LedgerEntry \<Rightarrow> unit acct" where
  "validate_fields e =
     (if hash_version e \<noteq> LEDGER_HASH_VERSION then Inl (InvalidLedger ''hash version'')
      else if \<not> is_sha256 (previous_hash e) then Inl (InvalidLedger ''previous hash'')
      else if amount_micro e = 0 \<and> kind e \<noteq> ContributionCredit then Inl (InvalidLedger ''zero amount'')
      else if trim (idempotency_key e) = [] \<or> str_len (idempotency_key e) > 255
              \<or> any_control (idempotency_key e)
      then Inl (InvalidLedger ''idempotency key'')
      else if expects_debit (kind e) \<noteq> (sint (amount_micro e) < 0) then Inl (InvalidLedger ''direction'')
      else if sint (balance_before_micro e) < 0 \<or> sint (balance_after_micro e) < 0
      then Inl (InvalidLedger ''negative balance'')
      else
        and_then (ok_or (s_checked_add (balance_before_micro e) (amount_micro e)) (Overflow ''ledger balance''))
          (\<lambda>expected_after.
             if expected_after \<noteq> balance_after_micro e then Inl (InvalidLedger ''balance change'')
             else if list_ex (\<lambda>kv. \<not> valid_metadata_pair kv) (metadata e)
             then Inl (InvalidLedger ''metadata'')
             else Inr ()))"

definition LedgerEntry_new ::
    "(bytes \<Rightarrow> rstring) \<Rightarrow> (Uuid \<Rightarrow> rstring) \<Rightarrow> Uuid \<Rightarrow> Uuid \<Rightarrow> Uuid option \<Rightarrow> rstring \<Rightarrow> LedgerKind \<Rightarrow>
     i64 \<Rightarrow> i64 \<Rightarrow> i64 \<Rightarrow> OffsetDateTime \<Rightarrow> rstring \<Rightarrow> btree \<Rightarrow> LedgerEntry acct" where
  "LedgerEntry_new sha256_hex uuid_text eid account request key k amount before after created previous meta =
     (let entry = \<lparr>hash_version = LEDGER_HASH_VERSION, entry_id = eid, account_id = account,
                   request_id = request, idempotency_key = key, kind = k, amount_micro = amount,
                   balance_before_micro = before, balance_after_micro = after, created_at = created,
                   previous_hash = previous, metadata = meta, hash = []\<rparr> in
      and_then (validate_fields entry) (\<lambda>_.
      and_then (recompute_hash sha256_hex uuid_text entry) (\<lambda>h.
        Inr (entry\<lparr>hash := h\<rparr>))))"

definition entry_validate :: "(bytes \<Rightarrow> rstring) \<Rightarrow> (Uuid \<Rightarrow> rstring) \<Rightarrow> LedgerEntry \<Rightarrow> unit acct" where
  "entry_validate sha256_hex uuid_text e =
     and_then (validate_fields e) (\<lambda>_.
     and_then (recompute_hash sha256_hex uuid_text e) (\<lambda>expected.
       if hash e \<noteq> expected then Inl (InvalidLedger ''hash mismatch'') else Inr ()))"

text \<open>The loop of \<open>validate_chain\<close>, with its two running variables as arguments.\<close>

fun validate_chain_from ::
    "(bytes \<Rightarrow> rstring) \<Rightarrow> (Uuid \<Rightarrow> rstring) \<Rightarrow> rstring \<Rightarrow> OffsetDateTime option \<Rightarrow> LedgerEntry list \<Rightarrow> unit acct" where
  "validate_chain_from sha256_hex uuid_text expected_previous previous_timestamp [] = Inr ()"
| "validate_chain_from sha256_hex uuid_text expected_previous previous_timestamp (e # es) =
     and_then (entry_validate sha256_hex uuid_text e) (\<lambda>_.
       if previous_hash e \<noteq> expected_previous then Inl (InvalidLedger ''link'')
       else if (case previous_timestamp of Some t \<Rightarrow> created_at e < t | None \<Rightarrow> False)
       then Inl (InvalidLedger ''timestamp order'')
       else validate_chain_from sha256_hex uuid_text (hash e) (Some (created_at e)) es)"

definition validate_chain :: "(bytes \<Rightarrow> rstring) \<Rightarrow> (Uuid \<Rightarrow> rstring) \<Rightarrow> LedgerEntry list \<Rightarrow> unit acct" where
  "validate_chain sha256_hex uuid_text es = validate_chain_from sha256_hex uuid_text GENESIS_HASH None es"

section \<open>The canonical form is injective\<close>

definition canonical :: "rstring list \<Rightarrow> bytes" where
  "canonical fs = foldl append_canonical_field [] fs"

lemma foldl_append_field: "foldl append_canonical_field out fs = out @ canonical fs"
proof (induction fs arbitrary: out)
  case Nil
  then show ?case by (simp add: canonical_def)
next
  case (Cons f fs)
  have "canonical (f # fs) = append_canonical_field [] f @ canonical fs"
    using Cons [of "append_canonical_field [] f"] by (simp add: canonical_def)
  moreover have "append_canonical_field out f = out @ append_canonical_field [] f"
    by (simp add: append_canonical_field_def)
  ultimately show ?case using Cons [of "append_canonical_field out f"] by simp
qed

lemma canonical_Nil [simp]: "canonical [] = []"
  by (simp add: canonical_def)

lemma canonical_Cons [simp]:
  "canonical (f # fs) = dec_nat (str_len f) @ 58 # utf8 f @ canonical fs"
  using foldl_append_field [of "append_canonical_field [] f" fs]
  by (simp add: canonical_def append_canonical_field_def dec_nat_ascii)

lemma digits_then_colon:
  assumes "dec_nat m @ 58 # r = dec_nat n @ 58 # q"
  shows "m = n \<and> r = q"
proof -
  have "\<not> is_ascii_digit 58" by (simp add: is_ascii_digit_def)
  then have tw: "takeWhile is_ascii_digit (dec_nat k @ 58 # x) = dec_nat k" for k x
    by (simp add: takeWhile_append2 dec_nat_digits)
  from assms tw [of m r] tw [of n q] have "dec_nat m = dec_nat n" by simp
  with assms show ?thesis by simp
qed

lemma canonical_inject: "canonical fs = canonical gs \<longleftrightarrow> fs = gs"
proof (induction fs arbitrary: gs)
  case Nil
  then show ?case by (cases gs) auto
next
  case (Cons f fs)
  note IH = Cons.IH
  show ?case
  proof (cases gs)
    case Nil
    then show ?thesis by simp
  next
    case (Cons g gs')
    have "canonical (f # fs) = canonical (g # gs') \<Longrightarrow> f = g \<and> fs = gs'"
    proof -
      assume "canonical (f # fs) = canonical (g # gs')"
      then have "dec_nat (str_len f) @ 58 # (utf8 f @ canonical fs)
                 = dec_nat (str_len g) @ 58 # (utf8 g @ canonical gs')" by simp
      from digits_then_colon [OF this]
      have "str_len f = str_len g" "utf8 f @ canonical fs = utf8 g @ canonical gs'" by auto
      then have "utf8 f = utf8 g" "canonical fs = canonical gs'" by (simp_all add: str_len_def)
      then show ?thesis using IH [of gs'] utf8_inject by blast
    qed
    with Cons show ?thesis by auto
  qed
qed

lemma interleave_inject:
  "concat (map (\<lambda>(k, v). [k, v]) xs) = concat (map (\<lambda>(k, v). [k, v]) ys) \<longleftrightarrow> xs = ys"
proof (induction xs arbitrary: ys)
  case Nil
  show ?case by (cases ys) (simp_all add: case_prod_beta)
next
  case (Cons x xs)
  note IH = Cons.IH
  show ?case
  proof (cases ys)
    case Nil
    then show ?thesis by (simp add: case_prod_beta)
  next
    case (Cons y ys')
    then show ?thesis using IH [of ys'] by (cases x; cases y) simp
  qed
qed

text \<open>The entry type and the scope determine the kind.\<close>

definition kind_of :: "rstring \<Rightarrow> rstring \<Rightarrow> LedgerKind" where
  "kind_of sc t =
     (if sc = lit ''reserve'' then (if t = lit ''settlement_inflow'' then ReserveInflow else ReserveReleaseKind)
      else if sc = lit ''contribution'' then ContributionCredit
      else if t = lit ''consumer_deduction'' then ConsumerDeduction
      else if t = lit ''node_reward'' then NodeQuotaCredit
      else if t = lit ''bootstrap_grant'' then BootstrapGrant else OperatorGrant)"

lemma kind_of_entry_type: "entry_type k m = Inr t \<Longrightarrow> kind_of (scope k) t = k"
  by (cases k)
     (auto simp: entry_type_def ok_or_eq_Inr release_purposes_def kind_of_def split: option.splits if_splits)

lemma kind_determined:
  "entry_type k m = Inr t \<Longrightarrow> entry_type k' m' = Inr t \<Longrightarrow> scope k = scope k' \<Longrightarrow> k = k'"
  by (metis kind_of_entry_type)

section \<open>What an entry's hash covers\<close>

lemma recompute_hash_eq_Inr:
  "recompute_hash sha256_hex uuid_text e = Inr h \<longleftrightarrow>
     hash_version e = LEDGER_HASH_VERSION \<and>
     (\<exists>micros etype. created_at_unix_micros (created_at e) = Inr micros \<and>
        entry_type (kind e) (metadata e) = Inr etype \<and>
        h = sha256_hex (canonical (canonical_fields uuid_text e micros etype)))"
  by (auto simp: recompute_hash_def result_simps canonical_def)

lemma entry_validate_eq_Inr:
  "entry_validate sha256_hex uuid_text e = Inr u \<longleftrightarrow>
     validate_fields e = Inr () \<and> recompute_hash sha256_hex uuid_text e = Inr (hash e)"
  by (auto simp: entry_validate_def result_simps split: if_splits)

text \<open>Equality of two records up to the part of the timestamp below a microsecond.\<close>

definition same_record :: "LedgerEntry \<Rightarrow> LedgerEntry \<Rightarrow> bool" where
  "same_record e f \<longleftrightarrow> f = e\<lparr>created_at := created_at f\<rparr> \<and>
     created_at_unix_micros (created_at e) = created_at_unix_micros (created_at f)"

definition uuid_text_ok :: "(Uuid \<Rightarrow> rstring) \<Rightarrow> bool" where
  "uuid_text_ok uuid_text \<longleftrightarrow> inj uuid_text \<and> [] \<notin> range uuid_text"

lemma uuid_text_eq: "uuid_text_ok uuid_text \<Longrightarrow> uuid_text a = uuid_text b \<longleftrightarrow> a = b"
  by (auto simp: uuid_text_ok_def inj_eq)

lemma uuid_text_ne: "uuid_text_ok uuid_text \<Longrightarrow> uuid_text a \<noteq> []"
  by (metis uuid_text_ok_def rangeI)

lemma canonical_fields_inject:
  assumes u: "uuid_text_ok uuid_text"
    and e: "entry_type (kind e) (metadata e) = Inr t" and f: "entry_type (kind f) (metadata f) = Inr t'"
    and eq: "canonical_fields uuid_text e m t = canonical_fields uuid_text f m' t'"
  shows "f = e\<lparr>created_at := created_at f, hash := hash f\<rparr> \<and> m = m' \<and> t = t'"
proof -
  have r: "request_id e = request_id f"
    using eq u by (cases "request_id e"; cases "request_id f")
      (auto simp: canonical_fields_def uuid_text_eq uuid_text_ne dest: sym)
  from eq have "t = t'" "m = m'" "scope (kind e) = scope (kind f)"
    by (simp_all add: canonical_fields_def sint_inject)
  with e f have k: "kind e = kind f" using kind_determined by blast
  show ?thesis
    using eq u r k
    by (cases e; cases f) (simp add: canonical_fields_def uuid_text_eq sint_inject interleave_inject)
qed

section \<open>Chains\<close>

fun linked :: "('e \<Rightarrow> 'h) \<Rightarrow> ('e \<Rightarrow> 'h) \<Rightarrow> 'h \<Rightarrow> 'e list \<Rightarrow> bool" where
  "linked prev digest g [] = True"
| "linked prev digest g (e # es) = (prev e = g \<and> linked prev digest (digest e) es)"

definition chain_head :: "('e \<Rightarrow> 'h) \<Rightarrow> 'h \<Rightarrow> 'e list \<Rightarrow> 'h" where
  "chain_head digest g es = (if es = [] then g else digest (last es))"

lemma chain_head_simps [simp]:
  "chain_head digest g [] = g"
  "chain_head digest g (es @ [e]) = digest e"
  by (simp_all add: chain_head_def)

lemma chain_head_Cons: "chain_head digest g (e # es) = chain_head digest (digest e) es"
  by (simp add: chain_head_def)

lemma linked_snoc:
  "linked prev digest g (es @ [e]) \<longleftrightarrow> linked prev digest g es \<and> prev e = chain_head digest g es"
  by (induction es arbitrary: g) (auto simp: chain_head_Cons)

text \<open>
  The contract of a hash chain: the digest of a valid entry fixes what the entry says (its view), the
  view fixes the link, and no valid entry has the genesis value as its digest; \<open>broken\<close> stands for
  a failure of the digest, such as a collision.
\<close>

locale hash_chain =
  fixes valid :: "'e \<Rightarrow> bool"
    and prev :: "'e \<Rightarrow> 'h"
    and digest :: "'e \<Rightarrow> 'h"
    and view :: "'e \<Rightarrow> 'v"
    and genesis :: 'h
    and collides :: "'e \<Rightarrow> 'e \<Rightarrow> bool"
    and hits_genesis :: "'e \<Rightarrow> bool"
  assumes digest_binds: "valid e \<Longrightarrow> valid f \<Longrightarrow> digest e = digest f \<Longrightarrow> view e = view f \<or> collides e f"
    and view_prev: "valid e \<Longrightarrow> valid f \<Longrightarrow> view e = view f \<Longrightarrow> prev e = prev f"
    and genesis_fresh: "valid e \<Longrightarrow> digest e = genesis \<Longrightarrow> hits_genesis e"
begin

definition escape :: "'e list \<Rightarrow> 'e list \<Rightarrow> bool" where
  "escape xs ys \<longleftrightarrow> (\<exists>x \<in> set xs. \<exists>y \<in> set ys. collides x y) \<or> (\<exists>e \<in> set xs \<union> set ys. hits_genesis e)"

lemma escape_snoc: "escape xs ys \<Longrightarrow> escape (xs @ [x]) (ys @ [y])"
  by (auto simp: escape_def)

lemma head_commits:
  assumes "list_all valid xs" "list_all valid ys"
    and "linked prev digest genesis xs" "linked prev digest genesis ys"
    and "chain_head digest genesis xs = chain_head digest genesis ys"
  shows "map view xs = map view ys \<or> escape xs ys"
  using assms
proof (induction xs arbitrary: ys rule: rev_induct)
  case Nil
  show ?case
  proof (cases ys rule: rev_cases)
    case Nil
    then show ?thesis by simp
  next
    case (snoc ys' y)
    then show ?thesis using Nil genesis_fresh [of y] \<open>chain_head digest genesis [] = _\<close> \<open>list_all valid ys\<close>
      by (simp add: escape_def)
  qed
next
  case (snoc x xs)
  note prems = snoc.prems and IH = snoc.IH
  show ?case
  proof (cases ys rule: rev_cases)
    case Nil
    then show ?thesis using prems genesis_fresh [of x] by (simp add: escape_def)
  next
    case (snoc ys' y)
    have v: "valid x" "valid y" and d: "digest x = digest y" using prems snoc by simp_all
    from digest_binds [OF v d] show ?thesis
    proof
      assume xy: "view x = view y"
      then have "chain_head digest genesis xs = chain_head digest genesis ys'"
        using view_prev [OF v] prems snoc by (simp add: linked_snoc)
      then have "map view xs = map view ys' \<or> escape xs ys'"
        using prems snoc by (intro IH) (simp_all add: linked_snoc)
      with xy snoc show ?thesis by (auto intro: escape_snoc)
    qed (simp add: escape_def snoc)
  qed
qed

lemma no_cycle:
  assumes "list_all valid xs" "linked prev digest genesis xs" "xs \<noteq> []"
    and "chain_head digest genesis xs = genesis"
  shows "hits_genesis (last xs)"
  using assms genesis_fresh [of "last xs"] by (auto simp: chain_head_def list_all_iff)

end

text \<open>What an entry says: the fields that are hashed.\<close>

definition entry_view :: "(Uuid \<Rightarrow> rstring) \<Rightarrow> LedgerEntry \<Rightarrow> rstring list acct" where
  "entry_view uuid_text e =
     and_then (created_at_unix_micros (created_at e)) (\<lambda>micros.
     and_then (entry_type (kind e) (metadata e)) (\<lambda>etype.
       Inr (canonical_fields uuid_text e micros etype)))"

text \<open>Two entries whose different canonical encodings have one hash, and an entry whose encoding hashes to the genesis value.\<close>

definition encodings_collide :: "(bytes \<Rightarrow> rstring) \<Rightarrow> (Uuid \<Rightarrow> rstring) \<Rightarrow> LedgerEntry \<Rightarrow> LedgerEntry \<Rightarrow> bool" where
  "encodings_collide sha256_hex uuid_text e f \<longleftrightarrow>
     (\<exists>fs gs. entry_view uuid_text e = Inr fs \<and> entry_view uuid_text f = Inr gs \<and> canonical fs \<noteq> canonical gs \<and>
        sha256_hex (canonical fs) = sha256_hex (canonical gs))"

definition encoding_hits_genesis :: "(bytes \<Rightarrow> rstring) \<Rightarrow> (Uuid \<Rightarrow> rstring) \<Rightarrow> LedgerEntry \<Rightarrow> bool" where
  "encoding_hits_genesis sha256_hex uuid_text e \<longleftrightarrow>
     (\<exists>fs. entry_view uuid_text e = Inr fs \<and> sha256_hex (canonical fs) = GENESIS_HASH)"

lemma entry_validate_hash:
  "entry_validate sha256_hex uuid_text e = Inr () \<Longrightarrow>
     \<exists>fs. entry_view uuid_text e = Inr fs \<and> hash e = sha256_hex (canonical fs)"
  by (auto simp: entry_validate_eq_Inr recompute_hash_eq_Inr entry_view_def)

lemma entry_view_prev:
  "entry_view uuid_text e = Inr fs \<Longrightarrow> entry_view uuid_text f = Inr fs \<Longrightarrow> previous_hash e = previous_hash f"
  by (auto simp: entry_view_def result_simps canonical_fields_def)

interpretation lc: hash_chain "\<lambda>e. entry_validate sha256_hex uuid_text e = Inr ()" previous_hash hash
    "entry_view uuid_text" GENESIS_HASH "encodings_collide sha256_hex uuid_text" "encoding_hits_genesis sha256_hex uuid_text"
  for sha256_hex :: "bytes \<Rightarrow> rstring" and uuid_text :: "Uuid \<Rightarrow> rstring"
proof
  fix e f
  assume v: "entry_validate sha256_hex uuid_text e = Inr ()" "entry_validate sha256_hex uuid_text f = Inr ()"
  obtain fs gs where fg: "entry_view uuid_text e = Inr fs" "hash e = sha256_hex (canonical fs)"
    "entry_view uuid_text f = Inr gs" "hash f = sha256_hex (canonical gs)"
    using v entry_validate_hash by metis
  show "hash e = hash f \<Longrightarrow> entry_view uuid_text e = entry_view uuid_text f \<or> encodings_collide sha256_hex uuid_text e f"
  proof (cases "fs = gs")
    case True
    then show ?thesis using fg by simp
  next
    case False
    then have "canonical fs \<noteq> canonical gs" by (simp add: canonical_inject)
    moreover assume "hash e = hash f"
    then have "sha256_hex (canonical fs) = sha256_hex (canonical gs)" unfolding fg .
    ultimately show ?thesis using fg by (simp add: encodings_collide_def)
  qed
  show "entry_view uuid_text e = entry_view uuid_text f \<Longrightarrow> previous_hash e = previous_hash f"
    using entry_view_prev [OF fg(1)] fg(1) by simp
next
  fix e
  assume "entry_validate sha256_hex uuid_text e = Inr ()" "hash e = GENESIS_HASH"
  then obtain fs where "entry_view uuid_text e = Inr fs" "GENESIS_HASH = sha256_hex (canonical fs)"
    using entry_validate_hash [of sha256_hex uuid_text e] by auto
  then show "encoding_hits_genesis sha256_hex uuid_text e" by (auto simp: encoding_hits_genesis_def)
qed

lemma same_view_same_record:
  assumes "uuid_text_ok uuid_text"
    and "entry_validate sha256_hex uuid_text e = Inr ()" "entry_validate sha256_hex uuid_text f = Inr ()"
    and "entry_view uuid_text e = entry_view uuid_text f"
  shows "same_record e f"
proof -
  obtain fs where fs: "entry_view uuid_text e = Inr fs" "hash e = sha256_hex (canonical fs)"
    "entry_view uuid_text f = Inr fs" "hash f = sha256_hex (canonical fs)"
    using assms(2-4) entry_validate_hash by (metis sum.inject(2))
  then obtain m t m' t' where
    e: "created_at_unix_micros (created_at e) = Inr m" "entry_type (kind e) (metadata e) = Inr t"
      "canonical_fields uuid_text e m t = fs" and
    f: "created_at_unix_micros (created_at f) = Inr m'" "entry_type (kind f) (metadata f) = Inr t'"
      "canonical_fields uuid_text f m' t' = fs"
    by (auto simp: entry_view_def result_simps)
  then have "f = e\<lparr>created_at := created_at f, hash := hash f\<rparr> \<and> m = m' \<and> t = t'"
    using canonical_fields_inject [OF assms(1) e(2) f(2), of m m'] by metis
  with e f fs show ?thesis by (cases e; cases f) (simp add: same_record_def)
qed

text \<open>The checks of \<open>validate_fields\<close> on integers.\<close>

definition entry_accounts :: "LedgerEntry \<Rightarrow> bool" where
  "entry_accounts e \<longleftrightarrow>
     sint (balance_after_micro e) = sint (balance_before_micro e) + sint (amount_micro e) \<and>
     0 \<le> sint (balance_before_micro e) \<and> 0 \<le> sint (balance_after_micro e) \<and>
     (expects_debit (kind e) \<longleftrightarrow> sint (amount_micro e) < 0) \<and>
     (sint (amount_micro e) = 0 \<longrightarrow> kind e = ContributionCredit)"

definition entry_texts_ok :: "LedgerEntry \<Rightarrow> bool" where
  "entry_texts_ok e \<longleftrightarrow>
     hash_version e = LEDGER_HASH_VERSION \<and> is_sha256 (previous_hash e) \<and>
     trim (idempotency_key e) \<noteq> [] \<and> str_len (idempotency_key e) \<le> 255 \<and>
     \<not> any_control (idempotency_key e) \<and> list_all valid_metadata_pair (metadata e)"

lemma validate_fields_iff: "validate_fields e = Inr () \<longleftrightarrow> entry_accounts e \<and> entry_texts_ok e"
proof -
  have z: "sint (amount_micro e) = 0 \<longleftrightarrow> amount_micro e = 0" by (simp add: sint_inject [of _ 0, simplified])
  show ?thesis
    by (auto simp: validate_fields_def entry_accounts_def entry_texts_ok_def result_simps z list_ex_iff
        list_all_iff split: if_splits intro: word_eq_sintI)
qed

text \<open>What \<open>validate_chain\<close> accepts, without its running variables.\<close>

definition timestamps_ordered :: "OffsetDateTime option \<Rightarrow> LedgerEntry list \<Rightarrow> bool" where
  "timestamps_ordered prev es \<longleftrightarrow> sorted (case_option [] (\<lambda>t. [t]) prev @ map created_at es)"

lemma timestamps_ordered_Cons:
  "timestamps_ordered prev (e # es) \<longleftrightarrow>
     \<not> (case prev of Some t \<Rightarrow> created_at e < t | None \<Rightarrow> False) \<and> timestamps_ordered (Some (created_at e)) es"
  by (cases prev) (auto simp: timestamps_ordered_def)

lemma validate_chain_from_iff:
  "validate_chain_from sha256_hex uuid_text g prev es = Inr () \<longleftrightarrow>
     (\<forall>e \<in> set es. entry_validate sha256_hex uuid_text e = Inr ()) \<and>
     linked previous_hash hash g es \<and> timestamps_ordered prev es"
proof (induction es arbitrary: g prev)
  case Nil
  then show ?case by (cases prev) (simp_all add: timestamps_ordered_def)
next
  case (Cons e es)
  then show ?case by (auto simp: result_simps timestamps_ordered_Cons)
qed

lemma validate_chain_iff:
  "validate_chain sha256_hex uuid_text es = Inr () \<longleftrightarrow>
     (\<forall>e \<in> set es. entry_validate sha256_hex uuid_text e = Inr ()) \<and>
     linked previous_hash hash GENESIS_HASH es \<and> sorted (map created_at es)"
  by (simp add: validate_chain_def validate_chain_from_iff timestamps_ordered_def)

lemma validate_chain_commits:
  assumes "validate_chain sha256_hex uuid_text xs = Inr ()" "validate_chain sha256_hex uuid_text ys = Inr ()"
    and "chain_head hash GENESIS_HASH xs = chain_head hash GENESIS_HASH ys"
  shows "map (entry_view uuid_text) xs = map (entry_view uuid_text) ys \<or>
    (\<exists>x \<in> set xs. \<exists>y \<in> set ys. encodings_collide sha256_hex uuid_text x y) \<or>
    (\<exists>e \<in> set xs \<union> set ys. encoding_hits_genesis sha256_hex uuid_text e)"
  unfolding lc.escape_def [symmetric]
  by (rule lc.head_commits [where sha256_hex = sha256_hex])
     (use assms in \<open>auto simp: validate_chain_iff list_all_iff\<close>)

lemma LedgerEntry_new_eq_Inr:
  "LedgerEntry_new sha256_hex uuid_text i a r k kd am b af t p m = Inr e \<longleftrightarrow>
     entry_validate sha256_hex uuid_text e = Inr () \<and> entry_id e = i \<and> account_id e = a \<and>
     request_id e = r \<and> idempotency_key e = k \<and> kind e = kd \<and> amount_micro e = am \<and>
     balance_before_micro e = b \<and> balance_after_micro e = af \<and> created_at e = t \<and>
     previous_hash e = p \<and> metadata e = m"
proof -
  have f: "validate_fields (x\<lparr>hash := h\<rparr>) = validate_fields x" for x h
    by (simp add: validate_fields_def)
  have rh: "recompute_hash sha256_hex uuid_text (x\<lparr>hash := h\<rparr>) = recompute_hash sha256_hex uuid_text x" for x h
    by (simp add: recompute_hash_def canonical_fields_def)
  have v: "hash_version e = LEDGER_HASH_VERSION" if "entry_validate sha256_hex uuid_text e = Inr ()"
    using that by (simp add: entry_validate_eq_Inr validate_fields_iff entry_texts_ok_def)
  define x where "x = \<lparr>hash_version = LEDGER_HASH_VERSION, entry_id = i, account_id = a, request_id = r,
       idempotency_key = k, kind = kd, amount_micro = am, balance_before_micro = b, balance_after_micro = af,
       created_at = t, previous_hash = p, metadata = m, hash = []\<rparr>"
  have new: "LedgerEntry_new sha256_hex uuid_text i a r k kd am b af t p m =
     and_then (validate_fields x) (\<lambda>_. and_then (recompute_hash sha256_hex uuid_text x) (\<lambda>h. Inr (x\<lparr>hash := h\<rparr>)))"
    by (simp add: LedgerEntry_new_def x_def Let_def)
  show ?thesis (is "?L \<longleftrightarrow> ?R")
  proof
    assume ?L
    then obtain h where "validate_fields x = Inr ()" "recompute_hash sha256_hex uuid_text x = Inr h"
      and e: "e = x\<lparr>hash := h\<rparr>"
      unfolding new by (auto simp: and_then_eq_Inr)
    then have "entry_validate sha256_hex uuid_text e = Inr ()" by (simp add: entry_validate_eq_Inr f rh)
    with e show ?R by (simp add: x_def)
  next
    assume R: ?R
    have "e\<lparr>hash := []\<rparr> = x"
      using R v by (cases e) (auto simp: x_def)
    then have x: "validate_fields x = validate_fields e"
      "recompute_hash sha256_hex uuid_text x = recompute_hash sha256_hex uuid_text e"
      "x\<lparr>hash := hash e\<rparr> = e"
      using f [of "[]" e] rh [of "[]" e] by auto
    have "validate_fields e = Inr ()" "recompute_hash sha256_hex uuid_text e = Inr (hash e)"
      using R by (simp_all add: entry_validate_eq_Inr)
    with x show ?L unfolding new by simp
  qed
qed

text \<open>C31. A validated ledger entry accounts exactly: over the integers the balance after is the balance
  before plus the amount, neither balance is negative, exactly the debit kinds carry a negative
  amount, and only a contribution credit may be zero.\<close>

theorem validated_entry_accounts:
  assumes "entry_validate sha256_hex uuid_text e = Inr ()"
  shows "sint (balance_after_micro e) = sint (balance_before_micro e) + sint (amount_micro e) \<and>
    0 \<le> sint (balance_before_micro e) \<and> 0 \<le> sint (balance_after_micro e) \<and>
    (expects_debit (kind e) \<longleftrightarrow> sint (amount_micro e) < 0) \<and>
    (sint (amount_micro e) = 0 \<longrightarrow> kind e = ContributionCredit)"
  using assms by (simp add: entry_validate_eq_Inr validate_fields_iff entry_accounts_def)

text \<open>A sample entry, with digests and identifiers printed by concrete functions.\<close>

definition tagged_digest :: "bytes \<Rightarrow> rstring" where
  "tagged_digest b = 120 # b"

definition decimal_uuid :: "Uuid \<Rightarrow> rstring" where
  "decimal_uuid u = dec_nat (unat u)"

definition sample_entry :: "OffsetDateTime \<Rightarrow> LedgerEntry" where
  "sample_entry t =
     \<lparr>hash_version = 2, entry_id = 7, account_id = 8, request_id = None, idempotency_key = lit ''job-1'',
      kind = ConsumerDeduction, amount_micro = - 500, balance_before_micro = 2000,
      balance_after_micro = 1500, created_at = t, previous_hash = GENESIS_HASH,
      metadata = [(lit ''source'', lit ''unit'')],
      hash = tagged_digest (canonical (canonical_fields decimal_uuid
        \<lparr>hash_version = 2, entry_id = 7, account_id = 8, request_id = None, idempotency_key = lit ''job-1'',
         kind = ConsumerDeduction, amount_micro = - 500, balance_before_micro = 2000,
         balance_after_micro = 1500, created_at = 0, previous_hash = GENESIS_HASH,
         metadata = [(lit ''source'', lit ''unit'')], hash = []\<rparr> 1700000000000000 (lit ''consumer_deduction'')))\<rparr>"

lemma GENESIS_is_sha256: "is_sha256 GENESIS_HASH"
  by (simp add: is_sha256_def GENESIS_HASH_def str_len_def utf8_def utf8_char_def is_lower_hex_def
      is_ascii_digit_def concat_replicate_trivial list_all_iff)

lemma GENESIS_ascii: "utf8 GENESIS_HASH = GENESIS_HASH"
  by (rule utf8_ascii) (simp add: GENESIS_HASH_def is_ascii_str_def list_all_iff)

lemma sample_fields: "validate_fields (sample_entry t) = Inr ()"
  by (simp add: validate_fields_iff entry_accounts_def entry_texts_ok_def sample_entry_def expects_debit_def
      LEDGER_HASH_VERSION_def GENESIS_is_sha256 trim_def is_whitespace_def utf8_char_def any_control_def
      is_control_def valid_metadata_pair_def)

lemma sample_micros:
  "0 \<le> d \<Longrightarrow> d < 1000 \<Longrightarrow> created_at_unix_micros (1700000000000000000 + d) = Inr 1700000000000000"
proof -
  assume "0 \<le> d" "d < 1000"
  then have "(753315200000000000 + d) div 1000 = 753315200000000" by simp
  with \<open>0 \<le> d\<close> show ?thesis
    by (simp add: created_at_unix_micros_def POSTGRES_EPOCH_UNIX_SECONDS_def Let_def del: of_int_add)
qed

lemma sample_entry_valid:
  assumes "0 \<le> d" "d < 1000"
  shows "entry_validate tagged_digest decimal_uuid (sample_entry (1700000000000000000 + d)) = Inr ()"
proof -
  have "recompute_hash tagged_digest decimal_uuid (sample_entry (1700000000000000000 + d))
      = Inr (hash (sample_entry (1700000000000000000 + d)))"
    using sample_micros [OF assms]
    by (simp add: recompute_hash_eq_Inr sample_entry_def entry_type_def LEDGER_HASH_VERSION_def
        canonical_fields_def del: canonical_Cons)
  then show ?thesis by (simp add: entry_validate_eq_Inr sample_fields)
qed

theorem validated_entry_accounts_witness:
  "sint (balance_after_micro (sample_entry 1700000000000000000)) = 2000 - 500 \<and>
   (expects_debit ConsumerDeduction \<longleftrightarrow> True)"
  using validated_entry_accounts [OF sample_entry_valid [of 0]]
  by (simp add: sample_entry_def)

lemma chain_snoc:
  "validate_chain sha256_hex uuid_text (es @ [e]) = Inr () \<longleftrightarrow>
     validate_chain sha256_hex uuid_text es = Inr () \<and> entry_validate sha256_hex uuid_text e = Inr () \<and>
     previous_hash e = chain_head hash GENESIS_HASH es \<and> (\<forall>x \<in> set es. created_at x \<le> created_at e)"
  by (auto simp: validate_chain_iff linked_snoc sorted_append)

text \<open>C30. Appending keeps a chain valid: a record built by \<open>LedgerEntry::new\<close> on the hash of the last
  entry (or on the genesis hash), at a time not before any entry, makes a longer valid chain.\<close>

theorem append_keeps_chain:
  assumes "validate_chain sha256_hex uuid_text es = Inr ()"
    and "LedgerEntry_new sha256_hex uuid_text i a r k kd am b af t
           (if es = [] then GENESIS_HASH else hash (last es)) m = Inr e"
    and "\<forall>x \<in> set es. created_at x \<le> t"
  shows "validate_chain sha256_hex uuid_text (es @ [e]) = Inr ()"
  using assms by (simp add: chain_snoc LedgerEntry_new_eq_Inr chain_head_def)

theorem append_keeps_chain_witness:
  "validate_chain tagged_digest decimal_uuid ([] @ [sample_entry 1700000000000000000]) = Inr ()"
proof (rule append_keeps_chain)
  show "LedgerEntry_new tagged_digest decimal_uuid 7 8 None (lit ''job-1'') ConsumerDeduction (- 500) 2000 1500
      1700000000000000000 (if ([] :: LedgerEntry list) = [] then GENESIS_HASH else hash (last ([] :: LedgerEntry list)))
      [(lit ''source'', lit ''unit'')] = Inr (sample_entry 1700000000000000000)"
    unfolding LedgerEntry_new_eq_Inr using sample_entry_valid [of 0] by (simp add: sample_entry_def)
qed (simp_all add: validate_chain_def)

text \<open>C29. The hash of the last entry commits to the whole history: if two valid chains end in the same
  hash, then they have the same length and agree entry by entry on every field (up to the part of a
  timestamp below a microsecond), or else the two chains themselves exhibit a failure of SHA-256: an entry of one and an
  entry of the other whose different canonical encodings have the same hash, or an entry whose encoding hashes to the
  genesis value.\<close>

theorem chain_head_commits_to_history:
  assumes "uuid_text_ok uuid_text"
    and "validate_chain sha256_hex uuid_text xs = Inr ()" and "validate_chain sha256_hex uuid_text ys = Inr ()"
    and "chain_head hash GENESIS_HASH xs = chain_head hash GENESIS_HASH ys"
  shows "list_all2 same_record xs ys \<or>
    (\<exists>x \<in> set xs. \<exists>y \<in> set ys. encodings_collide sha256_hex uuid_text x y) \<or>
    (\<exists>e \<in> set xs \<union> set ys. encoding_hits_genesis sha256_hex uuid_text e)"
proof -
  have "list_all2 same_record xs ys" if v: "map (entry_view uuid_text) xs = map (entry_view uuid_text) ys"
    unfolding list_all2_conv_all_nth using assms(2,3) map_eq_imp_length_eq [OF v] v
    by (auto simp: validate_chain_iff intro!: same_view_same_record [OF assms(1)] dest: arg_cong [where f = "\<lambda>l. l ! _"])
       (metis nth_map)
  then show ?thesis using validate_chain_commits [OF assms(2-4)] by blast
qed

lemma decimal_uuid_ok: "uuid_text_ok decimal_uuid"
proof -
  have "[] \<noteq> dec_nat n" for n by (simp add: dec_nat.simps [of n])
  then show ?thesis by (auto simp: uuid_text_ok_def decimal_uuid_def inj_def word_unat_eq_iff)
qed

theorem chain_head_commits_to_history_witness:
  "list_all2 same_record [sample_entry 1700000000000000000] [sample_entry 1700000000000000999]"
proof -
  have v: "validate_chain tagged_digest decimal_uuid [sample_entry (1700000000000000000 + d)] = Inr ()"
    if "0 \<le> d" "d < 1000" for d
    using sample_entry_valid [OF that] by (simp add: validate_chain_iff) (simp add: sample_entry_def)
  have "\<not> encodings_collide tagged_digest decimal_uuid e f" "\<not> encoding_hits_genesis tagged_digest decimal_uuid e" for e f
    by (auto simp: encodings_collide_def encoding_hits_genesis_def tagged_digest_def GENESIS_HASH_def Cons_replicate_eq)
  moreover have "chain_head hash GENESIS_HASH [sample_entry 1700000000000000000]
      = chain_head hash GENESIS_HASH [sample_entry 1700000000000000999]"
    by (simp add: chain_head_def sample_entry_def)
  ultimately show ?thesis
    using chain_head_commits_to_history [OF decimal_uuid_ok v [of 0] v [of 999]] by auto
qed

text \<open>The hash does not cover every other field: moving the timestamp of a valid entry within its
  microsecond changes the record but neither its hash nor its validity.\<close>

theorem hash_ignores_submicroseconds:
  "sample_entry 1700000000000000001 \<noteq> sample_entry 1700000000000000002 \<and>
   hash (sample_entry 1700000000000000001) = hash (sample_entry 1700000000000000002) \<and>
   entry_validate tagged_digest decimal_uuid (sample_entry 1700000000000000001) = Inr () \<and>
   entry_validate tagged_digest decimal_uuid (sample_entry 1700000000000000002) = Inr ()"
  using sample_entry_valid [of 1] sample_entry_valid [of 2] by (simp add: sample_entry_def)

end
