(* ===== verification/F64.thy ===== *)
theory F64
  imports Prelude
begin

text \<open>
  Rust's \<open>f64\<close>: IEEE 754 binary64 with rounding to nearest, ties to even. A finite value is the
  rational it stands for, with the negative zero kept apart; there is one NaN, whose payload no
  computation of the code reads. The four operations round the exact rational result, so they are
  executable and the bounds proved of them are bounds on what the code computes, not on reals.

  The lemmas give what numerical proofs need: rounding is monotone, it fixes every representable
  value, and its error is at most half a unit in the last place.
\<close>

section \<open>Rounding to an integer\<close>

definition round_half_even :: "rat \<Rightarrow> int" where
  "round_half_even x =
     (let f = \<lfloor>x\<rfloor>; d = x - of_int f in
      if d < 1/2 then f else if d > 1/2 then f + 1 else if even f then f else f + 1)"

lemma round_half_even_bounds: "\<lfloor>x\<rfloor> \<le> round_half_even x" "round_half_even x \<le> \<lfloor>x\<rfloor> + 1"
  by (simp_all add: round_half_even_def Let_def)

lemma round_half_even_int [simp]: "round_half_even (of_int n) = n"
  by (simp add: round_half_even_def Let_def)

lemma round_half_even_mono: "x \<le> y \<Longrightarrow> round_half_even x \<le> round_half_even y"
proof -
  assume le: "x \<le> y"
  show ?thesis
  proof (cases "\<lfloor>x\<rfloor> = \<lfloor>y\<rfloor>")
    case True
    with le show ?thesis by (simp add: round_half_even_def Let_def)
  next
    case False
    then have "\<lfloor>x\<rfloor> + 1 \<le> \<lfloor>y\<rfloor>" using floor_mono [OF le] by linarith
    then show ?thesis using round_half_even_bounds(2) [of x] round_half_even_bounds(1) [of y] by linarith
  qed
qed

lemma round_half_even_error: "\<bar>of_int (round_half_even x) - x\<bar> \<le> 1/2"
proof -
  have "of_int \<lfloor>x\<rfloor> \<le> x" "x < of_int \<lfloor>x\<rfloor> + 1" by linarith+
  then show ?thesis by (simp add: round_half_even_def Let_def abs_if) linarith
qed

section \<open>The binary exponent\<close>

fun bitlen :: "nat \<Rightarrow> nat" where
  "bitlen n = (if n = 0 then 0 else Suc (bitlen (n div 2)))"

declare bitlen.simps [simp del]

lemma bitlen_bounds: "0 < n \<Longrightarrow> 2 ^ (bitlen n - 1) \<le> n \<and> n < 2 ^ bitlen n \<and> 0 < bitlen n"
proof (induction n rule: bitlen.induct)
  case (1 n)
  show ?case
  proof (cases "n = 1")
    case True
    then show ?thesis by (simp add: bitlen.simps [of "Suc 0"] bitlen.simps [of 0])
  next
    case False
    with 1 have IH: "2 ^ (bitlen (n div 2) - 1) \<le> n div 2" "n div 2 < 2 ^ bitlen (n div 2)" "0 < bitlen (n div 2)"
      by (simp_all add: div_greater_zero_iff)
    have b: "bitlen n = Suc (bitlen (n div 2))" using 1 by (simp add: bitlen.simps [of n])
    have "(2::nat) ^ bitlen (n div 2) = 2 * 2 ^ (bitlen (n div 2) - 1)"
      using IH(3) by (cases "bitlen (n div 2)") simp_all
    with IH b show ?thesis by simp linarith
  qed
qed

lemma int_bitlen_bounds:
  assumes "0 < a"
  shows "(2::rat) powi (int (bitlen (nat a)) - 1) \<le> of_int a" "of_int a < (2::rat) powi int (bitlen (nat a))"
proof -
  define m where "m = nat a"
  have a: "of_int a = (of_nat m :: rat)" and m: "0 < m" using assms by (simp_all add: m_def)
  have x: "2 ^ (bitlen m - 1) \<le> m" "m < 2 ^ bitlen m" "0 < bitlen m" using bitlen_bounds [OF m] by simp_all
  have i: "int (bitlen m) - 1 = int (bitlen m - 1)" using x(3) by simp
  have p: "(2::rat) powi (int (bitlen m) - 1) = of_nat (2 ^ (bitlen m - 1))"
    "(2::rat) powi int (bitlen m) = of_nat (2 ^ bitlen m)"
    unfolding i power_int_of_nat by (simp_all only: of_nat_power of_nat_numeral)
  show "(2::rat) powi (int (bitlen (nat a)) - 1) \<le> of_int a" "of_int a < (2::rat) powi int (bitlen (nat a))"
    unfolding a m_def [symmetric] p of_nat_le_iff of_nat_less_iff by (rule x)+
qed

text \<open>\<open>\<lfloor>log2 q\<rfloor>\<close> of a positive rational, from the lengths of numerator and denominator.\<close>

definition flog2 :: "rat \<Rightarrow> int" where
  "flog2 q =
     (let (a, b) = quotient_of q; k = int (bitlen (nat a)) - int (bitlen (nat b)) in
      if 2 powi k \<le> q then k else k - 1)"

lemma flog2_bounds:
  assumes "0 < q"
  shows "2 powi (flog2 q) \<le> q" "q < 2 powi (flog2 q + 1)"
proof -
  obtain a b where ab: "quotient_of q = (a, b)" by (cases "quotient_of q")
  have b: "0 < b" using quotient_of_denom_pos [OF ab] .
  have q: "q = of_int a / of_int b" using quotient_of_div [OF ab] .
  have a: "0 < a" using assms b q by (simp add: zero_less_divide_iff)
  define k where "k = int (bitlen (nat a)) - int (bitlen (nat b))"
  have f: "flog2 q = (if 2 powi k \<le> q then k else k - 1)" by (simp add: flog2_def ab k_def Let_def)
  note A = int_bitlen_bounds [OF a] and B = int_bitlen_bounds [OF b]
  have "2 powi (k - 1) \<le> q" "q < 2 powi (k + 1)"
  proof -
    have k1: "k - 1 = (int (bitlen (nat a)) - 1) - int (bitlen (nat b))"
      and k2: "k + 1 = int (bitlen (nat a)) - (int (bitlen (nat b)) - 1)" by (simp_all add: k_def)
    have "2 powi (k - 1) = 2 powi (int (bitlen (nat a)) - 1) / (2::rat) powi int (bitlen (nat b))"
      unfolding k1 by (rule power_int_diff) simp
    also have "\<dots> \<le> of_int a / of_int b" using A B a b by (intro frac_le) auto
    finally show "2 powi (k - 1) \<le> q" using q by simp
    have "of_int a / of_int b < (2::rat) powi int (bitlen (nat a)) / 2 powi (int (bitlen (nat b)) - 1)"
      using A B a b by (intro frac_less) auto
    also have "\<dots> = 2 powi (k + 1)" unfolding k2 by (rule power_int_diff [symmetric]) simp
    finally show "q < 2 powi (k + 1)" using q by simp
  qed
  then show "2 powi (flog2 q) \<le> q" "q < 2 powi (flog2 q + 1)" unfolding f by auto
qed

lemma powi_mono: "a \<le> b \<Longrightarrow> (2::rat) powi a \<le> 2 powi b"
  by (rule power_int_increasing) auto

lemma powi_less_imp_less: "(2::rat) powi a < 2 powi b \<Longrightarrow> a < b"
  using powi_mono [of b a] by (cases "a < b") auto

lemma flog2_unique: "2 powi k \<le> q \<Longrightarrow> q < 2 powi (k + 1) \<Longrightarrow> flog2 q = k"
proof -
  assume q: "2 powi k \<le> q" "q < 2 powi (k + 1)"
  have "0 < (2::rat) powi k" by simp
  with q(1) have "0 < q" by linarith
  note f = flog2_bounds [OF this]
  have "(2::rat) powi k < 2 powi (flog2 q + 1)" "(2::rat) powi (flog2 q) < 2 powi (k + 1)"
    using q f by linarith+
  then show ?thesis by (auto dest!: powi_less_imp_less)
qed

lemma flog2_mono: "0 < x \<Longrightarrow> x \<le> y \<Longrightarrow> flog2 x \<le> flog2 y"
proof -
  assume x: "0 < x" "x \<le> y"
  have "(2::rat) powi flog2 x < 2 powi (flog2 y + 1)"
    using flog2_bounds(1) [of x] flog2_bounds(2) [of y] x by linarith
  then show ?thesis by (auto dest!: powi_less_imp_less)
qed

section \<open>Rounding to binary64\<close>

definition ulp_exp :: "rat \<Rightarrow> int" where
  "ulp_exp q = max (flog2 q - 52) (- 1074)"

definition round_pos :: "rat \<Rightarrow> rat" where
  "round_pos q = of_int (round_half_even (q / 2 powi ulp_exp q)) * 2 powi ulp_exp q"

definition fround :: "rat \<Rightarrow> rat" where
  "fround q = (if q = 0 then 0 else if 0 < q then round_pos q else - round_pos (- q))"

lemma scaled_bound:
  assumes "0 < q"
  shows "q / 2 powi ulp_exp q < 2 ^ 53"
    and "ulp_exp q = flog2 q - 52 \<Longrightarrow> 2 ^ 52 \<le> q / 2 powi ulp_exp q"
proof -
  have "flog2 q + 1 \<le> 53 + ulp_exp q" by (simp add: ulp_exp_def)
  then have "2 powi (flog2 q + 1) \<le> (2::rat) powi (53 + ulp_exp q)" by (rule powi_mono)
  also have "\<dots> = 2 ^ 53 * 2 powi ulp_exp q" by (simp add: power_int_add)
  finally show "q / 2 powi ulp_exp q < 2 ^ 53"
    using flog2_bounds(2) [OF assms] by (simp add: divide_less_eq)
  assume e: "ulp_exp q = flog2 q - 52"
  have "2 ^ 52 * 2 powi ulp_exp q = (2::rat) powi (52 + ulp_exp q)" by (simp add: power_int_add)
  also have "52 + ulp_exp q = flog2 q" using e by simp
  finally show "2 ^ 52 \<le> q / 2 powi ulp_exp q"
    using flog2_bounds(1) [OF assms] by (simp add: le_divide_eq)
qed

lemma round_pos_nonneg: "0 < q \<Longrightarrow> 0 \<le> round_pos q"
proof -
  assume "0 < q"
  then have "0 \<le> round_half_even (q / 2 powi ulp_exp q)"
    using round_half_even_mono [of 0 "q / 2 powi ulp_exp q"] round_half_even_int [of 0] by simp
  then show ?thesis by (simp add: round_pos_def)
qed

lemma round_pos_mono:
  assumes "0 < x" "x \<le> y"
  shows "round_pos x \<le> round_pos y"
proof (cases "ulp_exp x = ulp_exp y")
  case True
  have "x / 2 powi ulp_exp y \<le> y / 2 powi ulp_exp y" using assms by (simp add: divide_right_mono)
  then have "round_half_even (x / 2 powi ulp_exp y) \<le> round_half_even (y / 2 powi ulp_exp y)"
    by (rule round_half_even_mono)
  then show ?thesis by (simp add: round_pos_def True)
next
  case False
  with flog2_mono [OF assms] have e: "ulp_exp x + 1 \<le> ulp_exp y" "ulp_exp y = flog2 y - 52"
    by (auto simp: ulp_exp_def)
  have "0 < y" using assms by simp
  have "x / 2 powi ulp_exp x \<le> of_int (2 ^ 53)" using scaled_bound(1) [OF assms(1)] by simp
  from round_half_even_mono [OF this] have "round_half_even (x / 2 powi ulp_exp x) \<le> 2 ^ 53"
    by (simp only: round_half_even_int)
  then have "of_int (round_half_even (x / 2 powi ulp_exp x)) \<le> (2::rat) ^ 53"
    by (metis of_int_le_iff of_int_numeral of_int_power)
  then have "round_pos x \<le> 2 ^ 53 * 2 powi ulp_exp x"
    unfolding round_pos_def by (intro mult_right_mono) auto
  also have "\<dots> = 2 ^ 52 * 2 powi (ulp_exp x + 1)" by (simp add: power_int_add)
  also have "\<dots> \<le> 2 ^ 52 * 2 powi ulp_exp y" using powi_mono [OF e(1)] by simp
  also have "\<dots> \<le> round_pos y"
  proof -
    have "of_int (2 ^ 52) \<le> y / 2 powi ulp_exp y" using scaled_bound(2) [OF \<open>0 < y\<close> e(2)] by simp
    from round_half_even_mono [OF this] have "2 ^ 52 \<le> round_half_even (y / 2 powi ulp_exp y)"
      by (simp only: round_half_even_int)
    then have "(2::rat) ^ 52 \<le> of_int (round_half_even (y / 2 powi ulp_exp y))"
      by (metis of_int_le_iff of_int_numeral of_int_power)
    then show ?thesis unfolding round_pos_def by (intro mult_right_mono) auto
  qed
  finally show ?thesis .
qed

lemma fround_0 [simp]: "fround 0 = 0"
  by (simp add: fround_def)

lemma fround_minus: "fround (- q) = - fround q"
  by (auto simp: fround_def)

lemma fround_nonneg: "0 \<le> q \<Longrightarrow> 0 \<le> fround q"
  by (simp add: fround_def round_pos_nonneg)

lemma fround_nonpos: "q \<le> 0 \<Longrightarrow> fround q \<le> 0"
  using fround_nonneg [of "- q"] by (simp add: fround_minus)

lemma fround_mono: "x \<le> y \<Longrightarrow> fround x \<le> fround y"
proof -
  assume le: "x \<le> y"
  consider "0 < x" | "x \<le> 0" "0 \<le> y" | "y < 0" by linarith
  then show ?thesis
  proof cases
    case 1
    with le show ?thesis by (simp add: fround_def round_pos_mono)
  next
    case 2
    then show ?thesis using fround_nonneg [of y] fround_nonpos [of x] by linarith
  next
    case 3
    with le show ?thesis by (simp add: fround_def round_pos_mono)
  qed
qed

lemma fround_abs_le: "fround b = b \<Longrightarrow> \<bar>q\<bar> \<le> b \<Longrightarrow> \<bar>fround q\<bar> \<le> b"
  using fround_mono [of q b] fround_mono [of "- b" q] by (simp add: abs_le_iff fround_minus)

text \<open>Representable values: at most 53 significant bits above \<open>2^-1074\<close>.\<close>

lemma fround_dyadic:
  assumes "\<bar>m\<bar> \<le> 2 ^ 53" "- 1074 \<le> e"
  shows "fround (of_int m * 2 powi e) = of_int m * 2 powi e"
proof -
  have pos: "round_pos (of_int m * 2 powi e) = of_int m * 2 powi e" if m: "0 < m" "m \<le> 2 ^ 53" for m :: int
  proof -
    define q where "q = of_int m * (2::rat) powi e"
    have q0: "0 < q" using m by (simp add: q_def)
    have exact: "round_pos q = q" if i: "q / 2 powi ulp_exp q = of_int n" for n
      unfolding round_pos_def i round_half_even_int by (simp flip: i)
    have "of_int m \<le> (2::rat) ^ 53" using m(2) by (metis of_int_le_iff of_int_numeral of_int_power)
    then have "q \<le> 2 ^ 53 * 2 powi e" unfolding q_def by (intro mult_right_mono) auto
    also have "\<dots> = 2 powi (53 + e)" by (simp add: power_int_add)
    finally have top: "q \<le> 2 powi (53 + e)" .
    show ?thesis
    proof (cases "ulp_exp q \<le> e")
      case True
      have "q / 2 powi ulp_exp q = of_int m * 2 powi (e - ulp_exp q)"
        by (simp add: q_def power_int_diff)
      also have "\<dots> = of_int (m * 2 ^ nat (e - ulp_exp q))"
        using True by (simp add: power_int_def)
      finally show ?thesis using exact unfolding q_def by blast
    next
      case False
      with assms(2) have f: "53 + e \<le> flog2 q" and u: "ulp_exp q = flog2 q - 52"
        by (auto simp: ulp_exp_def max_def split: if_splits)
      have "2 powi (53 + e) \<le> q" using powi_mono [OF f] flog2_bounds(1) [OF q0] by linarith
      with top have qe: "q = 2 powi (53 + e)" by simp
      then have "flog2 q = 53 + e" by (intro flog2_unique) (simp_all add: power_int_add)
      then have "q / 2 powi ulp_exp q = 2 powi 52" unfolding u by (simp add: qe flip: power_int_diff)
      then have "q / 2 powi ulp_exp q = of_int (2 ^ 52)" by simp
      then show ?thesis using exact unfolding q_def by blast
    qed
  qed
  consider "m = 0" | "0 < m" | "m < 0" by linarith
  then show ?thesis
  proof cases
    case 1
    then show ?thesis by simp
  next
    case 2
    then show ?thesis using pos [of m] assms by (simp add: fround_def)
  next
    case 3
    then have "- m > 0" "- m \<le> 2 ^ 53" using assms by auto
    from pos [OF this] have "round_pos (- (of_int m * 2 powi e)) = - (of_int m * 2 powi e)" by simp
    moreover have "of_int m * (2::rat) powi e < 0" using 3 by (intro mult_neg_pos) auto
    ultimately show ?thesis by (simp add: fround_def)
  qed
qed

lemma fround_idem [simp]: "fround (fround q) = fround q"
proof -
  have pos: "fround (round_pos x) = round_pos x" if "0 < x" for x
  proof -
    have "x / 2 powi ulp_exp x \<le> of_int (2 ^ 53)" using scaled_bound(1) [OF that] by simp
    from round_half_even_mono [OF this] have "round_half_even (x / 2 powi ulp_exp x) \<le> 2 ^ 53"
      by (simp only: round_half_even_int)
    moreover have "of_int 0 \<le> x / 2 powi ulp_exp x" using that by simp
    from round_half_even_mono [OF this] have "0 \<le> round_half_even (x / 2 powi ulp_exp x)"
      by (simp only: round_half_even_int)
    ultimately show ?thesis unfolding round_pos_def by (intro fround_dyadic) (auto simp: ulp_exp_def)
  qed
  consider "q = 0" | "0 < q" | "q < 0" by linarith
  then show ?thesis
  proof cases
    case 2
    then show ?thesis using pos [of q] by (simp add: fround_def [of q])
  next
    case 3
    then show ?thesis using pos [of "- q"] by (simp add: fround_def [of q] fround_minus)
  qed simp
qed

lemma fround_of_int [simp]: "\<bar>m\<bar> \<le> 2 ^ 53 \<Longrightarrow> fround (of_int m) = of_int m"
  using fround_dyadic [of m 0] by simp

lemma fround_1 [simp]: "fround 1 = 1"
  using fround_of_int [of 1] by simp

lemma fround_numeral: "(numeral k :: int) \<le> 2 ^ 53 \<Longrightarrow> fround (numeral k) = numeral k"
  using fround_of_int [of "numeral k"] by simp

lemma fround_error:
  assumes "0 < q"
  shows "\<bar>fround q - q\<bar> \<le> 2 powi (ulp_exp q - 1)"
proof -
  define u where "u = (2::rat) powi ulp_exp q"
  have u: "0 < u" by (simp add: u_def)
  have "fround q - q = (of_int (round_half_even (q / u)) - q / u) * u"
    using assms u by (simp add: fround_def round_pos_def u_def algebra_simps)
  also have "\<bar>\<dots>\<bar> \<le> 1/2 * u"
    unfolding abs_mult using u round_half_even_error [of "q / u"] by (intro mult_mono) auto
  also have "\<dots> = 2 powi (ulp_exp q - 1)" by (simp add: u_def power_int_diff)
  finally show ?thesis .
qed

text \<open>Below one the error is at most \<open>2^-54\<close>.\<close>

lemma fround_error_unit:
  assumes "\<bar>q\<bar> \<le> 1"
  shows "\<bar>fround q - q\<bar> \<le> 2 powi (- 54)"
proof -
  have pos: "\<bar>fround x - x\<bar> \<le> 2 powi (- 54)" if x: "0 < x" "x < 1" for x
  proof -
    have "(2::rat) powi flog2 x < 2 powi 0" using flog2_bounds(1) [OF x(1)] x(2) by simp
    then have "flog2 x < 0" by (rule powi_less_imp_less)
    then have "(2::rat) powi (ulp_exp x - 1) \<le> 2 powi (- 54)" by (intro powi_mono) (simp add: ulp_exp_def)
    with fround_error [OF x(1)] show ?thesis by linarith
  qed
  consider "q = 0" | "q = 1" | "q = - 1" | "0 < q" "q < 1" | "- 1 < q" "q < 0" using assms by linarith
  then show ?thesis
  proof cases
    case 4
    then show ?thesis by (rule pos)
  next
    case 5
    then have "\<bar>fround (- q) - (- q)\<bar> \<le> 2 powi (- 54)" by (intro pos) auto
    then show ?thesis by (simp add: fround_minus abs_minus_commute)
  qed (simp_all add: fround_minus)
qed

section \<open>Values and operations\<close>

datatype f64 = NaN | PInf | NInf | NZero | Fin rat

definition max_finite :: rat where
  "max_finite = (2 ^ 53 - 1) * 2 ^ 971"

fun is_finite :: "f64 \<Rightarrow> bool" where
  "is_finite NZero = True"
| "is_finite (Fin _) = True"
| "is_finite _ = False"

fun fval :: "f64 \<Rightarrow> rat" where
  "fval (Fin q) = q"
| "fval _ = 0"

fun sign_neg :: "f64 \<Rightarrow> bool" where
  "sign_neg NaN = False"
| "sign_neg PInf = False"
| "sign_neg NInf = True"
| "sign_neg NZero = True"
| "sign_neg (Fin q) = (q < 0)"

text \<open>Round a non-zero exact result, or one whose zero is positive.\<close>

definition of_exact :: "rat \<Rightarrow> f64" where
  "of_exact q =
     (let r = fround q in
      if r > max_finite then PInf
      else if r < - max_finite then NInf
      else if r = 0 \<and> q < 0 then NZero else Fin r)"

fun f_neg :: "f64 \<Rightarrow> f64" where
  "f_neg NaN = NaN"
| "f_neg PInf = NInf"
| "f_neg NInf = PInf"
| "f_neg NZero = Fin 0"
| "f_neg (Fin q) = (if q = 0 then NZero else Fin (- q))"

fun f_add :: "f64 \<Rightarrow> f64 \<Rightarrow> f64" where
  "f_add NaN y = NaN"
| "f_add PInf y = (if y = NaN \<or> y = NInf then NaN else PInf)"
| "f_add NInf y = (if y = NaN \<or> y = PInf then NaN else NInf)"
| "f_add NZero y = (case y of Fin q \<Rightarrow> Fin q | _ \<Rightarrow> y)"
| "f_add (Fin p) y =
     (case y of Fin q \<Rightarrow> of_exact (p + q) | NZero \<Rightarrow> Fin p | _ \<Rightarrow> y)"

definition f_sub :: "f64 \<Rightarrow> f64 \<Rightarrow> f64" where
  "f_sub x y = f_add x (f_neg y)"

definition signed_zero :: "bool \<Rightarrow> f64" where
  "signed_zero neg = (if neg then NZero else Fin 0)"

definition signed_inf :: "bool \<Rightarrow> f64" where
  "signed_inf neg = (if neg then NInf else PInf)"

definition f_mul :: "f64 \<Rightarrow> f64 \<Rightarrow> f64" where
  "f_mul x y =
     (let s = (sign_neg x \<noteq> sign_neg y) in
      if x = NaN \<or> y = NaN then NaN
      else if is_finite x \<and> is_finite y
      then (if fval x * fval y = 0 then signed_zero s else of_exact (fval x * fval y))
      else if (is_finite x \<and> fval x = 0) \<or> (is_finite y \<and> fval y = 0) then NaN
      else signed_inf s)"

definition f_div :: "f64 \<Rightarrow> f64 \<Rightarrow> f64" where
  "f_div x y =
     (let s = (sign_neg x \<noteq> sign_neg y) in
      if x = NaN \<or> y = NaN then NaN
      else if is_finite x \<and> is_finite y
      then (if fval y = 0 then (if fval x = 0 then NaN else signed_inf s)
            else if fval x = 0 then signed_zero s else of_exact (fval x / fval y))
      else if is_finite x then signed_zero s
      else if is_finite y then signed_inf s
      else NaN)"

text \<open>Comparisons; every one of them is false when an operand is NaN.\<close>

definition f_lt :: "f64 \<Rightarrow> f64 \<Rightarrow> bool" where
  "f_lt x y \<longleftrightarrow>
     (if x = NaN \<or> y = NaN \<or> x = PInf \<or> y = NInf then False
      else if x = NInf \<or> y = PInf then True
      else fval x < fval y)"

definition f_eq :: "f64 \<Rightarrow> f64 \<Rightarrow> bool" where
  "f_eq x y \<longleftrightarrow> x \<noteq> NaN \<and> y \<noteq> NaN \<and> (if is_finite x \<and> is_finite y then fval x = fval y else x = y)"

definition f_le :: "f64 \<Rightarrow> f64 \<Rightarrow> bool" where
  "f_le x y \<longleftrightarrow> f_lt x y \<or> f_eq x y"

text \<open>\<open>f64::total_cmp\<close>: as above, with \<open>-0 < +0\<close> and the (positive) NaN last.\<close>

definition f_total_le :: "f64 \<Rightarrow> f64 \<Rightarrow> bool" where
  "f_total_le x y \<longleftrightarrow>
     (if y = NaN then True else if x = NaN then False
      else f_le x y \<and> \<not> (x = Fin 0 \<and> y = NZero))"

text \<open>A decimal literal, and \<open>as f64\<close> / \<open>f64::from\<close> of an unsigned integer.\<close>

definition f_lit :: "rat \<Rightarrow> f64" where
  "f_lit q = of_exact q"

definition f_of_nat :: "nat \<Rightarrow> f64" where
  "f_of_nat n = of_exact (of_nat n)"

text \<open>A finite value of the datatype that is a binary64 number.\<close>

fun f64_ok :: "f64 \<Rightarrow> bool" where
  "f64_ok (Fin q) = (fround q = q \<and> \<bar>q\<bar> \<le> max_finite)"
| "f64_ok _ = True"

section \<open>Arithmetic on finite values\<close>

lemma max_finite_pos [simp]: "0 < max_finite" "0 \<le> max_finite" "1 \<le> max_finite" "\<not> max_finite < 0"
  by (simp_all add: max_finite_def)

lemma of_exact_01 [simp]: "of_exact 0 = Fin 0" "of_exact 1 = Fin 1"
proof -
  have "\<not> max_finite < 1" "\<not> 1 < - max_finite" using max_finite_pos(3) by linarith+
  then show "of_exact 0 = Fin 0" "of_exact 1 = Fin 1" by (simp_all add: of_exact_def)
qed

lemma fround_max_finite [simp]: "fround max_finite = max_finite"
  using fround_dyadic [of "2 ^ 53 - 1" 971] by (simp add: max_finite_def)

lemma fround_le_max: "\<bar>q\<bar> \<le> max_finite \<Longrightarrow> \<bar>fround q\<bar> \<le> max_finite"
  using fround_mono [of q max_finite] fround_mono [of "- max_finite" q] by (auto simp: fround_minus abs_le_iff)

lemma of_exact_fin:
  assumes "\<bar>q\<bar> \<le> max_finite"
  shows "is_finite (of_exact q)" "fval (of_exact q) = fround q" "f64_ok (of_exact q)"
  using fround_le_max [OF assms] by (auto simp: of_exact_def Let_def abs_le_iff)

lemma f64_ok_of_exact: "f64_ok (of_exact q)"
  by (auto simp: of_exact_def Let_def abs_le_iff)

lemma f64_ok_fval: "is_finite x \<Longrightarrow> f64_ok x \<Longrightarrow> fround (fval x) = fval x \<and> \<bar>fval x\<bar> \<le> max_finite"
  by (cases x) auto

text \<open>An operation on finite values whose exact result is in range gives the rounded result.\<close>

definition rounds_to :: "f64 \<Rightarrow> rat \<Rightarrow> bool" where
  "rounds_to x q \<longleftrightarrow> is_finite x \<and> f64_ok x \<and> fval x = fround q"

lemma rounds_toD: "rounds_to x q \<Longrightarrow> is_finite x" "rounds_to x q \<Longrightarrow> f64_ok x" "rounds_to x q \<Longrightarrow> fval x = fround q"
  by (simp_all add: rounds_to_def)

lemma rounds_to_of_exact: "\<bar>q\<bar> \<le> max_finite \<Longrightarrow> rounds_to (of_exact q) q"
  by (simp add: rounds_to_def of_exact_fin)

lemma f_add_rounds:
  assumes "is_finite x" "is_finite y" "f64_ok x" "f64_ok y" "\<bar>fval x + fval y\<bar> \<le> max_finite"
  shows "rounds_to (f_add x y) (fval x + fval y)"
  using assms rounds_to_of_exact [of "fval x + fval y"]
  by (cases x; cases y) (simp_all add: rounds_to_def)

lemma f_neg_props:
  "is_finite (f_neg x) = is_finite x" "is_finite x \<Longrightarrow> fval (f_neg x) = - fval x" "f64_ok x \<Longrightarrow> f64_ok (f_neg x)"
  by (cases x; auto simp: fround_minus)+

lemma f_sub_rounds:
  assumes "is_finite x" "is_finite y" "f64_ok x" "f64_ok y" "\<bar>fval x - fval y\<bar> \<le> max_finite"
  shows "rounds_to (f_sub x y) (fval x - fval y)"
  using f_add_rounds [of x "f_neg y"] assms by (simp add: f_sub_def f_neg_props)

lemma signed_zero_rounds: "rounds_to (signed_zero s) 0"
  by (simp add: rounds_to_def signed_zero_def)

lemma finite_not_NaN: "is_finite x \<Longrightarrow> x \<noteq> NaN"
  by auto

lemma f_mul_rounds:
  assumes "is_finite x" "is_finite y" "\<bar>fval x * fval y\<bar> \<le> max_finite"
  shows "rounds_to (f_mul x y) (fval x * fval y)"
  using assms rounds_to_of_exact [OF assms(3)] signed_zero_rounds
  by (auto simp: f_mul_def Let_def finite_not_NaN)

lemma f_div_rounds:
  assumes "is_finite x" "is_finite y" "fval y \<noteq> 0" "\<bar>fval x / fval y\<bar> \<le> max_finite"
  shows "rounds_to (f_div x y) (fval x / fval y)"
  using assms rounds_to_of_exact [OF assms(4)] signed_zero_rounds
  by (auto simp: f_div_def Let_def finite_not_NaN)

lemma f_lit_rounds: "\<bar>q\<bar> \<le> max_finite \<Longrightarrow> rounds_to (f_lit q) q"
  by (simp add: f_lit_def rounds_to_of_exact)

lemma f_of_nat_rounds: "of_nat n \<le> max_finite \<Longrightarrow> rounds_to (f_of_nat n) (of_nat n)"
  by (simp add: f_of_nat_def rounds_to_of_exact)

lemma f_of_nat_exact:
  assumes "n \<le> 9007199254740992"
  shows "is_finite (f_of_nat n)" "fval (f_of_nat n) = of_nat n" "f64_ok (f_of_nat n)"
proof -
  have "\<bar>int n\<bar> \<le> 2 ^ 53" using assms by simp
  from fround_of_int [OF this] have e: "fround (of_nat n) = of_nat n" by simp
  have "of_nat n \<le> (of_nat 9007199254740992 :: rat)" using assms by (rule of_nat_mono)
  then have "of_nat n \<le> max_finite" by (simp add: max_finite_def)
  from f_of_nat_rounds [OF this] e show "is_finite (f_of_nat n)" "fval (f_of_nat n) = of_nat n" "f64_ok (f_of_nat n)"
    by (simp_all add: rounds_to_def)
qed

text \<open>Comparisons of finite values are comparisons of the numbers.\<close>

lemma f_cmp_finite:
  assumes "is_finite x" "is_finite y"
  shows "f_lt x y \<longleftrightarrow> fval x < fval y" "f_le x y \<longleftrightarrow> fval x \<le> fval y" "f_eq x y \<longleftrightarrow> fval x = fval y"
  using assms by (cases x; cases y; auto simp: f_lt_def f_le_def f_eq_def)+

lemma f_le_trans: "f_le x y \<Longrightarrow> f_le y z \<Longrightarrow> f_le x z"
  by (cases x; cases y; cases z) (auto simp: f_le_def f_lt_def f_eq_def)

lemma f_lt_le_trans: "f_lt x y \<Longrightarrow> f_le y z \<Longrightarrow> f_lt x z"
  by (cases x; cases y; cases z) (auto simp: f_le_def f_lt_def f_eq_def)

lemma f_le_lt_trans: "f_le x y \<Longrightarrow> f_lt y z \<Longrightarrow> f_lt x z"
  by (cases x; cases y; cases z) (auto simp: f_le_def f_lt_def f_eq_def)

lemma f_lt_imp_le: "f_lt x y \<Longrightarrow> f_le x y"
  by (simp add: f_le_def)

lemma f_lt_not_le: "f_lt x y \<Longrightarrow> \<not> f_le y x"
  by (cases x; cases y) (auto simp: f_le_def f_lt_def f_eq_def)

lemma not_f_lt: "x \<noteq> NaN \<Longrightarrow> y \<noteq> NaN \<Longrightarrow> \<not> f_lt x y \<Longrightarrow> f_le y x"
  by (cases x; cases y) (auto simp: f_le_def f_lt_def f_eq_def)

lemma f_add_not_NaN: "is_finite x \<Longrightarrow> is_finite y \<Longrightarrow> f_add x y \<noteq> NaN"
  by (cases x; cases y) (auto simp: of_exact_def Let_def)

lemma f_sub_not_NaN: "is_finite x \<Longrightarrow> is_finite y \<Longrightarrow> f_sub x y \<noteq> NaN"
  by (simp add: f_sub_def f_add_not_NaN f_neg_props)

text \<open>The closed unit interval, where the scores live.\<close>

definition unit_value :: "f64 \<Rightarrow> bool" where
  "unit_value x \<longleftrightarrow> is_finite x \<and> f64_ok x \<and> 0 \<le> fval x \<and> fval x \<le> 1"

lemma fround_unit: "0 \<le> q \<Longrightarrow> q \<le> 1 \<Longrightarrow> 0 \<le> fround q \<and> fround q \<le> 1"
  using fround_mono [of 0 q] fround_mono [of q 1] by simp

lemma unit_abs_le: "0 \<le> q \<Longrightarrow> q \<le> 1 \<Longrightarrow> \<bar>q\<bar> \<le> max_finite"
  using max_finite_pos(3) by linarith

lemma rounds_to_unit: "rounds_to x q \<Longrightarrow> 0 \<le> q \<Longrightarrow> q \<le> 1 \<Longrightarrow> unit_value x"
  by (simp add: rounds_to_def unit_value_def fround_unit)

section \<open>The total order\<close>

interpretation f_total: comparator f_total_le
proof
  fix x y z :: f64
  show "f_total_le x y \<or> f_total_le y x"
    by (cases x; cases y) (auto simp: f_total_le_def f_le_def f_lt_def f_eq_def)
  show "f_total_le x y \<Longrightarrow> f_total_le y z \<Longrightarrow> f_total_le x z"
    by (cases x; cases y; cases z)
       (auto simp: f_total_le_def f_le_def f_lt_def f_eq_def split: if_splits)
qed

lemma f_total_le_finite: "is_finite x \<Longrightarrow> is_finite y \<Longrightarrow> f_total_le x y \<Longrightarrow> fval x \<le> fval y"
  by (auto simp: f_total_le_def f_cmp_finite finite_not_NaN)

lemma f_total_le_antisym: "f_total_le x y \<Longrightarrow> f_total_le y x \<Longrightarrow> x = y"
  by (cases x; cases y) (auto simp: f_total_le_def f_le_def f_lt_def f_eq_def split: if_splits)

end
