(* ===== verification/Quality.thy ===== *)
theory Quality
  imports Fixed F64
begin

text \<open>
  \<open>crates/mindone-accounting/src/quality.rs\<close>: the weight \<open>beta = n / (n + k)\<close> that moves a score
  from the benchmark to the Glicko rating, and the check for scores in the unit interval that the
  tier and routing components share. The result is shown to stay in the unit interval in floating
  point: the one place where rounding could carry it past one is closed by the error bound.
\<close>

record QualityFusion =
  beta :: f64
  fused :: f64

definition validate_unit_interval :: "f64 \<Rightarrow> string \<Rightarrow> unit acct" where
  "validate_unit_interval value name =
     (if \<not> is_finite value \<or> \<not> (f_le (Fin 0) value \<and> f_le value (Fin 1))
      then Inl (InvalidScore name) else Inr ())"

definition fused_quality :: "f64 \<Rightarrow> f64 \<Rightarrow> u64 \<Rightarrow> u64 \<Rightarrow> QualityFusion acct" where
  "fused_quality benchmark_normalized glicko_normalized valid_samples cold_start_k =
     and_then (validate_unit_interval benchmark_normalized ''benchmark_normalized'') (\<lambda>_.
     and_then (validate_unit_interval glicko_normalized ''glicko_normalized'') (\<lambda>_.
       if cold_start_k = 0 then Inl (InvalidScore ''cold_start_k'')
       else
         let samples = f_of_nat (unat valid_samples);
             b = f_div samples (f_add samples (f_of_nat (unat cold_start_k)));
             f = f_add (f_mul (f_sub (Fin 1) b) benchmark_normalized) (f_mul b glicko_normalized)
         in Inr \<lparr>beta = b, fused = f\<rparr>))"

section \<open>Lemmas\<close>

definition unit_range :: "f64 \<Rightarrow> bool" where
  "unit_range x \<longleftrightarrow> is_finite x \<and> 0 \<le> fval x \<and> fval x \<le> 1"

lemma validate_unit_interval_eq_Inr [result_simps]:
  "validate_unit_interval x name = Inr u \<longleftrightarrow> unit_range x"
  by (auto simp: validate_unit_interval_def unit_range_def f_cmp_finite)

lemma unit_value_iff: "unit_value x \<longleftrightarrow> unit_range x \<and> f64_ok x"
  by (auto simp: unit_value_def unit_range_def)

lemma u64_as_f64:
  fixes n :: u64
  shows "rounds_to (f_of_nat (unat n)) (of_nat (unat n))" "of_nat (unat n) \<le> (2::rat) ^ 64"
proof -
  have "(of_nat (unat n) :: rat) \<le> of_nat (2 ^ 64)"
    using unat_u64_less [of n] by (intro of_nat_mono) simp
  then show n: "of_nat (unat n) \<le> (2::rat) ^ 64" by simp
  have "(2::rat) ^ 64 \<le> max_finite" by (simp add: max_finite_def)
  with n show "rounds_to (f_of_nat (unat n)) (of_nat (unat n))" by (intro f_of_nat_rounds) linarith
qed

lemma u64_pos_as_f64:
  fixes k :: u64
  assumes "k \<noteq> 0"
  shows "1 \<le> fval (f_of_nat (unat k))"
proof -
  have "1 \<le> unat k" using assms by (simp add: Suc_leI unat_gt_0)
  from of_nat_mono [OF this] have "(1::rat) \<le> of_nat (unat k)" by (simp only: of_nat_1)
  from fround_mono [OF this] show ?thesis using rounds_toD(3) [OF u64_as_f64(1) [of k]] by (simp only: fround_1)
qed

lemma fround_2_64: "fround (2 ^ 64) = 2 ^ 64"
  using fround_dyadic [of 1 64] by simp

lemma beta_unit:
  fixes n cold_start_k :: u64
  assumes "cold_start_k \<noteq> 0"
  shows "unit_value (f_div (f_of_nat (unat n)) (f_add (f_of_nat (unat n)) (f_of_nat (unat cold_start_k))))"
proof -
  let ?s = "f_of_nat (unat n)" and ?k = "f_of_nat (unat cold_start_k)"
  note s = u64_as_f64 [of n] and k = u64_as_f64 [of cold_start_k]
  have S: "0 \<le> fval ?s" "fval ?s \<le> 2 ^ 64" "fround (fval ?s) = fval ?s"
    using rounds_toD(3) [OF s(1)] fround_mono [OF s(2)] fround_2_64 fround_nonneg [OF of_nat_0_le_iff [of "unat n"]] by simp_all
  have K: "1 \<le> fval ?k" "fval ?k \<le> 2 ^ 64"
    using u64_pos_as_f64 [OF assms] rounds_toD(3) [OF k(1)] fround_mono [OF k(2)] fround_2_64 by simp_all
  have "fval ?s + fval ?k \<le> max_finite" using S K by (simp add: max_finite_def)
  then have d: "rounds_to (f_add ?s ?k) (fval ?s + fval ?k)"
    using S K s k by (intro f_add_rounds) (auto simp: rounds_to_def)
  have D: "fval ?s \<le> fval (f_add ?s ?k)" "1 \<le> fval (f_add ?s ?k)"
    using rounds_toD(3) [OF d] fround_mono [of "fval ?s" "fval ?s + fval ?k"] S K
      fround_mono [of 1 "fval ?s + fval ?k"] by auto
  have q: "0 \<le> fval ?s / fval (f_add ?s ?k)" "fval ?s / fval (f_add ?s ?k) \<le> 1"
    using S D by (auto simp: divide_le_eq)
  have "rounds_to (f_div ?s (f_add ?s ?k)) (fval ?s / fval (f_add ?s ?k))"
    using rounds_toD(1) [OF s(1)] rounds_toD(1) [OF d] D unit_abs_le [OF q] by (intro f_div_rounds) auto
  then show ?thesis using q by (rule rounds_to_unit)
qed

text \<open>The complement of a weight: at most \<open>2^-54\<close> too large.\<close>

lemma complement_unit:
  assumes "unit_value b"
  shows "unit_value (f_sub (Fin 1) b)" "fval (f_sub (Fin 1) b) + fval b \<le> 1 + 2 powi (- 54)"
proof -
  have b: "is_finite b" "f64_ok b" "0 \<le> fval b" "fval b \<le> 1" using assms by (simp_all add: unit_value_def)
  have q: "0 \<le> 1 - fval b" "1 - fval b \<le> 1" using b by simp_all
  have r: "rounds_to (f_sub (Fin 1) b) (1 - fval b)"
    using f_sub_rounds [of "Fin 1" b] b unit_abs_le [OF q] by simp
  show "unit_value (f_sub (Fin 1) b)" using rounds_to_unit [OF r q] .
  have "\<bar>fround (1 - fval b) - (1 - fval b)\<bar> \<le> 2 powi (- 54)" using q by (intro fround_error_unit) simp
  then show "fval (f_sub (Fin 1) b) + fval b \<le> 1 + 2 powi (- 54)" using rounds_toD(3) [OF r] by linarith
qed

lemma fround_just_above_1: "fround (1 + 2 powi (- 54)) = 1"
proof -
  have "flog2 (1 + 2 powi (- 54)) = 0" by (rule flog2_unique) (simp_all add: power_int_minus)
  then have u: "ulp_exp (1 + 2 powi (- 54)) = - 52" by (simp add: ulp_exp_def)
  have "\<lfloor>(1 + 2 powi (- 54)) / 2 powi (- 52) :: rat\<rfloor> = 2 ^ 52"
    by (rule floor_unique) (simp_all add: power_int_minus)
  then have "round_half_even ((1 + 2 powi (- 54)) / 2 powi (- 52)) = 2 ^ 52"
    by (simp add: round_half_even_def Let_def power_int_minus)
  then have "round_pos (1 + 2 powi (- 54)) = 1"
    unfolding round_pos_def u by (simp add: power_int_minus)
  then show ?thesis by (simp add: fround_def)
qed

lemma product_unit:
  assumes "unit_value a" "unit_range v"
  shows "unit_value (f_mul a v)" "fval (f_mul a v) \<le> fval a"
proof -
  have p: "0 \<le> fval a * fval v" "fval a * fval v \<le> fval a" "fval a \<le> 1" "fround (fval a) = fval a"
    using assms f64_ok_fval [of a] by (auto simp: unit_value_def unit_range_def mult_left_le)
  then have q: "0 \<le> fval a * fval v" "fval a * fval v \<le> 1" by linarith+
  have r: "rounds_to (f_mul a v) (fval a * fval v)"
    using assms unit_abs_le [OF q] by (intro f_mul_rounds) (auto simp: unit_value_def unit_range_def)
  show "unit_value (f_mul a v)" using rounds_to_unit [OF r q] .
  show "fval (f_mul a v) \<le> fval a" using rounds_toD(3) [OF r] fround_mono [OF p(2)] p(4) by simp
qed

lemma convex_unit:
  assumes "unit_value b" "unit_range v" "unit_range w"
  shows "unit_value (f_add (f_mul (f_sub (Fin 1) b) v) (f_mul b w))"
proof -
  let ?c = "f_sub (Fin 1) b"
  note c = complement_unit [OF assms(1)]
  note x = product_unit [OF c(1) assms(2)] and y = product_unit [OF assms(1) assms(3)]
  have le: "fval (f_mul ?c v) + fval (f_mul b w) \<le> 1 + 2 powi (- 54)" using c x y by linarith
  have ge: "0 \<le> fval (f_mul ?c v) + fval (f_mul b w)" using x y by (simp add: unit_value_def)
  have "(2::rat) powi (- 54) \<le> 1" by (simp add: power_int_minus)
  moreover have "2 \<le> max_finite" by (simp add: max_finite_def)
  ultimately have "\<bar>fval (f_mul ?c v) + fval (f_mul b w)\<bar> \<le> max_finite" using le ge by linarith
  then have r: "rounds_to (f_add (f_mul ?c v) (f_mul b w)) (fval (f_mul ?c v) + fval (f_mul b w))"
    using x y by (intro f_add_rounds) (auto simp: unit_value_def)
  show ?thesis
    using rounds_toD [OF r] fround_mono [OF le] fround_just_above_1 fround_nonneg [OF ge]
    by (simp add: unit_value_def)
qed

section \<open>Properties\<close>

text \<open>Quality fusion is well defined and bounded: it succeeds exactly when both scores are finite
  numbers of the unit interval and the cold-start constant is positive, and then, in floating point
  arithmetic and for every pair of counts, the weight and the fused score are finite numbers of the
  unit interval.\<close>

theorem fused_quality_unit:
  "case fused_quality b g n k of
     Inr q \<Rightarrow> unit_range b \<and> unit_range g \<and> k \<noteq> 0 \<and> unit_range (beta q) \<and> unit_range (fused q)
   | Inl _ \<Rightarrow> \<not> (unit_range b \<and> unit_range g \<and> k \<noteq> 0)"
proof (cases "unit_range b \<and> unit_range g \<and> k \<noteq> 0")
  case True
  then have v: "validate_unit_interval b ''benchmark_normalized'' = Inr ()"
    "validate_unit_interval g ''glicko_normalized'' = Inr ()"
    by (simp_all add: result_simps)
  have bu: "unit_value (f_div (f_of_nat (unat n)) (f_add (f_of_nat (unat n)) (f_of_nat (unat k))))"
    using True by (intro beta_unit) simp
  from True convex_unit [OF bu, of b g] bu show ?thesis
    by (simp add: fused_quality_def v Let_def unit_value_iff)
next
  case False
  then show ?thesis
    by (auto simp: fused_quality_def result_simps split: sum.splits)
qed

text \<open>With no sample the fused score is the benchmark alone: the weight is zero and the result has
  exactly the benchmark's value, so a cold start is not moved by the rating.\<close>

theorem fused_quality_cold_start:
  assumes "unit_value b" and "unit_range g" and "k \<noteq> 0"
  shows "\<exists>q. fused_quality b g 0 k = Inr q \<and> fval (beta q) = 0 \<and> fval (fused q) = fval b"
proof -
  have v: "validate_unit_interval b ''benchmark_normalized'' = Inr ()"
    "validate_unit_interval g ''glicko_normalized'' = Inr ()"
    using assms by (simp_all add: result_simps unit_value_iff)
  let ?s = "f_of_nat 0"
  have s: "f_of_nat 0 = Fin 0" by (simp add: f_of_nat_def of_exact_def)
  note k = u64_as_f64 [of k]
  note K = u64_pos_as_f64 [OF assms(3)]
  have kf: "is_finite (f_of_nat (unat k))" "f64_ok (f_of_nat (unat k))" using k(1) by (simp_all add: rounds_to_def)
  have kk: "f_add ?s (f_of_nat (unat k)) = f_of_nat (unat k)"
    using K kf by (cases "f_of_nat (unat k)") (auto simp: s of_exact_def abs_le_iff)
  have b0: "f_div ?s (f_add ?s (f_of_nat (unat k))) = Fin 0"
    unfolding kk using K kf by (cases "f_of_nat (unat k)") (auto simp: s f_div_def signed_zero_def)
  have one: "f_sub (Fin 1) (Fin 0) = Fin 1" by (simp add: f_sub_def)
  have bb: "f_mul (Fin 1) b = b"
    using assms(1) by (cases b) (auto simp: f_mul_def unit_value_def of_exact_def signed_zero_def abs_le_iff)
  have g0: "f_mul (Fin 0) g \<in> {Fin 0, NZero}"
    using assms(2) by (cases g) (auto simp: f_mul_def unit_range_def signed_zero_def)
  have "fval (f_add b (f_mul (Fin 0) g)) = fval b"
    using g0 assms(1) by (cases b) (auto simp: unit_value_def of_exact_def abs_le_iff)
  then show ?thesis
    using assms(3) by (simp add: fused_quality_def v Let_def b0 one bb)
qed

theorem fused_quality_cold_start_witness:
  "\<exists>q. fused_quality (f_lit (4/5)) (f_lit (1/5)) 0 10 = Inr q \<and> fval (beta q) = 0 \<and>
     fval (fused q) = fval (f_lit (4/5))"
proof (rule fused_quality_cold_start)
  show "unit_value (f_lit (4/5))"
    by (rule rounds_to_unit [OF f_lit_rounds]) (simp_all add: max_finite_def)
  have "unit_value (f_lit (1/5))"
    by (rule rounds_to_unit [OF f_lit_rounds]) (simp_all add: max_finite_def)
  then show "unit_range (f_lit (1/5))" by (simp add: unit_value_iff)
qed simp

end
