(* ===== verification/Tier.thy ===== *)
theory Tier
  imports Quality
begin

text \<open>
  \<open>crates/mindone-accounting/src/tier.rs\<close>: the classification of nodes into performance tiers with
  hysteresis. The tier enters the settlement as a multiplier, so the properties are about
  stability: the checks of \<open>validate\<close> are exactly what keeps a freshly promoted or demoted node in its
  tier, one classification never crosses two tiers, and a better score never gives a lower tier.
\<close>

record TierPolicy =
  minimum_samples :: u64
  high_enter :: f64
  high_exit :: f64
  low_enter :: f64
  low_exit :: f64
  relative_margin :: f64
  high_percentile :: f64
  low_percentile :: f64

definition TierPolicy_default :: TierPolicy where
  "TierPolicy_default =
     \<lparr>minimum_samples = 20, high_enter = f_lit (80/100), high_exit = f_lit (72/100),
      low_enter = f_lit (35/100), low_exit = f_lit (42/100), relative_margin = f_lit (3/100),
      high_percentile = f_lit (80/100), low_percentile = f_lit (20/100)\<rparr>"

record TierResult =
  tier :: PerformanceTier
  cold_start :: bool
  relative_assist_applied :: bool

definition TierPolicy_validate :: "TierPolicy \<Rightarrow> unit acct" where
  "TierPolicy_validate p =
     and_then
       (try_each (\<lambda>(value, name). map_err (\<lambda>_. InvalidTierPolicy name) (validate_unit_interval value name))
          [(high_enter p, ''high_enter''), (high_exit p, ''high_exit''), (low_enter p, ''low_enter''),
           (low_exit p, ''low_exit''), (high_percentile p, ''high_percentile''),
           (low_percentile p, ''low_percentile'')])
       (\<lambda>_.
     if minimum_samples p = 0 then Inl (InvalidTierPolicy ''minimum_samples'')
     else if \<not> is_finite (relative_margin p) \<or> f_lt (relative_margin p) (Fin 0)
     then Inl (InvalidTierPolicy ''relative_margin'')
     else if \<not> (f_lt (low_enter p) (low_exit p) \<and> f_lt (low_exit p) (high_exit p)
                 \<and> f_lt (high_exit p) (high_enter p))
     then Inl (InvalidTierPolicy ''threshold order'')
     else if f_lt (low_exit p) (f_add (low_enter p) (relative_margin p))
             \<or> f_lt (f_sub (high_enter p) (relative_margin p)) (high_exit p)
     then Inl (InvalidTierPolicy ''assist crosses hysteresis'')
     else if f_le (high_percentile p) (low_percentile p)
     then Inl (InvalidTierPolicy ''percentile order'')
     else Inr ())"

definition high_relative_assist :: "TierPolicy \<Rightarrow> f64 \<Rightarrow> f64 \<Rightarrow> bool" where
  "high_relative_assist p s pct \<longleftrightarrow>
     f_le (f_sub (high_enter p) (relative_margin p)) s \<and> f_le (high_percentile p) pct"

definition low_relative_assist :: "TierPolicy \<Rightarrow> f64 \<Rightarrow> f64 \<Rightarrow> bool" where
  "low_relative_assist p s pct \<longleftrightarrow>
     f_le s (f_add (low_enter p) (relative_margin p)) \<and> f_le pct (low_percentile p)"

fun classify_step :: "TierPolicy \<Rightarrow> PerformanceTier \<Rightarrow> f64 \<Rightarrow> f64 \<Rightarrow> PerformanceTier \<times> bool" where
  "classify_step p High s pct = (if f_le (high_exit p) s then (High, False) else (Medium, False))"
| "classify_step p Low s pct = (if f_le s (low_exit p) then (Low, False) else (Medium, False))"
| "classify_step p Medium s pct =
     (if f_le (high_enter p) s then (High, False)
      else if high_relative_assist p s pct then (High, True)
      else if f_le s (low_enter p) then (Low, False)
      else if low_relative_assist p s pct then (Low, True)
      else (Medium, False))"

definition classify :: "TierPolicy \<Rightarrow> PerformanceTier \<Rightarrow> f64 \<Rightarrow> f64 \<Rightarrow> u64 \<Rightarrow> TierResult acct" where
  "classify p current absolute_score percentile valid_samples =
     and_then (TierPolicy_validate p) (\<lambda>_.
     and_then (validate_unit_interval absolute_score ''absolute_score'') (\<lambda>_.
     and_then (validate_unit_interval percentile ''percentile'') (\<lambda>_.
       if valid_samples < minimum_samples p
       then Inr \<lparr>tier = Medium, cold_start = True, relative_assist_applied = False\<rparr>
       else
         let (t, assist) = classify_step p current absolute_score percentile in
         Inr \<lparr>tier = t, cold_start = False, relative_assist_applied = assist\<rparr>)))"

section \<open>Lemmas\<close>

text \<open>What a validated policy guarantees of its thresholds.\<close>

definition gates_ok :: "TierPolicy \<Rightarrow> bool" where
  "gates_ok p \<longleftrightarrow>
     f_lt (low_enter p) (low_exit p) \<and> f_lt (low_exit p) (high_exit p) \<and> f_lt (high_exit p) (high_enter p) \<and>
     f_le (f_add (low_enter p) (relative_margin p)) (low_exit p) \<and>
     f_le (high_exit p) (f_sub (high_enter p) (relative_margin p))"

lemma validate_gates:
  assumes "TierPolicy_validate p = Inr ()"
  shows "gates_ok p"
proof -
  have fin: "is_finite (low_enter p)" "is_finite (high_enter p)" "is_finite (relative_margin p)"
    "is_finite (low_exit p)" "is_finite (high_exit p)"
    using assms by (auto simp: TierPolicy_validate_def result_simps unit_range_def)
  have "\<not> f_lt (low_exit p) (f_add (low_enter p) (relative_margin p))"
    "\<not> f_lt (f_sub (high_enter p) (relative_margin p)) (high_exit p)"
    "f_lt (low_enter p) (low_exit p)" "f_lt (low_exit p) (high_exit p)" "f_lt (high_exit p) (high_enter p)"
    using assms by (auto simp: TierPolicy_validate_def and_then_eq_Inr if_Inl_eq_Inr)
  then show ?thesis
    using fin by (simp add: gates_ok_def not_f_lt f_add_not_NaN f_sub_not_NaN finite_not_NaN)
qed

lemma classify_eq_Inr:
  "classify p c s pct n = Inr r \<longleftrightarrow>
     TierPolicy_validate p = Inr () \<and> unit_range s \<and> unit_range pct \<and>
     r = (if n < minimum_samples p
          then \<lparr>tier = Medium, cold_start = True, relative_assist_applied = False\<rparr>
          else \<lparr>tier = fst (classify_step p c s pct), cold_start = False,
                relative_assist_applied = snd (classify_step p c s pct)\<rparr>)"
  by (auto simp: classify_def result_simps Let_def case_prod_beta split: if_splits)

lemma promoted_keeps:
  "gates_ok p \<Longrightarrow> fst (classify_step p Medium s pct) = High \<Longrightarrow> f_le (high_exit p) s"
  by (auto simp: gates_ok_def high_relative_assist_def split: if_splits
      intro: f_le_trans f_lt_imp_le)

lemma demoted_keeps:
  "gates_ok p \<Longrightarrow> fst (classify_step p Medium s pct) = Low \<Longrightarrow> f_le s (low_exit p)"
  by (auto simp: gates_ok_def low_relative_assist_def split: if_splits
      intro: f_le_trans f_lt_imp_le)

lemma step_adjacent:
  "(c, fst (classify_step p c s pct)) \<notin> {(High, Low), (Low, High)}"
  by (cases c) simp_all

text \<open>The tier a sequence of classifications settles in.\<close>

definition step_tier :: "TierPolicy \<Rightarrow> f64 \<Rightarrow> f64 \<Rightarrow> PerformanceTier \<Rightarrow> PerformanceTier" where
  "step_tier p s pct c = fst (classify_step p c s pct)"

lemma step_twice_fixed:
  assumes "gates_ok p"
  shows "step_tier p s pct (step_tier p s pct (step_tier p s pct c)) = step_tier p s pct (step_tier p s pct c)"
proof -
  let ?f = "step_tier p s pct"
  have H: "?f High = High \<or> ?f High = Medium" and L: "?f Low = Low \<or> ?f Low = Medium"
    by (simp_all add: step_tier_def)
  have M: "?f Medium = High \<Longrightarrow> ?f High = High" "?f Medium = Low \<Longrightarrow> ?f Low = Low"
    using promoted_keeps [OF assms(1)] demoted_keeps [OF assms(1)] by (simp_all add: step_tier_def)
  consider "?f Medium = High" | "?f Medium = Medium" | "?f Medium = Low" by (cases "?f Medium") auto
  then show ?thesis
  proof cases
    case 1
    with M H L show ?thesis by (cases c) auto
  next
    case 2
    with M H L show ?thesis by (cases c) auto
  next
    case 3
    with M H L show ?thesis by (cases c) auto
  qed
qed

fun tier_rank :: "PerformanceTier \<Rightarrow> nat" where
  "tier_rank Low = 0"
| "tier_rank Medium = 1"
| "tier_rank High = 2"

lemma step_mono:
  assumes "f_le s s'" "f_le pct pct'"
  shows "tier_rank (fst (classify_step p c s pct)) \<le> tier_rank (fst (classify_step p c s' pct'))"
proof (cases c)
  case Medium
  have up: "f_le x s \<Longrightarrow> f_le x s'" "f_le x pct \<Longrightarrow> f_le x pct'"
    and down: "f_le s' x \<Longrightarrow> f_le s x" "f_le pct' x \<Longrightarrow> f_le pct x" for x
    using assms f_le_trans by blast+
  show ?thesis
    using up down by (auto simp: Medium high_relative_assist_def low_relative_assist_def)
qed (use assms in \<open>auto intro: f_le_trans\<close>)

lemma lit_near: "0 \<le> q \<Longrightarrow> q \<le> 1 \<Longrightarrow> unit_value (f_lit q) \<and> \<bar>fval (f_lit q) - q\<bar> \<le> 2 powi (- 54)"
  using f_lit_rounds [OF unit_abs_le, of q] fround_error_unit [of q]
  by (simp add: rounds_to_unit rounds_to_def)

lemma add_near:
  "unit_value x \<Longrightarrow> unit_value y \<Longrightarrow> \<bar>fval x + fval y\<bar> \<le> 1 \<Longrightarrow>
     is_finite (f_add x y) \<and> \<bar>fval (f_add x y) - (fval x + fval y)\<bar> \<le> 2 powi (- 54)"
  using f_add_rounds [of x y] fround_error_unit [of "fval x + fval y"] max_finite_pos(3)
  by (auto simp: unit_value_def rounds_to_def)

lemma sub_near:
  "unit_value x \<Longrightarrow> unit_value y \<Longrightarrow> \<bar>fval x - fval y\<bar> \<le> 1 \<Longrightarrow>
     is_finite (f_sub x y) \<and> \<bar>fval (f_sub x y) - (fval x - fval y)\<bar> \<le> 2 powi (- 54)"
  using f_sub_rounds [of x y] fround_error_unit [of "fval x - fval y"] max_finite_pos(3)
  by (auto simp: unit_value_def rounds_to_def)

text \<open>The default policy passes its own checks, in floating point.\<close>

lemma TierPolicy_default_valid: "TierPolicy_validate TierPolicy_default = Inr ()"
proof -
  let ?p = TierPolicy_default
  define d :: rat where "d = 2 powi (- 54)"
  have d: "0 < d" "d < 1/1000" by (simp_all add: d_def power_int_minus)
  note near = lit_near [folded d_def]
  have f: "unit_value (high_enter ?p)" "unit_value (high_exit ?p)" "unit_value (low_enter ?p)"
    "unit_value (low_exit ?p)" "unit_value (relative_margin ?p)" "unit_value (high_percentile ?p)"
    "unit_value (low_percentile ?p)"
    unfolding TierPolicy_default_def TierPolicy.simps using near by simp_all
  have v: "\<bar>fval (high_enter ?p) - 80/100\<bar> \<le> d" "\<bar>fval (high_exit ?p) - 72/100\<bar> \<le> d"
    "\<bar>fval (low_enter ?p) - 35/100\<bar> \<le> d" "\<bar>fval (low_exit ?p) - 42/100\<bar> \<le> d"
    "\<bar>fval (relative_margin ?p) - 3/100\<bar> \<le> d" "\<bar>fval (high_percentile ?p) - 80/100\<bar> \<le> d"
    "\<bar>fval (low_percentile ?p) - 20/100\<bar> \<le> d"
    unfolding TierPolicy_default_def TierPolicy.simps using near by simp_all
  have s1: "\<bar>fval (low_enter ?p) + fval (relative_margin ?p)\<bar> \<le> 1"
    "\<bar>fval (high_enter ?p) - fval (relative_margin ?p)\<bar> \<le> 1"
    using v d unfolding abs_le_iff by linarith+
  note sum = add_near [OF f(3) f(5) s1(1), folded d_def]
    and diff = sub_near [OF f(1) f(5) s1(2), folded d_def]
  have n: "minimum_samples ?p = 20" by (simp add: TierPolicy_default_def)
  have ord: "fval (low_enter ?p) < fval (low_exit ?p)" "fval (low_exit ?p) < fval (high_exit ?p)"
    "fval (high_exit ?p) < fval (high_enter ?p)" "fval (low_percentile ?p) < fval (high_percentile ?p)"
    "fval (f_add (low_enter ?p) (relative_margin ?p)) \<le> fval (low_exit ?p)"
    "fval (high_exit ?p) \<le> fval (f_sub (high_enter ?p) (relative_margin ?p))"
    using v d sum diff unfolding abs_le_iff by linarith+
  have fin: "is_finite (high_enter ?p)" "is_finite (high_exit ?p)" "is_finite (low_enter ?p)"
    "is_finite (low_exit ?p)" "is_finite (relative_margin ?p)" "is_finite (high_percentile ?p)"
    "is_finite (low_percentile ?p)" "0 \<le> fval (relative_margin ?p)"
    using f by (simp_all add: unit_value_def)
  have u: "unit_range (high_enter ?p)" "unit_range (high_exit ?p)" "unit_range (low_enter ?p)"
    "unit_range (low_exit ?p)" "unit_range (high_percentile ?p)" "unit_range (low_percentile ?p)"
    using f by (simp_all add: unit_value_iff)
  show ?thesis
    using u ord fin sum diff by (simp add: TierPolicy_validate_def result_simps f_cmp_finite n)
qed

section \<open>Properties\<close>

text \<open>Promotion and demotion stick: whenever a validated policy moves a medium node up or down, the
  next classification at the same score keeps it there, whatever its percentile rank has become.
  This is what the check that the relative-assist bands stay inside the hysteresis bands buys.\<close>

theorem tier_change_sticks:
  assumes "classify p Medium s pct n = Inr r" and "classify p (tier r) s pct' n' = Inr r'"
    and "\<not> n < minimum_samples p" and "\<not> n' < minimum_samples p" and "tier r \<noteq> Medium"
  shows "tier r' = tier r"
proof -
  have g: "gates_ok p" using assms(1) by (simp add: classify_eq_Inr validate_gates)
  have r: "tier r = fst (classify_step p Medium s pct)" "tier r' = fst (classify_step p (tier r) s pct')"
    using assms by (simp_all add: classify_eq_Inr)
  show ?thesis
  proof (cases "tier r")
    case High
    then have "f_le (high_exit p) s" using r promoted_keeps [OF g] by simp
    with High r show ?thesis by simp
  next
    case Low
    then have "f_le s (low_exit p)" using r demoted_keeps [OF g] by simp
    with Low r show ?thesis by simp
  qed (use assms in simp)
qed

lemma default_classify:
  "unit_range s \<Longrightarrow> unit_range pct \<Longrightarrow> classify TierPolicy_default c s pct 100 =
     Inr \<lparr>tier = fst (classify_step TierPolicy_default c s pct), cold_start = False,
          relative_assist_applied = snd (classify_step TierPolicy_default c s pct)\<rparr>"
  by (simp add: classify_eq_Inr TierPolicy_default_valid) (simp add: TierPolicy_default_def)

lemma top_score_step: "classify_step TierPolicy_default Medium (Fin 1) pct = (High, False)"
proof -
  have "unit_value (high_enter TierPolicy_default)" using lit_near [of "80/100"] by (simp add: TierPolicy_default_def)
  then show ?thesis by (simp add: f_cmp_finite unit_value_def)
qed

theorem tier_change_sticks_witness:
  "\<exists>r r'. classify TierPolicy_default Medium (Fin 1) (Fin 1) 100 = Inr r \<and> tier r = High \<and>
     classify TierPolicy_default High (Fin 1) (Fin 0) 100 = Inr r' \<and> tier r' = High"
proof -
  have u: "unit_range (Fin 1)" "unit_range (Fin 0)" by (simp_all add: unit_range_def)
  obtain r where r: "classify TierPolicy_default Medium (Fin 1) (Fin 1) 100 = Inr r" "tier r = High"
    using default_classify [OF u(1) u(1)] top_score_step by auto
  obtain r' where r': "classify TierPolicy_default (tier r) (Fin 1) (Fin 0) 100 = Inr r'"
    using default_classify [OF u] by auto
  have n: "\<not> (100 :: u64) < minimum_samples TierPolicy_default" by (simp add: TierPolicy_default_def)
  have "tier r' = tier r" by (rule tier_change_sticks [OF r(1) r' n n]) (simp add: r)
  with r r' show ?thesis by auto
qed

text \<open>Classification settles: for fixed inputs a node's tier is stable after at most two
  classifications, and one classification never moves it across two tiers.\<close>

theorem tier_settles:
  assumes "classify p c s pct n = Inr r1" and "classify p (tier r1) s pct n = Inr r2"
    and "classify p (tier r2) s pct n = Inr r3"
  shows "tier r3 = tier r2 \<and> (\<not> n < minimum_samples p \<longrightarrow> (c, tier r1) \<notin> {(High, Low), (Low, High)})"
proof -
  have g: "gates_ok p" using assms(1) by (simp add: classify_eq_Inr validate_gates)
  show ?thesis
  proof (cases "n < minimum_samples p")
    case True
    with assms show ?thesis by (simp add: classify_eq_Inr)
  next
    case False
    with assms have "tier r1 = step_tier p s pct c" "tier r2 = step_tier p s pct (tier r1)"
      "tier r3 = step_tier p s pct (tier r2)" by (simp_all add: classify_eq_Inr step_tier_def)
    with step_twice_fixed [OF g] step_adjacent show ?thesis by (simp add: step_tier_def)
  qed
qed

theorem tier_settles_witness:
  "\<exists>r1 r2 r3. classify TierPolicy_default Low (Fin 1) (Fin 1) 100 = Inr r1 \<and>
     classify TierPolicy_default (tier r1) (Fin 1) (Fin 1) 100 = Inr r2 \<and>
     classify TierPolicy_default (tier r2) (Fin 1) (Fin 1) 100 = Inr r3 \<and> tier r3 = tier r2"
proof -
  have u: "unit_range (Fin 1)" by (simp add: unit_range_def)
  obtain r1 where r1: "classify TierPolicy_default Low (Fin 1) (Fin 1) 100 = Inr r1"
    using default_classify [OF u u] by auto
  obtain r2 where r2: "classify TierPolicy_default (tier r1) (Fin 1) (Fin 1) 100 = Inr r2"
    using default_classify [OF u u] by auto
  obtain r3 where r3: "classify TierPolicy_default (tier r2) (Fin 1) (Fin 1) 100 = Inr r3"
    using default_classify [OF u u] by auto
  from tier_settles [OF r1 r2 r3] r1 r2 r3 show ?thesis by auto
qed

text \<open>Classification is monotone: from the same current tier and with the same sample count, a score
  and percentile that are at least as good never give a lower tier.\<close>

theorem tier_monotone:
  assumes "classify p c s pct n = Inr r" and "classify p c s' pct' n = Inr r'"
    and "f_le s s'" and "f_le pct pct'"
  shows "tier_rank (tier r) \<le> tier_rank (tier r')"
  using assms step_mono [OF assms(3,4)] by (simp add: classify_eq_Inr)

theorem tier_monotone_witness:
  "\<exists>r r'. classify TierPolicy_default Medium (Fin 0) (Fin 0) 100 = Inr r \<and>
     classify TierPolicy_default Medium (Fin 1) (Fin 1) 100 = Inr r' \<and> tier_rank (tier r) \<le> tier_rank (tier r')"
proof -
  have u: "unit_range (Fin 0)" "unit_range (Fin 1)" by (simp_all add: unit_range_def)
  obtain r where r: "classify TierPolicy_default Medium (Fin 0) (Fin 0) 100 = Inr r"
    using default_classify [OF u(1) u(1)] by auto
  obtain r' where r': "classify TierPolicy_default Medium (Fin 1) (Fin 1) 100 = Inr r'"
    using default_classify [OF u(2) u(2)] by auto
  have le: "f_le (Fin 0) (Fin 1)" by (simp add: f_cmp_finite)
  from tier_monotone [OF r r' le le] r r' show ?thesis by auto
qed

end
