(* ===== verification/Policy.thy ===== *)
theory Policy
  imports Fixed F64 RustStr
begin

text \<open>
  \<open>crates/mindone-accounting/src/policy.rs\<close>: the operator's node policy (rejected tags, concurrency,
  GPU temperature with hysteresis, VRAM reserve) and its evaluation against a runtime snapshot.
  A \<open>BTreeSet<String>\<close> is its strictly increasing list; collecting into one sorts and removes
  duplicates, and \<open>intersection(..).next()\<close> is the least common element.

  The lemmas characterise acceptance completely and show that normalising a policy changes nothing
  but the spelling of its tags.
\<close>

record NodePolicy =
  reject_tags :: "rstring list"
  max_concurrent :: u32
  gpu_temp_limit_c :: "u16 option"
  vram_reserve_mib :: u64
  resume_temp_hysteresis_c :: u16

definition NodePolicy_default :: NodePolicy where
  "NodePolicy_default =
     \<lparr>reject_tags = [], max_concurrent = 1, gpu_temp_limit_c = None, vram_reserve_mib = 0,
      resume_temp_hysteresis_c = 5\<rparr>"

definition valid_tag :: "rstring \<Rightarrow> bool" where
  "valid_tag t \<longleftrightarrow> \<not> (trim t = [] \<or> str_len t > 128 \<or> any_control t)"

definition NodePolicy_validate :: "NodePolicy \<Rightarrow> unit acct" where
  "NodePolicy_validate p =
     (if max_concurrent p = 0 then Inl (InvalidPolicy ''max_concurrent'')
      else if (case gpu_temp_limit_c p of
                 Some limit \<Rightarrow> limit = 0 \<or> limit \<le> resume_temp_hysteresis_c p
               | None \<Rightarrow> False)
      then Inl (InvalidPolicy ''gpu temperature limit'')
      else if list_ex (\<lambda>t. \<not> valid_tag t) (reject_tags p) then Inl (InvalidPolicy ''reject tag'')
      else Inr ())"

definition btree_set :: "rstring list \<Rightarrow> rstring list" where
  "btree_set xs = remdups (sort xs)"

definition normalize_tag :: "rstring \<Rightarrow> rstring" where
  "normalize_tag t = to_ascii_lowercase (trim t)"

definition normalize_tags :: "rstring list \<Rightarrow> rstring list" where
  "normalize_tags ts = btree_set (map normalize_tag ts)"

definition normalized :: "NodePolicy \<Rightarrow> NodePolicy" where
  "normalized p = p\<lparr>reject_tags := normalize_tags (reject_tags p)\<rparr>"

record NodeRuntime =
  task_tags :: "rstring list"
  current_concurrent :: u32
  gpu_temp_c :: "f64 option"
  available_vram_mib :: "u64 option"
  paused_for_temperature :: bool

datatype ResourceMetric = GpuTemperature | AvailableVram

datatype PolicyRejection =
    RejectedTag rstring
  | MaximumConcurrency u32 u32
  | InsufficientVram u64 u64
  | MetricUnavailable ResourceMetric
  | InvalidMetric ResourceMetric

datatype PolicyDecision =
    Accept bool
  | PauseTemperature f64 u16
  | Reject PolicyRejection

definition u16_saturating_sub :: "u16 \<Rightarrow> u16 \<Rightarrow> u16" where
  "u16_saturating_sub a b = (if b \<le> a then a - b else 0)"

definition f64_from_u16 :: "u16 \<Rightarrow> f64" where
  "f64_from_u16 n = f_of_nat (unat n)"

text \<open>The temperature step: \<open>Inl\<close> is an early return of the decision, \<open>Inr\<close> the resume flag.\<close>

definition temperature_step :: "NodePolicy \<Rightarrow> NodeRuntime \<Rightarrow> PolicyDecision + bool" where
  "temperature_step policy runtime =
     (case gpu_temp_limit_c policy of
        None \<Rightarrow> Inr False
      | Some limit \<Rightarrow>
        (case gpu_temp_c runtime of
           None \<Rightarrow> Inl (Reject (MetricUnavailable GpuTemperature))
         | Some temperature \<Rightarrow>
             if \<not> is_finite temperature \<or> f_lt temperature (Fin 0)
             then Inl (Reject (InvalidMetric GpuTemperature))
             else
               let resume_below = f64_from_u16 (u16_saturating_sub limit (resume_temp_hysteresis_c policy));
                   must_pause = (if paused_for_temperature runtime then f_lt resume_below temperature
                                 else f_le (f64_from_u16 limit) temperature)
               in if must_pause then Inl (PauseTemperature temperature limit)
                  else Inr (paused_for_temperature runtime)))"

definition vram_step :: "NodePolicy \<Rightarrow> NodeRuntime \<Rightarrow> PolicyDecision + unit" where
  "vram_step policy runtime =
     (if 0 < vram_reserve_mib policy then
        (case available_vram_mib runtime of
           None \<Rightarrow> Inl (Reject (MetricUnavailable AvailableVram))
         | Some available \<Rightarrow>
             if available < vram_reserve_mib policy
             then Inl (Reject (InsufficientVram available (vram_reserve_mib policy))) else Inr ())
      else Inr ())"

definition decided :: "PolicyDecision + PolicyDecision \<Rightarrow> PolicyDecision" where
  "decided m = (case m of Inl d \<Rightarrow> d | Inr d \<Rightarrow> d)"

definition evaluate_policy :: "NodePolicy \<Rightarrow> NodeRuntime \<Rightarrow> PolicyDecision acct" where
  "evaluate_policy policy runtime =
     and_then (NodePolicy_validate policy) (\<lambda>_.
       let normalized_reject_tags = normalize_tags (reject_tags policy);
           normalized_task_tags = normalize_tags (task_tags runtime) in
       Inr (case List.find (\<lambda>t. List.member normalized_task_tags t) normalized_reject_tags of
              Some tag \<Rightarrow> Reject (RejectedTag tag)
            | None \<Rightarrow>
                if max_concurrent policy \<le> current_concurrent runtime
                then Reject (MaximumConcurrency (current_concurrent runtime) (max_concurrent policy))
                else decided (and_then (temperature_step policy runtime) (\<lambda>resumed.
                              and_then (vram_step policy runtime) (\<lambda>_.
                              Inr (Accept resumed))))))"

section \<open>Lemmas\<close>

lemma set_btree_set [simp]: "set (btree_set xs) = set xs"
  by (simp add: btree_set_def)

lemma btree_set_sorted: "sorted_wrt (<) (btree_set xs)"
  by (simp add: btree_set_def strict_sorted_iff sorted_remdups)

lemma btree_set_cong: "set xs = set ys \<Longrightarrow> btree_set xs = btree_set ys"
  using btree_set_sorted [of xs] btree_set_sorted [of ys]
  by (intro strict_sorted_equal) auto

lemma normalize_tag_idem [simp]: "normalize_tag (normalize_tag t) = normalize_tag t"
  by (simp add: normalize_tag_def trim_lower)

lemma normalize_tags_idem [simp]: "normalize_tags (normalize_tags ts) = normalize_tags ts"
  unfolding normalize_tags_def by (rule btree_set_cong) (force simp: image_image)

text \<open>The tags that block: equal up to surrounding white space and ASCII case.\<close>

definition tags_clash :: "NodePolicy \<Rightarrow> NodeRuntime \<Rightarrow> bool" where
  "tags_clash p r \<longleftrightarrow> (\<exists>a \<in> set (reject_tags p). \<exists>b \<in> set (task_tags r). normalize_tag a = normalize_tag b)"

lemma find_clash_None:
  "List.find (\<lambda>t. List.member (normalize_tags (task_tags r)) t) (normalize_tags (reject_tags p)) = None \<longleftrightarrow>
     \<not> tags_clash p r"
  by (auto simp: List.find_None_iff normalize_tags_def tags_clash_def)

definition temperature_ok :: "NodePolicy \<Rightarrow> NodeRuntime \<Rightarrow> bool" where
  "temperature_ok p r \<longleftrightarrow>
     (\<forall>limit. gpu_temp_limit_c p = Some limit \<longrightarrow>
        (\<exists>t. gpu_temp_c r = Some t \<and> is_finite t \<and> 0 \<le> fval t \<and>
           (if paused_for_temperature r
            then fval t \<le> of_int (int (unat limit) - int (unat (resume_temp_hysteresis_c p)))
            else fval t < of_nat (unat limit))))"

definition vram_ok :: "NodePolicy \<Rightarrow> NodeRuntime \<Rightarrow> bool" where
  "vram_ok p r \<longleftrightarrow> (vram_reserve_mib p = 0 \<or> (\<exists>a. available_vram_mib r = Some a \<and> vram_reserve_mib p \<le> a))"

lemma f64_from_u16_value [simp]: "is_finite (f64_from_u16 n)" "fval (f64_from_u16 n) = of_nat (unat n)"
  using f_of_nat_exact [of "unat n"] unat_u16_less [of n] unfolding f64_from_u16_def by linarith+

lemma temperature_step_eq_Inr:
  assumes "NodePolicy_validate p = Inr ()"
  shows "temperature_step p r = Inr b \<longleftrightarrow>
     temperature_ok p r \<and> b = (gpu_temp_limit_c p \<noteq> None \<and> paused_for_temperature r)"
proof (cases "gpu_temp_limit_c p")
  case None
  then show ?thesis by (auto simp: temperature_step_def temperature_ok_def)
next
  case (Some limit)
  have "resume_temp_hysteresis_c p < limit"
    using assms Some by (auto simp: NodePolicy_validate_def not_le split: if_splits)
  then have sat: "unat (u16_saturating_sub limit (resume_temp_hysteresis_c p))
      = unat limit - unat (resume_temp_hysteresis_c p)"
    "unat (resume_temp_hysteresis_c p) \<le> unat limit"
    by (simp_all add: u16_saturating_sub_def unat_sub word_le_nat_alt word_less_nat_alt)
  have v: "rat_of_nat (unat (u16_saturating_sub limit (resume_temp_hysteresis_c p)))
      = of_int (int (unat limit) - int (unat (resume_temp_hysteresis_c p)))"
    unfolding sat(1) using sat(2) by (simp add: of_nat_diff del: of_nat_unat)
  show ?thesis
    by (cases "gpu_temp_c r")
       (auto simp: temperature_step_def temperature_ok_def Some Let_def f_cmp_finite v not_le not_less
         split: if_splits simp del: of_int_diff of_nat_unat)
qed

lemma vram_step_eq_Inr: "vram_step p r = Inr u \<longleftrightarrow> vram_ok p r"
  by (auto simp: vram_step_def vram_ok_def not_less word_gt_0 split: option.splits)

lemma decided_eq_Accept:
  assumes "NodePolicy_validate p = Inr ()"
  shows "decided (and_then (temperature_step p r) (\<lambda>b. and_then (vram_step p r) (\<lambda>_. Inr (Accept b)))) = Accept b
    \<longleftrightarrow> temperature_ok p r \<and> vram_ok p r \<and> b = (gpu_temp_limit_c p \<noteq> None \<and> paused_for_temperature r)"
proof -
  have t: "temperature_step p r = Inl d \<Longrightarrow> d \<noteq> Accept b" and v: "vram_step p r = Inl d \<Longrightarrow> d \<noteq> Accept b" for d
    by (auto simp: temperature_step_def vram_step_def Let_def split: option.splits if_splits)
  show ?thesis
  proof (cases "temperature_step p r")
    case (Inl d)
    then have "\<not> temperature_ok p r" using temperature_step_eq_Inr [OF assms, of r] by auto
    with Inl t [OF Inl] show ?thesis by (simp add: decided_def)
  next
    case (Inr b')
    then have T: "temperature_ok p r" "b' = (gpu_temp_limit_c p \<noteq> None \<and> paused_for_temperature r)"
      by (simp_all add: temperature_step_eq_Inr [OF assms])
    show ?thesis
    proof (cases "vram_step p r")
      case (Inl d)
      then have "\<not> vram_ok p r" using vram_step_eq_Inr [of p r] by auto
      with Inr Inl v [OF Inl] show ?thesis by (simp add: decided_def)
    next
      case (Inr u)
      then have "vram_ok p r" using vram_step_eq_Inr by blast
      with T Inr \<open>temperature_step p r = Inr b'\<close> show ?thesis by (auto simp: decided_def)
    qed
  qed
qed

lemma evaluate_policy_eq_Inr:
  "evaluate_policy p r = Inr d \<Longrightarrow> NodePolicy_validate p = Inr ()"
  by (simp add: evaluate_policy_def and_then_eq_Inr)

lemma evaluate_Accept:
  "evaluate_policy p r = Inr (Accept b) \<longleftrightarrow>
     NodePolicy_validate p = Inr () \<and> \<not> tags_clash p r \<and> current_concurrent r < max_concurrent p \<and>
     temperature_ok p r \<and> vram_ok p r \<and> b = (gpu_temp_limit_c p \<noteq> None \<and> paused_for_temperature r)"
proof (cases "NodePolicy_validate p")
  case (Inr u)
  then show ?thesis
    using decided_eq_Accept [of p r b] find_clash_None [of r p]
    by (auto simp: evaluate_policy_def Let_def not_le split: option.splits)
qed (simp add: evaluate_policy_def)

lemma normalized_simps [simp]:
  "reject_tags (normalized p) = normalize_tags (reject_tags p)"
  "max_concurrent (normalized p) = max_concurrent p"
  "gpu_temp_limit_c (normalized p) = gpu_temp_limit_c p"
  "vram_reserve_mib (normalized p) = vram_reserve_mib p"
  "resume_temp_hysteresis_c (normalized p) = resume_temp_hysteresis_c p"
  by (simp_all add: normalized_def)

lemma str_len_sublists: "str_len (dropWhile P s) \<le> str_len s" "str_len (rev s) = str_len s"
  by (induction s) auto

lemma trim_len: "str_len (trim s) \<le> str_len s"
  using str_len_sublists(1) [of is_whitespace s]
    str_len_sublists(1) [of is_whitespace "rev (dropWhile is_whitespace s)"]
  by (simp add: trim_def str_len_sublists(2))

lemma lower_len: "str_len (to_ascii_lowercase s) = str_len s"
  by (induction s) (auto simp: to_ascii_lowercase_def ascii_lower_char_def length_utf8_char)

lemma set_trim: "set (trim s) \<subseteq> set s"
  by (auto simp: trim_def dest!: set_dropWhileD)

lemma lower_props [simp]:
  "any_control (to_ascii_lowercase s) = any_control s" "to_ascii_lowercase s = [] \<longleftrightarrow> s = []"
  by (auto simp: any_control_def to_ascii_lowercase_def list_ex_iff is_control_def ascii_lower_char_def
      split: if_splits)

lemma trim_control: "any_control (trim s) \<Longrightarrow> any_control s"
  using set_trim [of s] by (auto simp: any_control_def list_ex_iff)

lemma valid_tag_normalize: "valid_tag t \<Longrightarrow> valid_tag (normalize_tag t)"
  using trim_len [of t] trim_control [of t]
  by (auto simp: valid_tag_def normalize_tag_def trim_lower lower_len)

lemma normalized_valid: "NodePolicy_validate p = Inr () \<Longrightarrow> NodePolicy_validate (normalized p) = Inr ()"
  by (auto simp: NodePolicy_validate_def normalize_tags_def list_ex_iff valid_tag_normalize split: if_splits option.splits)

section \<open>Properties\<close>

text \<open>C38. A task is accepted exactly when it is safe for the node's operator: the policy is valid, no task
  tag equals a rejected tag up to white space and case, a slot is free, a configured temperature limit
  is met by a finite reading (below the limit, or at most limit minus hysteresis after a pause), and a
  configured VRAM reserve is covered by a known amount. Missing or non-finite metrics never accept.\<close>

theorem accept_iff_safe:
  "(\<exists>resumed. evaluate_policy p r = Inr (Accept resumed)) \<longleftrightarrow>
     NodePolicy_validate p = Inr () \<and>
     (\<forall>a \<in> set (reject_tags p). \<forall>b \<in> set (task_tags r).
        to_ascii_lowercase (trim a) \<noteq> to_ascii_lowercase (trim b)) \<and>
     unat (current_concurrent r) < unat (max_concurrent p) \<and>
     (\<forall>limit. gpu_temp_limit_c p = Some limit \<longrightarrow>
        (\<exists>t. gpu_temp_c r = Some t \<and> is_finite t \<and> 0 \<le> fval t \<and>
           (if paused_for_temperature r
            then fval t \<le> of_int (int (unat limit) - int (unat (resume_temp_hysteresis_c p)))
            else fval t < of_nat (unat limit)))) \<and>
     (vram_reserve_mib p = 0 \<or> (\<exists>a. available_vram_mib r = Some a \<and> vram_reserve_mib p \<le> a))"
  unfolding evaluate_Accept
  by (simp add: temperature_ok_def vram_ok_def tags_clash_def normalize_tag_def word_less_nat_alt)

definition cool_policy :: NodePolicy where
  "cool_policy = \<lparr>reject_tags = [lit ''private''], max_concurrent = 2, gpu_temp_limit_c = Some 80,
     vram_reserve_mib = 1024, resume_temp_hysteresis_c = 5\<rparr>"

definition cool_runtime :: NodeRuntime where
  "cool_runtime = \<lparr>task_tags = [], current_concurrent = 1, gpu_temp_c = Some (Fin 75),
     available_vram_mib = Some 2048, paused_for_temperature = True\<rparr>"

lemma cool_policy_valid: "NodePolicy_validate cool_policy = Inr ()"
  by (simp add: NodePolicy_validate_def cool_policy_def valid_tag_def trim_def is_whitespace_def utf8_char_def
      any_control_def is_control_def)

theorem accept_iff_safe_witness:
  "\<exists>resumed. evaluate_policy cool_policy cool_runtime = Inr (Accept resumed)"
  unfolding accept_iff_safe using cool_policy_valid by (simp add: cool_policy_def cool_runtime_def)

text \<open>Temperature hysteresis: a node that was paused and is accepted again reads at least the
  configured hysteresis below the limit, so from the reading at which it resumes the temperature has
  to rise by at least that many degrees before an unpaused evaluation pauses it again.\<close>

theorem temperature_hysteresis:
  assumes "evaluate_policy p r = Inr (Accept resumed)" and "paused_for_temperature r"
    and "gpu_temp_limit_c p = Some limit" and "gpu_temp_c r = Some t"
    and "evaluate_policy p r' = Inr (PauseTemperature t' l)" and "\<not> paused_for_temperature r'"
  shows "resumed \<and> l = limit \<and> fval t + of_nat (unat (resume_temp_hysteresis_c p)) \<le> fval t'"
proof -
  have v: "NodePolicy_validate p = Inr ()" using assms(1) by (rule evaluate_policy_eq_Inr)
  have "decided (and_then (temperature_step p r') (\<lambda>b. and_then (vram_step p r') (\<lambda>_. Inr (Accept b))))
      = PauseTemperature t' l"
    using assms(5) v by (auto simp: evaluate_policy_def Let_def split: option.splits if_splits)
  then have "temperature_step p r' = Inl (PauseTemperature t' l)"
    by (cases "temperature_step p r'"; cases "vram_step p r'")
       (auto simp: decided_def vram_step_def split: if_splits option.splits)
  then have "l = limit" "is_finite t'" "f_le (f64_from_u16 limit) t'"
    using assms(3,6) by (auto simp: temperature_step_def Let_def split: if_splits option.splits)
  then have hot: "rat_of_nat (unat limit) \<le> fval t'" "l = limit" by (simp_all add: f_cmp_finite)
  have "temperature_ok p r" "resumed" using assms(1-3) by (simp_all add: evaluate_Accept)
  then have "fval t \<le> of_int (int (unat limit) - int (unat (resume_temp_hysteresis_c p)))" "resumed"
    using assms(2-4) by (auto simp: temperature_ok_def simp del: of_int_diff of_nat_unat)
  then have "fval t + rat_of_nat (unat (resume_temp_hysteresis_c p)) \<le> rat_of_nat (unat limit)" "resumed"
    by (simp_all del: of_nat_unat)
  with hot show ?thesis by linarith
qed

theorem temperature_hysteresis_witness:
  "\<exists>t'. evaluate_policy cool_policy (cool_runtime\<lparr>gpu_temp_c := Some (Fin 80), paused_for_temperature := False\<rparr>)
       = Inr (PauseTemperature t' 80) \<and> 75 + 5 \<le> fval t'"
proof -
  let ?r = "cool_runtime\<lparr>gpu_temp_c := Some (Fin 80), paused_for_temperature := False\<rparr>"
  obtain b where b: "evaluate_policy cool_policy cool_runtime = Inr (Accept b)"
    using cool_policy_valid by (auto simp: evaluate_Accept tags_clash_def temperature_ok_def vram_ok_def
        cool_policy_def cool_runtime_def)
  have h: "evaluate_policy cool_policy ?r = Inr (PauseTemperature (Fin 80) 80)"
    using cool_policy_valid
    by (simp add: evaluate_policy_def Let_def temperature_step_def decided_def f_cmp_finite)
       (simp add: cool_policy_def cool_runtime_def normalize_tags_def btree_set_def temperature_step_def f_cmp_finite
         decided_def word_le_nat_alt)
  have "fval (Fin 75) + of_nat (unat (resume_temp_hysteresis_c cool_policy)) \<le> fval (Fin 80)"
    using temperature_hysteresis [OF b _ _ _ h, of 80 "Fin 75"] by (simp add: cool_policy_def cool_runtime_def)
  with h show ?thesis by (auto simp: cool_policy_def)
qed

text \<open>Normalising a policy is idempotent and does not change any decision: a valid policy stays valid
  and evaluates as before on every runtime.\<close>

theorem normalized_transparent:
  assumes "NodePolicy_validate p = Inr ()"
  shows "normalized (normalized p) = normalized p \<and> NodePolicy_validate (normalized p) = Inr () \<and>
    evaluate_policy (normalized p) r = evaluate_policy p r"
proof -
  have "normalized (normalized p) = normalized p" by (simp add: normalized_def)
  moreover have "temperature_step (normalized p) r = temperature_step p r" "vram_step (normalized p) r = vram_step p r"
    by (auto simp: temperature_step_def vram_step_def split: option.splits)
  ultimately show ?thesis
    using assms normalized_valid [OF assms] by (auto simp: evaluate_policy_def split: option.splits)
qed

theorem normalized_transparent_witness:
  "evaluate_policy (normalized cool_policy) cool_runtime = evaluate_policy cool_policy cool_runtime"
  using normalized_transparent [OF cool_policy_valid] by blast

end
