(* ===== verification/Optimize.thy ===== *)
theory Optimize
  imports Fixed F64 RustStr
begin

text \<open>
  \<open>crates/mindone-accounting/src/optimize.rs\<close>: deterministic tuning advice from measured metrics. The
  texts of the messages are replaced by short keys; codes, priorities and evidence are the code's.
  \<open>format!("{:.4}")\<close> prints the exact value of the \<open>f64\<close> rounded to four decimals, ties to even.
\<close>

record OptimizationMetrics =
  measured_tps :: f64
  measured_ttft_ms :: f64
  error_rate :: f64
  current_tier :: PerformanceTier
  target_tps :: f64
  maximum_ttft_ms :: f64
  maximum_error_rate :: f64
  valid_samples :: u64
  minimum_samples :: u64

datatype AdvicePriority = HighPriority | MediumPriority | LowPriority

fun priority_index :: "AdvicePriority \<Rightarrow> nat" where
  "priority_index HighPriority = 0"
| "priority_index MediumPriority = 1"
| "priority_index LowPriority = 2"

text \<open>The derived \<open>Ord\<close>: the order of the variants.\<close>

instantiation AdvicePriority :: linorder
begin

definition less_eq_AdvicePriority :: "AdvicePriority \<Rightarrow> AdvicePriority \<Rightarrow> bool" where
  "less_eq_AdvicePriority a b \<longleftrightarrow> priority_index a \<le> priority_index b"

definition less_AdvicePriority :: "AdvicePriority \<Rightarrow> AdvicePriority \<Rightarrow> bool" where
  "less_AdvicePriority a b \<longleftrightarrow> priority_index a < priority_index b"

instance
proof
  fix x y z :: AdvicePriority
  show "x < y \<longleftrightarrow> x \<le> y \<and> \<not> y \<le> x" by (auto simp: less_eq_AdvicePriority_def less_AdvicePriority_def)
  show "x \<le> x" by (simp add: less_eq_AdvicePriority_def)
  show "x \<le> y \<Longrightarrow> y \<le> z \<Longrightarrow> x \<le> z" by (simp add: less_eq_AdvicePriority_def)
  show "x \<le> y \<Longrightarrow> y \<le> x \<Longrightarrow> x = y" by (cases x; cases y) (simp_all add: less_eq_AdvicePriority_def)
  show "x \<le> y \<or> y \<le> x" by (auto simp: less_eq_AdvicePriority_def)
qed

end

record OptimizationAdvice =
  code :: rstring
  priority :: AdvicePriority
  message :: string
  evidence :: "(rstring \<times> rstring) list"

definition pad4 :: "nat \<Rightarrow> rstring" where
  "pad4 n = (let s = dec_nat n in replicate (4 - length s) 48 @ s)"

definition format_decimal :: "f64 \<Rightarrow> rstring" where
  "format_decimal x =
     (case x of
        NaN \<Rightarrow> lit ''NaN'' | PInf \<Rightarrow> lit ''inf'' | NInf \<Rightarrow> lit ''-inf''
      | _ \<Rightarrow>
        let n = nat (round_half_even (\<bar>fval x\<bar> * 10000)) in
        (if sign_neg x then [45] else []) @ dec_nat (n div 10000) @ [46] @ pad4 (n mod 10000))"

definition tier_name :: "PerformanceTier \<Rightarrow> rstring" where
  "tier_name t = (case t of High \<Rightarrow> lit ''high'' | Medium \<Rightarrow> lit ''medium'' | Low \<Rightarrow> lit ''low'')"

definition validate_metrics :: "OptimizationMetrics \<Rightarrow> unit acct" where
  "validate_metrics m =
     and_then
       (try_each (\<lambda>(value, name). if \<not> is_finite value \<or> f_lt value (Fin 0) then Inl (InvalidScore name) else Inr ())
          [(measured_tps m, ''measured_tps''), (measured_ttft_ms m, ''measured_ttft_ms''),
           (error_rate m, ''error_rate''), (target_tps m, ''target_tps''),
           (maximum_ttft_ms m, ''maximum_ttft_ms''), (maximum_error_rate m, ''maximum_error_rate'')])
       (\<lambda>_.
     if f_le (target_tps m) (Fin 0) \<or> f_le (maximum_ttft_ms m) (Fin 0) then Inl (InvalidScore ''positive targets'')
     else if minimum_samples m = 0 then Inl (InvalidScore ''minimum_samples'')
     else if f_lt (Fin 1) (error_rate m) \<or> f_lt (Fin 1) (maximum_error_rate m) then Inl (InvalidScore ''error rate'')
     else Inr ())"

definition advice_if :: "bool \<Rightarrow> OptimizationAdvice \<Rightarrow> OptimizationAdvice list" where
  "advice_if b a = (if b then [a] else [])"

definition advice_le :: "OptimizationAdvice \<Rightarrow> OptimizationAdvice \<Rightarrow> bool" where
  "advice_le l r \<longleftrightarrow> priority l < priority r \<or> (priority l = priority r \<and> code l \<le> code r)"

text \<open>The five conditional \<open>push\<close>es, in order.\<close>

definition collected_advice :: "OptimizationMetrics \<Rightarrow> OptimizationAdvice list" where
  "collected_advice m =
     advice_if (f_lt (maximum_error_rate m) (error_rate m))
       \<lparr>code = lit ''reduce_error_rate'', priority = HighPriority, message = ''error rate above limit'',
        evidence = [(lit ''maximum_error_rate'', format_decimal (maximum_error_rate m)),
                    (lit ''measured_error_rate'', format_decimal (error_rate m))]\<rparr>
     @ advice_if (f_lt (maximum_ttft_ms m) (measured_ttft_ms m))
       \<lparr>code = lit ''reduce_ttft'', priority = MediumPriority, message = ''time to first token above target'',
        evidence = [(lit ''maximum_ttft_ms'', format_decimal (maximum_ttft_ms m)),
                    (lit ''measured_ttft_ms'', format_decimal (measured_ttft_ms m))]\<rparr>
     @ advice_if (f_lt (measured_tps m) (target_tps m))
       \<lparr>code = lit ''improve_tps'', priority = MediumPriority, message = ''throughput below target'',
        evidence = [(lit ''measured_tps'', format_decimal (measured_tps m)),
                    (lit ''relative_gap'', format_decimal (f_div (f_sub (target_tps m) (measured_tps m)) (target_tps m))),
                    (lit ''target_tps'', format_decimal (target_tps m))]\<rparr>
     @ advice_if (current_tier m = Low)
       \<lparr>code = lit ''recover_tier'', priority = LowPriority, message = ''low tier'',
        evidence = [(lit ''current_tier'', lit ''low'')]\<rparr>
     @ advice_if (valid_samples m < minimum_samples m)
       \<lparr>code = lit ''collect_samples'', priority = LowPriority, message = ''too few samples'',
        evidence = [(lit ''minimum_samples'', dec_nat (unat (minimum_samples m))),
                    (lit ''valid_samples'', dec_nat (unat (valid_samples m)))]\<rparr>"

definition optimize :: "OptimizationMetrics \<Rightarrow> OptimizationAdvice list acct" where
  "optimize m =
     and_then (validate_metrics m) (\<lambda>_.
       let advice = collected_advice m;
           advice' = (if advice = []
                      then [\<lparr>code = lit ''performance_stable'', priority = LowPriority, message = ''stable'',
                             evidence = [(lit ''current_tier'', tier_name (current_tier m))]\<rparr>]
                      else advice)
       in Inr (sort_by advice_le advice'))"

section \<open>Lemmas\<close>

interpretation advice: comparator advice_le
  by unfold_locales (auto simp: advice_le_def)

definition metrics_ok :: "OptimizationMetrics \<Rightarrow> bool" where
  "metrics_ok m \<longleftrightarrow>
     (\<forall>v \<in> {measured_tps m, measured_ttft_ms m, error_rate m, target_tps m, maximum_ttft_ms m, maximum_error_rate m}.
        is_finite v \<and> 0 \<le> fval v) \<and>
     0 < fval (target_tps m) \<and> 0 < fval (maximum_ttft_ms m) \<and> minimum_samples m \<noteq> 0 \<and>
     fval (error_rate m) \<le> 1 \<and> fval (maximum_error_rate m) \<le> 1"

lemma nonneg_check: "(\<not> is_finite v \<or> f_lt v (Fin 0)) \<longleftrightarrow> \<not> (is_finite v \<and> 0 \<le> fval v)"
  by (auto simp: f_cmp_finite)

lemma validate_metrics_eq_Inr: "validate_metrics m = Inr u \<longleftrightarrow> metrics_ok m"
proof (cases "\<forall>v \<in> {measured_tps m, measured_ttft_ms m, error_rate m, target_tps m, maximum_ttft_ms m, maximum_error_rate m}.
        is_finite v \<and> 0 \<le> fval v")
  case True
  then show ?thesis
    unfolding validate_metrics_def metrics_ok_def nonneg_check
    by (simp add: and_then_eq_Inr f_cmp_finite not_le not_less conj_ac)
next
  case False
  then have "\<not> metrics_ok m" unfolding metrics_ok_def by blast
  moreover have "validate_metrics m \<noteq> Inr u"
    using False unfolding validate_metrics_def nonneg_check and_then_eq_Inr try_each_eq_Inr by auto
  ultimately show ?thesis by simp
qed

lemma code_advice_if: "x \<in> code ` set (advice_if b a) \<longleftrightarrow> b \<and> x = code a"
  by (auto simp: advice_if_def)

lemma collected_codes:
  "x \<in> code ` set (collected_advice m) \<longleftrightarrow>
     (f_lt (maximum_error_rate m) (error_rate m) \<and> x = lit ''reduce_error_rate'') \<or>
     (f_lt (maximum_ttft_ms m) (measured_ttft_ms m) \<and> x = lit ''reduce_ttft'') \<or>
     (f_lt (measured_tps m) (target_tps m) \<and> x = lit ''improve_tps'') \<or>
     (current_tier m = Low \<and> x = lit ''recover_tier'') \<or>
     (valid_samples m < minimum_samples m \<and> x = lit ''collect_samples'')"
  unfolding collected_advice_def set_append image_Un Un_iff code_advice_if OptimizationAdvice.simps ..

lemma collected_Nil:
  "collected_advice m = [] \<longleftrightarrow>
     \<not> (f_lt (maximum_error_rate m) (error_rate m) \<or> f_lt (maximum_ttft_ms m) (measured_ttft_ms m) \<or>
        f_lt (measured_tps m) (target_tps m) \<or> current_tier m = Low \<or> valid_samples m < minimum_samples m)"
  by (simp add: collected_advice_def advice_if_def)

lemma collected_distinct: "distinct (map code (collected_advice m))"
  by (simp add: collected_advice_def advice_if_def)

text \<open>Advice is complete, relevant and ordered: for valid metrics the list is never empty, holds each
  recommendation exactly when its measured condition holds (and the all-clear exactly when none does),
  and comes in order of priority and then of code.\<close>

theorem advice_exact:
  assumes "optimize m = Inr advice"
  shows "advice \<noteq> [] \<and> sorted_wrt advice_le advice \<and> distinct (map code advice) \<and>
    (let hot = fval (maximum_error_rate m) < fval (error_rate m);
         slow = fval (maximum_ttft_ms m) < fval (measured_ttft_ms m);
         weak = fval (measured_tps m) < fval (target_tps m);
         low = (current_tier m = Low);
         few = unat (valid_samples m) < unat (minimum_samples m) in
     (lit ''reduce_error_rate'' \<in> code ` set advice \<longleftrightarrow> hot) \<and>
     (lit ''reduce_ttft'' \<in> code ` set advice \<longleftrightarrow> slow) \<and>
     (lit ''improve_tps'' \<in> code ` set advice \<longleftrightarrow> weak) \<and>
     (lit ''recover_tier'' \<in> code ` set advice \<longleftrightarrow> low) \<and>
     (lit ''collect_samples'' \<in> code ` set advice \<longleftrightarrow> few) \<and>
     (lit ''performance_stable'' \<in> code ` set advice \<longleftrightarrow> \<not> (hot \<or> slow \<or> weak \<or> low \<or> few)))"
proof -
  define raw where "raw = (if collected_advice m = []
      then [\<lparr>code = lit ''performance_stable'', priority = LowPriority, message = ''stable'',
             evidence = [(lit ''current_tier'', tier_name (current_tier m))]\<rparr>]
      else collected_advice m)"
  have ok: "metrics_ok m" and a: "advice = sort_by advice_le raw"
    using assms by (auto simp: optimize_def and_then_eq_Inr validate_metrics_eq_Inr Let_def raw_def)
  have cmp: "f_lt (maximum_error_rate m) (error_rate m) \<longleftrightarrow> fval (maximum_error_rate m) < fval (error_rate m)"
    "f_lt (maximum_ttft_ms m) (measured_ttft_ms m) \<longleftrightarrow> fval (maximum_ttft_ms m) < fval (measured_ttft_ms m)"
    "f_lt (measured_tps m) (target_tps m) \<longleftrightarrow> fval (measured_tps m) < fval (target_tps m)"
    "valid_samples m < minimum_samples m \<longleftrightarrow> unat (valid_samples m) < unat (minimum_samples m)"
    using ok by (simp_all add: metrics_ok_def f_cmp_finite word_less_nat_alt)
  have "mset (map code advice) = mset (map code raw)" by (simp add: a)
  then have d: "distinct (map code advice) = distinct (map code raw)" by (rule mset_eq_imp_distinct_iff)
  have s: "code ` set advice = code ` set raw" by (simp add: a)
  have "sorted_wrt advice_le advice" unfolding a by (rule advice.sorted_sort_by)
  moreover have "raw \<noteq> []" "distinct (map code raw)" by (auto simp: raw_def collected_distinct)
  moreover have "advice \<noteq> []" using \<open>raw \<noteq> []\<close> by (simp add: a)
  ultimately show ?thesis
  proof (cases "collected_advice m = []")
    case True
    then have "code ` set raw = {lit ''performance_stable''}" by (simp add: raw_def)
    with True \<open>advice \<noteq> []\<close> \<open>sorted_wrt advice_le advice\<close> \<open>distinct (map code raw)\<close> show ?thesis
      unfolding s d Let_def collected_Nil cmp by simp
  next
    case False
    then have "code ` set raw = code ` set (collected_advice m)" by (simp add: raw_def)
    with False \<open>advice \<noteq> []\<close> \<open>sorted_wrt advice_le advice\<close> \<open>distinct (map code raw)\<close> show ?thesis
      unfolding s d Let_def collected_Nil cmp by (simp add: collected_codes cmp)
  qed
qed

definition sample_metrics :: OptimizationMetrics where
  "sample_metrics = \<lparr>measured_tps = Fin 10, measured_ttft_ms = Fin 500, error_rate = Fin (1/2), current_tier = Low,
     target_tps = Fin 20, maximum_ttft_ms = Fin 800, maximum_error_rate = Fin (1/4), valid_samples = 50,
     minimum_samples = 20\<rparr>"

theorem advice_exact_witness:
  "\<exists>advice. optimize sample_metrics = Inr advice \<and> lit ''reduce_error_rate'' \<in> code ` set advice \<and>
     lit ''reduce_ttft'' \<notin> code ` set advice"
proof -
  have "validate_metrics sample_metrics = Inr ()"
    by (simp add: validate_metrics_eq_Inr metrics_ok_def sample_metrics_def)
  then have "\<exists>a. optimize sample_metrics = Inr a" by (simp add: optimize_def Let_def)
  then obtain a where a: "optimize sample_metrics = Inr a" ..
  from advice_exact [OF a] a show ?thesis by (auto simp: Let_def sample_metrics_def)
qed

end
