(* ===== verification/Contribution.thy ===== *)
theory Contribution
  imports Fixed RustStr "HOL-Library.Option_ord"
begin

text \<open>
  \<open>crates/mindone-accounting/src/routing.rs\<close>, the \<open>contribution-routing-v1\<close> ranking: under congestion
  and in a cohort of at least five, candidates whose base score is within 2 percent of the best are
  ordered by the midrank percentile of their contribution; everything else keeps the order of the
  base score, with the identifier as tie-break. Counts of the code (\<open>usize\<close>, widened to \<open>u128\<close>)
  are naturals: they are bounded by the length of a slice, so the products cannot wrap.
\<close>

definition validate_identifier :: "rstring \<Rightarrow> string \<Rightarrow> unit acct" where
  "validate_identifier value label =
     (if trim value = [] \<or> str_len value > 255 \<or> any_control value
      then Inl (InvalidRouting label) else Inr ())"

record ContributionRoutingCandidate =
  c_id :: rstring
  c_base_score :: i64
  c_contribution_micro :: i64

record ContributionRoutingRankedCandidate =
  r_id :: rstring
  r_base_score :: i64
  r_contribution_micro :: i64
  r_percentile_ppm :: "u32 option"

definition CONTRIBUTION_ROUTING_MIN_COHORT :: nat where
  "CONTRIBUTION_ROUTING_MIN_COHORT = 5"

definition CONTRIBUTION_ROUTING_PERCENTILE_SCALE :: u32 where
  "CONTRIBUTION_ROUTING_PERCENTILE_SCALE = 1000000"

definition NEAR_BEST_NUMERATOR :: i64 where
  "NEAR_BEST_NUMERATOR = 98"

definition NEAR_BEST_DENOMINATOR :: i64 where
  "NEAR_BEST_DENOMINATOR = 100"

text \<open>The checking loop; \<open>seen\<close> is the set of identifiers met so far.\<close>

fun check_candidates :: "rstring list \<Rightarrow> ContributionRoutingCandidate list \<Rightarrow> unit acct" where
  "check_candidates seen [] = Inr ()"
| "check_candidates seen (c # cs) =
     and_then (validate_identifier (c_id c) ''contribution candidate id'') (\<lambda>_.
       if List.member seen (c_id c) then Inl (InvalidRouting ''duplicate candidate id'')
       else if sint (c_base_score c) < 0 then Inl (InvalidRouting ''negative base score'')
       else if sint (c_contribution_micro c) < 0 then Inl (InvalidRouting ''negative contribution'')
       else check_candidates (c_id c # seen) cs)"

text \<open>\<open>frequencies\<close>: the distinct contributions in increasing order with their multiplicities.\<close>

definition frequencies :: "ContributionRoutingCandidate list \<Rightarrow> (int \<times> nat) list" where
  "frequencies cs =
     (let vs = map (\<lambda>c. sint (c_contribution_micro c)) cs in
      map (\<lambda>v. (v, count_list vs v)) (remdups (sort vs)))"

definition u32_try_from_or :: "nat \<Rightarrow> u32 \<Rightarrow> u32" where
  "u32_try_from_or n d = (if n < 4294967296 then of_nat n else d)"

fun midranks :: "nat \<Rightarrow> nat \<Rightarrow> (int \<times> nat) list \<Rightarrow> (int \<times> u32) list" where
  "midranks cohort_size lower [] = []"
| "midranks cohort_size lower ((contribution, tied) # rest) =
     (let numerator = (2 * lower + tied - 1) * unat CONTRIBUTION_ROUTING_PERCENTILE_SCALE;
          denominator = 2 * (cohort_size - 1);
          percentile = u32_try_from_or (numerator div denominator) CONTRIBUTION_ROUTING_PERCENTILE_SCALE
      in (contribution, percentile) # midranks cohort_size (lower + tied) rest)"

definition contribution_midrank_percentiles :: "ContributionRoutingCandidate list \<Rightarrow> (int \<times> u32) list" where
  "contribution_midrank_percentiles cs = midranks (length cs) 0 (frequencies cs)"

definition contribution_enabled :: "ContributionRoutingCandidate list \<Rightarrow> u64 \<Rightarrow> u64 \<Rightarrow> bool" where
  "contribution_enabled cs ready_demand server_free_slots \<longleftrightarrow>
     CONTRIBUTION_ROUTING_MIN_COHORT \<le> length cs \<and> server_free_slots < ready_demand"

text \<open>\<open>iter().max().unwrap_or_default()\<close>\<close>

definition best_score :: "ContributionRoutingCandidate list \<Rightarrow> int" where
  "best_score cs = (if cs = [] then 0 else Max (set (map (\<lambda>c. sint (c_base_score c)) cs)))"

definition within_near_best :: "ContributionRoutingCandidate list \<Rightarrow> ContributionRoutingCandidate \<Rightarrow> bool" where
  "within_near_best cs c \<longleftrightarrow>
     best_score cs * sint NEAR_BEST_NUMERATOR \<le> sint (c_base_score c) * sint NEAR_BEST_DENOMINATOR"

definition rank_candidate ::
    "ContributionRoutingCandidate list \<Rightarrow> bool \<Rightarrow> (int \<times> u32) list \<Rightarrow> ContributionRoutingCandidate \<Rightarrow>
     ContributionRoutingRankedCandidate" where
  "rank_candidate cs enabled percentiles c =
     \<lparr>r_id = c_id c, r_base_score = c_base_score c, r_contribution_micro = c_contribution_micro c,
      r_percentile_ppm = (if enabled \<and> within_near_best cs c
                          then map_of percentiles (sint (c_contribution_micro c)) else None)\<rparr>"

text \<open>\<open>cmp(l, r) != Greater\<close> of the three-key comparator.\<close>

definition ranked_le :: "ContributionRoutingRankedCandidate \<Rightarrow> ContributionRoutingRankedCandidate \<Rightarrow> bool" where
  "ranked_le l r \<longleftrightarrow>
     r_percentile_ppm r < r_percentile_ppm l \<or>
     (r_percentile_ppm r = r_percentile_ppm l \<and>
      (sint (r_base_score r) < sint (r_base_score l) \<or>
       (sint (r_base_score r) = sint (r_base_score l) \<and> r_id l \<le> r_id r)))"

definition rank_contribution_candidates ::
    "ContributionRoutingCandidate list \<Rightarrow> u64 \<Rightarrow> u64 \<Rightarrow> ContributionRoutingRankedCandidate list acct" where
  "rank_contribution_candidates cs ready_demand server_free_slots =
     and_then (check_candidates [] cs) (\<lambda>_.
       let enabled = contribution_enabled cs ready_demand server_free_slots;
           percentiles = (if enabled then contribution_midrank_percentiles cs else [])
       in Inr (sort_by ranked_le (map (rank_candidate cs enabled percentiles) cs)))"

section \<open>Lemmas\<close>

interpretation ranked: comparator ranked_le
  by unfold_locales (auto simp: ranked_le_def)

lemma ranked_le_antisym: "ranked_le x y \<Longrightarrow> ranked_le y x \<Longrightarrow> r_id x = r_id y"
  by (auto simp: ranked_le_def)

definition candidate_ok :: "ContributionRoutingCandidate \<Rightarrow> bool" where
  "candidate_ok c \<longleftrightarrow>
     trim (c_id c) \<noteq> [] \<and> str_len (c_id c) \<le> 255 \<and> \<not> any_control (c_id c) \<and>
     0 \<le> sint (c_base_score c) \<and> 0 \<le> sint (c_contribution_micro c)"

lemma check_candidates_eq_Inr:
  "check_candidates seen cs = Inr u \<longleftrightarrow>
     list_all candidate_ok cs \<and> distinct (map c_id cs) \<and> set (map c_id cs) \<inter> set seen = {}"
  by (induction cs arbitrary: seen)
     (auto simp: result_simps validate_identifier_def candidate_ok_def)

lemma rank_eq_Inr:
  "rank_contribution_candidates cs d f = Inr r \<longleftrightarrow>
     list_all candidate_ok cs \<and> distinct (map c_id cs) \<and>
     r = sort_by ranked_le (map (rank_candidate cs (contribution_enabled cs d f)
           (if contribution_enabled cs d f then contribution_midrank_percentiles cs else [])) cs)"
  by (auto simp: rank_contribution_candidates_def result_simps check_candidates_eq_Inr Let_def)

subsection \<open>Midranks\<close>

text \<open>The percentile of a contribution: the midrank among the cohort, in parts per million.\<close>

definition midrank_spec :: "int list \<Rightarrow> int \<Rightarrow> nat" where
  "midrank_spec vs v =
     (2 * length (filter (\<lambda>x. x < v) vs) + count_list vs v - 1) * 1000000 div (2 * (length vs - 1))"

lemma map_of_midranks:
  assumes "sorted_wrt (<) (map fst fs)" "(v, t) \<in> set fs"
  shows "map_of (midranks n lower fs) v =
     Some (u32_try_from_or ((2 * (lower + sum_list (map snd (filter (\<lambda>x. fst x < v) fs))) + t - 1) * 1000000
            div (2 * (n - 1))) 1000000)"
  using assms
proof (induction fs arbitrary: lower)
  case Nil
  then show ?case by simp
next
  case (Cons f fs)
  obtain w s where f: "f = (w, s)" by (cases f)
  show ?case
  proof (cases "v = w")
    case True
    have "\<forall>x \<in> set fs. w < fst x" using Cons.prems(1) f by auto
    then have "filter (\<lambda>x. fst x < v) (f # fs) = []" "(v, t) \<notin> set fs"
      using True f by (auto simp: filter_empty_conv)
    with Cons.prems(2) True f show ?thesis
      by (simp add: Let_def CONTRIBUTION_ROUTING_PERCENTILE_SCALE_def)
  next
    case False
    with Cons.prems f have "(v, t) \<in> set fs" "w < v" by force+
    with Cons False f show ?thesis by (simp add: Let_def add.assoc)
  qed
qed

lemma sum_count_list:
  "distinct ws \<Longrightarrow> sum_list (map (count_list vs) ws) = length (filter (\<lambda>x. x \<in> set ws) vs)"
proof (induction ws)
  case Nil
  then show ?case by simp
next
  case (Cons w ws)
  have "count_list vs w + length (filter (\<lambda>x. x \<in> set ws) vs) = length (filter (\<lambda>x. x = w \<or> x \<in> set ws) vs)"
    using Cons.prems by (induction vs) auto
  with Cons show ?case by simp
qed

lemma lower_count:
  "sum_list (map snd (filter (\<lambda>x. fst x < v) (map (\<lambda>v. (v, count_list vs v)) (remdups (sort vs)))))
     = length (filter (\<lambda>x. x < v) vs)"
proof -
  let ?ws = "filter (\<lambda>w. w < v) (remdups (sort vs))"
  have "map snd (filter (\<lambda>x. fst x < v) (map (\<lambda>v. (v, count_list vs v)) (remdups (sort vs)))) = map (count_list vs) ?ws"
    by (simp add: filter_map comp_def)
  moreover have "filter (\<lambda>x. x \<in> set ?ws) vs = filter (\<lambda>x. x < v) vs"
    by (rule filter_cong) auto
  ultimately show ?thesis by (simp add: sum_count_list)
qed

lemma lookup_percentile:
  assumes "c \<in> set cs"
  defines "vs \<equiv> map (\<lambda>c. sint (c_contribution_micro c)) cs"
  shows "map_of (contribution_midrank_percentiles cs) (sint (c_contribution_micro c)) =
     Some (u32_try_from_or (midrank_spec vs (sint (c_contribution_micro c))) 1000000)"
proof -
  let ?v = "sint (c_contribution_micro c)"
  let ?fs = "map (\<lambda>v. (v, count_list vs v)) (remdups (sort vs))"
  have fs: "frequencies cs = ?fs" by (simp add: frequencies_def vs_def Let_def)
  have "sorted_wrt (<) (map fst ?fs)" by (simp add: comp_def strict_sorted_iff sorted_remdups)
  moreover have "(?v, count_list vs ?v) \<in> set ?fs" using assms(1) by (auto simp: vs_def)
  ultimately show ?thesis
    unfolding contribution_midrank_percentiles_def fs
    by (simp only: map_of_midranks lower_count midrank_spec_def) (simp add: vs_def)
qed

lemma count_lt_bound: "length (filter (\<lambda>x. x < v) vs) + count_list vs v \<le> length vs" for v :: int
  by (induction vs) auto

lemma count_lt_mono:
  fixes v w :: int
  assumes "v < w"
  shows "length (filter (\<lambda>x. x < v) vs) + count_list vs v \<le> length (filter (\<lambda>x. x < w) vs)"
  using assms by (induction vs) auto

lemma count_pos: "v \<in> set vs \<Longrightarrow> 0 < count_list vs v"
  by (induction vs) auto

lemma midrank_spec_le: "v \<in> set vs \<Longrightarrow> 2 \<le> length vs \<Longrightarrow> midrank_spec vs v \<le> 1000000"
proof -
  assume v: "v \<in> set vs" and n: "2 \<le> length vs"
  have "2 * length (filter (\<lambda>x. x < v) vs) + count_list vs v - 1 \<le> 2 * (length vs - 1)"
    using count_lt_bound [of v vs] count_pos [OF v] by linarith
  then have "(2 * length (filter (\<lambda>x. x < v) vs) + count_list vs v - 1) * 1000000 \<le> 2 * (length vs - 1) * 1000000"
    by (rule mult_le_mono1)
  from div_le_mono [OF this, of "2 * (length vs - 1)"] n show ?thesis
    by (simp add: midrank_spec_def)
qed

lemma midrank_spec_mono: "v \<le> w \<Longrightarrow> midrank_spec vs v \<le> midrank_spec vs w"
proof (cases "v = w")
  case False
  moreover assume "v \<le> w"
  ultimately have "length (filter (\<lambda>x. x < v) vs) + count_list vs v \<le> length (filter (\<lambda>x. x < w) vs)"
    using count_lt_mono [of v w vs] by simp
  then show ?thesis unfolding midrank_spec_def by (intro div_le_mono mult_le_mono1) linarith
qed simp

text \<open>The percentile a candidate is ranked with.\<close>

definition percentile_of :: "ContributionRoutingCandidate list \<Rightarrow> ContributionRoutingCandidate \<Rightarrow> nat" where
  "percentile_of cs c =
     midrank_spec (map (\<lambda>c. sint (c_contribution_micro c)) cs) (sint (c_contribution_micro c))"

lemma percentile_of_counts:
  "percentile_of cs c =
     (2 * length (filter (\<lambda>x. sint (c_contribution_micro x) < sint (c_contribution_micro c)) cs) +
      length (filter (\<lambda>x. c_contribution_micro x = c_contribution_micro c) cs) - 1) * 1000000 div (2 * (length cs - 1))"
proof -
  have "count_list (map (\<lambda>c. sint (c_contribution_micro c)) cs) (sint (c_contribution_micro c)) =
      length (filter (\<lambda>x. c_contribution_micro x = c_contribution_micro c) cs)"
    by (induction cs) (auto dest: signed_word_eqI)
  then show ?thesis by (simp add: percentile_of_def midrank_spec_def filter_map comp_def)
qed

lemma rank_candidate_percentile:
  assumes "c \<in> set cs" "contribution_enabled cs d f"
  shows "r_percentile_ppm (rank_candidate cs True (contribution_midrank_percentiles cs) c) =
     (if within_near_best cs c then Some (of_nat (percentile_of cs c)) else None)"
    and "percentile_of cs c \<le> 1000000"
proof -
  have "2 \<le> length cs"
    using assms(2) by (simp add: contribution_enabled_def CONTRIBUTION_ROUTING_MIN_COHORT_def)
  then show le: "percentile_of cs c \<le> 1000000"
    unfolding percentile_of_def using assms(1) by (intro midrank_spec_le) auto
  show "r_percentile_ppm (rank_candidate cs True (contribution_midrank_percentiles cs) c) =
     (if within_near_best cs c then Some (of_nat (percentile_of cs c)) else None)"
    using le by (simp add: rank_candidate_def lookup_percentile [OF assms(1)] u32_try_from_or_def percentile_of_def)
qed

lemma best_score_attained:
  assumes "cs \<noteq> []"
  obtains c where "c \<in> set cs" "sint (c_base_score c) = best_score cs"
proof -
  have "best_score cs \<in> set (map (\<lambda>c. sint (c_base_score c)) cs)"
    using assms Max_in [of "set (map (\<lambda>c. sint (c_base_score c)) cs)"] by (simp add: best_score_def)
  with that show thesis by auto
qed

lemma best_score_ge: "c \<in> set cs \<Longrightarrow> sint (c_base_score c) \<le> best_score cs"
  by (auto simp: best_score_def)

lemma best_is_near:
  "c \<in> set cs \<Longrightarrow> sint (c_base_score c) = best_score cs \<Longrightarrow> candidate_ok c \<Longrightarrow> within_near_best cs c"
  by (simp add: within_near_best_def NEAR_BEST_NUMERATOR_def NEAR_BEST_DENOMINATOR_def candidate_ok_def)

text \<open>The ranking depends on the cohort as a multiset only.\<close>

lemma rank_candidate_mset_cong:
  assumes "mset ys = mset xs"
  shows "rank_candidate ys = rank_candidate xs"
    "contribution_enabled ys = contribution_enabled xs"
    "contribution_midrank_percentiles ys = contribution_midrank_percentiles xs"
proof -
  have set: "set ys = set xs" and len: "length ys = length xs"
    using assms mset_eq_setD mset_eq_length by blast+
  then have "best_score ys = best_score xs" by (auto simp: best_score_def)
  then show "rank_candidate ys = rank_candidate xs"
    by (intro ext) (simp add: rank_candidate_def within_near_best_def)
  show "contribution_enabled ys = contribution_enabled xs" by (intro ext) (simp add: contribution_enabled_def len)
  let ?g = "\<lambda>c. sint (c_contribution_micro c)"
  have m: "mset (map ?g ys) = mset (map ?g xs)" using assms by simp
  then have "sort (map ?g ys) = sort (map ?g xs)" by (metis sorted_list_of_multiset_mset)
  moreover have "count_list (map ?g ys) = count_list (map ?g xs)" by (intro ext) (metis count_mset m)
  ultimately have "frequencies ys = frequencies xs" by (simp add: frequencies_def Let_def)
  then show "contribution_midrank_percentiles ys = contribution_midrank_percentiles xs"
    by (simp add: contribution_midrank_percentiles_def len)
qed

subsection \<open>Properties\<close>

text \<open>The order of the result, key by key: ranked by percentile before unranked, the higher percentile first, then the
  higher base score, then the smaller identifier.\<close>

definition base_before :: "ContributionRoutingRankedCandidate \<Rightarrow> ContributionRoutingRankedCandidate \<Rightarrow> bool" where
  "base_before x y \<longleftrightarrow>
     sint (r_base_score y) < sint (r_base_score x) \<or> r_base_score x = r_base_score y \<and> r_id x < r_id y"

definition ranks_before :: "ContributionRoutingRankedCandidate \<Rightarrow> ContributionRoutingRankedCandidate \<Rightarrow> bool" where
  "ranks_before x y \<longleftrightarrow>
     (case r_percentile_ppm x of
        None \<Rightarrow> r_percentile_ppm y = None \<and> base_before x y
      | Some p \<Rightarrow> (case r_percentile_ppm y of
            None \<Rightarrow> True
          | Some q \<Rightarrow> unat q < unat p \<or> p = q \<and> base_before x y))"

lemma sorted_wrt_distinct_keys:
  assumes "sorted_wrt P xs" "distinct (map k xs)" "\<And>x y. P x y \<Longrightarrow> k x \<noteq> k y \<Longrightarrow> Q x y"
  shows "sorted_wrt Q xs"
  using assms by (induction xs) (auto simp: image_iff)

lemma ranked_le_before: "ranked_le x y \<Longrightarrow> r_id x \<noteq> r_id y \<Longrightarrow> ranks_before x y"
  by (auto simp: ranked_le_def ranks_before_def base_before_def word_less_nat_alt dest: signed_word_eqI split: option.splits)

lemma near_best_all:
  "cs \<noteq> [] \<Longrightarrow> within_near_best cs c \<longleftrightarrow> (\<forall>c' \<in> set cs. 98 * sint (c_base_score c') \<le> 100 * sint (c_base_score c))"
proof -
  assume "cs \<noteq> []"
  then obtain b where b: "b \<in> set cs" "sint (c_base_score b) = best_score cs" by (rule best_score_attained)
  show ?thesis
    using best_score_ge [of _ cs] b
    by (force simp: within_near_best_def NEAR_BEST_NUMERATOR_def NEAR_BEST_DENOMINATOR_def)
qed

text \<open>C36. What the contribution ranking returns: exactly the candidates, each once, all with non-negative score and
  contribution. Of two of them the earlier has the higher percentile, or has one where the later has none, or has the
  same and the higher base score, or then the smaller identifier. A percentile is present exactly when fewer slots are
  free than jobs are ready, the cohort has at least five members and 98 percent of no candidate's base score exceeds
  the candidate's own; with L members of lower and T of equal contribution among n it is
  (2L + T - 1) * 1000000 div (2 (n - 1)), at most one million.\<close>

theorem contribution_ranking_spec:
  assumes "rank_contribution_candidates cs d f = Inr r"
  shows "mset (map (\<lambda>x. (r_id x, r_base_score x, r_contribution_micro x)) r)
      = mset (map (\<lambda>c. (c_id c, c_base_score c, c_contribution_micro c)) cs) \<and>
    distinct (map r_id r) \<and> sorted_wrt ranks_before r \<and>
    (\<forall>x \<in> set r. 0 \<le> sint (r_base_score x) \<and> 0 \<le> sint (r_contribution_micro x) \<and>
      (if 5 \<le> length cs \<and> unat f < unat d \<and> (\<forall>c \<in> set cs. 98 * sint (c_base_score c) \<le> 100 * sint (r_base_score x))
       then (\<exists>p. r_percentile_ppm x = Some p \<and> unat p \<le> 1000000 \<and>
         unat p = (2 * length (filter (\<lambda>c. sint (c_contribution_micro c) < sint (r_contribution_micro x)) cs) +
                   length (filter (\<lambda>c. c_contribution_micro c = r_contribution_micro x) cs) - 1) * 1000000
                  div (2 * (length cs - 1)))
       else r_percentile_ppm x = None))"
proof -
  define en where "en = contribution_enabled cs d f"
  define ps where "ps = (if en then contribution_midrank_percentiles cs else [])"
  have r: "r = sort_by ranked_le (map (rank_candidate cs en ps) cs)"
    and ok: "distinct (map c_id cs)" "list_all candidate_ok cs"
    using assms by (simp_all add: rank_eq_Inr en_def ps_def)
  have en: "en \<longleftrightarrow> 5 \<le> length cs \<and> unat f < unat d"
    by (simp add: en_def contribution_enabled_def CONTRIBUTION_ROUTING_MIN_COHORT_def word_less_nat_alt)
  let ?k = "\<lambda>x. (r_id x, r_base_score x, r_contribution_micro x)"
  have m: "mset r = mset (map (rank_candidate cs en ps) cs)" by (simp add: r)
  have proj: "?k \<circ> rank_candidate cs en ps = (\<lambda>c. (c_id c, c_base_score c, c_contribution_micro c))"
    "r_id \<circ> rank_candidate cs en ps = c_id" by (auto simp: rank_candidate_def)
  have a: "mset (map ?k r) = mset (map (\<lambda>c. (c_id c, c_base_score c, c_contribution_micro c)) cs)"
    using arg_cong [OF m, of "image_mset ?k"] proj(1) by (simp add: multiset.map_comp)
  have "mset (map r_id r) = mset (map c_id cs)"
    using arg_cong [OF m, of "image_mset r_id"] proj(2) by (simp add: multiset.map_comp)
  then have b: "distinct (map r_id r)" using ok(1) mset_eq_imp_distinct_iff by blast
  have s: "sorted_wrt ranks_before r"
  proof (rule sorted_wrt_distinct_keys [OF _ b])
    show "sorted_wrt ranked_le r" unfolding r by (rule ranked.sorted_sort_by)
  qed (rule ranked_le_before)
  have c: "0 \<le> sint (r_base_score x) \<and> 0 \<le> sint (r_contribution_micro x) \<and>
      (if en \<and> (\<forall>c \<in> set cs. 98 * sint (c_base_score c) \<le> 100 * sint (r_base_score x))
       then (\<exists>p. r_percentile_ppm x = Some p \<and> unat p \<le> 1000000 \<and>
         unat p = (2 * length (filter (\<lambda>c. sint (c_contribution_micro c) < sint (r_contribution_micro x)) cs) +
                   length (filter (\<lambda>c. c_contribution_micro c = r_contribution_micro x) cs) - 1) * 1000000
                  div (2 * (length cs - 1)))
       else r_percentile_ppm x = None)" if "x \<in> set r" for x
  proof -
    obtain c where c: "c \<in> set cs" "x = rank_candidate cs en ps c" using \<open>x \<in> set r\<close> r by auto
    then have k: "r_base_score x = c_base_score c" "r_contribution_micro x = c_contribution_micro c"
      by (simp_all add: rank_candidate_def)
    have near: "within_near_best cs c \<longleftrightarrow> (\<forall>c' \<in> set cs. 98 * sint (c_base_score c') \<le> 100 * sint (c_base_score c))"
      using c(1) by (intro near_best_all) auto
    show ?thesis
    proof (cases en)
      case True
      have p: "percentile_of cs c \<le> 1000000" "r_percentile_ppm x = (if within_near_best cs c then Some (of_nat (percentile_of cs c)) else None)"
        using rank_candidate_percentile [OF c(1), of d f] True c(2) by (simp_all add: en_def ps_def)
      have u: "unat (of_nat (percentile_of cs c) :: u32) = percentile_of cs c"
        using p(1) by (simp add: unsigned_of_nat take_bit_nat_eq_self)
      have "0 \<le> sint (c_base_score c)" "0 \<le> sint (c_contribution_micro c)"
        using ok(2) c(1) by (simp_all add: list_all_iff candidate_ok_def)
      moreover have "if en \<and> within_near_best cs c
         then (\<exists>p. r_percentile_ppm x = Some p \<and> unat p \<le> 1000000 \<and> unat p = percentile_of cs c)
         else r_percentile_ppm x = None" using True p u by simp
      ultimately show ?thesis unfolding k near percentile_of_counts by (intro conjI)
    next
      case False
      with c ok(2) show ?thesis by (auto simp: rank_candidate_def list_all_iff candidate_ok_def)
    qed
  qed
  from a b s show ?thesis by (intro conjI ballI c [unfolded en conj_assoc])
qed

text \<open>A cohort of five: one clear leader by contribution within the band and one outside it.\<close>

definition sample_cohort :: "ContributionRoutingCandidate list" where
  "sample_cohort =
     [\<lparr>c_id = lit ''a'', c_base_score = 1000, c_contribution_micro = 0\<rparr>,
      \<lparr>c_id = lit ''b'', c_base_score = 990, c_contribution_micro = 50\<rparr>,
      \<lparr>c_id = lit ''c'', c_base_score = 985, c_contribution_micro = 90\<rparr>,
      \<lparr>c_id = lit ''d'', c_base_score = 100, c_contribution_micro = 9000\<rparr>,
      \<lparr>c_id = lit ''e'', c_base_score = 980, c_contribution_micro = 50\<rparr>]"

lemma sample_cohort_ok: "check_candidates [] sample_cohort = Inr ()"
  by (simp add: sample_cohort_def validate_identifier_def trim_def is_whitespace_def utf8_char_def
      any_control_def is_control_def)

lemma sample_ranked: "\<exists>r. rank_contribution_candidates sample_cohort 10 2 = Inr r"
  by (simp add: rank_contribution_candidates_def sample_cohort_ok Let_def)

theorem contribution_ranking_spec_witness:
  "\<exists>r. rank_contribution_candidates sample_cohort 10 2 = Inr r \<and> length r = 5 \<and> sorted_wrt ranks_before r \<and>
     list_ex (\<lambda>x. r_id x = lit ''d'' \<and> r_percentile_ppm x = None) r \<and>
     list_ex (\<lambda>x. r_id x = lit ''c'' \<and> map_option unat (r_percentile_ppm x) = Some 750000) r"
proof -
  obtain r where r: "rank_contribution_candidates sample_cohort 10 2 = Inr r" using sample_ranked ..
  note spec = contribution_ranking_spec [OF r]
  from arg_cong [OF conjunct1 [OF spec], of size] have len: "length r = length sample_cohort" by simp
  have "set (map (\<lambda>x. (r_id x, r_base_score x, r_contribution_micro x)) r) =
      set (map (\<lambda>c. (c_id c, c_base_score c, c_contribution_micro c)) sample_cohort)"
    using mset_eq_setD [OF conjunct1 [OF spec]] .
  then have "(lit ''d'', 100, 9000) \<in> (\<lambda>x. (r_id x, r_base_score x, r_contribution_micro x)) ` set r"
    "(lit ''c'', 985, 90) \<in> (\<lambda>x. (r_id x, r_base_score x, r_contribution_micro x)) ` set r"
    by (simp_all add: sample_cohort_def)
  then obtain x y where x: "x \<in> set r" "r_id x = lit ''d''" "r_base_score x = 100"
    and y: "y \<in> set r" "r_id y = lit ''c''" "r_base_score y = 985" "r_contribution_micro y = 90" by auto
  have "r_percentile_ppm x = None" using spec x by (simp add: sample_cohort_def)
  moreover have "map_option unat (r_percentile_ppm y) = Some 750000"
    using bspec [OF spec [THEN conjunct2, THEN conjunct2, THEN conjunct2] y(1)] y by (auto simp: sample_cohort_def)
  ultimately show ?thesis using r x y len spec by (auto simp: list_ex_iff sample_cohort_def)
qed

text \<open>C37. The ranking does not depend on the order in which candidates arrive: any permutation of an
  accepted cohort gives the same list.\<close>

theorem ranking_order_independent:
  assumes "rank_contribution_candidates xs d f = Inr r" and "mset ys = mset xs"
  shows "rank_contribution_candidates ys d f = Inr r"
proof -
  have ok: "list_all candidate_ok xs" "distinct (map c_id xs)" using assms(1) by (simp_all add: rank_eq_Inr)
  have "mset (map c_id ys) = mset (map c_id xs)" using assms(2) by simp
  from mset_eq_imp_distinct_iff [OF this] mset_eq_setD [OF assms(2)] ok
  have ok': "list_all candidate_ok ys" "distinct (map c_id ys)"
    by (simp_all add: list_all_iff)
  let ?g = "rank_candidate xs (contribution_enabled xs d f)
    (if contribution_enabled xs d f then contribution_midrank_percentiles xs else [])"
  have "sort_by ranked_le (map ?g ys) = sort_by ranked_le (map ?g xs)"
  proof (rule ranked.sort_by_unique)
    fix x y
    assume xy: "x \<in> set (map ?g xs)" "y \<in> set (map ?g xs)" "ranked_le x y" "ranked_le y x"
    then obtain a b where ab: "a \<in> set xs" "b \<in> set xs" "x = ?g a" "y = ?g b" by auto
    then have "c_id a = c_id b" using ranked_le_antisym [OF xy(3,4)] by (simp add: rank_candidate_def)
    with ok(2) ab show "x = y" by (auto simp: distinct_map inj_on_def)
  qed (use assms(2) in \<open>simp_all add: ranked.sorted_sort_by\<close>)
  then show ?thesis
    using assms(1) ok' unfolding rank_eq_Inr rank_candidate_mset_cong [OF assms(2)] by simp
qed

theorem ranking_order_independent_witness:
  "\<exists>r. rank_contribution_candidates sample_cohort 10 2 = Inr r \<and>
       rank_contribution_candidates (rev sample_cohort) 10 2 = Inr r"
proof -
  obtain r where r: "rank_contribution_candidates sample_cohort 10 2 = Inr r" using sample_ranked ..
  from ranking_order_independent [OF this, of "rev sample_cohort"] r show ?thesis by auto
qed

text \<open>Contribution never buys a bad node the first place: whatever the contributions, demand and
  free slots, the first candidate of the ranking has at least 98 percent of the best base score.\<close>

theorem first_is_near_best:
  assumes "rank_contribution_candidates cs d f = Inr r" and "cs \<noteq> []" and "c \<in> set cs"
  shows "98 * sint (c_base_score c) \<le> 100 * sint (r_base_score (hd r))"
proof -
  define en where "en = contribution_enabled cs d f"
  define ps where "ps = (if en then contribution_midrank_percentiles cs else [])"
  let ?g = "rank_candidate cs en ps"
  have r: "r = sort_by ranked_le (map ?g cs)" and ok: "list_all candidate_ok cs"
    using assms(1) by (simp_all add: rank_eq_Inr en_def ps_def)
  have "hd r \<in> set r" using assms(2) r by (metis hd_in_set map_is_Nil_conv sort_by_eq_Nil)
  then obtain h where h: "h \<in> set cs" "hd r = ?g h" using r by auto
  obtain b where b: "b \<in> set cs" "sint (c_base_score b) = best_score cs"
    using best_score_attained [OF assms(2)] .
  have le: "ranked_le (?g h) (?g b)"
    using ranked.hd_sort_by_least [of "map ?g cs" "?g b"] assms(2) b(1) h(2) r by simp
  have near: "within_near_best cs b" using best_is_near [OF b] ok b(1) by (simp add: list_all_iff)
  have "within_near_best cs h"
  proof (cases en)
    case True
    have "r_percentile_ppm (?g b) \<noteq> None"
      using rank_candidate_percentile(1) [OF b(1), of d f] near True by (simp add: en_def ps_def)
    with le have "r_percentile_ppm (?g h) \<noteq> None"
      by (cases "r_percentile_ppm (?g h)") (auto simp: ranked_le_def)
    then show ?thesis by (auto simp: rank_candidate_def split: if_splits)
  next
    case False
    with le have "best_score cs \<le> sint (c_base_score h)" using b(2) by (auto simp: ranked_le_def rank_candidate_def)
    moreover have "0 \<le> best_score cs" using b ok by (auto simp: list_all_iff candidate_ok_def)
    ultimately show ?thesis
      by (simp add: within_near_best_def NEAR_BEST_NUMERATOR_def NEAR_BEST_DENOMINATOR_def)
  qed
  then have "best_score cs * 98 \<le> sint (c_base_score h) * 100"
    by (simp add: within_near_best_def NEAR_BEST_NUMERATOR_def NEAR_BEST_DENOMINATOR_def)
  then show ?thesis using best_score_ge [OF assms(3)] h(2) by (simp add: rank_candidate_def)
qed

theorem first_is_near_best_witness:
  "\<exists>r. rank_contribution_candidates sample_cohort 10 2 = Inr r \<and> 98000 \<le> 100 * sint (r_base_score (hd r))"
proof -
  obtain r where r: "rank_contribution_candidates sample_cohort 10 2 = Inr r" using sample_ranked ..
  from first_is_near_best [OF r, of "hd sample_cohort"] r show ?thesis by (auto simp: sample_cohort_def)
qed

end
