(* ===== verification/Routing.thy ===== *)
theory Routing
  imports Quality Contribution
begin

text \<open>
  \<open>crates/mindone-accounting/src/routing.rs\<close>, the scoring router: \<open>rank_models\<close>, \<open>rank_nodes\<close> and
  \<open>route\<close>. Scores are \<open>f64\<close>; \<open>iter().sum()\<close> folds from \<open>-0.0\<close>, and products and sums are written
  in the code's order because rounding depends on it.

  The lemmas show that the hard filters are exact, that scores are finite and normalised by the sum
  of the weights, and that \<open>route\<close> returns the best node of the best model that has one.
\<close>

record ModelCandidate =
  m_id :: rstring
  m_quality :: f64
  m_intent_match :: f64
  m_normalized_cost :: f64
  m_available :: bool
  m_context_length :: u32

record ModelWeights =
  mw_quality :: f64
  mw_intent_match :: f64
  mw_cost :: f64

definition ModelWeights_default :: ModelWeights where
  "ModelWeights_default =
     \<lparr>mw_quality = f_lit (5/10), mw_intent_match = f_lit (3/10), mw_cost = f_lit (2/10)\<rparr>"

record ModelRequirements =
  minimum_context_length :: u32
  model_weights :: ModelWeights

definition ModelRequirements_default :: ModelRequirements where
  "ModelRequirements_default = \<lparr>minimum_context_length = 1, model_weights = ModelWeights_default\<rparr>"

record NodeCandidate =
  n_id :: rstring
  n_model_id :: rstring
  n_trust :: f64
  n_health :: f64
  n_coordinator_rtt_ms :: "u32 option"
  n_capacity :: f64
  n_current_concurrent :: u32
  n_max_concurrent :: u32
  n_recent_error_rate :: f64
  n_policy_allowed :: bool
  n_circuit_open :: bool

record NodeWeights =
  nw_trust :: f64
  nw_health :: f64
  nw_latency :: f64
  nw_capacity :: f64
  nw_available_load :: f64
  nw_reliability :: f64

definition NodeWeights_default :: NodeWeights where
  "NodeWeights_default =
     \<lparr>nw_trust = f_lit (25/100), nw_health = f_lit (20/100), nw_latency = f_lit (15/100),
      nw_capacity = f_lit (15/100), nw_available_load = f_lit (15/100), nw_reliability = f_lit (10/100)\<rparr>"

record NodeRequirements =
  minimum_trust :: f64
  minimum_health :: f64
  node_weights :: NodeWeights

definition NodeRequirements_default :: NodeRequirements where
  "NodeRequirements_default = \<lparr>minimum_trust = Fin 0, minimum_health = Fin 0, node_weights = NodeWeights_default\<rparr>"

definition ROUTING_SCORE_SCALE :: u32 where
  "ROUTING_SCORE_SCALE = 1000000"

definition MAX_ROUTABLE_COORDINATOR_RTT_MS :: u32 where
  "MAX_ROUTABLE_COORDINATOR_RTT_MS = 1000"

definition normalized_coordinator_rtt_score :: "u32 option \<Rightarrow> u32 option" where
  "normalized_coordinator_rtt_score rtt =
     (case rtt of
        None \<Rightarrow> Some 0
      | Some ms \<Rightarrow>
          if 1 \<le> ms \<and> ms \<le> MAX_ROUTABLE_COORDINATOR_RTT_MS
          then Some (ROUTING_SCORE_SCALE - ms * 1000) else None)"

record ScoredCandidate =
  s_id :: rstring
  s_score :: f64

record RoutingDecision =
  rd_model :: ScoredCandidate
  rd_node :: ScoredCandidate

text \<open>\<open>weights.iter().sum::<f64>()\<close>\<close>

definition f_sum :: "f64 list \<Rightarrow> f64" where
  "f_sum ws = foldl f_add NZero ws"

definition validate_weights :: "f64 list \<Rightarrow> f64 acct" where
  "validate_weights ws =
     (if list_ex (\<lambda>w. \<not> is_finite w \<or> f_lt w (Fin 0)) ws then Inl (InvalidRouting ''weights'')
      else
        let s = f_sum ws in
        if f_le s (Fin 0) \<or> \<not> is_finite s then Inl (InvalidRouting ''weight sum'') else Inr s)"

definition validate_model_weights :: "ModelWeights \<Rightarrow> f64 acct" where
  "validate_model_weights w = validate_weights [mw_quality w, mw_intent_match w, mw_cost w]"

definition validate_node_weights :: "NodeWeights \<Rightarrow> f64 acct" where
  "validate_node_weights w =
     validate_weights [nw_trust w, nw_health w, nw_latency w, nw_capacity w, nw_available_load w, nw_reliability w]"

definition scored_le :: "ScoredCandidate \<Rightarrow> ScoredCandidate \<Rightarrow> bool" where
  "scored_le l r \<longleftrightarrow>
     f_total_le (s_score r) (s_score l) \<and> (f_total_le (s_score l) (s_score r) \<longrightarrow> s_id l \<le> s_id r)"

definition sort_scored :: "ScoredCandidate list \<Rightarrow> ScoredCandidate list" where
  "sort_scored xs = sort_by scored_le xs"

definition model_score :: "ModelWeights \<Rightarrow> f64 \<Rightarrow> ModelCandidate \<Rightarrow> f64" where
  "model_score w weight_sum c =
     f_div (f_sub (f_add (f_mul (mw_quality w) (m_quality c)) (f_mul (mw_intent_match w) (m_intent_match c)))
                  (f_mul (mw_cost w) (m_normalized_cost c)))
       weight_sum"

text \<open>One iteration of the loop of \<open>rank_models\<close>: an error, a skipped candidate or a scored one.\<close>

definition score_model :: "ModelRequirements \<Rightarrow> f64 \<Rightarrow> ModelCandidate \<Rightarrow> ScoredCandidate option acct" where
  "score_model requirements weight_sum c =
     and_then (validate_identifier (m_id c) ''model id'') (\<lambda>_.
     and_then (validate_unit_interval (m_quality c) ''quality'') (\<lambda>_.
     and_then (validate_unit_interval (m_intent_match c) ''intent_match'') (\<lambda>_.
     and_then (validate_unit_interval (m_normalized_cost c) ''normalized_cost'') (\<lambda>_.
       if \<not> m_available c \<or> m_context_length c < minimum_context_length requirements then Inr None
       else Inr (Some \<lparr>s_id = m_id c, s_score = model_score (model_weights requirements) weight_sum c\<rparr>)))))"

definition rank_models :: "ModelCandidate list \<Rightarrow> ModelRequirements \<Rightarrow> ScoredCandidate list acct" where
  "rank_models candidates requirements =
     and_then (validate_model_weights (model_weights requirements)) (\<lambda>weight_sum.
     and_then (try_filter_map (score_model requirements weight_sum) candidates) (\<lambda>scored.
       Inr (sort_scored scored)))"

definition f64_from_u32 :: "u32 \<Rightarrow> f64" where
  "f64_from_u32 n = f_of_nat (unat n)"

definition node_score :: "NodeWeights \<Rightarrow> f64 \<Rightarrow> u32 \<Rightarrow> NodeCandidate \<Rightarrow> f64" where
  "node_score w weight_sum latency_score c =
     (let latency = f_div (f64_from_u32 latency_score) (f64_from_u32 ROUTING_SCORE_SCALE);
          available_load = f_sub (Fin 1) (f_div (f64_from_u32 (n_current_concurrent c)) (f64_from_u32 (n_max_concurrent c)));
          reliability = f_sub (Fin 1) (n_recent_error_rate c)
      in f_div
           (f_add (f_add (f_add (f_add (f_add
             (f_mul (nw_trust w) (n_trust c))
             (f_mul (nw_health w) (n_health c)))
             (f_mul (nw_latency w) latency))
             (f_mul (nw_capacity w) (n_capacity c)))
             (f_mul (nw_available_load w) available_load))
             (f_mul (nw_reliability w) reliability))
           weight_sum)"

text \<open>The hard filters of \<open>rank_nodes\<close>.\<close>

definition node_excluded :: "NodeRequirements \<Rightarrow> NodeCandidate \<Rightarrow> bool" where
  "node_excluded requirements c \<longleftrightarrow>
     \<not> n_policy_allowed c \<or> n_circuit_open c \<or> n_max_concurrent c = 0 \<or>
     n_max_concurrent c \<le> n_current_concurrent c \<or>
     f_lt (n_trust c) (minimum_trust requirements) \<or> f_lt (n_health c) (minimum_health requirements)"

definition score_node :: "NodeRequirements \<Rightarrow> f64 \<Rightarrow> NodeCandidate \<Rightarrow> ScoredCandidate option acct" where
  "score_node requirements weight_sum c =
     and_then (validate_identifier (n_id c) ''node id'') (\<lambda>_.
     and_then (validate_unit_interval (n_trust c) ''trust'') (\<lambda>_.
     and_then (validate_unit_interval (n_health c) ''health'') (\<lambda>_.
     and_then (validate_unit_interval (n_capacity c) ''capacity'') (\<lambda>_.
     and_then (validate_unit_interval (n_recent_error_rate c) ''recent_error_rate'') (\<lambda>_.
       if node_excluded requirements c then Inr None
       else case normalized_coordinator_rtt_score (n_coordinator_rtt_ms c) of
              None \<Rightarrow> Inr None
            | Some latency_score \<Rightarrow>
                Inr (Some \<lparr>s_id = n_id c,
                           s_score = node_score (node_weights requirements) weight_sum latency_score c\<rparr>))))))"

definition rank_nodes :: "NodeCandidate list \<Rightarrow> rstring \<Rightarrow> NodeRequirements \<Rightarrow> ScoredCandidate list acct" where
  "rank_nodes candidates model_id requirements =
     and_then (validate_identifier model_id ''model id'') (\<lambda>_.
     and_then (validate_unit_interval (minimum_trust requirements) ''minimum_trust'') (\<lambda>_.
     and_then (validate_unit_interval (minimum_health requirements) ''minimum_health'') (\<lambda>_.
     and_then (validate_node_weights (node_weights requirements)) (\<lambda>weight_sum.
     and_then (try_filter_map (score_node requirements weight_sum)
                 (filter (\<lambda>c. n_model_id c = model_id) candidates)) (\<lambda>scored.
       Inr (sort_scored scored))))))"

fun route_over :: "NodeCandidate list \<Rightarrow> NodeRequirements \<Rightarrow> ScoredCandidate list \<Rightarrow> RoutingDecision acct" where
  "route_over nodes requirements [] = Inl NoEligibleNode"
| "route_over nodes requirements (m # ms) =
     and_then (rank_nodes nodes (s_id m) requirements) (\<lambda>ranked.
       case ranked of
         n # _ \<Rightarrow> Inr \<lparr>rd_model = m, rd_node = n\<rparr>
       | [] \<Rightarrow> route_over nodes requirements ms)"

definition route ::
    "ModelCandidate list \<Rightarrow> NodeCandidate list \<Rightarrow> ModelRequirements \<Rightarrow> NodeRequirements \<Rightarrow> RoutingDecision acct" where
  "route models nodes model_requirements node_requirements =
     and_then (rank_models models model_requirements) (\<lambda>ranked.
       if ranked = [] then Inl NoEligibleModel else route_over nodes node_requirements ranked)"

section \<open>Lemmas\<close>

interpretation scored: comparator scored_le
proof
  fix x y z
  show "scored_le x y \<or> scored_le y x"
    using f_total.le_total [of "s_score x" "s_score y"] by (auto simp: scored_le_def)
  show "scored_le x y \<Longrightarrow> scored_le y z \<Longrightarrow> scored_le x z"
    by (auto simp: scored_le_def intro: f_total.le_trans order_trans)
qed

lemma hd_sort_scored_best:
  "xs \<noteq> [] \<Longrightarrow> y \<in> set xs \<Longrightarrow> scored_le (hd (sort_scored xs)) y"
  using scored.hd_sort_by_least [of xs y] by (simp add: sort_scored_def)

subsection \<open>Weights\<close>

definition nonneg_ok :: "f64 \<Rightarrow> bool" where
  "nonneg_ok w \<longleftrightarrow> is_finite w \<and> f64_ok w \<and> 0 \<le> fval w"

text \<open>Adding two finite non-negative values stays finite when it is bounded by a finite sum.\<close>

lemma f_add_nonneg_finite:
  assumes "nonneg_ok x" "nonneg_ok y" "is_finite (f_add x y)"
  shows "nonneg_ok (f_add x y) \<and> fval (f_add x y) = fround (fval x + fval y) \<and>
     fval x \<le> fval (f_add x y) \<and> fval y \<le> fval (f_add x y)"
proof -
  have x: "fround (fval x) = fval x" and y: "fround (fval y) = fval y"
    using assms f64_ok_fval by (auto simp: nonneg_ok_def)
  have v: "fval (f_add x y) = fround (fval x + fval y) \<and> f64_ok (f_add x y)"
    using assms x y by (cases x; cases y) (auto simp: nonneg_ok_def of_exact_def Let_def abs_le_iff split: if_splits)
  have "fround (fval x) \<le> fround (fval x + fval y)" "fround (fval y) \<le> fround (fval x + fval y)"
    using assms by (intro fround_mono; simp add: nonneg_ok_def)+
  with v x y assms show ?thesis by (auto simp: nonneg_ok_def)
qed

lemma f_add_finite_below:
  assumes "nonneg_ok x" "nonneg_ok y" "nonneg_ok a" "nonneg_ok b"
    and "fval a \<le> fval x" "fval b \<le> fval y" "is_finite (f_add x y)"
  shows "nonneg_ok (f_add a b) \<and> fval (f_add a b) \<le> fval (f_add x y)"
proof -
  have xy: "fval (f_add x y) = fround (fval x + fval y)" "nonneg_ok (f_add x y)"
    using f_add_nonneg_finite [OF assms(1,2,7)] by simp_all
  have le: "fround (fval a + fval b) \<le> fround (fval x + fval y)" using assms by (intro fround_mono) simp
  have "fround (fval x + fval y) \<le> max_finite" using xy f64_ok_fval [of "f_add x y"] by (auto simp: nonneg_ok_def)
  with le have m: "fround (fval a + fval b) \<le> max_finite" by simp
  have fin: "is_finite (f_add a b)"
    using assms m fround_nonneg [of "fval a + fval b"]
    by (cases a; cases b) (auto simp: nonneg_ok_def of_exact_def Let_def)
  from f_add_nonneg_finite [OF assms(3,4) fin] le xy(1) show ?thesis by simp
qed

lemma f_mul_below:
  assumes "nonneg_ok w" "unit_range v"
  shows "nonneg_ok (f_mul w v) \<and> fval (f_mul w v) \<le> fval w"
proof -
  have w: "fround (fval w) = fval w" "fval w \<le> max_finite" using assms(1) f64_ok_fval [of w] by (auto simp: nonneg_ok_def)
  have p: "0 \<le> fval w * fval v" "fval w * fval v \<le> fval w"
    using assms by (auto simp: nonneg_ok_def unit_range_def mult_left_le)
  have r: "rounds_to (f_mul w v) (fval w * fval v)"
    using assms p w by (intro f_mul_rounds) (auto simp: nonneg_ok_def unit_range_def)
  show ?thesis
    using rounds_toD [OF r] fround_mono [OF p(2)] fround_nonneg [OF p(1)] w by (simp add: nonneg_ok_def)
qed

lemma foldl_finite_start:
  assumes "list_all is_finite ws" "a \<noteq> NaN" "is_finite (foldl f_add a ws)"
  shows "is_finite a"
proof -
  have "foldl f_add PInf ws = PInf" "foldl f_add NInf ws = NInf"
    using assms(1) by (induction ws) auto
  with assms show ?thesis by (cases a) auto
qed

lemma weighted_fold:
  assumes "list_all2 (\<lambda>t w. nonneg_ok t \<and> nonneg_ok w \<and> fval t \<le> fval w) ts ws"
    and "nonneg_ok a" "nonneg_ok b" "fval a \<le> fval b" "is_finite (foldl f_add b ws)"
  shows "nonneg_ok (foldl f_add a ts) \<and> nonneg_ok (foldl f_add b ws) \<and>
     fval (foldl f_add a ts) \<le> fval (foldl f_add b ws)"
  using assms
proof (induction ts ws arbitrary: a b rule: list_all2_induct)
  case Nil
  then show ?case by simp
next
  case (Cons t ts w ws)
  have fin: "list_all is_finite ws" using Cons.hyps(2) by (auto simp: list_all2_conv_all_nth list_all_length nonneg_ok_def)
  have bw: "is_finite (f_add b w)"
    using foldl_finite_start [OF fin, of "f_add b w"] Cons.prems Cons.hyps
    by (auto simp: nonneg_ok_def f_add_not_NaN)
  have "nonneg_ok (f_add a t) \<and> fval (f_add a t) \<le> fval (f_add b w)"
    using Cons.hyps Cons.prems bw by (intro f_add_finite_below) auto
  moreover have "nonneg_ok (f_add b w)" using f_add_nonneg_finite [of b w] Cons.prems Cons.hyps bw by simp
  ultimately show ?case using Cons.IH Cons.prems by simp
qed

lemma NZero_add: "nonneg_ok w \<Longrightarrow> nonneg_ok (f_add NZero w) \<and> fval (f_add NZero w) = fval w"
  by (cases w) (auto simp: nonneg_ok_def)

lemma validate_weights_eq_Inr:
  "validate_weights ws = Inr s \<longleftrightarrow>
     (\<forall>w \<in> set ws. is_finite w \<and> 0 \<le> fval w) \<and> is_finite (f_sum ws) \<and> 0 < fval (f_sum ws) \<and> s = f_sum ws"
  by (cases "\<forall>w \<in> set ws. is_finite w") (auto simp: validate_weights_def Let_def list_ex_iff f_cmp_finite not_less dest: bspec leD)

lemma f_div_unit:
  assumes "is_finite x" "is_finite y" "\<bar>fval x\<bar> \<le> fval y" "0 < fval y"
  shows "is_finite (f_div x y) \<and> \<bar>fval (f_div x y)\<bar> \<le> 1 \<and> (0 \<le> fval x \<longrightarrow> 0 \<le> fval (f_div x y))"
proof -
  have q: "\<bar>fval x / fval y\<bar> \<le> 1" using assms by simp
  have r: "rounds_to (f_div x y) (fval x / fval y)"
    using assms order_trans [OF q max_finite_pos(3)] by (intro f_div_rounds) auto
  have "\<bar>fround (fval x / fval y)\<bar> \<le> 1" using q by (rule fround_abs_le [OF fround_1])
  moreover have "0 \<le> fval x \<Longrightarrow> 0 \<le> fround (fval x / fval y)" using assms by (intro fround_nonneg) simp
  ultimately show ?thesis using rounds_toD [OF r] by simp
qed

subsection \<open>Scores are normalised\<close>

definition weights_f64 :: "f64 list \<Rightarrow> bool" where
  "weights_f64 ws \<longleftrightarrow> list_all f64_ok ws"

lemma model_score_normalised:
  assumes "validate_model_weights w = Inr s"
    and "weights_f64 [mw_quality w, mw_intent_match w, mw_cost w]"
    and "unit_range (m_quality c)" "unit_range (m_intent_match c)" "unit_range (m_normalized_cost c)"
  shows "is_finite (model_score w s c) \<and> \<bar>fval (model_score w s c)\<bar> \<le> 1"
proof -
  let ?a = "mw_quality w" and ?b = "mw_intent_match w" and ?c = "mw_cost w"
  have nn: "nonneg_ok ?a" "nonneg_ok ?b" "nonneg_ok ?c"
    and s: "s = foldl f_add (f_add NZero ?a) [?b, ?c]" "is_finite s" "0 < fval s"
    using assms(1,2) by (auto simp: validate_model_weights_def validate_weights_eq_Inr weights_f64_def nonneg_ok_def f_sum_def)
  let ?t1 = "f_mul ?a (m_quality c)" and ?t2 = "f_mul ?b (m_intent_match c)" and ?t3 = "f_mul ?c (m_normalized_cost c)"
  note t1 = f_mul_below [OF nn(1) assms(3)] and t2 = f_mul_below [OF nn(2) assms(4)]
    and t3 = f_mul_below [OF nn(3) assms(5)]
  note a0 = NZero_add [OF nn(1)]
  let ?B = "f_add (f_add NZero ?a) ?b"
  have sB: "s = f_add ?B ?c" using s(1) by simp
  have Bf: "is_finite ?B"
    using foldl_finite_start [of "[?c]" ?B] s nn a0 by (simp add: nonneg_ok_def f_add_not_NaN)
  have A: "nonneg_ok (f_add ?t1 ?t2) \<and> fval (f_add ?t1 ?t2) \<le> fval ?B"
    using t1 t2 a0 nn Bf by (intro f_add_finite_below) auto
  have B: "nonneg_ok ?B" using f_add_nonneg_finite [OF _ nn(2) Bf] a0 by simp
  have S: "nonneg_ok s \<and> fval ?B \<le> fval s \<and> fval ?c \<le> fval s"
    using f_add_nonneg_finite [OF B nn(3)] s(2) unfolding sB by simp
  define n where "n = f_sub (f_add ?t1 ?t2) ?t3"
  have d: "\<bar>fval (f_add ?t1 ?t2) - fval ?t3\<bar> \<le> fval s"
    using A S t3 by (auto simp: nonneg_ok_def abs_le_iff)
  have sm: "fval s \<le> max_finite" "fround (fval s) = fval s"
    using S f64_ok_fval [of s] by (auto simp: nonneg_ok_def)
  have r: "rounds_to n (fval (f_add ?t1 ?t2) - fval ?t3)"
    unfolding n_def using A t3 d sm by (intro f_sub_rounds) (auto simp: nonneg_ok_def)
  have "\<bar>fval n\<bar> \<le> fval s"
    using rounds_toD(3) [OF r] fround_abs_le [OF sm(2) d] by simp
  then show ?thesis
    using f_div_unit [of n s] rounds_toD(1) [OF r] s by (simp add: model_score_def n_def)
qed

definition node_f64 :: "NodeCandidate \<Rightarrow> bool" where
  "node_f64 c \<longleftrightarrow> f64_ok (n_trust c) \<and> f64_ok (n_health c) \<and> f64_ok (n_capacity c) \<and> f64_ok (n_recent_error_rate c)"

lemma f64_from_u32_value [simp]:
  "is_finite (f64_from_u32 n)" "fval (f64_from_u32 n) = of_nat (unat n)" "f64_ok (f64_from_u32 n)"
  using f_of_nat_exact [of "unat n"] unat_u32_less [of n] unfolding f64_from_u32_def by linarith+

lemma u32_ratio_unit:
  assumes "unat a \<le> unat b" "0 < unat b"
  shows "unit_value (f_div (f64_from_u32 a) (f64_from_u32 b))"
proof -
  have "rat_of_nat (unat a) \<le> rat_of_nat (unat b)" "0 < rat_of_nat (unat b)"
    using assms by (simp_all del: of_nat_unat)
  then have q: "0 \<le> fval (f64_from_u32 a) / fval (f64_from_u32 b)" "fval (f64_from_u32 a) / fval (f64_from_u32 b) \<le> 1"
    "fval (f64_from_u32 b) \<noteq> 0"
    by (simp_all del: of_nat_unat)
  have "rounds_to (f_div (f64_from_u32 a) (f64_from_u32 b)) (fval (f64_from_u32 a) / fval (f64_from_u32 b))"
    using q unit_abs_le [OF q(1,2)] by (intro f_div_rounds) simp_all
  then show ?thesis using q(1,2) by (rule rounds_to_unit)
qed

lemma rtt_score_le: "normalized_coordinator_rtt_score rtt = Some l \<Longrightarrow> unat l \<le> 1000000"
proof -
  assume "normalized_coordinator_rtt_score rtt = Some l"
  then consider "l = 0" | ms where "1 \<le> ms" "ms \<le> 1000" "l = 1000000 - ms * 1000"
    by (auto simp: normalized_coordinator_rtt_score_def MAX_ROUTABLE_COORDINATOR_RTT_MS_def ROUTING_SCORE_SCALE_def
        split: option.splits if_splits)
  then show ?thesis
  proof cases
    case 2
    have m: "unat ms \<le> 1000" using 2(2) by (simp add: word_le_nat_alt)
    then have "unat (ms * 1000) = unat ms * 1000" by (subst unat_mult_lem [THEN iffD1]) simp_all
    then have "unat (1000000 - ms * 1000) = 1000000 - unat ms * 1000"
      using m by (subst unat_sub) (simp_all add: word_le_nat_alt)
    with 2 show ?thesis by simp
  qed simp
qed

lemma one_minus_unit: "unit_value x \<Longrightarrow> unit_value (f_sub (Fin 1) x)"
  by (rule complement_unit(1))

lemma node_score_normalised:
  assumes "validate_node_weights w = Inr s"
    and "weights_f64 [nw_trust w, nw_health w, nw_latency w, nw_capacity w, nw_available_load w, nw_reliability w]"
    and "unit_range (n_trust c)" "unit_range (n_health c)" "unit_range (n_capacity c)"
    and "unit_value (n_recent_error_rate c)" "unat l \<le> 1000000"
    and "unat (n_current_concurrent c) \<le> unat (n_max_concurrent c)" "0 < unat (n_max_concurrent c)"
  shows "is_finite (node_score w s l c) \<and> 0 \<le> fval (node_score w s l c) \<and> fval (node_score w s l c) \<le> 1"
proof -
  let ?w1 = "nw_trust w" and ?w2 = "nw_health w" and ?w3 = "nw_latency w" and ?w4 = "nw_capacity w"
    and ?w5 = "nw_available_load w" and ?w6 = "nw_reliability w"
  have nn: "nonneg_ok ?w1" "nonneg_ok ?w2" "nonneg_ok ?w3" "nonneg_ok ?w4" "nonneg_ok ?w5" "nonneg_ok ?w6"
    and s: "s = foldl f_add (f_add NZero ?w1) [?w2, ?w3, ?w4, ?w5, ?w6]" "is_finite s" "0 < fval s"
    using assms(1,2) by (auto simp: validate_node_weights_def validate_weights_eq_Inr weights_f64_def nonneg_ok_def f_sum_def)
  let ?lat = "f_div (f64_from_u32 l) (f64_from_u32 ROUTING_SCORE_SCALE)"
    and ?load = "f_sub (Fin 1) (f_div (f64_from_u32 (n_current_concurrent c)) (f64_from_u32 (n_max_concurrent c)))"
    and ?rel = "f_sub (Fin 1) (n_recent_error_rate c)"
  have u: "unit_range ?lat" "unit_range ?load" "unit_range ?rel"
    using u32_ratio_unit [of l ROUTING_SCORE_SCALE] u32_ratio_unit [OF assms(8,9)] one_minus_unit assms(6,7)
    by (simp_all add: unit_value_iff ROUTING_SCORE_SCALE_def)
  define ts where "ts = [f_mul ?w2 (n_health c), f_mul ?w3 ?lat, f_mul ?w4 (n_capacity c), f_mul ?w5 ?load, f_mul ?w6 ?rel]"
  define n where "n = foldl f_add (f_mul ?w1 (n_trust c)) ts"
  have l2: "list_all2 (\<lambda>t w. nonneg_ok t \<and> nonneg_ok w \<and> fval t \<le> fval w) ts [?w2, ?w3, ?w4, ?w5, ?w6]"
    using nn f_mul_below assms(4,5) u by (simp add: ts_def)
  have ns: "node_score w s l c = f_div n s" by (simp add: node_score_def n_def ts_def Let_def)
  have "nonneg_ok n \<and> nonneg_ok s \<and> fval n \<le> fval s"
    unfolding n_def s(1) using NZero_add [OF nn(1)] f_mul_below [OF nn(1) assms(3)] s
    by (intro weighted_fold [OF l2]) auto
  then show ?thesis
    using f_div_unit [of n s] s(2,3) unfolding ns by (auto simp: nonneg_ok_def abs_le_iff)
qed

subsection \<open>The filters are exact\<close>

definition model_eligible :: "ModelRequirements \<Rightarrow> ModelCandidate \<Rightarrow> bool" where
  "model_eligible req c \<longleftrightarrow> m_available c \<and> minimum_context_length req \<le> m_context_length c"

definition node_eligible :: "NodeRequirements \<Rightarrow> NodeCandidate \<Rightarrow> bool" where
  "node_eligible req c \<longleftrightarrow> \<not> node_excluded req c \<and> normalized_coordinator_rtt_score (n_coordinator_rtt_ms c) \<noteq> None"

definition scored_model :: "ModelRequirements \<Rightarrow> f64 \<Rightarrow> ModelCandidate \<Rightarrow> ScoredCandidate" where
  "scored_model req s c = \<lparr>s_id = m_id c, s_score = model_score (model_weights req) s c\<rparr>"

definition scored_node :: "NodeRequirements \<Rightarrow> f64 \<Rightarrow> NodeCandidate \<Rightarrow> ScoredCandidate" where
  "scored_node req s c =
     \<lparr>s_id = n_id c, s_score = node_score (node_weights req) s
        (the (normalized_coordinator_rtt_score (n_coordinator_rtt_ms c))) c\<rparr>"

lemma score_model_Inr:
  "score_model req s c = Inr r \<Longrightarrow> r = (if model_eligible req c then Some (scored_model req s c) else None)"
  by (auto simp: score_model_def result_simps model_eligible_def scored_model_def split: if_splits)

lemma score_node_Inr:
  "score_node req s c = Inr r \<Longrightarrow> r = (if node_eligible req c then Some (scored_node req s c) else None)"
  by (auto simp: score_node_def result_simps node_eligible_def scored_node_def split: if_splits option.splits)

lemma rank_models_Inr:
  assumes "rank_models cs req = Inr r"
  obtains s where "validate_model_weights (model_weights req) = Inr s"
    "r = sort_scored (map (scored_model req s) (filter (model_eligible req) cs))"
    "\<forall>c \<in> set cs. validate_identifier (m_id c) ''model id'' = Inr () \<and> unit_range (m_quality c) \<and>
       unit_range (m_intent_match c) \<and> unit_range (m_normalized_cost c)"
proof -
  from assms obtain s ys where s: "validate_model_weights (model_weights req) = Inr s"
    and ys: "try_filter_map (score_model req s) cs = Inr ys" and r: "r = sort_scored ys"
    by (auto simp: rank_models_def and_then_eq_Inr)
  have "ys = map (scored_model req s) (filter (model_eligible req) cs)"
    by (rule try_filter_map_filter [OF ys]) (simp add: score_model_Inr)
  moreover have "\<forall>c \<in> set cs. \<exists>r. score_model req s c = Inr r" using try_filter_map_sound [OF ys] by blast
  then have "\<forall>c \<in> set cs. validate_identifier (m_id c) ''model id'' = Inr () \<and> unit_range (m_quality c) \<and>
       unit_range (m_intent_match c) \<and> unit_range (m_normalized_cost c)"
    by (auto simp: score_model_def and_then_eq_Inr validate_unit_interval_eq_Inr)
  ultimately show thesis using that s r by blast
qed

lemma rank_nodes_Inr:
  assumes "rank_nodes cs mid req = Inr r"
  obtains s where "validate_node_weights (node_weights req) = Inr s"
    "r = sort_scored (map (scored_node req s) (filter (\<lambda>c. n_model_id c = mid \<and> node_eligible req c) cs))"
    "\<forall>c \<in> set cs. n_model_id c = mid \<longrightarrow> unit_range (n_trust c) \<and> unit_range (n_health c) \<and>
       unit_range (n_capacity c) \<and> unit_range (n_recent_error_rate c)"
proof -
  let ?cs = "filter (\<lambda>c. n_model_id c = mid) cs"
  from assms obtain s ys where s: "validate_node_weights (node_weights req) = Inr s"
    and ys: "try_filter_map (score_node req s) ?cs = Inr ys" and r: "r = sort_scored ys"
    by (auto simp: rank_nodes_def and_then_eq_Inr)
  have "ys = map (scored_node req s) (filter (node_eligible req) ?cs)"
    by (rule try_filter_map_filter [OF ys]) (simp add: score_node_Inr)
  then have "ys = map (scored_node req s) (filter (\<lambda>c. n_model_id c = mid \<and> node_eligible req c) cs)" by (simp add: conj_commute)
  moreover have "\<forall>c \<in> set ?cs. \<exists>r. score_node req s c = Inr r" using try_filter_map_sound [OF ys] by blast
  then have "\<forall>c \<in> set cs. n_model_id c = mid \<longrightarrow> unit_range (n_trust c) \<and> unit_range (n_health c) \<and>
       unit_range (n_capacity c) \<and> unit_range (n_recent_error_rate c)"
    by (auto simp: score_node_def and_then_eq_Inr validate_unit_interval_eq_Inr)
  ultimately show thesis using that s r by blast
qed

text \<open>Where \<open>route\<close> stops: the models before the chosen one have no eligible node.\<close>

lemma route_over_Inr:
  assumes "route_over nodes req ms = Inr d"
  obtains pre post ranked where "ms = pre @ rd_model d # post"
    "rank_nodes nodes (s_id (rd_model d)) req = Inr ranked" "ranked \<noteq> []" "rd_node d = hd ranked"
    "\<forall>m \<in> set pre. rank_nodes nodes (s_id m) req = Inr []"
  using assms
proof (induction ms arbitrary: thesis)
  case Nil
  then show ?case by simp
next
  case (Cons m ms)
  from Cons.prems(2) obtain ranked where rk: "rank_nodes nodes (s_id m) req = Inr ranked"
    by (auto simp: and_then_eq_Inr)
  show ?case
  proof (cases ranked)
    case Nil
    then have "route_over nodes req ms = Inr d" using Cons.prems(2) rk by simp
    from Cons.IH [OF _ this] obtain pre post rk' where "ms = pre @ rd_model d # post"
      "rank_nodes nodes (s_id (rd_model d)) req = Inr rk'" "rk' \<noteq> []" "rd_node d = hd rk'"
      "\<forall>m \<in> set pre. rank_nodes nodes (s_id m) req = Inr []" by blast
    with Cons.prems(1) [of "m # pre" post rk'] rk Nil show ?thesis by simp
  next
    case (Cons n ns)
    then have "d = \<lparr>rd_model = m, rd_node = n\<rparr>" using Cons.prems(2) rk by simp
    with Cons.prems(1) [of "[]" ms ranked] rk Cons show ?thesis by simp
  qed
qed

text \<open>The two verdicts of \<open>route\<close> are its own: no check below it reports them.\<close>

definition verdict :: "AccountingError \<Rightarrow> bool" where
  "verdict e \<longleftrightarrow> e = NoEligibleModel \<or> e = NoEligibleNode"

lemma checks_no_verdict:
  "verdict e \<Longrightarrow> validate_identifier x y \<noteq> Inl e" "verdict e \<Longrightarrow> validate_unit_interval v y \<noteq> Inl e"
  "verdict e \<Longrightarrow> validate_weights ws \<noteq> Inl e"
  by (auto simp: verdict_def validate_identifier_def validate_unit_interval_def validate_weights_def Let_def)

lemma try_filter_map_no_verdict:
  "(\<And>x. f x \<noteq> Inl e) \<Longrightarrow> try_filter_map f xs \<noteq> Inl e"
  by (induction xs) (auto simp: and_then_eq_Inl)

lemma rank_no_verdict:
  assumes "verdict e"
  shows "rank_nodes nodes mid nreq \<noteq> Inl e" "rank_models models mreq \<noteq> Inl e"
proof -
  note c = checks_no_verdict [OF assms]
  have n: "score_node nreq s x \<noteq> Inl e" for s x
    by (auto simp: score_node_def and_then_eq_Inl c split: option.splits)
  have m: "score_model mreq s x \<noteq> Inl e" for s x
    by (auto simp: score_model_def and_then_eq_Inl c)
  show "rank_nodes nodes mid nreq \<noteq> Inl e"
    by (auto simp: rank_nodes_def and_then_eq_Inl c validate_node_weights_def try_filter_map_no_verdict n)
  show "rank_models models mreq \<noteq> Inl e"
    by (auto simp: rank_models_def and_then_eq_Inl c validate_model_weights_def try_filter_map_no_verdict m)
qed

lemma route_over_NoNode:
  "route_over nodes req ms = Inl NoEligibleNode \<Longrightarrow> \<forall>m \<in> set ms. rank_nodes nodes (s_id m) req = Inr []"
proof (induction ms)
  case (Cons m ms)
  then obtain ranked where rk: "rank_nodes nodes (s_id m) req = Inr ranked"
    using rank_no_verdict(1) [of NoEligibleNode nodes "s_id m" req] by (cases "rank_nodes nodes (s_id m) req") (auto simp: verdict_def)
  with Cons show ?case by (cases ranked) auto
qed simp

lemma rank_nodes_Nil:
  assumes "rank_nodes nodes mid req = Inr []" "n \<in> set nodes" "n_model_id n = mid"
  shows "\<not> node_eligible req n"
proof -
  obtain s where "[] = sort_scored (map (scored_node req s)
      (filter (\<lambda>c. n_model_id c = mid \<and> node_eligible req c) nodes))"
    using rank_nodes_Inr [OF assms(1)] by metis
  then have "filter (\<lambda>c. n_model_id c = mid \<and> node_eligible req c) nodes = []"
    by (metis map_is_Nil_conv sort_by_eq_Nil sort_scored_def)
  with assms show ?thesis by (auto simp: filter_empty_conv)
qed

lemma rank_nodes_hd:
  assumes "rank_nodes nodes mid req = Inr rk" "rk \<noteq> []"
  obtains s n where "validate_node_weights (node_weights req) = Inr s" "n \<in> set nodes" "n_model_id n = mid"
    "node_eligible req n" "hd rk = scored_node req s n"
    "\<forall>n' \<in> set nodes. n_model_id n' = mid \<and> node_eligible req n' \<longrightarrow> scored_le (hd rk) (scored_node req s n')"
proof -
  let ?P = "\<lambda>c. n_model_id c = mid \<and> node_eligible req c"
  obtain s where s: "validate_node_weights (node_weights req) = Inr s"
    "rk = sort_scored (map (scored_node req s) (filter ?P nodes))"
    using rank_nodes_Inr [OF assms(1)] by metis
  have "hd rk \<in> set rk" using assms(2) by simp
  then obtain n where n: "n \<in> set nodes" "?P n" "hd rk = scored_node req s n"
    unfolding s(2) by (auto simp: sort_scored_def)
  have "scored_le (hd rk) (scored_node req s n')" if "n' \<in> set nodes" "?P n'" for n'
  proof -
    have "scored_node req s n' \<in> set (map (scored_node req s) (filter ?P nodes))" using that by auto
    moreover from this have "map (scored_node req s) (filter ?P nodes) \<noteq> []" by force
    ultimately show ?thesis unfolding s(2) by (intro hd_sort_scored_best)
  qed
  with that s(1) n show thesis by blast
qed

lemma sorted_after:
  assumes "sorted_wrt scored_le (pre @ x # post)" "y \<in> set (pre @ x # post)" "y \<notin> set pre"
  shows "scored_le x y"
  using assms scored.le_refl by (auto simp: sorted_wrt_append)

subsection \<open>What routing promises\<close>

text \<open>Which candidates may be routed to, and what a candidate is worth, read off its fields: comparisons are those of
  the exact values and counts, the round-trip score is the correctly rounded \<open>1 - ms/1000\<close> (zero when it was never
  measured), and the free share of a node is one minus its rounded load.\<close>

definition model_qualifies :: "ModelRequirements \<Rightarrow> ModelCandidate \<Rightarrow> bool" where
  "model_qualifies req m \<longleftrightarrow> m_available m \<and> unat (minimum_context_length req) \<le> unat (m_context_length m)"

definition node_qualifies :: "NodeRequirements \<Rightarrow> NodeCandidate \<Rightarrow> bool" where
  "node_qualifies req n \<longleftrightarrow>
     n_policy_allowed n \<and> \<not> n_circuit_open n \<and> unat (n_current_concurrent n) < unat (n_max_concurrent n) \<and>
     fval (minimum_trust req) \<le> fval (n_trust n) \<and> fval (minimum_health req) \<le> fval (n_health n) \<and>
     (\<forall>ms. n_coordinator_rtt_ms n = Some ms \<longrightarrow> 1 \<le> unat ms \<and> unat ms \<le> 1000)"

definition model_weight_list :: "ModelWeights \<Rightarrow> f64 list" where
  "model_weight_list w = [mw_quality w, mw_intent_match w, mw_cost w]"

definition node_weight_list :: "NodeWeights \<Rightarrow> f64 list" where
  "node_weight_list w =
     [nw_trust w, nw_health w, nw_latency w, nw_capacity w, nw_available_load w, nw_reliability w]"

definition usable_weights :: "f64 list \<Rightarrow> bool" where
  "usable_weights ws \<longleftrightarrow>
     (\<forall>w \<in> set ws. is_finite w \<and> 0 \<le> fval w) \<and> is_finite (foldl f_add NZero ws) \<and> 0 < fval (foldl f_add NZero ws)"

definition model_merit :: "ModelWeights \<Rightarrow> ModelCandidate \<Rightarrow> f64" where
  "model_merit w m =
     f_div (f_sub (f_add (f_mul (mw_quality w) (m_quality m)) (f_mul (mw_intent_match w) (m_intent_match m)))
       (f_mul (mw_cost w) (m_normalized_cost m))) (foldl f_add NZero (model_weight_list w))"

definition latency_merit :: "u32 option \<Rightarrow> f64" where
  "latency_merit rtt = (case rtt of None \<Rightarrow> Fin 0 | Some ms \<Rightarrow> of_exact (1 - rat_of_nat (unat ms) / 1000))"

definition node_terms :: "NodeWeights \<Rightarrow> NodeCandidate \<Rightarrow> f64 list" where
  "node_terms w n = map2 f_mul (node_weight_list w)
     [n_trust n, n_health n, latency_merit (n_coordinator_rtt_ms n), n_capacity n,
      f_sub (Fin 1) (of_exact (rat_of_nat (unat (n_current_concurrent n)) / rat_of_nat (unat (n_max_concurrent n)))),
      f_sub (Fin 1) (n_recent_error_rate n)]"

definition node_merit :: "NodeWeights \<Rightarrow> NodeCandidate \<Rightarrow> f64" where
  "node_merit w n = f_div (foldl f_add (hd (node_terms w n)) (tl (node_terms w n))) (foldl f_add NZero (node_weight_list w))"

text \<open>A candidate of the first score and name is at least as good as one of the second: the higher score, and of
  equal scores the smaller name.\<close>

definition preferred :: "f64 \<Rightarrow> rstring \<Rightarrow> f64 \<Rightarrow> rstring \<Rightarrow> bool" where
  "preferred s a t b \<longleftrightarrow> f_total_le t s \<and> (s = t \<longrightarrow> a \<le> b)"

lemma scored_le_preferred: "scored_le x y \<Longrightarrow> preferred (s_score x) (s_id x) (s_score y) (s_id y)"
  using f_total.le_refl by (auto simp: scored_le_def preferred_def)

lemma f64_from_u32_zero: "unat a = 0 \<Longrightarrow> f64_from_u32 a = Fin 0"
  by (simp add: f64_from_u32_def f_of_nat_def of_exact_def)

lemma f64_ratio:
  "fval (f64_from_u32 b) \<noteq> 0 \<Longrightarrow>
     f_div (f64_from_u32 a) (f64_from_u32 b) = of_exact (rat_of_nat (unat a) / rat_of_nat (unat b))"
  using f64_from_u32_value [of a] f64_from_u32_value [of b] f64_from_u32_zero [of a]
  by (cases "f64_from_u32 a"; cases "f64_from_u32 b")
     (auto simp: f_div_def Let_def signed_zero_def of_exact_def simp del: of_nat_unat)

lemma latency_merit_score:
  assumes "normalized_coordinator_rtt_score rtt = Some l"
  shows "f_div (f64_from_u32 l) (f64_from_u32 ROUTING_SCORE_SCALE) = latency_merit rtt"
proof -
  have nz: "fval (f64_from_u32 ROUTING_SCORE_SCALE) \<noteq> 0" "unat ROUTING_SCORE_SCALE = 1000000"
    by (simp_all add: ROUTING_SCORE_SCALE_def)
  show ?thesis
  proof (cases rtt)
    case None
    with assms have "unat l = 0" by (simp add: normalized_coordinator_rtt_score_def)
    with None show ?thesis unfolding f64_ratio [OF nz(1)] by (simp add: latency_merit_def of_exact_def)
  next
    case (Some ms)
    with assms have ms: "1 \<le> ms" "ms \<le> 1000" and l: "l = 1000000 - ms * 1000"
      by (auto simp: normalized_coordinator_rtt_score_def MAX_ROUTABLE_COORDINATOR_RTT_MS_def ROUTING_SCORE_SCALE_def
          split: if_splits)
    have m: "unat ms \<le> 1000" using ms by (simp add: word_le_nat_alt)
    then have p: "unat (ms * 1000) = unat ms * 1000" by (subst unat_mult_lem [THEN iffD1]) simp_all
    have "unat l = 1000000 - unat ms * 1000"
      unfolding l using m p by (subst unat_sub) (simp_all add: word_le_nat_alt)
    then have "rat_of_nat (unat l) / rat_of_nat 1000000 = 1 - rat_of_nat (unat ms) / 1000"
      using m by (simp add: of_nat_diff diff_divide_distrib del: of_nat_unat)
    then show ?thesis unfolding f64_ratio [OF nz(1)] nz(2) Some latency_merit_def option.case by (rule arg_cong)
  qed
qed

lemma node_eligible_rtt:
  "normalized_coordinator_rtt_score rtt \<noteq> None \<longleftrightarrow> (\<forall>ms. rtt = Some ms \<longrightarrow> 1 \<le> unat ms \<and> unat ms \<le> 1000)"
  by (cases rtt) (auto simp: normalized_coordinator_rtt_score_def MAX_ROUTABLE_COORDINATOR_RTT_MS_def word_le_nat_alt)

lemma model_eligible_qualifies: "model_eligible = model_qualifies"
  by (intro ext) (simp add: model_eligible_def model_qualifies_def word_le_nat_alt)

lemma node_eligible_qualifies:
  assumes "unit_range (minimum_trust req)" "unit_range (minimum_health req)" "unit_range (n_trust n)" "unit_range (n_health n)"
  shows "node_eligible req n \<longleftrightarrow> node_qualifies req n"
  using assms unfolding node_eligible_def node_qualifies_def node_excluded_def node_eligible_rtt
  by (auto simp: f_cmp_finite unit_range_def not_less word_le_nat_alt word_less_nat_alt unat_eq_0)

lemma rank_nodes_eligible:
  assumes "rank_nodes cs mid req = Inr r" "n \<in> set cs" "n_model_id n = mid"
  shows "node_eligible req n \<longleftrightarrow> node_qualifies req n"
proof -
  have "unit_range (minimum_trust req)" "unit_range (minimum_health req)"
    using assms(1) by (auto simp: rank_nodes_def and_then_eq_Inr validate_unit_interval_eq_Inr)
  moreover have "unit_range (n_trust n)" "unit_range (n_health n)"
    using rank_nodes_Inr [OF assms(1)] assms(2,3) by metis+
  ultimately show ?thesis by (rule node_eligible_qualifies)
qed

lemma scored_model_merit:
  "validate_model_weights (model_weights req) = Inr s \<Longrightarrow>
     usable_weights (model_weight_list (model_weights req)) \<and>
     scored_model req s m = \<lparr>s_id = m_id m, s_score = model_merit (model_weights req) m\<rparr>"
  by (auto simp: validate_model_weights_def validate_weights_eq_Inr usable_weights_def model_weight_list_def
      scored_model_def model_merit_def model_score_def f_sum_def)

lemma scored_node_merit:
  assumes "validate_node_weights (node_weights req) = Inr s" "node_eligible req n"
  shows "usable_weights (node_weight_list (node_weights req))"
    and "scored_node req s n = \<lparr>s_id = n_id n, s_score = node_merit (node_weights req) n\<rparr>"
proof -
  obtain l where l: "normalized_coordinator_rtt_score (n_coordinator_rtt_ms n) = Some l"
    using assms(2) by (auto simp: node_eligible_def)
  have nz: "fval (f64_from_u32 (n_max_concurrent n)) \<noteq> 0"
    using assms(2) by (auto simp: node_eligible_def node_excluded_def unat_eq_0 simp del: of_nat_unat)
  have s: "s = foldl f_add NZero (node_weight_list (node_weights req))"
    using assms(1) by (simp add: validate_node_weights_def validate_weights_eq_Inr node_weight_list_def f_sum_def)
  show "usable_weights (node_weight_list (node_weights req))"
    using assms(1) by (simp add: validate_node_weights_def validate_weights_eq_Inr usable_weights_def node_weight_list_def f_sum_def)
  show "scored_node req s n = \<lparr>s_id = n_id n, s_score = node_merit (node_weights req) n\<rparr>"
    unfolding s
    by (simp add: scored_node_def l node_score_def Let_def latency_merit_score [OF l] f64_ratio [OF nz] node_merit_def
        node_terms_def node_weight_list_def del: of_nat_unat)
qed

lemma rank_nodes_best:
  assumes "rank_nodes nodes mid req = Inr rk" "rk \<noteq> []"
  obtains n where "n \<in> set nodes" "n_model_id n = mid" "node_qualifies req n"
    "hd rk = \<lparr>s_id = n_id n, s_score = node_merit (node_weights req) n\<rparr>"
    "usable_weights (node_weight_list (node_weights req))"
    "\<forall>n' \<in> set nodes. n_model_id n' = mid \<and> node_qualifies req n' \<longrightarrow>
       preferred (node_merit (node_weights req) n) (n_id n) (node_merit (node_weights req) n') (n_id n')"
proof (rule rank_nodes_hd [OF assms])
  fix s n
  assume s: "validate_node_weights (node_weights req) = Inr s" and n: "n \<in> set nodes" "n_model_id n = mid"
    "node_eligible req n" "hd rk = scored_node req s n"
    and b: "\<forall>n' \<in> set nodes. n_model_id n' = mid \<and> node_eligible req n' \<longrightarrow> scored_le (hd rk) (scored_node req s n')"
  have h: "hd rk = \<lparr>s_id = n_id n, s_score = node_merit (node_weights req) n\<rparr>"
    using n(4) scored_node_merit(2) [OF s n(3)] by simp
  have "preferred (node_merit (node_weights req) n) (n_id n) (node_merit (node_weights req) n') (n_id n')"
    if n': "n' \<in> set nodes" "n_model_id n' = mid" "node_qualifies req n'" for n'
  proof -
    have e: "node_eligible req n'" using rank_nodes_eligible [OF assms(1) n'(1,2)] n'(3) by simp
    with b n' have "scored_le (hd rk) (scored_node req s n')" by blast
    from scored_le_preferred [OF this] show ?thesis by (simp add: h scored_node_merit(2) [OF s e])
  qed
  then show thesis
    using that [of n] n(1,2) h scored_node_merit(1) [OF s n(3)] rank_nodes_eligible [OF assms(1) n(1,2)] n(3) by blast
qed

subsection \<open>Properties\<close>

text \<open>C34. Routing returns the best feasible pair. The weights are finite and not negative with a positive sum; the
  chosen model is available with enough context; the chosen node serves that model, is allowed by policy, has a closed
  circuit, runs fewer jobs than its limit, has the minimum trust and health, and its round trip, if known, is between
  1 and 1000 ms. The two scores are the weighted means of the fields; no such node of that model has a higher score,
  and no such model that has such a node has a higher one, the smaller name deciding between equal scores.\<close>

theorem route_returns_best:
  assumes "route models nodes mreq nreq = Inr d"
  shows "usable_weights (model_weight_list (model_weights mreq)) \<and> usable_weights (node_weight_list (node_weights nreq)) \<and>
   (\<exists>m \<in> set models. \<exists>n \<in> set nodes.
     rd_model d = \<lparr>s_id = m_id m, s_score = model_merit (model_weights mreq) m\<rparr> \<and>
     m_available m \<and> unat (minimum_context_length mreq) \<le> unat (m_context_length m) \<and>
     rd_node d = \<lparr>s_id = n_id n, s_score = node_merit (node_weights nreq) n\<rparr> \<and>
     n_model_id n = m_id m \<and> n_policy_allowed n \<and> \<not> n_circuit_open n \<and>
     unat (n_current_concurrent n) < unat (n_max_concurrent n) \<and>
     fval (minimum_trust nreq) \<le> fval (n_trust n) \<and> fval (minimum_health nreq) \<le> fval (n_health n) \<and>
     (\<forall>ms. n_coordinator_rtt_ms n = Some ms \<longrightarrow> 1 \<le> unat ms \<and> unat ms \<le> 1000) \<and>
     (\<forall>n' \<in> set nodes. n_model_id n' = m_id m \<and> node_qualifies nreq n' \<longrightarrow>
        preferred (node_merit (node_weights nreq) n) (n_id n) (node_merit (node_weights nreq) n') (n_id n')) \<and>
     (\<forall>m' \<in> set models. model_qualifies mreq m' \<and>
        (\<exists>n' \<in> set nodes. n_model_id n' = m_id m' \<and> node_qualifies nreq n') \<longrightarrow>
        preferred (model_merit (model_weights mreq) m) (m_id m) (model_merit (model_weights mreq) m') (m_id m')))"
proof -
  obtain rm where rm: "rank_models models mreq = Inr rm" and ro: "route_over nodes nreq rm = Inr d"
    using assms by (auto simp: route_def and_then_eq_Inr split: if_splits)
  obtain sm where w: "validate_model_weights (model_weights mreq) = Inr sm"
    and sm: "rm = sort_scored (map (scored_model mreq sm) (filter (model_qualifies mreq) models))"
    using rank_models_Inr [OF rm] unfolding model_eligible_qualifies by metis
  note merit = scored_model_merit [OF w]
  obtain pre post rk where split: "rm = pre @ rd_model d # post"
    and rk: "rank_nodes nodes (s_id (rd_model d)) nreq = Inr rk" "rk \<noteq> []" "rd_node d = hd rk"
    and pre: "\<forall>m \<in> set pre. rank_nodes nodes (s_id m) nreq = Inr []"
    using route_over_Inr [OF ro] by metis
  have "rd_model d \<in> set rm" using split by simp
  then obtain m where m: "m \<in> set models" "model_qualifies mreq m"
    "rd_model d = \<lparr>s_id = m_id m, s_score = model_merit (model_weights mreq) m\<rparr>"
    using sm merit by (auto simp: sort_scored_def)
  have mid: "s_id (rd_model d) = m_id m" by (simp add: m(3))
  have best_model: "preferred (model_merit (model_weights mreq) m) (m_id m) (model_merit (model_weights mreq) m') (m_id m')"
    if m': "m' \<in> set models" "model_qualifies mreq m'"
      and n': "n' \<in> set nodes" "n_model_id n' = m_id m'" "node_qualifies nreq n'" for m' n'
  proof -
    have "scored_le (rd_model d) (scored_model mreq sm m')"
    proof (rule sorted_after)
      show "sorted_wrt scored_le (pre @ rd_model d # post)"
        unfolding split [symmetric] sm sort_scored_def by (rule scored.sorted_sort_by)
      show "scored_model mreq sm m' \<in> set (pre @ rd_model d # post)"
        unfolding split [symmetric] sm using m' by (simp add: sort_scored_def)
      show "scored_model mreq sm m' \<notin> set pre"
        using pre rank_nodes_Nil [OF _ n'(1,2)] rank_nodes_eligible [OF _ n'(1,2)] n'(3) by (auto simp: scored_model_def)
    qed
    from scored_le_preferred [OF this] show ?thesis using merit by (simp add: m(3))
  qed
  obtain n where n: "n \<in> set nodes" "n_model_id n = m_id m" "node_qualifies nreq n"
    "rd_node d = \<lparr>s_id = n_id n, s_score = node_merit (node_weights nreq) n\<rparr>"
    "usable_weights (node_weight_list (node_weights nreq))"
    "\<forall>n' \<in> set nodes. n_model_id n' = m_id m \<and> node_qualifies nreq n' \<longrightarrow>
       preferred (node_merit (node_weights nreq) n) (n_id n) (node_merit (node_weights nreq) n') (n_id n')"
    using rank_nodes_best [OF rk(1,2)] unfolding mid rk(3) by metis
  show ?thesis
    using merit [of m] n(5) m(2) n(3) unfolding model_qualifies_def [of mreq m] node_qualifies_def [of nreq n]
    by (intro conjI bexI [of _ m] bexI [of _ n]) (use m(1,3) n best_model in \<open>blast+\<close>)
qed

definition sample_model :: ModelCandidate where
  "sample_model = \<lparr>m_id = lit ''m1'', m_quality = Fin 1, m_intent_match = Fin (1/2), m_normalized_cost = Fin 0,
     m_available = True, m_context_length = 4096\<rparr>"

definition sample_node :: NodeCandidate where
  "sample_node = \<lparr>n_id = lit ''n1'', n_model_id = lit ''m1'', n_trust = Fin 1, n_health = Fin 1,
     n_coordinator_rtt_ms = Some 20, n_capacity = Fin (1/2), n_current_concurrent = 1, n_max_concurrent = 4,
     n_recent_error_rate = Fin 0, n_policy_allowed = True, n_circuit_open = False\<rparr>"

definition sample_mreq :: ModelRequirements where
  "sample_mreq = \<lparr>minimum_context_length = 1,
     model_weights = \<lparr>mw_quality = Fin 1, mw_intent_match = Fin 0, mw_cost = Fin 0\<rparr>\<rparr>"

definition sample_nreq :: NodeRequirements where
  "sample_nreq = \<lparr>minimum_trust = Fin 0, minimum_health = Fin 0,
     node_weights = \<lparr>nw_trust = Fin 1, nw_health = Fin 0, nw_latency = Fin 0, nw_capacity = Fin 0,
       nw_available_load = Fin 0, nw_reliability = Fin 0\<rparr>\<rparr>"

lemma sample_node_sel:
  "n_id sample_node = [110, 49]" "n_model_id sample_node = [109, 49]" "n_trust sample_node = Fin 1"
  "n_health sample_node = Fin 1" "n_coordinator_rtt_ms sample_node = Some 20" "n_capacity sample_node = Fin (1/2)"
  "n_recent_error_rate sample_node = Fin 0"
  by (simp_all add: sample_node_def)

lemma sample_model_sel:
  "m_id sample_model = [109, 49]" "m_quality sample_model = Fin 1" "m_intent_match sample_model = Fin (1/2)"
  "m_normalized_cost sample_model = Fin 0" "m_available sample_model"
  "\<not> m_context_length sample_model < minimum_context_length sample_mreq"
  by (simp_all add: sample_model_def sample_mreq_def word_less_nat_alt)

lemma sample_weights:
  "validate_model_weights (model_weights sample_mreq) = Inr (Fin 1)"
  "validate_node_weights (node_weights sample_nreq) = Inr (Fin 1)"
  by (simp_all add: validate_model_weights_def validate_node_weights_def sample_mreq_def sample_nreq_def
      validate_weights_eq_Inr f_sum_def)

lemma sample_checks:
  "validate_identifier [109, 49] l = Inr ()" "validate_identifier [110, 49] l = Inr ()"
  "0 \<le> q \<Longrightarrow> q \<le> 1 \<Longrightarrow> validate_unit_interval (Fin q) nm = Inr ()"
  "normalized_coordinator_rtt_score (Some 20) = Some 980000"
  "\<not> node_excluded sample_nreq sample_node"
  "minimum_trust sample_nreq = Fin 0" "minimum_health sample_nreq = Fin 0"
  by (simp_all add: validate_identifier_def trim_def is_whitespace_def utf8_char_def any_control_def is_control_def
      validate_unit_interval_eq_Inr unit_range_def normalized_coordinator_rtt_score_def
      MAX_ROUTABLE_COORDINATOR_RTT_MS_def ROUTING_SCORE_SCALE_def word_le_nat_alt node_excluded_def sample_nreq_def
      sample_node_def f_cmp_finite)

lemma sample_rank_nodes:
  "rank_nodes [sample_node] [109, 49] sample_nreq = Inr [scored_node sample_nreq (Fin 1) sample_node]"
  by (simp add: rank_nodes_def sample_weights sample_checks score_node_def scored_node_def sort_scored_def sample_node_sel)

lemma sample_rank_models:
  "rank_models [sample_model] sample_mreq = Inr [scored_model sample_mreq (Fin 1) sample_model]"
  by (simp add: rank_models_def sample_weights sample_checks score_model_def scored_model_def sort_scored_def sample_model_sel)

text \<open>A node that would win the tie by name but is blocked by policy.\<close>

definition blocked_node :: NodeCandidate where
  "blocked_node = sample_node\<lparr>n_id := lit ''n0'', n_policy_allowed := False\<rparr>"

lemma sample_rank_blocked:
  "rank_nodes [blocked_node, sample_node] [109, 49] sample_nreq = Inr [scored_node sample_nreq (Fin 1) sample_node]"
proof -
  have "validate_identifier [110, 48] ''node id'' = Inr ()"
    by (simp add: validate_identifier_def trim_def is_whitespace_def utf8_char_def any_control_def is_control_def)
  moreover have "node_excluded sample_nreq (sample_node\<lparr>n_id := [110, 48], n_policy_allowed := False\<rparr>)"
    by (simp add: node_excluded_def)
  ultimately show ?thesis
    by (simp add: rank_nodes_def sample_weights sample_checks score_node_def scored_node_def sort_scored_def
        sample_node_sel blocked_node_def)
qed

lemma sample_route: "\<exists>d. route [sample_model] [blocked_node, sample_node] sample_mreq sample_nreq = Inr d"
  by (simp add: route_def sample_rank_models sample_rank_blocked scored_model_def sample_model_sel)

theorem route_returns_best_witness:
  "\<exists>d. route [sample_model] [blocked_node, sample_node] sample_mreq sample_nreq = Inr d \<and>
     s_id (rd_model d) = lit ''m1'' \<and> s_id (rd_node d) = lit ''n1''"
proof -
  obtain d where d: "route [sample_model] [blocked_node, sample_node] sample_mreq sample_nreq = Inr d" using sample_route ..
  from route_returns_best [OF d] d show ?thesis
    by (auto simp: blocked_node_def sample_model_sel sample_node_sel)
qed

text \<open>Routing fails only when it must: \<open>NoEligibleModel\<close> means that no model is available with enough
  context, and \<open>NoEligibleNode\<close> that some model is, but no eligible node serves any such model.\<close>

theorem route_fails_only_without_pair:
  "(route models nodes mreq nreq = Inl NoEligibleModel \<longrightarrow> (\<forall>m \<in> set models. \<not> model_eligible mreq m)) \<and>
   (route models nodes mreq nreq = Inl NoEligibleNode \<longrightarrow>
      (\<exists>m \<in> set models. model_eligible mreq m) \<and>
      (\<forall>m \<in> set models. \<forall>n \<in> set nodes. model_eligible mreq m \<and> n_model_id n = m_id m \<longrightarrow> \<not> node_eligible nreq n))"
proof (cases "rank_models models mreq")
  case (Inl e)
  then show ?thesis
    using rank_no_verdict(2) [of e models mreq] by (auto simp: route_def verdict_def)
next
  case (Inr rm)
  then obtain s where rm: "rm = sort_scored (map (scored_model mreq s) (filter (model_eligible mreq) models))"
    using rank_models_Inr by metis
  have nil: "rm = [] \<longleftrightarrow> (\<forall>m \<in> set models. \<not> model_eligible mreq m)"
    by (simp add: rm sort_scored_def filter_empty_conv)
  have no: "\<not> node_eligible nreq n" if "route_over nodes nreq rm = Inl NoEligibleNode"
    "m \<in> set models" "model_eligible mreq m" "n \<in> set nodes" "n_model_id n = m_id m" for m n
  proof -
    have "scored_model mreq s m \<in> set rm" using that rm by (simp add: sort_scored_def)
    then have "rank_nodes nodes (m_id m) nreq = Inr []"
      using route_over_NoNode [OF that(1)] by (auto simp: scored_model_def)
    then show ?thesis using rank_nodes_Nil that by blast
  qed
  have nm: "route_over nodes nreq ms \<noteq> Inl NoEligibleModel" for ms
    using rank_no_verdict(1) [of NoEligibleModel nodes _ nreq]
    by (induction ms) (auto simp: and_then_eq_Inl verdict_def split: list.splits)
  show ?thesis using Inr nil no nm by (auto simp: route_def split: if_splits)
qed

theorem route_fails_only_without_pair_witness:
  "route [sample_model] [] sample_mreq sample_nreq = Inl NoEligibleNode \<and>
   (\<exists>m \<in> set [sample_model]. model_eligible sample_mreq m)"
proof -
  have "rank_nodes [] [109, 49] sample_nreq = Inr []"
    by (simp add: rank_nodes_def sample_checks sample_weights sort_scored_def)
  then have r: "route [sample_model] [] sample_mreq sample_nreq = Inl NoEligibleNode"
    by (simp add: route_def sample_rank_models scored_model_def sample_model_sel)
  with route_fails_only_without_pair [of "[sample_model]" "[]" sample_mreq sample_nreq] show ?thesis by blast
qed

text \<open>C35. Scores are normalised: for all weights and metrics the checks accept, the score of a ranked model
  is a finite number between -1 and 1 and the score of a ranked node one between 0 and 1, in floating
  point and including every rounding, so no NaN or infinity ever reaches the sort.\<close>

theorem scores_normalised:
  assumes "rank_models models mreq = Inr rm" and "rank_nodes nodes mid nreq = Inr rn"
    and "weights_f64 [mw_quality (model_weights mreq), mw_intent_match (model_weights mreq), mw_cost (model_weights mreq)]"
    and "weights_f64 [nw_trust (node_weights nreq), nw_health (node_weights nreq), nw_latency (node_weights nreq),
      nw_capacity (node_weights nreq), nw_available_load (node_weights nreq), nw_reliability (node_weights nreq)]"
    and "list_all node_f64 nodes"
  shows "(\<forall>x \<in> set rm. is_finite (s_score x) \<and> - 1 \<le> fval (s_score x) \<and> fval (s_score x) \<le> 1) \<and>
    (\<forall>x \<in> set rn. is_finite (s_score x) \<and> 0 \<le> fval (s_score x) \<and> fval (s_score x) \<le> 1)"
proof (intro conjI ballI)
  fix x assume x: "x \<in> set rm"
  obtain s where s: "validate_model_weights (model_weights mreq) = Inr s"
    "rm = sort_scored (map (scored_model mreq s) (filter (model_eligible mreq) models))"
    "\<forall>c \<in> set models. validate_identifier (m_id c) ''model id'' = Inr () \<and> unit_range (m_quality c) \<and>
       unit_range (m_intent_match c) \<and> unit_range (m_normalized_cost c)"
    using rank_models_Inr [OF assms(1)] by metis
  then obtain c where c: "c \<in> set models" "x = scored_model mreq s c" using x by (auto simp: sort_scored_def)
  have "is_finite (s_score x) \<and> \<bar>fval (s_score x)\<bar> \<le> 1"
    using model_score_normalised [OF s(1) assms(3), of c] s(3) c by (simp add: scored_model_def)
  then show "is_finite (s_score x)" "- 1 \<le> fval (s_score x)" "fval (s_score x) \<le> 1" by (simp_all add: abs_le_iff)
next
  fix x assume x: "x \<in> set rn"
  obtain s where s: "validate_node_weights (node_weights nreq) = Inr s"
    "rn = sort_scored (map (scored_node nreq s) (filter (\<lambda>c. n_model_id c = mid \<and> node_eligible nreq c) nodes))"
    "\<forall>c \<in> set nodes. n_model_id c = mid \<longrightarrow> unit_range (n_trust c) \<and> unit_range (n_health c) \<and>
       unit_range (n_capacity c) \<and> unit_range (n_recent_error_rate c)"
    using rank_nodes_Inr [OF assms(2)] by metis
  then obtain c where c: "c \<in> set nodes" "n_model_id c = mid" "node_eligible nreq c" "x = scored_node nreq s c"
    using x by (auto simp: sort_scored_def)
  obtain l where l: "normalized_coordinator_rtt_score (n_coordinator_rtt_ms c) = Some l" "\<not> node_excluded nreq c"
    using c(3) by (auto simp: node_eligible_def)
  have cap: "unat (n_current_concurrent c) \<le> unat (n_max_concurrent c)" "0 < unat (n_max_concurrent c)"
    using l(2) by (auto simp: node_excluded_def word_le_nat_alt unat_gt_0)
  have "unit_value (n_recent_error_rate c)"
    using s(3) c assms(5) by (auto simp: unit_value_iff list_all_iff node_f64_def)
  from node_score_normalised [OF s(1) assms(4) _ _ _ this rtt_score_le [OF l(1)] cap] s(3) c l
  show "is_finite (s_score x)" "0 \<le> fval (s_score x)" "fval (s_score x) \<le> 1" by (simp_all add: scored_node_def)
qed

theorem scores_normalised_witness:
  "is_finite (s_score (scored_node sample_nreq (Fin 1) sample_node)) \<and>
   0 \<le> fval (s_score (scored_node sample_nreq (Fin 1) sample_node)) \<and>
   fval (s_score (scored_node sample_nreq (Fin 1) sample_node)) \<le> 1"
proof -
  have half: "fround (1/2) = 1/2" using fround_dyadic [of 1 "- 1"] by (simp add: power_int_minus)
  have "1/2 \<le> max_finite" using max_finite_pos(3) by linarith
  then show ?thesis
    using scores_normalised [OF sample_rank_models sample_rank_nodes] half max_finite_pos(3)
    by (auto simp: weights_f64_def sample_mreq_def sample_nreq_def node_f64_def sample_node_sel abs_le_iff)
qed

end
