(* ===== verification/Glicko2.thy ===== *)
theory Glicko2
  imports Fixed F64
begin

text \<open>
  \<open>crates/mindone-accounting/src/glicko2.rs\<close>: one Glicko-2 rating period. The transcendental
  functions of the platform's mathematical library (\<open>exp\<close>, \<open>ln\<close>, \<open>sqrt\<close>, \<open>hypot\<close>, and \<open>powi\<close> with
  exponent two) are the fields of the parameter \<open>libm\<close>; two facts about \<open>exp\<close> and \<open>sqrt\<close> are hypotheses of
  the property on the direction of an update, the other lemmas hold whatever they return. \<open>mul_add\<close> rounds once.
  The two loops of the volatility solver carry the code's own bound of 1000 steps, and are total because of it.
\<close>

record libm =
  f_exp :: "f64 \<Rightarrow> f64"
  f_ln :: "f64 \<Rightarrow> f64"
  f_sqrt :: "f64 \<Rightarrow> f64"
  f_hypot :: "f64 \<Rightarrow> f64 \<Rightarrow> f64"
  f_powi2 :: "f64 \<Rightarrow> f64"

text \<open>\<open>x.mul_add(y, z)\<close>: exact product and sum, one rounding; special values as for \<open>x * y + z\<close>.\<close>

definition f_mul_add :: "f64 \<Rightarrow> f64 \<Rightarrow> f64 \<Rightarrow> f64" where
  "f_mul_add x y z =
     (if is_finite x \<and> is_finite y \<and> is_finite z \<and> fval x * fval y \<noteq> 0
      then (if z = NZero \<or> z = Fin 0 then of_exact (fval x * fval y)
            else of_exact (fval x * fval y + fval z))
      else f_add (f_mul x y) z)"

definition f_recip :: "f64 \<Rightarrow> f64" where
  "f_recip x = f_div (Fin 1) x"

fun f_abs :: "f64 \<Rightarrow> f64" where
  "f_abs NaN = NaN"
| "f_abs PInf = PInf"
| "f_abs NInf = PInf"
| "f_abs NZero = Fin 0"
| "f_abs (Fin q) = Fin \<bar>q\<bar>"

text \<open>\<open>x.clamp(lo, hi)\<close>\<close>

definition f_clamp :: "f64 \<Rightarrow> f64 \<Rightarrow> f64 \<Rightarrow> f64" where
  "f_clamp x lo hi = (let y = (if f_lt x lo then lo else x) in if f_lt hi y then hi else y)"

definition F64_EPSILON :: f64 where
  "F64_EPSILON = Fin (1 / 2 ^ 52)"

definition F64_PI :: f64 where
  "F64_PI = Fin (884279719003555 / 281474976710656)"

definition GLICKO2_SCALE :: f64 where
  "GLICKO2_SCALE = f_lit (1737178 / 10000)"

definition DEFAULT_RATING :: f64 where
  "DEFAULT_RATING = f_lit 1500"

definition PI_SQUARED :: f64 where
  "PI_SQUARED = f_mul F64_PI F64_PI"

definition MAX_VOLATILITY_ITERATIONS :: nat where
  "MAX_VOLATILITY_ITERATIONS = 1000"

record Glicko2Rating =
  g_rating :: f64
  g_deviation :: f64
  g_volatility :: f64

definition Glicko2Rating_default :: Glicko2Rating where
  "Glicko2Rating_default = \<lparr>g_rating = DEFAULT_RATING, g_deviation = f_lit 350, g_volatility = f_lit (6/100)\<rparr>"

datatype Glicko2Score = Loss | Draw | Win

fun score_value :: "Glicko2Score \<Rightarrow> f64" where
  "score_value Loss = Fin 0"
| "score_value Draw = f_lit (5/10)"
| "score_value Win = Fin 1"

fun score_millionths :: "Glicko2Score \<Rightarrow> i32" where
  "score_millionths Loss = 0"
| "score_millionths Draw = 500000"
| "score_millionths Win = 1000000"

record Glicko2Observation =
  opponent_rating :: f64
  opponent_deviation :: f64
  observed_score :: Glicko2Score

record Glicko2Config =
  tau :: f64
  convergence_tolerance :: f64

definition Glicko2Config_default :: Glicko2Config where
  "Glicko2Config_default = \<lparr>tau = f_lit (5/10), convergence_tolerance = f_lit (1/1000000)\<rparr>"

text \<open>\<open>!value.is_finite() || !(lo..=hi).contains(&value)\<close> fails with the named error.\<close>

definition require_range :: "f64 \<Rightarrow> f64 \<Rightarrow> f64 \<Rightarrow> string \<Rightarrow> unit acct" where
  "require_range value lo hi name =
     (if \<not> is_finite value \<or> \<not> (f_le lo value \<and> f_le value hi) then Inl (InvalidGlicko2 name) else Inr ())"

definition validate_public_rating :: "f64 \<Rightarrow> string \<Rightarrow> unit acct" where
  "validate_public_rating value field = require_range value (Fin 0) (f_lit 4000) field"

definition validate_deviation :: "f64 \<Rightarrow> string \<Rightarrow> unit acct" where
  "validate_deviation value field = require_range value (f_lit (1/1000000)) (f_lit 350) field"

definition validate_rating :: "Glicko2Rating \<Rightarrow> unit acct" where
  "validate_rating r =
     and_then (validate_public_rating (g_rating r) ''rating'') (\<lambda>_.
     and_then (validate_deviation (g_deviation r) ''deviation'') (\<lambda>_.
       require_range (g_volatility r) (f_lit (1/1000000)) (Fin 1) ''volatility''))"

definition validate_config :: "Glicko2Config \<Rightarrow> unit acct" where
  "validate_config c =
     and_then (require_range (tau c) (f_lit (1/10)) (f_lit 2) ''tau'') (\<lambda>_.
       require_range (convergence_tolerance c) (f_lit (1/1000000000)) (f_lit (1/1000)) ''convergence_tolerance'')"

definition rating_impact :: "libm \<Rightarrow> f64 \<Rightarrow> f64" where
  "rating_impact lm opponent_phi =
     f_recip (f_sqrt lm (f_add (Fin 1) (f_div (f_mul (f_mul (f_lit 3) opponent_phi) opponent_phi) PI_SQUARED)))"

definition expected_score :: "libm \<Rightarrow> f64 \<Rightarrow> f64 \<Rightarrow> f64 \<Rightarrow> f64" where
  "expected_score lm mu opponent_mu impact =
     f_recip (f_add (Fin 1) (f_exp lm (f_mul (f_neg impact) (f_sub mu opponent_mu))))"

definition volatility_objective :: "libm \<Rightarrow> f64 \<Rightarrow> f64 \<Rightarrow> f64 \<Rightarrow> f64 \<Rightarrow> f64 \<Rightarrow> f64 \<Rightarrow> f64" where
  "volatility_objective lm x improvement_squared phi_squared variance alpha tau' =
     (let exponential = f_exp lm x;
          denominator = f_add (f_add phi_squared variance) exponential;
          likelihood_term =
            f_div (f_mul exponential (f_sub (f_sub (f_sub improvement_squared phi_squared) variance) exponential))
              (f_mul (f_mul (f_lit 2) denominator) denominator);
          tau_squared = f_powi2 lm tau'
      in f_sub likelihood_term (f_div (f_sub x alpha) tau_squared))"

text \<open>The search for the other end of the bracket; \<open>step\<close> starts at one.\<close>

function find_upper :: "(f64 \<Rightarrow> f64) \<Rightarrow> f64 \<Rightarrow> f64 \<Rightarrow> nat \<Rightarrow> f64 acct" where
  "find_upper objective tau' alpha step =
     (let candidate = f_mul_add (f_of_nat step) (f_neg tau') alpha in
      if f_le (Fin 0) (objective candidate) then Inr candidate
      else if Suc step > MAX_VOLATILITY_ITERATIONS then Inl (InvalidGlicko2 ''volatility not converged'')
      else find_upper objective tau' alpha (Suc step))"
  by auto

termination
  by (relation "measure (\<lambda>(_, _, _, step). Suc MAX_VOLATILITY_ITERATIONS - step)") auto

declare find_upper.simps [simp del]

text \<open>The Illinois iteration; the first argument counts the iterations left.\<close>

fun illinois :: "libm \<Rightarrow> (f64 \<Rightarrow> f64) \<Rightarrow> f64 \<Rightarrow> nat \<Rightarrow> f64 \<Rightarrow> f64 \<Rightarrow> f64 \<Rightarrow> f64 \<Rightarrow> f64 acct" where
  "illinois lm objective tolerance 0 lower upper lower_value upper_value =
     Inl (InvalidGlicko2 ''volatility not converged'')"
| "illinois lm objective tolerance (Suc k) lower upper lower_value upper_value =
     (if f_le (f_abs (f_sub upper lower)) tolerance then
        (let result = f_exp lm (f_div lower (f_lit 2)) in
         if is_finite result \<and> f_lt (Fin 0) result then Inr result else Inl (InvalidGlicko2 ''volatility result''))
      else
        let denominator = f_sub upper_value lower_value in
        if \<not> is_finite denominator \<or> f_lt (f_abs denominator) F64_EPSILON
        then Inl (InvalidGlicko2 ''degenerate bracket'')
        else
          let candidate = f_add lower (f_div (f_mul (f_sub lower upper) lower_value) denominator);
              candidate_value = objective candidate
          in if f_le (f_mul candidate_value upper_value) (Fin 0)
             then illinois lm objective tolerance k upper candidate upper_value candidate_value
             else illinois lm objective tolerance k lower candidate (f_div lower_value (f_lit 2)) candidate_value)"

definition solve_volatility :: "libm \<Rightarrow> f64 \<Rightarrow> f64 \<Rightarrow> f64 \<Rightarrow> f64 \<Rightarrow> Glicko2Config \<Rightarrow> f64 acct" where
  "solve_volatility lm phi volatility variance improvement config =
     (let alpha = f_ln lm (f_mul volatility volatility);
          phi_squared = f_mul phi phi;
          improvement_squared = f_mul improvement improvement;
          objective = (\<lambda>x. volatility_objective lm x improvement_squared phi_squared variance alpha (tau config))
      in and_then
           (if f_lt (f_add phi_squared variance) improvement_squared
            then Inr (f_ln lm (f_sub (f_sub improvement_squared phi_squared) variance))
            else find_upper objective (tau config) alpha 1)
           (\<lambda>upper. illinois lm objective (convergence_tolerance config) MAX_VOLATILITY_ITERATIONS
                      alpha upper (objective alpha) (objective upper)))"

text \<open>The accumulation loop: \<open>(information_sum, outcome_sum)\<close>.\<close>

definition accumulate :: "libm \<Rightarrow> f64 \<Rightarrow> f64 \<times> f64 \<Rightarrow> Glicko2Observation \<Rightarrow> f64 \<times> f64" where
  "accumulate lm mu acc ob =
     (let opponent_mu = f_div (f_sub (opponent_rating ob) DEFAULT_RATING) GLICKO2_SCALE;
          opponent_phi = f_div (opponent_deviation ob) GLICKO2_SCALE;
          impact = rating_impact lm opponent_phi;
          expected = expected_score lm mu opponent_mu impact
      in (f_mul_add (f_mul (f_mul impact impact) expected) (f_sub (Fin 1) expected) (fst acc),
          f_mul_add impact (f_sub (score_value (observed_score ob)) expected) (snd acc)))"

definition update_glicko2 ::
    "libm \<Rightarrow> Glicko2Rating \<Rightarrow> Glicko2Observation list \<Rightarrow> Glicko2Config \<Rightarrow> Glicko2Rating acct" where
  "update_glicko2 lm current observations config =
     and_then (validate_rating current) (\<lambda>_.
     and_then (validate_config config) (\<lambda>_.
       if observations = [] then Inl (InvalidGlicko2 ''no observation'')
       else if 10000 < length observations then Inl (InvalidGlicko2 ''too many observations'')
       else
     and_then (try_each (\<lambda>ob. and_then (validate_public_rating (opponent_rating ob) ''opponent_rating'') (\<lambda>_.
                 validate_deviation (opponent_deviation ob) ''opponent_deviation'')) observations) (\<lambda>_.
       let mu = f_div (f_sub (g_rating current) DEFAULT_RATING) GLICKO2_SCALE;
           phi = f_div (g_deviation current) GLICKO2_SCALE;
           (information_sum, outcome_sum) = foldl (accumulate lm mu) (Fin 0, Fin 0) observations
       in if \<not> is_finite information_sum \<or> f_le information_sum (Fin 0) \<or> \<not> is_finite outcome_sum
          then Inl (InvalidGlicko2 ''information'')
          else
            let variance = f_recip information_sum;
                improvement = f_mul variance outcome_sum
            in and_then (solve_volatility lm phi (g_volatility current) variance improvement config) (\<lambda>new_volatility.
                 let pre_rating_deviation = f_hypot lm phi new_volatility;
                     inverse_pre_deviation = f_recip pre_rating_deviation;
                     new_phi = f_recip (f_sqrt lm (f_mul_add inverse_pre_deviation inverse_pre_deviation (f_recip variance)));
                     new_mu = f_mul_add (f_mul new_phi new_phi) outcome_sum mu;
                     updated = \<lparr>g_rating = f_mul_add new_mu GLICKO2_SCALE DEFAULT_RATING,
                                g_deviation = f_mul new_phi GLICKO2_SCALE, g_volatility = new_volatility\<rparr>
                 in and_then (validate_rating updated) (\<lambda>_. Inr updated)))))"

definition normalize_glicko2_rating :: "f64 \<Rightarrow> f64 acct" where
  "normalize_glicko2_rating rating =
     and_then (validate_public_rating rating ''rating'') (\<lambda>_.
       Inr (f_clamp (f_div (f_sub rating (f_lit 1000)) (f_lit 1000)) (Fin 0) (Fin 1)))"

section \<open>Lemmas\<close>

definition glicko_error :: "'a acct \<Rightarrow> bool" where
  "glicko_error m \<longleftrightarrow> (\<forall>e. m = Inl e \<longrightarrow> (\<exists>s. e = InvalidGlicko2 s))"

lemma glicko_error_simps [simp]: "glicko_error (Inr x)" "glicko_error (Inl (InvalidGlicko2 s))"
  by (simp_all add: glicko_error_def)

lemma glicko_error_and_then: "glicko_error m \<Longrightarrow> (\<And>x. glicko_error (f x)) \<Longrightarrow> glicko_error (and_then m f)"
  by (cases m) (auto simp: glicko_error_def)

lemma glicko_error_if: "glicko_error a \<Longrightarrow> glicko_error b \<Longrightarrow> glicko_error (if c then a else b)"
  by simp

lemma glicko_error_try_each: "(\<And>x. glicko_error (f x)) \<Longrightarrow> glicko_error (try_each f xs)"
  by (induction xs) (auto intro: glicko_error_and_then)

lemma require_range_error: "glicko_error (require_range v lo hi n)"
  by (simp add: require_range_def)

lemma find_upper_error: "glicko_error (find_upper obj t a step)"
  by (induction obj t a step rule: find_upper.induct) (subst find_upper.simps, simp add: Let_def)

lemma illinois_error: "glicko_error (illinois lm obj tol k l u lv uv)"
  by (induction lm obj tol k l u lv uv rule: illinois.induct) (simp_all add: Let_def)

lemma solve_volatility_error: "glicko_error (solve_volatility lm phi v var imp c)"
  unfolding solve_volatility_def Let_def
  by (intro glicko_error_and_then glicko_error_if illinois_error find_upper_error) simp

lemma validate_rating_error: "glicko_error (validate_rating r)"
  unfolding validate_rating_def validate_public_rating_def validate_deviation_def
  by (intro glicko_error_and_then require_range_error)

lemma update_error: "glicko_error (update_glicko2 lm cur obs c)"
  unfolding update_glicko2_def validate_config_def validate_public_rating_def validate_deviation_def Let_def case_prod_beta
  by (intro glicko_error_and_then glicko_error_if glicko_error_try_each solve_volatility_error validate_rating_error
      require_range_error glicko_error_simps)

lemma update_glicko2_errors: "update_glicko2 lm cur obs c = Inl e \<Longrightarrow> \<exists>s. e = InvalidGlicko2 s"
  using update_error [of lm cur obs c] by (simp add: glicko_error_def)

lemma f_lit_nat: "int n \<le> 2 ^ 53 \<Longrightarrow> is_finite (f_lit (of_nat n)) \<and> fval (f_lit (of_nat n)) = of_nat n \<and> f64_ok (f_lit (of_nat n))"
  using f_of_nat_exact [of n] by (simp add: f_lit_def f_of_nat_def)

lemma f_lit_values:
  "is_finite (f_lit 4000)" "fval (f_lit 4000) = 4000" "is_finite (f_lit 350)" "fval (f_lit 350) = 350"
  "is_finite (f_lit 1000)" "fval (f_lit 1000) = 1000" "f64_ok (f_lit 1000)"
  using f_lit_nat [of 4000] f_lit_nat [of 350] f_lit_nat [of 1000] by simp_all

lemma f_lit_micro: "is_finite (f_lit (1/1000000))" "0 < fval (f_lit (1/1000000))"
proof -
  have q: "\<bar>1/1000000 :: rat\<bar> \<le> max_finite" by (rule unit_abs_le) simp_all
  have "(1/1000000 :: rat) - 2 powi (- 54) > 0" by (simp add: power_int_minus)
  moreover have "\<bar>fround (1/1000000) - 1/1000000\<bar> \<le> 2 powi (- 54)" by (rule fround_error_unit) simp
  ultimately have "0 < fround (1/1000000)" unfolding abs_le_iff by linarith
  with f_lit_rounds [OF q] show "is_finite (f_lit (1/1000000))" "0 < fval (f_lit (1/1000000))"
    by (simp_all add: rounds_to_def)
qed

lemma require_range_eq_Inr:
  "is_finite lo \<Longrightarrow> is_finite hi \<Longrightarrow>
     require_range v lo hi n = Inr u \<longleftrightarrow> is_finite v \<and> fval lo \<le> fval v \<and> fval v \<le> fval hi"
  by (auto simp: require_range_def f_cmp_finite)

subsection \<open>The scales\<close>

lemma fround_error_below:
  assumes "\<bar>q\<bar> < 2 ^ k"
  shows "\<bar>fround q - q\<bar> \<le> 2 powi (int k - 54)"
proof -
  have pos: "\<bar>fround x - x\<bar> \<le> 2 powi (int k - 54)" if x: "0 < x" "x < 2 ^ k" for x
  proof -
    have "(2::rat) powi flog2 x < 2 powi int k" using flog2_bounds(1) [OF x(1)] x(2) by simp
    then have "flog2 x < int k" by (rule powi_less_imp_less)
    then have "(2::rat) powi (ulp_exp x - 1) \<le> 2 powi (int k - 54)" by (intro powi_mono) (simp add: ulp_exp_def)
    with fround_error [OF x(1)] show ?thesis by linarith
  qed
  consider "q = 0" | "0 < q" "q < 2 ^ k" | "0 < - q" "- q < 2 ^ k" using assms by linarith
  then show ?thesis
  proof cases
    case 3
    from pos [OF this] show ?thesis by (simp add: fround_minus abs_minus_commute)
  qed (simp_all add: pos)
qed

lemma max_finite_large: "(1000000 :: rat) \<le> max_finite"
  by (simp add: max_finite_def)

lemma scale_value:
  "is_finite GLICKO2_SCALE" "f64_ok GLICKO2_SCALE" "173 \<le> fval GLICKO2_SCALE" "fval GLICKO2_SCALE \<le> 174"
proof -
  have "\<bar>1737178 / 10000 :: rat\<bar> \<le> max_finite" using max_finite_large by simp
  from f_lit_rounds [OF this] have r: "rounds_to GLICKO2_SCALE (1737178 / 10000)" by (simp add: GLICKO2_SCALE_def)
  have "fround 173 \<le> fround (1737178 / 10000)" "fround (1737178 / 10000) \<le> fround 174" by (intro fround_mono; simp)+
  with r show "is_finite GLICKO2_SCALE" "f64_ok GLICKO2_SCALE" "173 \<le> fval GLICKO2_SCALE" "fval GLICKO2_SCALE \<le> 174"
    by (simp_all add: rounds_to_def fround_numeral)
qed

lemma default_value: "is_finite DEFAULT_RATING" "fval DEFAULT_RATING = 1500" "f64_ok DEFAULT_RATING"
  using f_lit_nat [of 1500] by (simp_all add: DEFAULT_RATING_def)

lemma in_range: "\<bar>q\<bar> \<le> 1000000 \<Longrightarrow> \<bar>q\<bar> \<le> max_finite"
  using max_finite_large by linarith

text \<open>A rating on the internal scale, and what it reads as on the public scale again.\<close>

definition scaled_rating :: "f64 \<Rightarrow> f64" where
  "scaled_rating r = f_div (f_sub r DEFAULT_RATING) GLICKO2_SCALE"

lemma scaled_rating_value:
  assumes "is_finite r" "f64_ok r" "0 \<le> fval r" "fval r \<le> 4000"
  shows "is_finite (scaled_rating r)" "f64_ok (scaled_rating r)" "\<bar>fval (scaled_rating r)\<bar> \<le> 16"
    "\<bar>fround (fval (scaled_rating r) * fval GLICKO2_SCALE + 1500) - fval r\<bar> \<le> 1 / 10 ^ 12"
proof -
  let ?s = "fval GLICKO2_SCALE" and ?x = "fround (fval r - 1500)"
  have d: "\<bar>fval r - 1500\<bar> \<le> 2500" using assms(3,4) by linarith
  then have "\<bar>fval r - 1500\<bar> \<le> max_finite" by (intro in_range) simp
  with f_sub_rounds [OF assms(1) default_value(1) assms(2) default_value(3)]
  have sub: "rounds_to (f_sub r DEFAULT_RATING) (fval r - 1500)" by (simp add: default_value)
  have x: "\<bar>?x\<bar> \<le> 2500" using d by (intro fround_abs_le) (simp_all add: fround_numeral)
  have e1: "\<bar>?x - (fval r - 1500)\<bar> \<le> 1 / 4398046511104"
    using fround_error_below [of "fval r - 1500" 12] d by (simp add: power_int_minus)
  have q: "\<bar>?x / ?s\<bar> < 16"
  proof -
    have "\<bar>?x\<bar> < 16 * ?s" using x scale_value(3) by linarith
    then show ?thesis using scale_value(3) by (simp add: pos_divide_less_eq)
  qed
  then have "\<bar>?x / ?s\<bar> \<le> max_finite" by (intro in_range) simp
  with f_div_rounds [OF rounds_toD(1) [OF sub] scale_value(1)] scale_value(3)
  have mu: "rounds_to (scaled_rating r) (?x / ?s)" by (simp add: scaled_rating_def rounds_toD(3) [OF sub])
  then show "is_finite (scaled_rating r)" "f64_ok (scaled_rating r)" by (simp_all add: rounds_to_def)
  have m: "fval (scaled_rating r) = fround (?x / ?s)" using mu by (simp add: rounds_to_def)
  show "\<bar>fval (scaled_rating r)\<bar> \<le> 16" unfolding m using q by (intro fround_abs_le) (simp_all add: fround_numeral)
  have e2: "\<bar>fval (scaled_rating r) - ?x / ?s\<bar> \<le> 1 / 1125899906842624"
    unfolding m using fround_error_below [of "?x / ?s" 4] q by (simp add: power_int_minus)
  have "fval (scaled_rating r) * ?s - ?x = (fval (scaled_rating r) - ?x / ?s) * ?s"
    using scale_value(3) by (simp add: field_simps)
  then have "\<bar>fval (scaled_rating r) * ?s - ?x\<bar> = \<bar>fval (scaled_rating r) - ?x / ?s\<bar> * ?s"
    using scale_value(3) by (simp add: abs_mult)
  also have "\<dots> \<le> 1 / 1125899906842624 * 174" using e2 scale_value(3,4) by (intro mult_mono) simp_all
  finally have e3: "\<bar>fval (scaled_rating r) * ?s - ?x\<bar> \<le> 174 / 1125899906842624" by simp
  let ?y = "fval (scaled_rating r) * ?s + 1500"
  have e4: "\<bar>?y - fval r\<bar> \<le> 174 / 1125899906842624 + 1 / 4398046511104" using e1 e3 unfolding abs_le_iff by linarith
  then have "\<bar>?y\<bar> < 2 ^ 12" using assms(3,4) unfolding abs_le_iff abs_less_iff by simp
  from fround_error_below [OF this] have "\<bar>fround ?y - ?y\<bar> \<le> 1 / 4398046511104" by (simp add: power_int_minus)
  with e4 show "\<bar>fround ?y - fval r\<bar> \<le> 1 / 10 ^ 12" unfolding abs_le_iff by simp
qed

subsection \<open>Impact and expectation\<close>

lemma pi_squared_value: "is_finite PI_SQUARED" "9 \<le> fval PI_SQUARED" "fval PI_SQUARED \<le> 10"
proof -
  have pi: "is_finite F64_PI" "fval F64_PI = 884279719003555 / 281474976710656" by (simp_all add: F64_PI_def)
  let ?q = "fval F64_PI * fval F64_PI"
  have q: "9 \<le> ?q" "?q \<le> 10" by (simp_all add: pi)
  have "\<bar>?q\<bar> \<le> max_finite" using q by (intro in_range) simp
  from f_mul_rounds [OF pi(1) pi(1) this] have r: "rounds_to PI_SQUARED ?q" by (simp add: PI_SQUARED_def)
  have "fround 9 \<le> fround ?q" "fround ?q \<le> fround 10" using q by (intro fround_mono; simp)+
  with r show "is_finite PI_SQUARED" "9 \<le> fval PI_SQUARED" "fval PI_SQUARED \<le> 10"
    by (simp_all add: rounds_to_def fround_numeral)
qed

lemma three_value: "is_finite (f_lit 3)" "fval (f_lit 3) = 3"
  using f_lit_nat [of 3] by simp_all

lemma f_recip_unit: "is_finite x \<Longrightarrow> 1 \<le> fval x \<Longrightarrow> unit_value (f_recip x)"
proof -
  assume x: "is_finite x" "1 \<le> fval x"
  have q: "0 \<le> 1 / fval x" "1 / fval x \<le> 1" using x(2) by simp_all
  have "rounds_to (f_recip x) (1 / fval x)"
    unfolding f_recip_def using f_div_rounds [of "Fin 1" x] x unit_abs_le [OF q] by simp
  then show ?thesis using q by (rule rounds_to_unit)
qed

text \<open>What is used of the platform's functions: an exponential is never negative or NaN, and the square root of a
  number of at least one is a number of at least one.\<close>

definition libm_ok :: "libm \<Rightarrow> bool" where
  "libm_ok lm \<longleftrightarrow>
     (\<forall>x. is_finite x \<longrightarrow> f_le (Fin 0) (f_exp lm x)) \<and>
     (\<forall>x. is_finite x \<and> 1 \<le> fval x \<longrightarrow> is_finite (f_sqrt lm x) \<and> 1 \<le> fval (f_sqrt lm x))"

lemma rating_impact_unit:
  assumes "libm_ok lm" "is_finite dev" "0 \<le> fval dev" "fval dev \<le> 350"
  shows "unit_value (rating_impact lm (f_div dev GLICKO2_SCALE))"
proof -
  let ?s = "fval GLICKO2_SCALE" and ?phi = "f_div dev GLICKO2_SCALE"
  have q: "0 \<le> fval dev / ?s" "fval dev / ?s \<le> 3" using assms(3,4) scale_value(3) by (simp_all add: pos_divide_le_eq)
  have "\<bar>fval dev / ?s\<bar> \<le> max_finite" using q by (intro in_range) simp
  with f_div_rounds [OF assms(2) scale_value(1)] scale_value(3) have phi: "rounds_to ?phi (fval dev / ?s)" by simp
  have "fround 0 \<le> fval ?phi" "fval ?phi \<le> fround 3" unfolding rounds_toD(3) [OF phi] using q by (intro fround_mono; simp)+
  then have p: "0 \<le> fval ?phi" "fval ?phi \<le> 3" by (simp_all add: fround_numeral)
  let ?a = "f_mul (f_lit 3) ?phi"
  have "\<bar>3 * fval ?phi\<bar> \<le> max_finite" using p by (intro in_range) simp
  with f_mul_rounds [OF three_value(1) rounds_toD(1) [OF phi]] have a: "rounds_to ?a (3 * fval ?phi)" by (simp add: three_value)
  have "fround 0 \<le> fval ?a" "fval ?a \<le> fround 9" unfolding rounds_toD(3) [OF a] using p by (intro fround_mono; simp)+
  then have av: "0 \<le> fval ?a" "fval ?a \<le> 9" by (simp_all add: fround_numeral)
  let ?b = "f_mul ?a ?phi"
  have m: "0 \<le> fval ?a * fval ?phi" "fval ?a * fval ?phi \<le> 9 * 3" using av p by (simp, intro mult_mono) simp_all
  have "\<bar>fval ?a * fval ?phi\<bar> \<le> max_finite" using m by (intro in_range) simp
  with f_mul_rounds [OF rounds_toD(1) [OF a] rounds_toD(1) [OF phi]] have b: "rounds_to ?b (fval ?a * fval ?phi)" by simp
  have "fround 0 \<le> fval ?b" "fval ?b \<le> fround 27" unfolding rounds_toD(3) [OF b] using m by (intro fround_mono; simp)+
  then have bv: "0 \<le> fval ?b" "fval ?b \<le> 27" by (simp_all add: fround_numeral)
  let ?c = "f_div ?b PI_SQUARED"
  have d: "0 \<le> fval ?b / fval PI_SQUARED" "fval ?b / fval PI_SQUARED \<le> 3"
    using bv pi_squared_value(2) by (simp_all add: pos_divide_le_eq)
  have "\<bar>fval ?b / fval PI_SQUARED\<bar> \<le> max_finite" using d by (intro in_range) simp
  with f_div_rounds [OF rounds_toD(1) [OF b] pi_squared_value(1)] pi_squared_value(2)
  have c: "rounds_to ?c (fval ?b / fval PI_SQUARED)" by simp
  have "fround 0 \<le> fval ?c" "fval ?c \<le> fround 3" unfolding rounds_toD(3) [OF c] using d by (intro fround_mono; simp)+
  then have cv: "0 \<le> fval ?c" "fval ?c \<le> 3" by (simp_all add: fround_numeral)
  let ?d = "f_add (Fin 1) ?c"
  have "\<bar>1 + fval ?c\<bar> \<le> max_finite" using cv by (intro in_range) simp
  with f_add_rounds [of "Fin 1" ?c] rounds_toD(1,2) [OF c] have e: "rounds_to ?d (1 + fval ?c)" by simp
  have "fround 1 \<le> fval ?d" unfolding rounds_toD(3) [OF e] using cv by (intro fround_mono) simp
  then have "is_finite (f_sqrt lm ?d)" "1 \<le> fval (f_sqrt lm ?d)"
    using assms(1) rounds_toD(1) [OF e] by (simp_all add: libm_ok_def)
  then show ?thesis unfolding rating_impact_def by (rule f_recip_unit)
qed

lemma recip_one_plus_unit:
  assumes "f_le (Fin 0) e"
  shows "unit_value (f_recip (f_add (Fin 1) e))"
proof (cases "is_finite (f_add (Fin 1) e)")
  case True
  have "1 \<le> fval (f_add (Fin 1) e)"
  proof (cases e)
    case (Fin q)
    with assms have "fround 1 \<le> fround (1 + q)" by (intro fround_mono) (simp add: f_cmp_finite)
    then show ?thesis using True Fin by (auto simp: of_exact_def Let_def split: if_splits)
  qed (use True assms in \<open>auto simp: f_le_def f_lt_def f_eq_def\<close>)
  with True show ?thesis by (rule f_recip_unit)
next
  case False
  have "f_add (Fin 1) e = PInf"
  proof (cases e)
    case (Fin q)
    with assms have "0 \<le> 1 + q" by (simp add: f_cmp_finite)
    then have "0 \<le> fround (1 + q)" by (rule fround_nonneg)
    then have "\<not> fround (1 + q) < - max_finite" using max_finite_pos by linarith
    then show ?thesis using False Fin by (auto simp: of_exact_def Let_def split: if_splits)
  qed (use False assms in \<open>auto simp: f_le_def f_lt_def f_eq_def\<close>)
  then show ?thesis by (simp add: f_recip_def f_div_def unit_value_def signed_zero_def Let_def)
qed

lemma expected_score_unit:
  assumes "libm_ok lm" "is_finite m" "f64_ok m" "\<bar>fval m\<bar> \<le> 16" "is_finite n" "f64_ok n" "\<bar>fval n\<bar> \<le> 16" "unit_value g"
  shows "unit_value (expected_score lm m n g)"
proof -
  have "\<bar>fval m - fval n\<bar> \<le> 32" using assms(4,7) by (simp add: abs_le_iff)
  then have r: "\<bar>fval m - fval n\<bar> \<le> max_finite" "\<bar>fround (fval m - fval n)\<bar> \<le> 32"
    by (simp add: in_range, intro fround_abs_le) (simp_all add: fround_numeral)
  have sub: "rounds_to (f_sub m n) (fval m - fval n)" using assms r(1) by (intro f_sub_rounds)
  have g: "is_finite (f_neg g)" "\<bar>fval (f_neg g)\<bar> \<le> 1" using assms(8) by (simp_all add: f_neg_props unit_value_def)
  have "\<bar>fval (f_neg g) * fval (f_sub m n)\<bar> \<le> 1 * 32"
    unfolding abs_mult using g(2) r(2) rounds_toD(3) [OF sub] by (intro mult_mono) simp_all
  then have "\<bar>fval (f_neg g) * fval (f_sub m n)\<bar> \<le> max_finite" by (intro in_range) simp
  from f_mul_rounds [OF g(1) rounds_toD(1) [OF sub] this] have "is_finite (f_mul (f_neg g) (f_sub m n))" by (rule rounds_toD(1))
  with assms(1) have "f_le (Fin 0) (f_exp lm (f_mul (f_neg g) (f_sub m n)))" by (simp add: libm_ok_def)
  then have "unit_value (f_recip (f_add (Fin 1) e))" if "e = f_exp lm (f_mul (f_neg g) (f_sub m n))" for e
    unfolding that [symmetric] by (rule recip_one_plus_unit)
  then show ?thesis by (simp add: expected_score_def)
qed

subsection \<open>Signs\<close>

lemma of_exact_sign:
  "0 \<le> q \<Longrightarrow> f_le (Fin 0) (of_exact q)" "q \<le> 0 \<Longrightarrow> f_le (of_exact q) (Fin 0)"
proof -
  have m: "\<not> fround q < - max_finite" if "0 \<le> fround q" using that max_finite_pos(1) by linarith
  have n: "\<not> max_finite < fround q" if "fround q \<le> 0" using that max_finite_pos(1) by linarith
  show "0 \<le> q \<Longrightarrow> f_le (Fin 0) (of_exact q)"
    using fround_nonneg [of q] m by (auto simp: of_exact_def Let_def f_le_def f_lt_def f_eq_def)
  show "q \<le> 0 \<Longrightarrow> f_le (of_exact q) (Fin 0)"
    using fround_nonpos [of q] n by (auto simp: of_exact_def Let_def f_le_def f_lt_def f_eq_def)
qed

lemma f_add_sign:
  "f_le (Fin 0) x \<Longrightarrow> f_le (Fin 0) y \<Longrightarrow> f_le (Fin 0) (f_add x y)"
  "f_le x (Fin 0) \<Longrightarrow> f_le y (Fin 0) \<Longrightarrow> f_le (f_add x y) (Fin 0)"
  using of_exact_sign
  by (cases x; cases y; auto simp: f_cmp_finite; simp add: f_le_def f_lt_def f_eq_def)+

lemma f_mul_sign:
  assumes "is_finite x" "is_finite y" "0 \<le> fval x"
  shows "0 \<le> fval y \<Longrightarrow> f_le (Fin 0) (f_mul x y)" "fval y \<le> 0 \<Longrightarrow> f_le (f_mul x y) (Fin 0)"
  using assms of_exact_sign [of "fval x * fval y"]
  by (auto simp: f_mul_def Let_def finite_not_NaN signed_zero_def f_cmp_finite mult_nonneg_nonpos)

lemma f_mul_add_sign:
  assumes "is_finite x" "is_finite y" "0 \<le> fval x"
  shows "0 \<le> fval y \<Longrightarrow> f_le (Fin 0) z \<Longrightarrow> f_le (Fin 0) (f_mul_add x y z)"
    "fval y \<le> 0 \<Longrightarrow> f_le z (Fin 0) \<Longrightarrow> f_le (f_mul_add x y z) (Fin 0)"
  using f_mul_sign [OF assms] f_add_sign [of "f_mul x y" z] assms(3)
  by (auto simp: f_mul_add_def f_cmp_finite mult_nonneg_nonpos intro!: of_exact_sign add_nonneg_nonneg add_nonpos_nonpos)

lemma of_exact_finite: "is_finite (of_exact q) \<Longrightarrow> fval (of_exact q) = fround q"
  by (auto simp: of_exact_def Let_def split: if_splits)

lemma f_mul_add_finite:
  assumes "is_finite x" "is_finite y" "is_finite z" "f64_ok z" "is_finite (f_mul_add x y z)"
  shows "fval (f_mul_add x y z) = fround (fval x * fval y + fval z)"
proof -
  have z: "fround (fval z) = fval z" using f64_ok_fval [OF assms(3,4)] by simp
  show ?thesis
  proof (cases "fval x * fval y = 0")
    case True
    then have "f_mul_add x y z = f_add (signed_zero (sign_neg x \<noteq> sign_neg y)) z"
      using assms(1-3) by (auto simp: f_mul_add_def f_mul_def Let_def finite_not_NaN)
    moreover have "fval (f_add (signed_zero s) z) = fval z" if "is_finite (f_add (signed_zero s) z)" for s
      using that assms(3) z by (cases z) (auto simp: signed_zero_def of_exact_finite)
    ultimately show ?thesis unfolding True using assms(5) z by simp
  next
    case False
    then show ?thesis using assms by (auto simp: f_mul_add_def of_exact_finite)
  qed
qed

lemma f_mul_add_special:
  assumes "\<not> is_finite x" "is_finite y" "0 < fval y" "is_finite z"
  shows "\<not> is_finite (f_mul_add x y z)"
  using assms by (cases x; cases y; cases z) (auto simp: f_mul_add_def f_mul_def Let_def signed_inf_def)

subsection \<open>The direction of an update\<close>

definition observation_ok :: "Glicko2Observation \<Rightarrow> bool" where
  "observation_ok ob \<longleftrightarrow>
     is_finite (opponent_rating ob) \<and> 0 \<le> fval (opponent_rating ob) \<and> fval (opponent_rating ob) \<le> 4000 \<and>
     is_finite (opponent_deviation ob) \<and> fval (f_lit (1/1000000)) \<le> fval (opponent_deviation ob) \<and>
     fval (opponent_deviation ob) \<le> 350"

lemma accumulate_sign:
  assumes "libm_ok lm" "is_finite mu" "f64_ok mu" "\<bar>fval mu\<bar> \<le> 16" "observation_ok ob" "f64_ok (opponent_rating ob)"
  shows "observed_score ob = Win \<Longrightarrow> f_le (Fin 0) (snd acc) \<Longrightarrow> f_le (Fin 0) (snd (accumulate lm mu acc ob))"
    "observed_score ob = Loss \<Longrightarrow> f_le (snd acc) (Fin 0) \<Longrightarrow> f_le (snd (accumulate lm mu acc ob)) (Fin 0)"
proof -
  let ?g = "rating_impact lm (f_div (opponent_deviation ob) GLICKO2_SCALE)"
  let ?n = "scaled_rating (opponent_rating ob)"
  let ?e = "expected_score lm mu ?n ?g"
  have n: "is_finite ?n" "f64_ok ?n" "\<bar>fval ?n\<bar> \<le> 16"
    using scaled_rating_value [of "opponent_rating ob"] assms(5,6) by (auto simp: observation_ok_def)
  have "0 \<le> fval (opponent_deviation ob)" using assms(5) f_lit_micro(2) unfolding observation_ok_def by linarith
  then have g: "unit_value ?g" using rating_impact_unit [OF assms(1)] assms(5) by (simp add: observation_ok_def)
  have e: "unit_value ?e" using expected_score_unit [OF assms(1-4) n g] .
  have acc: "snd (accumulate lm mu acc ob) = f_mul_add ?g (f_sub (score_value (observed_score ob)) ?e) (snd acc)"
    by (simp add: accumulate_def Let_def scaled_rating_def)
  have gv: "is_finite ?g" "0 \<le> fval ?g" using g by (simp_all add: unit_value_def)
  have ev: "is_finite ?e" "f64_ok ?e" "0 \<le> fval ?e" "fval ?e \<le> 1" using e by (simp_all add: unit_value_def)
  have small: "\<bar>1 - fval ?e\<bar> \<le> max_finite" "\<bar>0 - fval ?e\<bar> \<le> max_finite" using ev by (intro in_range; simp)+
  have w: "rounds_to (f_sub (Fin 1) ?e) (1 - fval ?e)" using f_sub_rounds [of "Fin 1" ?e] ev small(1) by simp
  have l: "rounds_to (f_sub (Fin 0) ?e) (0 - fval ?e)" using f_sub_rounds [of "Fin 0" ?e] ev small(2) by simp
  show "observed_score ob = Win \<Longrightarrow> f_le (Fin 0) (snd acc) \<Longrightarrow> f_le (Fin 0) (snd (accumulate lm mu acc ob))"
    unfolding acc using w ev gv fround_nonneg [of "1 - fval ?e"] by (intro f_mul_add_sign(1)) (simp_all add: rounds_to_def)
  show "observed_score ob = Loss \<Longrightarrow> f_le (snd acc) (Fin 0) \<Longrightarrow> f_le (snd (accumulate lm mu acc ob)) (Fin 0)"
    unfolding acc using l ev gv fround_nonpos [of "0 - fval ?e"] by (intro f_mul_add_sign(2)) (simp_all add: rounds_to_def)
qed

lemma outcome_sign:
  assumes "libm_ok lm" "is_finite mu" "f64_ok mu" "\<bar>fval mu\<bar> \<le> 16"
    and "\<forall>ob \<in> set obs. observation_ok ob \<and> f64_ok (opponent_rating ob)"
  shows "\<forall>ob \<in> set obs. observed_score ob = Win \<Longrightarrow> f_le (Fin 0) (snd acc) \<Longrightarrow> f_le (Fin 0) (snd (foldl (accumulate lm mu) acc obs))"
    "\<forall>ob \<in> set obs. observed_score ob = Loss \<Longrightarrow> f_le (snd acc) (Fin 0) \<Longrightarrow> f_le (snd (foldl (accumulate lm mu) acc obs)) (Fin 0)"
  using assms(5) by (induction obs arbitrary: acc) (simp_all add: accumulate_sign [OF assms(1-4)])

text \<open>The new rating moves from the old in the direction of the outcome.\<close>

lemma rating_step:
  assumes p: "is_finite (f_mul p GLICKO2_SCALE)" "0 < fval (f_mul p GLICKO2_SCALE)" "fval (f_mul p GLICKO2_SCALE) \<le> 350"
    and out: "is_finite out" and mu: "is_finite mu" "f64_ok mu"
    and fin: "is_finite (f_mul_add (f_mul_add (f_mul p p) out mu) GLICKO2_SCALE DEFAULT_RATING)"
  shows "0 \<le> fval out \<Longrightarrow> fround (fval mu * fval GLICKO2_SCALE + 1500) \<le>
      fval (f_mul_add (f_mul_add (f_mul p p) out mu) GLICKO2_SCALE DEFAULT_RATING)"
    "fval out \<le> 0 \<Longrightarrow> fval (f_mul_add (f_mul_add (f_mul p p) out mu) GLICKO2_SCALE DEFAULT_RATING) \<le>
      fround (fval mu * fval GLICKO2_SCALE + 1500)"
proof -
  let ?s = "fval GLICKO2_SCALE" and ?m = "f_mul_add (f_mul p p) out mu"
  have pf: "is_finite p"
    using p(1) scale_value(1,3) by (cases p) (auto simp: f_mul_def Let_def finite_not_NaN signed_inf_def split: if_splits)
  have pv: "fval (f_mul p GLICKO2_SCALE) = fround (fval p * ?s)"
    using p(1) pf scale_value(1) by (auto simp: f_mul_def Let_def finite_not_NaN signed_zero_def of_exact_finite)
  have "fval p * ?s \<le> 351"
  proof (rule ccontr)
    assume "\<not> fval p * ?s \<le> 351"
    then have "fround 351 \<le> fround (fval p * ?s)" by (intro fround_mono) simp
    with pv p(3) show False by (simp add: fround_numeral)
  qed
  moreover have "0 < fval p * ?s"
  proof (rule ccontr)
    assume "\<not> 0 < fval p * ?s"
    then have "fround (fval p * ?s) \<le> 0" by (intro fround_nonpos) simp
    with pv p(2) show False by simp
  qed
  ultimately have b: "0 < fval p" "fval p * ?s \<le> 351" using scale_value(3) by (simp_all add: zero_less_mult_iff)
  have "fval p * 173 \<le> fval p * ?s" using b(1) scale_value(3) by (intro mult_left_mono) simp_all
  with b(2) have "fval p \<le> 3" by simp
  then have "fval p * fval p \<le> 3 * 3" using b(1) by (intro mult_mono) simp_all
  then have "\<bar>fval p * fval p\<bar> \<le> max_finite" by (intro in_range) simp
  from f_mul_rounds [OF pf pf this] have sq: "is_finite (f_mul p p)" "0 \<le> fval (f_mul p p)"
    using fround_nonneg [of "fval p * fval p"] by (simp_all add: rounds_to_def)
  have s0: "0 < ?s" using scale_value(3) by simp
  have mf: "is_finite ?m" using f_mul_add_special [OF _ scale_value(1) s0 default_value(1)] fin by blast
  have mv: "fval ?m = fround (fval (f_mul p p) * fval out + fval mu)" by (rule f_mul_add_finite [OF sq(1) out mu mf])
  have r: "fround (fval mu) = fval mu" using f64_ok_fval [OF mu] by simp
  have v: "fval (f_mul_add ?m GLICKO2_SCALE DEFAULT_RATING) = fround (fval ?m * ?s + 1500)"
    using f_mul_add_finite [OF mf scale_value(1) default_value(1,3) fin] by (simp add: default_value)
  show "0 \<le> fval out \<Longrightarrow> fround (fval mu * ?s + 1500) \<le> fval (f_mul_add ?m GLICKO2_SCALE DEFAULT_RATING)"
  proof -
    assume "0 \<le> fval out"
    then have "fround (fval mu) \<le> fval ?m" unfolding mv using sq(2) by (intro fround_mono) simp
    then show ?thesis unfolding v r using s0 by (intro fround_mono add_right_mono mult_right_mono) simp_all
  qed
  show "fval out \<le> 0 \<Longrightarrow> fval (f_mul_add ?m GLICKO2_SCALE DEFAULT_RATING) \<le> fround (fval mu * ?s + 1500)"
  proof -
    assume "fval out \<le> 0"
    then have "fval ?m \<le> fround (fval mu)" unfolding mv using sq(2) by (intro fround_mono) (simp add: mult_nonneg_nonpos)
    then show ?thesis unfolding v r using s0 by (intro fround_mono add_right_mono mult_right_mono) simp_all
  qed
qed

definition config_ok :: "Glicko2Config \<Rightarrow> bool" where
  "config_ok c \<longleftrightarrow>
     is_finite (tau c) \<and> fval (f_lit (1/10)) \<le> fval (tau c) \<and> fval (tau c) \<le> 2 \<and>
     is_finite (convergence_tolerance c) \<and> fval (f_lit (1/1000000000)) \<le> fval (convergence_tolerance c) \<and>
     fval (convergence_tolerance c) \<le> fval (f_lit (1/1000))"

definition rating_ok :: "Glicko2Rating \<Rightarrow> bool" where
  "rating_ok r \<longleftrightarrow>
     is_finite (g_rating r) \<and> 0 \<le> fval (g_rating r) \<and> fval (g_rating r) \<le> 4000 \<and>
     is_finite (g_deviation r) \<and> fval (f_lit (1/1000000)) \<le> fval (g_deviation r) \<and> fval (g_deviation r) \<le> 350 \<and>
     is_finite (g_volatility r) \<and> fval (f_lit (1/1000000)) \<le> fval (g_volatility r) \<and> fval (g_volatility r) \<le> 1"

lemma f_lit_finite: "\<bar>q\<bar> \<le> 1000000 \<Longrightarrow> is_finite (f_lit q)"
  using f_lit_rounds [OF in_range] by (simp add: rounds_to_def)

lemma validators:
  "validate_rating r = Inr u \<longleftrightarrow> rating_ok r"
  "validate_config c = Inr u \<longleftrightarrow> config_ok c"
  "and_then (validate_public_rating (opponent_rating ob) n) (\<lambda>_. validate_deviation (opponent_deviation ob) n') = Inr u \<longleftrightarrow> observation_ok ob"
  using f_lit_nat [of 2]
  by (auto simp: validate_rating_def validate_config_def validate_public_rating_def validate_deviation_def and_then_eq_Inr
      require_range_eq_Inr f_lit_values f_lit_finite rating_ok_def config_ok_def observation_ok_def)

lemma illinois_converged:
  "illinois lm obj tol k l u lv uv = Inr v \<Longrightarrow> \<exists>x y. f_le (f_abs (f_sub y x)) tol \<and> v = f_exp lm (f_div x (f_lit 2))"
  by (induction lm obj tol k l u lv uv rule: illinois.induct) (auto simp: Let_def split: if_splits)

lemma solve_volatility_converged:
  "solve_volatility lm phi v var imp c = Inr w \<Longrightarrow>
     \<exists>x y. f_le (f_abs (f_sub y x)) (convergence_tolerance c) \<and> w = f_exp lm (f_div x (f_lit 2))"
  unfolding solve_volatility_def Let_def and_then_eq_Inr using illinois_converged by blast

lemma update_glicko2_inversion:
  assumes "update_glicko2 lm current obs config = Inr r"
  obtains p outcome where "rating_ok current" "config_ok config" "1 \<le> length obs" "length obs \<le> 10000"
    "\<forall>ob \<in> set obs. observation_ok ob" "rating_ok r"
    "outcome = snd (foldl (accumulate lm (scaled_rating (g_rating current))) (Fin 0, Fin 0) obs)" "is_finite outcome"
    "g_deviation r = f_mul p GLICKO2_SCALE"
    "g_rating r = f_mul_add (f_mul_add (f_mul p p) outcome (scaled_rating (g_rating current))) GLICKO2_SCALE DEFAULT_RATING"
    "\<exists>x y. f_le (f_abs (f_sub y x)) (convergence_tolerance config) \<and> g_volatility r = f_exp lm (f_div x (f_lit 2))"
proof -
  have "validate_rating current = Inr ()" "validate_config config = Inr ()" "obs \<noteq> []" "length obs \<le> 10000"
    "try_each (\<lambda>ob. and_then (validate_public_rating (opponent_rating ob) ''opponent_rating'') (\<lambda>_.
       validate_deviation (opponent_deviation ob) ''opponent_deviation'')) obs = Inr ()" "validate_rating r = Inr ()"
    and "\<exists>p outcome. outcome = snd (foldl (accumulate lm (scaled_rating (g_rating current))) (Fin 0, Fin 0) obs) \<and>
      is_finite outcome \<and> g_deviation r = f_mul p GLICKO2_SCALE \<and>
      g_rating r = f_mul_add (f_mul_add (f_mul p p) outcome (scaled_rating (g_rating current))) GLICKO2_SCALE DEFAULT_RATING"
    and "\<exists>x y. f_le (f_abs (f_sub y x)) (convergence_tolerance config) \<and> g_volatility r = f_exp lm (f_div x (f_lit 2))"
    using assms unfolding update_glicko2_def Let_def case_prod_beta scaled_rating_def [symmetric]
    by (auto simp: and_then_eq_Inr dest!: solve_volatility_converged split: if_splits)
  then show thesis using that by (auto simp: validators try_each_eq_Inr Suc_le_eq)
qed

text \<open>C39. A rating update is accepted only with inputs in the documented ranges, between one and 10000 observations
  included, and then gives a rating in these ranges again. Its volatility comes from the end of a bracket no wider than
  the configured tolerance. On the internal scale the rating moves by the square of the
  new deviation times the accumulated outcome; so, whatever the opponents, in floating point and with all roundings,
  winning every game never lowers the rating and losing every game never raises it, up to 10^-12. Of the platform's
  functions only two facts are used: an exponential is not negative, and the square root of a number of at least one
  is a number of at least one.\<close>

theorem glicko_update_direction:
  assumes "libm_ok lm" and "update_glicko2 lm current observations config = Inr r"
    and "f64_ok (g_rating current)" and "\<forall>ob \<in> set observations. f64_ok (opponent_rating ob)"
  shows "rating_ok current \<and> config_ok config \<and> 1 \<le> length observations \<and> length observations \<le> 10000 \<and>
    (\<forall>ob \<in> set observations. observation_ok ob) \<and> rating_ok r \<and>
    (\<exists>p. g_deviation r = f_mul p GLICKO2_SCALE \<and>
      g_rating r = f_mul_add (f_mul_add (f_mul p p)
        (snd (foldl (accumulate lm (scaled_rating (g_rating current))) (Fin 0, Fin 0) observations))
        (scaled_rating (g_rating current))) GLICKO2_SCALE DEFAULT_RATING) \<and>
    (\<exists>x y. f_le (f_abs (f_sub y x)) (convergence_tolerance config) \<and> g_volatility r = f_exp lm (f_div x (f_lit 2))) \<and>
    ((\<forall>ob \<in> set observations. observed_score ob = Win) \<longrightarrow> fval (g_rating current) - 1 / 10 ^ 12 \<le> fval (g_rating r)) \<and>
    ((\<forall>ob \<in> set observations. observed_score ob = Loss) \<longrightarrow> fval (g_rating r) \<le> fval (g_rating current) + 1 / 10 ^ 12)"
proof (rule update_glicko2_inversion [OF assms(2)])
  fix p out
  let ?mu = "scaled_rating (g_rating current)"
  assume ok: "rating_ok current" "config_ok config" "1 \<le> length observations" "length observations \<le> 10000"
    "\<forall>ob \<in> set observations. observation_ok ob" "rating_ok r"
    and out: "out = snd (foldl (accumulate lm ?mu) (Fin 0, Fin 0) observations)" "is_finite out"
    and dev: "g_deviation r = f_mul p GLICKO2_SCALE"
    and rat: "g_rating r = f_mul_add (f_mul_add (f_mul p p) out ?mu) GLICKO2_SCALE DEFAULT_RATING"
    and vol: "\<exists>x y. f_le (f_abs (f_sub y x)) (convergence_tolerance config) \<and> g_volatility r = f_exp lm (f_div x (f_lit 2))"
  have mu: "is_finite ?mu" "f64_ok ?mu" "\<bar>fval ?mu\<bar> \<le> 16"
    and base: "\<bar>fround (fval ?mu * fval GLICKO2_SCALE + 1500) - fval (g_rating current)\<bar> \<le> 1 / 10 ^ 12"
    using scaled_rating_value [of "g_rating current"] ok(1) assms(3) by (simp_all add: rating_ok_def)
  have "0 < fval (g_deviation r)" using ok(6) f_lit_micro(2) unfolding rating_ok_def by linarith
  then have step: "0 \<le> fval out \<Longrightarrow> fround (fval ?mu * fval GLICKO2_SCALE + 1500) \<le> fval (g_rating r)"
    "fval out \<le> 0 \<Longrightarrow> fval (g_rating r) \<le> fround (fval ?mu * fval GLICKO2_SCALE + 1500)"
    unfolding rat using ok(6) rating_step [OF _ _ _ out(2) mu(1,2), of p] by (simp_all add: rating_ok_def dev rat)
  have zero: "f_le (Fin 0) (Fin 0)" by (simp add: f_cmp_finite)
  note sign = outcome_sign [OF assms(1) mu, of observations "(Fin 0, Fin 0)", folded out(1)]
  have win: "fval (g_rating current) - 1 / 10 ^ 12 \<le> fval (g_rating r)" if "\<forall>ob \<in> set observations. observed_score ob = Win"
  proof -
    have "0 \<le> fval out" using sign(1) that ok(5) assms(4) zero out(2) by (simp add: f_cmp_finite)
    from step(1) [OF this] base show ?thesis unfolding abs_le_iff by linarith
  qed
  have loss: "fval (g_rating r) \<le> fval (g_rating current) + 1 / 10 ^ 12" if "\<forall>ob \<in> set observations. observed_score ob = Loss"
  proof -
    have "fval out \<le> 0" using sign(2) that ok(5) assms(4) zero out(2) by (simp add: f_cmp_finite)
    from step(2) [OF this] base show ?thesis unfolding abs_le_iff by linarith
  qed
  show ?thesis using ok dev rat vol win loss unfolding out(1) by blast
qed

text \<open>An update with constant platform functions: two games won against an equal opponent.\<close>

definition sample_libm :: libm where
  "sample_libm = \<lparr>f_exp = (\<lambda>_. Fin 1), f_ln = (\<lambda>_. Fin 0), f_sqrt = (\<lambda>_. Fin 1), f_hypot = (\<lambda>_ _. Fin 1), f_powi2 = (\<lambda>_. Fin 1)\<rparr>"

definition sample_rating :: Glicko2Rating where
  "sample_rating = \<lparr>g_rating = Fin 1500, g_deviation = GLICKO2_SCALE, g_volatility = Fin (1/2)\<rparr>"

definition sample_game :: Glicko2Observation where
  "sample_game = \<lparr>opponent_rating = Fin 1500, opponent_deviation = GLICKO2_SCALE, observed_score = Win\<rparr>"

definition sample_config :: Glicko2Config where
  "sample_config = \<lparr>tau = Fin 1, convergence_tolerance = Fin (1 / 2 ^ 20)\<rparr>"

lemma sample_exact:
  "of_exact 2 = Fin 2" "of_exact 3 = Fin 3" "of_exact 4 = Fin 4" "of_exact (1/2) = Fin (1/2)" "of_exact (1/4) = Fin (1/4)"
  "fround (1/2) = 1/2" "fround (1 / 2 ^ 20) = 1 / 2 ^ 20"
proof -
  have f: "of_exact q = Fin q" if "fround q = q" "0 < q" "q \<le> 1000000" for q
    using that max_finite_large by (simp add: of_exact_def)
  show h: "fround (1/2) = 1/2" using fround_dyadic [of 1 "- 1"] by (simp add: power_int_minus)
  show "fround (1 / 2 ^ 20) = 1 / 2 ^ 20" using fround_dyadic [of 1 "- 20"] by (simp add: power_int_minus)
  have "fround (1/4) = 1/4" using fround_dyadic [of 1 "- 2"] by (simp add: power_int_minus)
  then show "of_exact 2 = Fin 2" "of_exact 3 = Fin 3" "of_exact 4 = Fin 4" "of_exact (1/2) = Fin (1/2)" "of_exact (1/4) = Fin (1/4)"
    using h by (simp_all add: f fround_numeral)
qed

lemma sample_scale: obtains s where "GLICKO2_SCALE = Fin s" "fround s = s" "173 \<le> s" "s \<le> 174" "DEFAULT_RATING = Fin 1500"
proof -
  have fin: "is_finite x \<Longrightarrow> fval x \<noteq> 0 \<Longrightarrow> x = Fin (fval x)" for x by (cases x) simp_all
  have s: "GLICKO2_SCALE = Fin (fval GLICKO2_SCALE)" using scale_value by (intro fin) auto
  have d: "DEFAULT_RATING = Fin 1500" using fin [of DEFAULT_RATING] default_value by simp
  show thesis using that [OF s _ scale_value(3,4) d] f64_ok_fval [OF scale_value(1,2)] by simp
qed

lemma sample_valid: "rating_ok sample_rating" "observation_ok sample_game" "config_ok sample_config"
proof -
  have lit: "fval (f_lit q) = fround q" if "0 \<le> q" "q \<le> 1" for q
    using f_lit_rounds [OF unit_abs_le [OF that]] by (simp add: rounds_to_def)
  have "fround (1/1000000) \<le> fround (1/2)" "fround (1/10) \<le> fround 1" "fround (1/1000000000) \<le> fround (1 / 2 ^ 20)"
    "fround (1 / 2 ^ 20) \<le> fround (1/1000)" by (intro fround_mono; simp)+
  then have b: "fval (f_lit (1/1000000)) \<le> 1/2" "fval (f_lit (1/10)) \<le> 1" "fval (f_lit (1/1000000000)) \<le> 1 / 2 ^ 20"
    "1 / 2 ^ 20 \<le> fval (f_lit (1/1000))" by (simp_all only: lit sample_exact(6,7) fround_1)
  then have c: "fval (f_lit (1/1000000)) \<le> fval GLICKO2_SCALE" using scale_value(3) by linarith
  show "rating_ok sample_rating" "observation_ok sample_game" "config_ok sample_config"
    using b c scale_value by (simp_all add: rating_ok_def sample_rating_def observation_ok_def sample_game_def config_ok_def sample_config_def)
qed

lemma sample_updates: "\<exists>r. update_glicko2 sample_libm sample_rating [sample_game, sample_game] sample_config = Inr r"
proof -
  obtain s where s: "GLICKO2_SCALE = Fin s" "fround s = s" "173 \<le> s" "s \<le> 174" and d: "DEFAULT_RATING = Fin 1500"
    by (rule sample_scale)
  note ops = f_div_def f_mul_def f_sub_def f_recip_def f_mul_add_def Let_def signed_zero_def sample_exact f_cmp_finite
  have mu: "f_div (f_sub (Fin 1500) DEFAULT_RATING) GLICKO2_SCALE = Fin 0" "f_div GLICKO2_SCALE GLICKO2_SCALE = Fin 1"
    unfolding s(1) d using s(3) by (simp_all add: ops)
  have game: "accumulate sample_libm (Fin 0) acc sample_game = (f_mul_add (Fin (1/2)) (Fin (1/2)) (fst acc), f_mul_add (Fin 1) (Fin (1/2)) (snd acc))" for acc
    by (simp add: accumulate_def sample_game_def mu rating_impact_def expected_score_def sample_libm_def ops)
  have fold: "foldl (accumulate sample_libm (Fin 0)) (Fin 0, Fin 0) [sample_game, sample_game] = (Fin (1/2), Fin 1)"
    by (simp add: game) (simp add: ops)
  have fns: "f_exp sample_libm x = Fin 1" "f_ln sample_libm x = Fin 0" for x by (simp_all add: sample_libm_def)
  have it: "MAX_VOLATILITY_ITERATIONS = Suc 999" by (simp add: MAX_VOLATILITY_ITERATIONS_def)
  have step: "illinois sample_libm obj (convergence_tolerance sample_config) MAX_VOLATILITY_ITERATIONS (Fin 0) (Fin 0) a b = Inr (Fin 1)"
    for obj a b unfolding it by (subst illinois.simps) (simp add: fns sample_config_def ops)
  have solve: "solve_volatility sample_libm (Fin 1) v (Fin 2) (Fin 2) sample_config = Inr (Fin 1)" for v
    by (simp add: solve_volatility_def fns step ops)
  have "fround 1673 \<le> fround (s + 1500)" "fround (s + 1500) \<le> fround 1674" using s by (intro fround_mono; simp)+
  then have "1673 \<le> fround (s + 1500)" "fround (s + 1500) \<le> 1674" by (simp_all add: fround_numeral)
  moreover have "1674 \<le> max_finite" "174 \<le> max_finite" by (rule order_trans [OF _ max_finite_large]; simp)+
  ultimately have e: "of_exact (s + 1500) = Fin (fround (s + 1500))" "of_exact s = Fin s"
    using s by (simp_all add: of_exact_def)
  define r where "r = \<lparr>g_rating = Fin (fround (s + 1500)), g_deviation = Fin s, g_volatility = Fin 1\<rparr>"
  have low: "fval (f_lit (1/1000000)) \<le> 1/2" using sample_valid(1) by (simp add: rating_ok_def sample_rating_def)
  have valid: "validate_rating sample_rating = Inr ()" "validate_config sample_config = Inr ()" "validate_rating r = Inr ()"
    using sample_valid low s(2-4) \<open>1673 \<le> fround (s + 1500)\<close> \<open>fround (s + 1500) \<le> 1674\<close> by (simp_all add: validators(1,2) rating_ok_def r_def)
  have each: "try_each (\<lambda>ob. and_then (validate_public_rating (opponent_rating ob) ''opponent_rating'') (\<lambda>_.
      validate_deviation (opponent_deviation ob) ''opponent_deviation'')) [sample_game, sample_game] = Inr ()"
    unfolding try_each_eq_Inr using sample_valid(2) by (simp add: validators(3) del: try_each.simps)
  have "update_glicko2 sample_libm sample_rating [sample_game, sample_game] sample_config = Inr r"
  proof -
    have g: "g_rating sample_rating = Fin 1500" "g_deviation sample_rating = GLICKO2_SCALE" by (simp_all add: sample_rating_def)
    have rec: "f_recip (Fin (1/2)) = Fin 2" "f_mul (Fin 2) (Fin 1) = Fin 2" "f_recip (Fin 1) = Fin 1" "f_mul (Fin 1) (Fin 1) = Fin 1"
      "f_mul_add (Fin 1) (Fin 1) (Fin 0) = Fin 1" "f_mul (Fin 1) GLICKO2_SCALE = Fin s"
      "f_mul_add (Fin 1) GLICKO2_SCALE DEFAULT_RATING = Fin (fround (s + 1500))" "\<not> f_le (Fin (1/2)) (Fin 0)"
      unfolding s(1) d using s(3) e by (simp_all add: ops)
    have lm: "f_hypot sample_libm x y = Fin 1" "f_sqrt sample_libm x = Fin 1" for x y by (simp_all add: sample_libm_def)
    show ?thesis
      unfolding update_glicko2_def Let_def g mu fold each valid(1,2) case_prod_conv rec
      by (simp add: solve lm rec valid(3) [unfolded r_def] r_def)
  qed
  then show ?thesis ..
qed

theorem glicko_update_direction_witness:
  "\<exists>r. update_glicko2 sample_libm sample_rating [sample_game, sample_game] sample_config = Inr r \<and>
     1500 - 1 / 10 ^ 12 \<le> fval (g_rating r)"
proof -
  obtain r where r: "update_glicko2 sample_libm sample_rating [sample_game, sample_game] sample_config = Inr r"
    using sample_updates ..
  have "(1500 :: rat) \<le> max_finite" by (rule order_trans [OF _ max_finite_large]) simp
  then have "libm_ok sample_libm" "f64_ok (g_rating sample_rating)" "f64_ok (opponent_rating sample_game)"
    by (simp_all add: libm_ok_def sample_libm_def f_cmp_finite sample_rating_def sample_game_def fround_numeral)
  with glicko_update_direction [OF _ r] r show ?thesis by (auto simp: sample_game_def sample_rating_def)
qed

subsection \<open>Normalisation\<close>

definition norm_raw :: "f64 \<Rightarrow> rat" where
  "norm_raw x = fround (fround (fval x - 1000) / 1000)"

lemma f_clamp_unit:
  "is_finite x \<Longrightarrow> is_finite (f_clamp x (Fin 0) (Fin 1)) \<and> fval (f_clamp x (Fin 0) (Fin 1)) = min (max (fval x) 0) 1"
  by (auto simp: f_clamp_def Let_def f_cmp_finite)

lemma normalize_value:
  assumes "normalize_glicko2_rating x = Inr v" "f64_ok x"
  shows "is_finite v" "fval v = min (max (norm_raw x) 0) 1"
proof -
  have x: "is_finite x" "0 \<le> fval x" "fval x \<le> 4000"
    and v: "v = f_clamp (f_div (f_sub x (f_lit 1000)) (f_lit 1000)) (Fin 0) (Fin 1)"
    using assms by (auto simp: normalize_glicko2_rating_def validate_public_rating_def and_then_eq_Inr
        require_range_eq_Inr f_lit_values)
  have "\<bar>fval x - 1000\<bar> \<le> 4000" using x by simp
  moreover have "(4000::rat) \<le> max_finite" by (simp add: max_finite_def)
  ultimately have m: "\<bar>fval x - 1000\<bar> \<le> max_finite" by linarith
  have d: "rounds_to (f_sub x (f_lit 1000)) (fval x - 1000)"
    using f_sub_rounds [of x "f_lit 1000"] x m assms(2) by (simp add: f_lit_values)
  have "\<bar>fround (fval x - 1000)\<bar> \<le> max_finite" by (rule fround_abs_le [OF fround_max_finite m])
  then have m': "\<bar>fround (fval x - 1000) / 1000\<bar> \<le> max_finite" by (simp add: divide_le_eq)
  have "rounds_to (f_div (f_sub x (f_lit 1000)) (f_lit 1000)) (fround (fval x - 1000) / 1000)"
    using f_div_rounds [of "f_sub x (f_lit 1000)" "f_lit 1000"] d m' by (simp add: f_lit_values rounds_to_def)
  then show "is_finite v" "fval v = min (max (norm_raw x) 0) 1"
    using f_clamp_unit by (simp_all add: v rounds_to_def norm_raw_def)
qed

lemma norm_raw_mono: "fval x \<le> fval y \<Longrightarrow> norm_raw x \<le> norm_raw y"
  unfolding norm_raw_def by (intro fround_mono divide_right_mono) simp_all

lemma norm_raw_ends: "fval x \<le> 1000 \<Longrightarrow> norm_raw x \<le> 0" "2000 \<le> fval x \<Longrightarrow> 1 \<le> norm_raw x"
proof -
  assume "fval x \<le> 1000"
  then show "norm_raw x \<le> 0" unfolding norm_raw_def by (intro fround_nonpos divide_nonpos_pos) simp_all
next
  assume "2000 \<le> fval x"
  then have "fround 1000 \<le> fround (fval x - 1000)" by (intro fround_mono) simp
  then have "1 \<le> fround (fval x - 1000) / 1000" by (simp add: fround_numeral)
  from fround_mono [OF this] show "1 \<le> norm_raw x" by (simp add: norm_raw_def)
qed

text \<open>Normalising a rating gives a finite score of the unit interval, monotone in the rating, zero
  up to 1000 and one from 2000 on.\<close>

theorem normalize_rating_monotone:
  assumes "normalize_glicko2_rating x = Inr v" and "normalize_glicko2_rating y = Inr w"
    and "f64_ok x" and "f64_ok y" and "fval x \<le> fval y"
  shows "is_finite v \<and> 0 \<le> fval v \<and> fval v \<le> 1 \<and> fval v \<le> fval w \<and>
    (fval x \<le> 1000 \<longrightarrow> fval v = 0) \<and> (2000 \<le> fval x \<longrightarrow> fval v = 1)"
  using normalize_value [OF assms(1,3)] normalize_value [OF assms(2,4)] norm_raw_mono [OF assms(5)]
    norm_raw_ends [of x]
  by (auto simp: min_def max_def)

theorem normalize_rating_monotone_witness:
  "\<exists>v w. normalize_glicko2_rating (Fin 900) = Inr v \<and> normalize_glicko2_rating (Fin 2500) = Inr w \<and>
     fval v = 0 \<and> fval v \<le> fval w"
proof -
  obtain v w where v: "normalize_glicko2_rating (Fin 900) = Inr v" and w: "normalize_glicko2_rating (Fin 2500) = Inr w"
    by (auto simp: normalize_glicko2_rating_def validate_public_rating_def and_then_eq_Inr require_range_eq_Inr
        f_lit_values)
  have "\<bar>900::rat\<bar> \<le> max_finite" "\<bar>2500::rat\<bar> \<le> max_finite" by (simp_all add: max_finite_def)
  then have "f64_ok (Fin 900)" "f64_ok (Fin 2500)" by (simp_all add: fround_numeral)
  from normalize_rating_monotone [OF v w this] v w show ?thesis by auto
qed

end
