(* ===== verification/Wire.thy ===== *)
theory Wire
  imports RustStr MachInt F64
begin

text \<open>
  The wire contract of \<open>mindone-protocol\<close>: the shared validators of \<open>common.rs\<close> and the
  \<open>Validate\<close> implementations of \<open>api_keys.rs\<close>, \<open>openai.rs\<close>, \<open>models.rs\<close> and
  \<open>nodes.rs\<close>. A request is a record with the fields of the Rust struct; its \<open>validate\<close> is
  the source's sequence of early returns. An error carries the field it names and its message, whose
  display text is rendered in English. The trait is the locale \<open>validated\<close>: a validator accepts
  exactly what its contract describes, and every implementation is an interpretation. The type
  \<open>'v\<close> stands for \<open>serde_json::Value\<close>.
\<close>

section \<open>common.rs\<close>

datatype TrustLevel = Enhanced | Standard | StandardLimited | Experimental | Unverified

record ProtocolValidationError =
  field :: string
  message :: string

definition ProtocolValidationError_new :: "string \<Rightarrow> string \<Rightarrow> ProtocolValidationError" where
  "ProtocolValidationError_new f m = \<lparr>field = f, message = m\<rparr>"

type_synonym 'a wire = "ProtocolValidationError + 'a"

text \<open>\<open>return Err(ProtocolValidationError::new(f, m))\<close>, and the formatting of an integer in it.\<close>

abbreviation invalid :: "string \<Rightarrow> string \<Rightarrow> 'a wire" where
  "invalid f m \<equiv> Inl (ProtocolValidationError_new f m)"

definition show_nat :: "nat \<Rightarrow> string" where
  "show_nat n = map char_of (dec_nat n)"

definition identifier_ok :: "nat \<Rightarrow> rstring \<Rightarrow> bool" where
  "identifier_ok maximum_bytes value \<longleftrightarrow>
     trim value \<noteq> [] \<and> str_len value \<le> maximum_bytes \<and> \<not> any_control value"

definition validate_identifier :: "string \<Rightarrow> rstring \<Rightarrow> nat \<Rightarrow> unit wire" where
  "validate_identifier f value maximum_bytes =
     (if trim value = [] \<or> str_len value > maximum_bytes \<or> any_control value
      then invalid f (''must be 1 to '' @ show_nat maximum_bytes @ '' bytes without control characters'')
      else Inr ())"

definition validate_tags :: "rstring list \<Rightarrow> unit wire" where
  "validate_tags tags =
     (if length tags > 32 then invalid ''tags'' ''at most 32 tags''
      else if list_ex (\<lambda>tag. tag = [] \<or> str_len tag > 64 \<or> \<not> is_ascii_str tag) tags
      then invalid ''tags'' ''each tag must be 1 to 64 bytes of ASCII''
      else Inr ())"

definition validate_sha256 :: "string \<Rightarrow> rstring \<Rightarrow> unit wire" where
  "validate_sha256 f value =
     (if str_len value \<noteq> 64 \<or> \<not> list_all is_lower_hex (utf8 value)
      then invalid f ''must be a 64 digit lowercase SHA-256''
      else Inr ())"

definition tags_ok :: "rstring list \<Rightarrow> bool" where
  "tags_ok tags \<longleftrightarrow> length tags \<le> 32 \<and>
     list_all (\<lambda>tag. tag \<noteq> [] \<and> length tag \<le> 64 \<and> is_ascii_str tag) tags"

definition lower_hex_ok :: "nat \<Rightarrow> rstring \<Rightarrow> bool" where
  "lower_hex_ok n value \<longleftrightarrow> length value = n \<and> list_all is_lower_hex value"

lemma is_lower_hex_ascii: "is_lower_hex b \<Longrightarrow> b < 128"
  by (auto simp: is_lower_hex_def is_ascii_digit_def)

text \<open>A text whose bytes are lowercase hexadecimal is ASCII, so bytes and characters agree.\<close>

lemma utf8_all_hex_iff: "list_all is_lower_hex (utf8 value) \<longleftrightarrow> list_all is_lower_hex value"
proof
  assume h: "list_all is_lower_hex (utf8 value)"
  then show "list_all is_lower_hex value"
    by (induction "value")
      (auto simp: utf8_char_def is_lower_hex_def is_ascii_digit_def split: if_splits)
next
  assume h: "list_all is_lower_hex value"
  then have "is_ascii_str value" by (auto simp: is_ascii_str_def list_all_iff dest: is_lower_hex_ascii)
  with h show "list_all is_lower_hex (utf8 value)" by (simp add: utf8_ascii)
qed

lemma hex_len_iff:
  "str_len value = n \<and> list_all is_lower_hex (utf8 value) \<longleftrightarrow> lower_hex_ok n value"
proof -
  have "list_all is_lower_hex value \<Longrightarrow> str_len value = length value"
    by (rule str_len_ascii) (auto simp: is_ascii_str_def list_all_iff dest: is_lower_hex_ascii)
  then show ?thesis by (auto simp: lower_hex_ok_def utf8_all_hex_iff)
qed

lemma validate_identifier_iff [result_simps]:
  "validate_identifier f value n = Inr u \<longleftrightarrow> identifier_ok n value"
  by (auto simp: validate_identifier_def identifier_ok_def)

lemma validate_tags_iff [result_simps]: "validate_tags tags = Inr u \<longleftrightarrow> tags_ok tags"
proof -
  have "tag \<noteq> [] \<and> length tag \<le> 64 \<and> is_ascii_str tag \<longleftrightarrow>
      \<not> (tag = [] \<or> str_len tag > 64 \<or> \<not> is_ascii_str tag)" for tag
    by (cases "is_ascii_str tag") (auto simp: str_len_ascii)
  then show ?thesis by (auto simp: validate_tags_def tags_ok_def list_ex_iff list_all_iff)
qed

lemma validate_sha256_iff [result_simps]: "validate_sha256 f value = Inr u \<longleftrightarrow> lower_hex_ok 64 value"
  using hex_len_iff [of "value" 64] by (auto simp: validate_sha256_def)

text \<open>
  The \<open>Validate\<close> trait. \<open>accepts\<close> is the contract a client may rely on once
  \<open>validate\<close> returned \<open>Ok\<close>; the law is an equivalence, so a valid request is never refused.
\<close>

locale validated =
  fixes validate :: "'a \<Rightarrow> unit wire" and accepts :: "'a \<Rightarrow> bool"
  assumes validate_iff: "validate x = Inr () \<longleftrightarrow> accepts x"
begin

lemma validate_ok: "validate x = Inr u \<longleftrightarrow> accepts x"
  using validate_iff by simp

lemma rejects: "\<not> accepts x \<Longrightarrow> \<exists>e. validate x = Inl e"
  using validate_iff [of x] by (cases "validate x") auto

lemma validate_before: "and_then (validate x) (\<lambda>_. f x) = Inr y \<longleftrightarrow> accepts x \<and> f x = Inr y"
  by (simp add: result_simps validate_ok)

end

section \<open>api\_keys.rs\<close>

record CreateApiKeyRequest =
  key_name :: rstring

definition CreateApiKeyRequest_validate :: "CreateApiKeyRequest \<Rightarrow> unit wire" where
  "CreateApiKeyRequest_validate r =
     (if trim (key_name r) \<noteq> key_name r
      then invalid ''name'' ''API key names have no surrounding whitespace''
      else validate_identifier ''name'' (key_name r) 64)"

definition api_key_ok :: "CreateApiKeyRequest \<Rightarrow> bool" where
  "api_key_ok r \<longleftrightarrow> key_name r \<noteq> [] \<and> str_len (key_name r) \<le> 64 \<and> \<not> any_control (key_name r) \<and>
     \<not> is_whitespace (hd (key_name r)) \<and> \<not> is_whitespace (last (key_name r))"

interpretation api_key: validated CreateApiKeyRequest_validate api_key_ok
proof unfold_locales
  fix r :: CreateApiKeyRequest
  have "trim (key_name r) = key_name r \<and> key_name r \<noteq> [] \<longleftrightarrow>
      key_name r \<noteq> [] \<and> \<not> is_whitespace (hd (key_name r)) \<and> \<not> is_whitespace (last (key_name r))"
    by (metis hd_trim last_trim trim_no_ws)
  then show "CreateApiKeyRequest_validate r = Inr () \<longleftrightarrow> api_key_ok r"
    by (auto simp: CreateApiKeyRequest_validate_def api_key_ok_def validate_identifier_iff identifier_ok_def)
qed

section \<open>openai.rs\<close>

datatype ChatRole = System | Developer | User | Assistant | Tool

record ImageUrl =
  url :: rstring
  detail :: "rstring option"

datatype ContentPart = TextPart rstring | ImageUrlPart ImageUrl

datatype MessageContent = Text rstring | Parts "ContentPart list"

record ChatMessage =
  role :: ChatRole
  content :: MessageContent
  msg_name :: "rstring option"
  tool_call_id :: "rstring option"

datatype StopSequences = StopOne rstring | StopMany "rstring list"

datatype Prompt = One rstring | Many "rstring list"

record ChatCompletionsRequest =
  chat_model :: rstring
  messages :: "ChatMessage list"
  chat_stream :: bool
  chat_max_tokens :: "u32 option"
  max_completion_tokens :: "u32 option"
  chat_temperature :: "f64 option"
  chat_top_p :: "f64 option"
  seed :: "u32 option"
  chat_n :: "u32 option"
  chat_stop :: "StopSequences option"
  chat_user :: "rstring option"

record CompletionsRequest =
  cmp_model :: rstring
  prompt :: Prompt
  cmp_stream :: bool
  cmp_max_tokens :: "u32 option"
  cmp_temperature :: "f64 option"
  cmp_top_p :: "f64 option"
  cmp_n :: "u32 option"
  cmp_stop :: "StopSequences option"
  cmp_user :: "rstring option"

text \<open>\<open>Option::or\<close> and the inclusive float ranges \<open>(lo..=hi).contains(\&v)\<close>.\<close>

definition opt_or :: "'a option \<Rightarrow> 'a option \<Rightarrow> 'a option" where
  "opt_or a b = (case a of None \<Rightarrow> b | Some _ \<Rightarrow> a)"

definition f_in_range :: "rat \<Rightarrow> rat \<Rightarrow> f64 \<Rightarrow> bool" where
  "f_in_range lo hi v \<longleftrightarrow> f_le (f_lit lo) v \<and> f_le v (f_lit hi)"

definition validate_sampling :: "f64 option \<Rightarrow> f64 option \<Rightarrow> u32 option \<Rightarrow> u32 option \<Rightarrow> unit wire" where
  "validate_sampling temperature top_p max_tokens n =
     (if is_some_and temperature (\<lambda>v. \<not> is_finite v \<or> \<not> f_in_range 0 2 v)
      then invalid ''temperature'' ''must be between 0 and 2''
      else if is_some_and top_p (\<lambda>v. \<not> is_finite v \<or> \<not> f_in_range 0 1 v)
      then invalid ''top_p'' ''must be between 0 and 1''
      else if max_tokens = Some 0 then invalid ''max_tokens'' ''must be positive''
      else if is_some_and n (\<lambda>v. \<not> (1 \<le> unat v \<and> unat v \<le> 16))
      then invalid ''n'' ''must be between 1 and 16''
      else Inr ())"

definition ChatCompletionsRequest_validate :: "ChatCompletionsRequest \<Rightarrow> unit wire" where
  "ChatCompletionsRequest_validate r =
     and_then (validate_identifier ''model'' (chat_model r) 256) (\<lambda>_.
       if messages r = [] then invalid ''messages'' ''at least one message is required''
       else validate_sampling (chat_temperature r) (chat_top_p r)
              (opt_or (chat_max_tokens r) (max_completion_tokens r)) (chat_n r))"

fun has_prompt :: "Prompt \<Rightarrow> bool" where
  "has_prompt (One v) \<longleftrightarrow> v \<noteq> []"
| "has_prompt (Many vs) \<longleftrightarrow> vs \<noteq> [] \<and> list_all (\<lambda>v. v \<noteq> []) vs"

definition CompletionsRequest_validate :: "CompletionsRequest \<Rightarrow> unit wire" where
  "CompletionsRequest_validate r =
     and_then (validate_identifier ''model'' (cmp_model r) 256) (\<lambda>_.
       if \<not> has_prompt (prompt r) then invalid ''prompt'' ''prompt must not be empty''
       else validate_sampling (cmp_temperature r) (cmp_top_p r) (cmp_max_tokens r) (cmp_n r))"

text \<open>The values of the sampling parameters that the validators let through, as numbers.\<close>

definition sampling_ok :: "f64 option \<Rightarrow> f64 option \<Rightarrow> u32 option \<Rightarrow> u32 option \<Rightarrow> bool" where
  "sampling_ok temperature top_p max_tokens n \<longleftrightarrow>
     (\<forall>v. temperature = Some v \<longrightarrow> is_finite v \<and> 0 \<le> fval v \<and> fval v \<le> 2) \<and>
     (\<forall>v. top_p = Some v \<longrightarrow> is_finite v \<and> 0 \<le> fval v \<and> fval v \<le> 1) \<and>
     (\<forall>v. max_tokens = Some v \<longrightarrow> 0 < unat v) \<and>
     (\<forall>v. n = Some v \<longrightarrow> 1 \<le> unat v \<and> unat v \<le> 16)"

lemma f_lit_012: "f_lit 0 = Fin 0" "f_lit 1 = Fin 1" "f_lit 2 = Fin 2"
proof -
  have "fround 2 = (2 :: rat)" by (rule fround_numeral) simp
  moreover have "(2 :: rat) \<le> max_finite" by (simp add: max_finite_def)
  ultimately show "f_lit 2 = Fin 2" by (simp add: f_lit_def of_exact_def)
qed (simp_all add: f_lit_def)

lemma f_in_range_finite:
  assumes "is_finite v"
  shows "f_in_range 0 2 v \<longleftrightarrow> 0 \<le> fval v \<and> fval v \<le> 2" "f_in_range 0 1 v \<longleftrightarrow> 0 \<le> fval v \<and> fval v \<le> 1"
  using assms by (simp_all add: f_in_range_def f_lit_012 f_cmp_finite)

lemma validate_sampling_iff [result_simps]:
  "validate_sampling t p m n = Inr u \<longleftrightarrow> sampling_ok t p m n"
proof -
  have t: "\<not> is_some_and t (\<lambda>v. \<not> is_finite v \<or> \<not> f_in_range 0 2 v) \<longleftrightarrow>
      (\<forall>v. t = Some v \<longrightarrow> is_finite v \<and> 0 \<le> fval v \<and> fval v \<le> 2)"
    by (auto simp: is_some_and_iff f_in_range_finite)
  have p: "\<not> is_some_and p (\<lambda>v. \<not> is_finite v \<or> \<not> f_in_range 0 1 v) \<longleftrightarrow>
      (\<forall>v. p = Some v \<longrightarrow> is_finite v \<and> 0 \<le> fval v \<and> fval v \<le> 1)"
    by (auto simp: is_some_and_iff f_in_range_finite)
  have m: "m \<noteq> Some 0 \<longleftrightarrow> (\<forall>v. m = Some v \<longrightarrow> 0 < unat v)"
    by (cases m) (auto simp: unat_gt_0)
  have n: "\<not> is_some_and n (\<lambda>v. \<not> (1 \<le> unat v \<and> unat v \<le> 16)) \<longleftrightarrow>
      (\<forall>v. n = Some v \<longrightarrow> 1 \<le> unat v \<and> unat v \<le> 16)"
    by (auto simp: is_some_and_iff)
  show ?thesis
    unfolding validate_sampling_def sampling_ok_def t [symmetric] p [symmetric] m [symmetric] n [symmetric]
    by auto
qed

definition chat_ok :: "ChatCompletionsRequest \<Rightarrow> bool" where
  "chat_ok r \<longleftrightarrow> identifier_ok 256 (chat_model r) \<and> messages r \<noteq> [] \<and>
     sampling_ok (chat_temperature r) (chat_top_p r)
       (opt_or (chat_max_tokens r) (max_completion_tokens r)) (chat_n r)"

definition completions_ok :: "CompletionsRequest \<Rightarrow> bool" where
  "completions_ok r \<longleftrightarrow> identifier_ok 256 (cmp_model r) \<and> has_prompt (prompt r) \<and>
     sampling_ok (cmp_temperature r) (cmp_top_p r) (cmp_max_tokens r) (cmp_n r)"

interpretation chat: validated ChatCompletionsRequest_validate chat_ok
  by unfold_locales (auto simp: ChatCompletionsRequest_validate_def chat_ok_def result_simps)

interpretation completions: validated CompletionsRequest_validate completions_ok
  by unfold_locales (auto simp: CompletionsRequest_validate_def completions_ok_def result_simps)

section \<open>models.rs\<close>

definition V1_BASE_COST_PER_1K_MICRO :: i64 where
  "V1_BASE_COST_PER_1K_MICRO = 1000000"

definition approved_base_cost_per_1k_micro :: "i64 \<Rightarrow> bool" where
  "approved_base_cost_per_1k_micro v \<longleftrightarrow> v = V1_BASE_COST_PER_1K_MICRO"

datatype ModelFormat = Gguf | Safetensors

record PublishModelRequest =
  pub_node_id :: Uuid
  pub_name :: rstring
  pub_alias :: rstring
  pub_format :: ModelFormat
  pub_weights_hash :: rstring
  size_bytes :: i64
  context_length :: i32
  benchmark_normalized :: i32
  glicko_normalized :: i32
  evaluation_samples :: i32
  base_cost_per_1k_micro :: i64
  pub_tags :: "rstring list"

definition PublishModelRequest_validate :: "PublishModelRequest \<Rightarrow> unit wire" where
  "PublishModelRequest_validate r =
     and_then (validate_identifier ''name'' (pub_name r) 128) (\<lambda>_.
     and_then (validate_identifier ''alias'' (pub_alias r) 64) (\<lambda>_.
     and_then (validate_sha256 ''weights_hash'' (pub_weights_hash r)) (\<lambda>_.
     and_then (validate_tags (pub_tags r)) (\<lambda>_.
       if sint (size_bytes r) \<le> 0 then invalid ''size_bytes'' ''must be positive''
       else if sint (context_length r) \<le> 0 then invalid ''context_length'' ''must be positive''
       else if benchmark_normalized r \<noteq> 0 \<or> glicko_normalized r \<noteq> 0 \<or> evaluation_samples r \<noteq> 0
       then invalid ''quality'' ''publishers do not report their own quality''
       else if \<not> approved_base_cost_per_1k_micro (base_cost_per_1k_micro r)
       then invalid ''base_cost_per_1k_micro'' ''must be the server-controlled v1 baseline''
       else Inr ()))))"

definition publish_ok :: "PublishModelRequest \<Rightarrow> bool" where
  "publish_ok r \<longleftrightarrow>
     identifier_ok 128 (pub_name r) \<and> identifier_ok 64 (pub_alias r) \<and>
     lower_hex_ok 64 (pub_weights_hash r) \<and> tags_ok (pub_tags r) \<and>
     0 < sint (size_bytes r) \<and> 0 < sint (context_length r) \<and>
     benchmark_normalized r = 0 \<and> glicko_normalized r = 0 \<and> evaluation_samples r = 0 \<and>
     base_cost_per_1k_micro r = V1_BASE_COST_PER_1K_MICRO"

interpretation publish: validated PublishModelRequest_validate publish_ok
  by unfold_locales
    (auto simp: PublishModelRequest_validate_def publish_ok_def result_simps approved_base_cost_per_1k_micro_def)

section \<open>nodes.rs\<close>

datatype SandboxMechanism =
  Namespaces | SeccompBpf | Landlock | AppArmor | Seatbelt | AppSandbox | JobObjects | AppContainer | HyperV

record GpuProfile =
  gpu_name :: rstring
  vendor :: "rstring option"
  gpu_vram_total_mib :: "u64 option"
  compute_capability :: "rstring option"

record 'v HardwareProfile =
  operating_system :: rstring
  operating_system_version :: rstring
  architecture :: rstring
  cpu_model :: rstring
  cpu_logical_cores :: u32
  ram_total_mib :: u64
  gpus :: "GpuProfile list"
  cuda_available :: bool
  metal_available :: bool
  sandbox_mechanisms :: "SandboxMechanism list"
  extra :: "(rstring \<times> 'v) list"

definition HardwareProfile_validate :: "'v HardwareProfile \<Rightarrow> unit wire" where
  "HardwareProfile_validate h =
     and_then (validate_identifier ''operating_system'' (operating_system h) 128) (\<lambda>_.
     and_then (validate_identifier ''operating_system_version'' (operating_system_version h) 128) (\<lambda>_.
     and_then (validate_identifier ''architecture'' (architecture h) 64) (\<lambda>_.
     and_then (validate_identifier ''cpu_model'' (cpu_model h) 256) (\<lambda>_.
     and_then (ensure (\<not> (cpu_logical_cores h = 0 \<or> ram_total_mib h = 0))
       (ProtocolValidationError_new ''hardware_profile'' ''cores and memory must be positive'')) (\<lambda>_.
     and_then (ensure (\<not> length (gpus h) > 32)
       (ProtocolValidationError_new ''hardware_profile.gpus'' ''at most 32 GPUs'')) (\<lambda>_.
     and_then (try_each (\<lambda>gpu. validate_identifier ''hardware_profile.gpus.name'' (gpu_name gpu) 256) (gpus h)) (\<lambda>_.
     and_then (ensure (\<not> length (sandbox_mechanisms h) > 16)
       (ProtocolValidationError_new ''hardware_profile.sandbox_mechanisms'' ''at most 16 mechanisms'')) (\<lambda>_.
       let unique = remdups (sandbox_mechanisms h)
       in if length unique \<noteq> length (sandbox_mechanisms h)
          then invalid ''hardware_profile.sandbox_mechanisms'' ''mechanisms must not repeat''
          else Inr ()))))))))"

record NodePolicyDto =
  dto_reject_tags :: "rstring list"
  dto_max_concurrent :: u32
  dto_gpu_temp_limit_c :: "u16 option"
  dto_vram_reserve_mib :: u64

definition NodePolicyDto_validate :: "NodePolicyDto \<Rightarrow> unit wire" where
  "NodePolicyDto_validate p =
     and_then (validate_tags (dto_reject_tags p)) (\<lambda>_.
       if \<not> (1 \<le> unat (dto_max_concurrent p) \<and> unat (dto_max_concurrent p) \<le> 1024)
       then invalid ''max_concurrent'' ''must be between 1 and 1024''
       else if is_some_and (dto_gpu_temp_limit_c p) (\<lambda>limit. \<not> (30 \<le> unat limit \<and> unat limit \<le> 120))
       then invalid ''gpu_temp_limit_c'' ''must be between 30 and 120 degrees''
       else if unat (dto_vram_reserve_mib p) > 9223372036854775807
       then invalid ''vram_reserve_mib'' ''beyond what the coordinator can settle''
       else Inr ())"

record 'v RegisterNodeRequest =
  reg_alias :: rstring
  hardware_profile :: "'v HardwareProfile"
  reg_reject_tags :: "rstring list"
  reg_max_concurrent :: u32
  reg_gpu_temp_limit_c :: "u16 option"
  reg_vram_reserve_mib :: u64

definition RegisterNodeRequest_validate :: "'v RegisterNodeRequest \<Rightarrow> unit wire" where
  "RegisterNodeRequest_validate r =
     and_then (validate_identifier ''alias'' (reg_alias r) 64) (\<lambda>_.
     and_then (HardwareProfile_validate (hardware_profile r)) (\<lambda>_.
       NodePolicyDto_validate \<lparr>dto_reject_tags = reg_reject_tags r, dto_max_concurrent = reg_max_concurrent r,
         dto_gpu_temp_limit_c = reg_gpu_temp_limit_c r, dto_vram_reserve_mib = reg_vram_reserve_mib r\<rparr>))"

record HeartbeatRequest =
  hb_tps_milli :: i64
  hb_ttft_ms :: i64
  hb_current_concurrent :: i32
  hb_gpu_temp_c :: "i32 option"
  hb_vram_used_mib :: "i64 option"
  hb_vram_total_mib :: "i64 option"
  hb_error_rate_ppm :: i32
  hb_coordinator_rtt_ms :: "i64 option"
  hb_draining :: bool
  hb_policy :: "NodePolicyDto option"

definition opt_zip :: "'a option \<Rightarrow> 'b option \<Rightarrow> ('a \<times> 'b) option" where
  "opt_zip a b = (case a of None \<Rightarrow> None | Some x \<Rightarrow> (case b of None \<Rightarrow> None | Some y \<Rightarrow> Some (x, y)))"

definition HeartbeatRequest_validate :: "HeartbeatRequest \<Rightarrow> unit wire" where
  "HeartbeatRequest_validate r =
     (if sint (hb_tps_milli r) < 0 \<or> sint (hb_ttft_ms r) < 0 \<or> sint (hb_current_concurrent r) < 0 \<or>
         \<not> (0 \<le> sint (hb_error_rate_ppm r) \<and> sint (hb_error_rate_ppm r) \<le> 1000000)
      then invalid ''metrics'' ''metrics must not be negative; the error rate is 0 to 1000000 ppm''
      else if is_some_and (hb_gpu_temp_c r) (\<lambda>v. \<not> (0 \<le> sint v \<and> sint v \<le> 200))
      then invalid ''gpu_temp_c'' ''must be between 0 and 200 degrees''
      else if is_some_and (hb_coordinator_rtt_ms r) (\<lambda>v. \<not> (1 \<le> sint v \<and> sint v \<le> 60000))
      then invalid ''coordinator_rtt_ms'' ''must be between 1 and 60000 milliseconds''
      else if is_some_and (hb_vram_used_mib r) (\<lambda>v. sint v < 0) \<or>
              is_some_and (hb_vram_total_mib r) (\<lambda>v. sint v < 0) \<or>
              is_some_and (opt_zip (hb_vram_used_mib r) (hb_vram_total_mib r)) (\<lambda>(used, total). sint used > sint total)
      then invalid ''vram'' ''video memory is not negative and used does not exceed total''
      else case hb_policy r of None \<Rightarrow> Inr () | Some policy \<Rightarrow> NodePolicyDto_validate policy)"

definition hardware_ok :: "'v HardwareProfile \<Rightarrow> bool" where
  "hardware_ok h \<longleftrightarrow>
     identifier_ok 128 (operating_system h) \<and> identifier_ok 128 (operating_system_version h) \<and>
     identifier_ok 64 (architecture h) \<and> identifier_ok 256 (cpu_model h) \<and>
     0 < unat (cpu_logical_cores h) \<and> 0 < unat (ram_total_mib h) \<and>
     length (gpus h) \<le> 32 \<and> (\<forall>gpu \<in> set (gpus h). identifier_ok 256 (gpu_name gpu)) \<and>
     length (sandbox_mechanisms h) \<le> 16 \<and> distinct (sandbox_mechanisms h)"

definition policy_dto_ok :: "NodePolicyDto \<Rightarrow> bool" where
  "policy_dto_ok p \<longleftrightarrow>
     tags_ok (dto_reject_tags p) \<and> 1 \<le> unat (dto_max_concurrent p) \<and> unat (dto_max_concurrent p) \<le> 1024 \<and>
     (\<forall>limit. dto_gpu_temp_limit_c p = Some limit \<longrightarrow> 30 \<le> unat limit \<and> unat limit \<le> 120) \<and>
     unat (dto_vram_reserve_mib p) < 2 ^ 63"

definition register_ok :: "'v RegisterNodeRequest \<Rightarrow> bool" where
  "register_ok r \<longleftrightarrow> identifier_ok 64 (reg_alias r) \<and> hardware_ok (hardware_profile r) \<and>
     policy_dto_ok \<lparr>dto_reject_tags = reg_reject_tags r, dto_max_concurrent = reg_max_concurrent r,
         dto_gpu_temp_limit_c = reg_gpu_temp_limit_c r, dto_vram_reserve_mib = reg_vram_reserve_mib r\<rparr>"

definition heartbeat_ok :: "HeartbeatRequest \<Rightarrow> bool" where
  "heartbeat_ok r \<longleftrightarrow>
     0 \<le> sint (hb_tps_milli r) \<and> 0 \<le> sint (hb_ttft_ms r) \<and> 0 \<le> sint (hb_current_concurrent r) \<and>
     0 \<le> sint (hb_error_rate_ppm r) \<and> sint (hb_error_rate_ppm r) \<le> 1000000 \<and>
     (\<forall>v. hb_gpu_temp_c r = Some v \<longrightarrow> 0 \<le> sint v \<and> sint v \<le> 200) \<and>
     (\<forall>v. hb_coordinator_rtt_ms r = Some v \<longrightarrow> 1 \<le> sint v \<and> sint v \<le> 60000) \<and>
     (\<forall>used. hb_vram_used_mib r = Some used \<longrightarrow> 0 \<le> sint used \<and>
        (\<forall>total. hb_vram_total_mib r = Some total \<longrightarrow> sint used \<le> sint total)) \<and>
     (\<forall>total. hb_vram_total_mib r = Some total \<longrightarrow> 0 \<le> sint total) \<and>
     (\<forall>p. hb_policy r = Some p \<longrightarrow> policy_dto_ok p)"

lemma length_remdups_distinct: "length (remdups xs) = length xs \<longleftrightarrow> distinct xs"
  by (metis distinct_card distinct_remdups length_remdups_card_conv set_remdups card_distinct)

interpretation hardware: validated HardwareProfile_validate hardware_ok
  by unfold_locales
    (auto simp: HardwareProfile_validate_def hardware_ok_def result_simps length_remdups_distinct Let_def
      unat_gt_0 not_less)

interpretation policy_dto: validated NodePolicyDto_validate policy_dto_ok
  by unfold_locales
    (auto simp: NodePolicyDto_validate_def policy_dto_ok_def result_simps is_some_and_iff not_less)

interpretation register: validated RegisterNodeRequest_validate register_ok
  by unfold_locales
    (auto simp: RegisterNodeRequest_validate_def register_ok_def result_simps hardware.validate_ok
      policy_dto.validate_ok)

interpretation heartbeat: validated HeartbeatRequest_validate heartbeat_ok
  by unfold_locales
    (auto simp: HeartbeatRequest_validate_def heartbeat_ok_def result_simps is_some_and_iff opt_zip_def
      policy_dto.validate_ok not_less split: option.splits)

end
