(* ===== verification/Bytes.thy ===== *)
theory Bytes
  imports RustStr MachInt
begin

text \<open>
  Byte encodings supplied by third-party crates, with the documented behaviour the code relies on:
  \<open>Uuid::as_bytes\<close> yields sixteen bytes that determine the identifier, and \<open>hex::decode\<close> turns
  lowercase digit pairs into bytes. Both are parameters of the definitions that call them; the
  predicates below are the named hypotheses, and \<open>be_bytes\<close> and \<open>hex_pairs\<close> are the concrete
  functions that satisfy them.
\<close>

definition uuid_bytes_ok :: "(Uuid \<Rightarrow> bytes) \<Rightarrow> bool" where
  "uuid_bytes_ok as_bytes \<longleftrightarrow> inj as_bytes \<and> (\<forall>u. length (as_bytes u) = 16)"

definition hex_value :: "nat \<Rightarrow> nat" where
  "hex_value b = (if is_ascii_digit b then b - 48 else b - 87)"

fun hex_pairs :: "rstring \<Rightarrow> bytes" where
  "hex_pairs (a # b # s) = (16 * hex_value a + hex_value b) # hex_pairs s"
| "hex_pairs _ = []"

definition hex_decoder :: "(rstring \<Rightarrow> bytes option) \<Rightarrow> bool" where
  "hex_decoder d \<longleftrightarrow> (\<forall>s. even (length s) \<and> list_all is_lower_hex s \<longrightarrow> d s = Some (hex_pairs s))"

text \<open>\<open>to_be_bytes\<close> of a value of \<open>n\<close> bytes.\<close>

fun be_bytes :: "nat \<Rightarrow> nat \<Rightarrow> bytes" where
  "be_bytes 0 v = []"
| "be_bytes (Suc n) v = be_bytes n (v div 256) @ [v mod 256]"

lemma length_be_bytes [simp]: "length (be_bytes n v) = n"
  by (induction n arbitrary: v) simp_all

lemma be_bytes_inject: "v < 256 ^ n \<Longrightarrow> w < 256 ^ n \<Longrightarrow> be_bytes n v = be_bytes n w \<Longrightarrow> v = w"
proof (induction n arbitrary: v w)
  case (Suc n)
  have "v div 256 < 256 ^ n" "w div 256 < 256 ^ n"
    using Suc.prems(1,2) by (simp_all add: less_mult_imp_div_less mult.commute)
  with Suc have "v div 256 = w div 256" "v mod 256 = w mod 256" by simp_all
  then show ?case by (metis div_mult_mod_eq)
qed simp

lemma be_uuid_ok: "uuid_bytes_ok (\<lambda>u. be_bytes 16 (unat u))"
proof -
  have "unat u < 256 ^ 16" for u :: Uuid
    using unsigned_less [of u, where 'a = nat] by simp
  then have "be_bytes 16 (unat u) = be_bytes 16 (unat v) \<Longrightarrow> u = v" for u v :: Uuid
    using be_bytes_inject [of "unat u" 16 "unat v"] by (metis unsigned_word_eqI)
  then show ?thesis by (simp add: uuid_bytes_ok_def inj_def)
qed

lemma hex_pairs_decoder: "hex_decoder (\<lambda>s. Some (hex_pairs s))"
  by (simp add: hex_decoder_def)

lemma length_hex_pairs [simp]: "length (hex_pairs s) = length s div 2"
  by (induction s rule: hex_pairs.induct) simp_all

lemma hex_value_bound: "is_lower_hex b \<Longrightarrow> hex_value b < 16"
  by (auto simp: is_lower_hex_def hex_value_def is_ascii_digit_def)

lemma hex_value_inject: "is_lower_hex a \<Longrightarrow> is_lower_hex b \<Longrightarrow> hex_value a = hex_value b \<Longrightarrow> a = b"
  by (auto simp: is_lower_hex_def hex_value_def is_ascii_digit_def split: if_splits)

lemma hex_pair_inject:
  assumes "is_lower_hex a" "is_lower_hex b" "is_lower_hex c" "is_lower_hex d"
    and eq: "16 * hex_value a + hex_value b = 16 * hex_value c + hex_value d"
  shows "a = c \<and> b = d"
proof -
  have "(16 * hex_value a + hex_value b) div 16 = hex_value a"
    "(16 * hex_value c + hex_value d) div 16 = hex_value c"
    using assms(2,4) by (simp_all add: hex_value_bound)
  with eq have "hex_value a = hex_value c" by metis
  with eq assms show ?thesis by (auto intro: hex_value_inject)
qed

lemma hex_pairs_inject:
  "list_all is_lower_hex s \<Longrightarrow> list_all is_lower_hex t \<Longrightarrow> length s = length t \<Longrightarrow> even (length s) \<Longrightarrow>
   hex_pairs s = hex_pairs t \<Longrightarrow> s = t"
proof (induction s arbitrary: t rule: hex_pairs.induct)
  case (1 a b s)
  then obtain c d t' where t: "t = c # d # t'"
    by (cases t; cases "tl t") auto
  have "a = c \<and> b = d" using 1(2,3,6) t by (intro hex_pair_inject) auto
  moreover have "s = t'" using 1(2,3,4,5,6) t by (intro 1(1)) auto
  ultimately show ?case by (simp add: t)
qed auto

end
