(* ===== verification/JobWire.thy ===== *)
theory JobWire
  imports Wire Bytes "HOL-Library.Sublist"
begin

text \<open>
  The job messages of \<open>mindone-protocol/src/jobs.rs\<close>: speed-qualified model names, the token
  authorization of a standard payload, the regulated envelope with its associated data, and the
  \<open>Validate\<close> implementations of every job request. Libraries are parameters: \<open>serde_json\<close> is a
  record of the functions the code calls, the URL-safe base64 decoder, \<open>hex::decode\<close> and
  \<open>Uuid::as_bytes\<close> are functions. Zeroizing a buffer after use has no effect on results and is not
  modelled.
\<close>

section \<open>Enumerations and constants\<close>

definition REGULATED_ENVELOPE_VERSION :: u16 where
  "REGULATED_ENVELOPE_VERSION = 1"

definition REGULATED_ALGORITHM :: rstring where
  "REGULATED_ALGORITHM = lit ''x25519-hkdf-sha256-chacha20poly1305''"

datatype EnvelopeDirection = Request | Result

datatype JobStatus = Queued | Retry | Leased | Succeeded | Failed | Cancelled

datatype SpeedClass = Fast | StandardSpeed | Slow

datatype JobErrorClass =
  Engine | Model | Policy | Timeout | ResourceExhausted | NodeDisconnected | InvalidRequest | Internal
| Attestation

datatype PayloadEncoding = Base64 | Base64Url | RegulatedAeadV1

fun SpeedClass_as_str :: "SpeedClass \<Rightarrow> rstring" where
  "SpeedClass_as_str Fast = lit ''fast''"
| "SpeedClass_as_str StandardSpeed = lit ''standard''"
| "SpeedClass_as_str Slow = lit ''slow''"

fun PayloadEncoding_as_str :: "PayloadEncoding \<Rightarrow> rstring" where
  "PayloadEncoding_as_str Base64 = lit ''base64''"
| "PayloadEncoding_as_str Base64Url = lit ''base64url''"
| "PayloadEncoding_as_str RegulatedAeadV1 = lit ''regulated_aead_v1''"

definition DEFAULT_NETWORK_MAX_OUTPUT_TOKENS :: u32 where
  "DEFAULT_NETWORK_MAX_OUTPUT_TOKENS = 256"

definition MAX_JOB_STREAM_EVENT_BYTES :: nat where
  "MAX_JOB_STREAM_EVENT_BYTES = 64 * 1024"

definition MAX_JOB_STREAM_EVENTS :: i32 where
  "MAX_JOB_STREAM_EVENTS = 65536"

definition MAX_JOB_STREAM_TOTAL_BYTES :: i64 where
  "MAX_JOB_STREAM_TOTAL_BYTES = 650 * 1024"

section \<open>Speed-qualified model names\<close>

record SpeedQualifiedModel =
  base_model :: rstring
  speed_class :: SpeedClass

definition strip_suffix :: "rstring \<Rightarrow> rstring \<Rightarrow> rstring option" where
  "strip_suffix suf s =
     (if length suf \<le> length s \<and> drop (length s - length suf) s = suf
      then Some (take (length s - length suf) s) else None)"

definition parse_speed_qualified_model :: "rstring \<Rightarrow> SpeedQualifiedModel wire" where
  "parse_speed_qualified_model model =
     (let (base, class) =
        (case strip_suffix (lit ''-fast'') model of
           Some base \<Rightarrow> (base, Fast)
         | None \<Rightarrow>
             (case strip_suffix (lit ''-slow'') model of
                Some base \<Rightarrow> (base, Slow)
              | None \<Rightarrow> (model, StandardSpeed)))
      in if base = [] then invalid ''virtual_model'' ''a model name must precede the speed suffix''
         else and_then (validate_identifier ''virtual_model'' base 128) (\<lambda>_.
           Inr \<lparr>base_model = base, speed_class = class\<rparr>))"

fun speed_suffix :: "SpeedClass \<Rightarrow> rstring" where
  "speed_suffix Fast = lit ''-fast''"
| "speed_suffix StandardSpeed = []"
| "speed_suffix Slow = lit ''-slow''"

definition has_speed_suffix :: "rstring \<Rightarrow> bool" where
  "has_speed_suffix s \<longleftrightarrow> suffix (lit ''-fast'') s \<or> suffix (lit ''-slow'') s"

lemma strip_suffix_Some: "strip_suffix suf s = Some base \<longleftrightarrow> s = base @ suf"
proof
  assume "strip_suffix suf s = Some base"
  then show "s = base @ suf"
    unfolding strip_suffix_def by (metis append_take_drop_id option.inject option.distinct(1))
qed (simp add: strip_suffix_def)

lemma strip_suffix_None: "strip_suffix suf s = None \<longleftrightarrow> \<not> suffix suf s"
proof -
  have "strip_suffix suf s \<noteq> None \<longleftrightarrow> (\<exists>base. s = base @ suf)" by (simp add: strip_suffix_Some)
  then show ?thesis by (auto simp: suffix_def)
qed

lemma fast_not_slow: "a @ lit ''-fast'' \<noteq> b @ lit ''-slow''"
proof
  assume "a @ lit ''-fast'' = b @ lit ''-slow''"
  then have "last (a @ lit ''-fast'') = last (b @ lit ''-slow'')" by simp
  then show False by simp
qed

lemma identifier_ok_nonempty: "identifier_ok n s \<Longrightarrow> s \<noteq> []"
  by (auto simp: identifier_ok_def)

lemma parse_speed_iff:
  "parse_speed_qualified_model model = Inr q \<longleftrightarrow>
     model = base_model q @ speed_suffix (speed_class q) \<and> identifier_ok 128 (base_model q) \<and>
     (speed_class q = StandardSpeed \<longrightarrow> \<not> has_speed_suffix model)"
  (is "?p = _ \<longleftrightarrow> ?r")
proof (cases "strip_suffix (lit ''-fast'') model")
  case (Some base)
  then have m: "model = base @ lit ''-fast''" by (simp only: strip_suffix_Some)
  then have h: "has_speed_suffix model" by (auto simp: has_speed_suffix_def suffix_def simp del: lit_simps)
  have "?p = Inr q \<longleftrightarrow> identifier_ok 128 base \<and> q = \<lparr>base_model = base, speed_class = Fast\<rparr>"
    unfolding parse_speed_qualified_model_def Some
    by (auto simp: result_simps dest: identifier_ok_nonempty)
  also have "\<dots> \<longleftrightarrow> ?r"
    using m h fast_not_slow by (cases "speed_class q"; cases q) (auto simp del: lit_simps)
  finally show ?thesis .
next
  case None
  then have nf: "\<not> suffix (lit ''-fast'') model" by (simp only: strip_suffix_None not_False_eq_True)
  show ?thesis
  proof (cases "strip_suffix (lit ''-slow'') model")
    case (Some base)
    then have m: "model = base @ lit ''-slow''" by (simp only: strip_suffix_Some)
    then have h: "has_speed_suffix model" by (auto simp: has_speed_suffix_def suffix_def simp del: lit_simps)
    have "?p = Inr q \<longleftrightarrow> identifier_ok 128 base \<and> q = \<lparr>base_model = base, speed_class = Slow\<rparr>"
      unfolding parse_speed_qualified_model_def None Some
      by (auto simp: result_simps dest: identifier_ok_nonempty)
    also have "\<dots> \<longleftrightarrow> ?r"
      using m h fast_not_slow [symmetric] by (cases "speed_class q"; cases q) (auto simp del: lit_simps)
    finally show ?thesis .
  next
    case none2: None
    then have ns: "\<not> suffix (lit ''-slow'') model" by (simp only: strip_suffix_None not_False_eq_True)
    have "?p = Inr q \<longleftrightarrow> identifier_ok 128 model \<and> q = \<lparr>base_model = model, speed_class = StandardSpeed\<rparr>"
      unfolding parse_speed_qualified_model_def None none2
      by (auto simp: result_simps dest: identifier_ok_nonempty)
    also have "\<dots> \<longleftrightarrow> ?r"
      using nf ns by (cases "speed_class q"; cases q)
        (auto simp: has_speed_suffix_def suffix_def simp del: lit_simps)
    finally show ?thesis .
  qed
qed

section \<open>Standard payloads\<close>

text \<open>
  The calls into \<open>serde_json\<close>: \<open>as_object().keys()\<close>, \<open>to_vec\<close>, \<open>from_slice\<close> at the two
  request types and \<open>from_str\<close> at \<open>Value\<close>. \<open>usize\<close> is 64 bits wide.
\<close>

record 'v serde_json =
  object_keys :: "'v \<Rightarrow> rstring list option"
  to_vec :: "'v \<Rightarrow> bytes option"
  chat_from_slice :: "bytes \<Rightarrow> ChatCompletionsRequest option"
  completions_from_slice :: "bytes \<Rightarrow> CompletionsRequest option"
  value_from_str :: "rstring \<Rightarrow> 'v option"

definition usize_max :: nat where
  "usize_max = 18446744073709551615"

definition saturating_add :: "nat \<Rightarrow> nat \<Rightarrow> nat" where
  "saturating_add a b = min (a + b) usize_max"

definition saturating_mul :: "nat \<Rightarrow> nat \<Rightarrow> nat" where
  "saturating_mul a b = min (a * b) usize_max"

definition i32_try_from :: "nat \<Rightarrow> i32 option" where
  "i32_try_from n = (if n \<le> 2147483647 then Some (word_of_int (int n)) else None)"

definition u32_checked_mul :: "u32 \<Rightarrow> u32 \<Rightarrow> u32 option" where
  "u32_checked_mul a b = (if unat a * unat b < 2 ^ 32 then Some (a * b) else None)"

definition conservative_input_token_authorization :: "'v serde_json \<Rightarrow> 'v \<Rightarrow> i32 wire" where
  "conservative_input_token_authorization js request =
     and_then (ok_or (to_vec js request) (ProtocolValidationError_new ''request'' ''cannot encode request JSON''))
       (\<lambda>serialized.
         ok_or (i32_try_from (max (saturating_add (length serialized) 1024) 1))
           (ProtocolValidationError_new ''estimated_input_tokens'' ''request exceeds the token authorization range''))"

record 'v StandardJobPayload =
  endpoint :: rstring
  request :: 'v

record StandardJobLimits =
  lim_model :: rstring
  minimum_input_tokens :: i32
  maximum_output_tokens :: i32
  lim_stream :: bool

definition validate_standard_request_fields :: "'v serde_json \<Rightarrow> 'v \<Rightarrow> rstring list \<Rightarrow> unit wire" where
  "validate_standard_request_fields js req allowed_fields =
     and_then (ok_or (object_keys js req) (ProtocolValidationError_new ''request'' ''must be a JSON object''))
       (\<lambda>keys. case find (\<lambda>k. k \<notin> set allowed_fields) keys of
          Some k \<Rightarrow> invalid ''request'' (''unsupported field: '' @ map char_of k)
        | None \<Rightarrow> Inr ())"

definition OPENAI_CHAT_COMPLETIONS :: rstring where
  "OPENAI_CHAT_COMPLETIONS = lit ''/v1/chat/completions''"

definition OPENAI_COMPLETIONS :: rstring where
  "OPENAI_COMPLETIONS = lit ''/v1/completions''"

definition chat_fields :: "rstring list" where
  "chat_fields = map lit [''model'', ''messages'', ''stream'', ''max_tokens'', ''max_completion_tokens'',
     ''temperature'', ''top_p'', ''seed'', ''n'', ''stop'', ''user'']"

definition completions_fields :: "rstring list" where
  "completions_fields = map lit [''model'', ''prompt'', ''stream'', ''max_tokens'', ''temperature'',
     ''top_p'', ''n'', ''stop'', ''user'']"

definition unwrap_or :: "'a option \<Rightarrow> 'a \<Rightarrow> 'a" where
  "unwrap_or m d = (case m of None \<Rightarrow> d | Some x \<Rightarrow> x)"

definition chat_limits :: "'v serde_json \<Rightarrow> 'v \<Rightarrow> (rstring \<times> bool \<times> u32 \<times> u32) wire" where
  "chat_limits js req =
     and_then (validate_standard_request_fields js req chat_fields) (\<lambda>_.
     and_then (ok_or (to_vec js req) (ProtocolValidationError_new ''request'' ''cannot encode chat request'')) (\<lambda>serialized.
     and_then (ok_or (chat_from_slice js serialized)
       (ProtocolValidationError_new ''request'' ''invalid chat request structure'')) (\<lambda>r.
     and_then (ChatCompletionsRequest_validate r) (\<lambda>_.
       if chat_max_tokens r \<noteq> None \<and> max_completion_tokens r \<noteq> None
       then invalid ''max_tokens'' ''max_tokens and max_completion_tokens are exclusive''
       else Inr (chat_model r, chat_stream r,
         unwrap_or (opt_or (chat_max_tokens r) (max_completion_tokens r)) DEFAULT_NETWORK_MAX_OUTPUT_TOKENS,
         unwrap_or (chat_n r) 1)))))"

definition completions_limits :: "'v serde_json \<Rightarrow> 'v \<Rightarrow> (rstring \<times> bool \<times> u32 \<times> u32) wire" where
  "completions_limits js req =
     and_then (validate_standard_request_fields js req completions_fields) (\<lambda>_.
     and_then (ok_or (to_vec js req) (ProtocolValidationError_new ''request'' ''cannot encode completion request'')) (\<lambda>serialized.
     and_then (ok_or (completions_from_slice js serialized)
       (ProtocolValidationError_new ''request'' ''invalid completion request structure'')) (\<lambda>r.
     and_then (CompletionsRequest_validate r) (\<lambda>_.
       Inr (cmp_model r, cmp_stream r, unwrap_or (cmp_max_tokens r) DEFAULT_NETWORK_MAX_OUTPUT_TOKENS,
         unwrap_or (cmp_n r) 1)))))"

text \<open>\<open>checked_mul(..).and_then(i32::try_from).filter(0 < v <= 1\_000\_000)\<close>.\<close>

definition output_token_limit :: "u32 \<Rightarrow> u32 \<Rightarrow> i32 option" where
  "output_token_limit per_choice choices =
     (case u32_checked_mul per_choice choices of
        None \<Rightarrow> None
      | Some v \<Rightarrow> (case i32_try_from (unat v) of
          None \<Rightarrow> None
        | Some w \<Rightarrow> if sint w > 0 \<and> sint w \<le> 1000000 then Some w else None))"

definition validated_limits :: "'v serde_json \<Rightarrow> 'v StandardJobPayload \<Rightarrow> StandardJobLimits wire" where
  "validated_limits js p =
     and_then
       (if endpoint p = OPENAI_CHAT_COMPLETIONS then chat_limits js (request p)
        else if endpoint p = OPENAI_COMPLETIONS then completions_limits js (request p)
        else invalid ''endpoint'' ''only chat/completions or completions'')
       (\<lambda>(model, stream, per_choice, choices).
         and_then (validate_identifier ''model'' model 128) (\<lambda>_.
         and_then (ok_or (output_token_limit per_choice choices)
           (ProtocolValidationError_new ''max_output_tokens'' ''invalid output token authorization'')) (\<lambda>out.
         and_then (conservative_input_token_authorization js (request p)) (\<lambda>inp.
           Inr \<lparr>lim_model = model, minimum_input_tokens = inp, maximum_output_tokens = out, lim_stream = stream\<rparr>))))"

lemma i32_try_from_Some [result_simps]: "i32_try_from n = Some w \<longleftrightarrow> n \<le> 2147483647 \<and> sint w = int n"
proof -
  have "n \<le> 2147483647 \<Longrightarrow> sint (word_of_int (int n) :: i32) = int n"
    using sint_word_of_int_fits_iff [of "int n", where 'a = 32] by simp
  then show ?thesis by (auto simp: i32_try_from_def intro: word_eq_sintI)
qed

lemma output_token_limit_Some:
  "output_token_limit a b = Some w \<longleftrightarrow>
     sint w = int (unat a * unat b) \<and> 0 < unat a * unat b \<and> unat a * unat b \<le> 1000000"
proof -
  have "unat a * unat b < 2 ^ 32 \<Longrightarrow> unat (a * b) = unat a * unat b"
    by (simp add: unat_word_ariths)
  then show ?thesis
    by (auto simp: output_token_limit_def u32_checked_mul_def i32_try_from_Some of_nat_mult [symmetric]
        simp del: of_nat_mult split: option.splits if_splits)
      (auto simp: i32_try_from_def intro: word_eq_sintI split: if_splits)
qed

lemma input_authorization_iff:
  "conservative_input_token_authorization js req = Inr n \<longleftrightarrow>
     (\<exists>bytes. to_vec js req = Some bytes \<and> length bytes + 1024 < 2 ^ 31 \<and> sint n = int (length bytes + 1024))"
  by (auto simp: conservative_input_token_authorization_def result_simps saturating_add_def usize_max_def max_def min_def)

section \<open>Envelopes\<close>

definition is_ascii_whitespace :: "nat \<Rightarrow> bool" where
  "is_ascii_whitespace b \<longleftrightarrow> b = 32 \<or> b = 9 \<or> b = 10 \<or> b = 12 \<or> b = 13"

definition validate_lower_hex :: "string \<Rightarrow> rstring \<Rightarrow> nat \<Rightarrow> unit wire" where
  "validate_lower_hex f v decoded_len =
     (if str_len v \<noteq> saturating_mul decoded_len 2 \<or> \<not> list_all is_lower_hex (utf8 v)
      then invalid f (''must be '' @ show_nat decoded_len @ '' bytes of lowercase hexadecimal'')
      else Inr ())"

definition decode_base64url :: "(rstring \<Rightarrow> bytes option) \<Rightarrow> string \<Rightarrow> rstring \<Rightarrow> nat \<Rightarrow> nat \<Rightarrow> bytes wire" where
  "decode_base64url b64 f v minimum maximum =
     (if v = [] \<or> str_len v > saturating_add (saturating_mul maximum 4 div 3) 4 \<or>
         list_ex (\<lambda>b. is_ascii_whitespace b \<or> b = 61) (utf8 v)
      then invalid f ''must be unpadded URL-safe base64''
      else and_then (ok_or (b64 v) (ProtocolValidationError_new f ''invalid URL-safe base64'')) (\<lambda>decoded.
        if \<not> (minimum \<le> length decoded \<and> length decoded \<le> maximum)
        then invalid f ''decoded length out of range''
        else Inr decoded))"

record RegulatedEnvelope =
  env_version :: u16
  env_algorithm :: rstring
  direction :: EnvelopeDirection
  env_route_id :: Uuid
  report_id :: Uuid
  env_model_instance_id :: Uuid
  sender_public_key :: rstring
  env_nonce :: rstring
  env_ciphertext :: rstring

definition RegulatedEnvelope_validate :: "(rstring \<Rightarrow> bytes option) \<Rightarrow> RegulatedEnvelope \<Rightarrow> unit wire" where
  "RegulatedEnvelope_validate b64 e =
     (if env_version e \<noteq> REGULATED_ENVELOPE_VERSION then invalid ''version'' ''unsupported version''
      else if env_algorithm e \<noteq> REGULATED_ALGORITHM then invalid ''algorithm'' ''unsupported algorithm''
      else and_then (validate_lower_hex ''sender_public_key'' (sender_public_key e) 32) (\<lambda>_.
        if list_all (\<lambda>b. b = 48) (utf8 (sender_public_key e))
        then invalid ''sender_public_key'' ''the X25519 key must not be zero''
        else and_then (decode_base64url b64 ''nonce'' (env_nonce e) 12 12) (\<lambda>nonce.
          if list_all (\<lambda>b. b = 0) nonce then invalid ''nonce'' ''the AEAD nonce must not be zero''
          else and_then (decode_base64url b64 ''ciphertext'' (env_ciphertext e) 17 900000) (\<lambda>ciphertext.
            if length ciphertext < 17 then invalid ''ciphertext'' ''missing AEAD tag or plaintext''
            else Inr ()))))"

text \<open>\<open>aad\_domain\<close> is the byte string \<open>b"MindOne Regulated E2EE AAD v1\\0"\<close>.\<close>

definition aad_domain :: bytes where
  "aad_domain = lit ''MindOne Regulated E2EE AAD v1'' @ [0]"

fun direction_byte :: "EnvelopeDirection \<Rightarrow> nat" where
  "direction_byte Request = 1"
| "direction_byte Result = 2"

definition regulated_aad ::
  "(Uuid \<Rightarrow> bytes) \<Rightarrow> (rstring \<Rightarrow> bytes option) \<Rightarrow> EnvelopeDirection \<Rightarrow> Uuid \<Rightarrow> Uuid \<Rightarrow> Uuid \<Rightarrow> rstring \<Rightarrow> bytes wire" where
  "regulated_aad as_bytes hex_decode dir route report model_instance model_weights_hash =
     and_then (validate_lower_hex ''model_weights_hash'' model_weights_hash 32) (\<lambda>_.
     and_then (ok_or (hex_decode model_weights_hash)
       (ProtocolValidationError_new ''model_weights_hash'' ''invalid model hash encoding'')) (\<lambda>model_hash.
       Inr (aad_domain @ [direction_byte dir] @ as_bytes route @ as_bytes report @ as_bytes model_instance @ model_hash)))"

section \<open>Job requests\<close>

definition validate_job_metadata ::
  "rstring \<Rightarrow> rstring list \<Rightarrow> i32 \<Rightarrow> i32 \<Rightarrow> rstring \<Rightarrow> i32 \<Rightarrow> unit wire" where
  "validate_job_metadata vm tags inp out key prio =
     and_then (validate_identifier ''virtual_model'' vm 128) (\<lambda>_.
     and_then (validate_identifier ''idempotency_key'' key 200) (\<lambda>_.
     and_then (validate_tags tags) (\<lambda>_.
       if sint inp < 0 \<or> sint out \<le> 0
       then invalid ''token_limits'' ''input must not be negative, output must be positive''
       else if sint out > 1000000 then invalid ''max_output_tokens'' ''at most 1000000''
       else if \<not> (- 100 \<le> sint prio \<and> sint prio \<le> 100) then invalid ''priority'' ''between -100 and 100''
       else Inr ())))"

record PrepareRegulatedJobRequest =
  prep_virtual_model :: rstring
  prep_tags :: "rstring list"
  prep_estimated_input_tokens :: i32
  prep_max_output_tokens :: i32
  prep_idempotency_key :: rstring
  prep_priority :: i32

definition PrepareRegulatedJobRequest_validate :: "PrepareRegulatedJobRequest \<Rightarrow> unit wire" where
  "PrepareRegulatedJobRequest_validate r =
     validate_job_metadata (prep_virtual_model r) (prep_tags r) (prep_estimated_input_tokens r)
       (prep_max_output_tokens r) (prep_idempotency_key r) (prep_priority r)"

record CreateRegulatedJobRequest =
  cr_route_id :: Uuid
  envelope :: RegulatedEnvelope
  cr_idempotency_key :: rstring

definition CreateRegulatedJobRequest_validate ::
  "(rstring \<Rightarrow> bytes option) \<Rightarrow> CreateRegulatedJobRequest \<Rightarrow> unit wire" where
  "CreateRegulatedJobRequest_validate b64 r =
     and_then (validate_identifier ''idempotency_key'' (cr_idempotency_key r) 200) (\<lambda>_.
     and_then (RegulatedEnvelope_validate b64 (envelope r)) (\<lambda>_.
       if direction (envelope r) \<noteq> Request then invalid ''direction'' ''submission uses the request direction''
       else if env_route_id (envelope r) \<noteq> cr_route_id r
       then invalid ''route_id'' ''envelope does not match the prepared route''
       else Inr ()))"

record EncryptedEnvelope =
  enc_version :: u16
  enc_algorithm :: rstring
  enc_ephemeral_public_key :: rstring
  enc_nonce :: rstring
  enc_ciphertext :: rstring
  associated_data :: "rstring option"
  enc_attestation_report_id :: "Uuid option"

definition EncryptedEnvelope_validate :: "EncryptedEnvelope \<Rightarrow> unit wire" where
  "EncryptedEnvelope_validate e =
     (if enc_version e = 0 then invalid ''version'' ''must be positive''
      else and_then (validate_identifier ''algorithm'' (enc_algorithm e) 128) (\<lambda>_.
        and_then (validate_identifier ''ephemeral_public_key'' (enc_ephemeral_public_key e) 4096) (\<lambda>_.
        and_then (validate_identifier ''nonce'' (enc_nonce e) 1024) (\<lambda>_.
          validate_identifier ''ciphertext'' (enc_ciphertext e) (16 * 1024 * 1024)))))"

record CreateJobRequest =
  virtual_model :: rstring
  encrypted_payload :: rstring
  payload_encoding :: PayloadEncoding
  job_tags :: "rstring list"
  estimated_input_tokens :: i32
  max_output_tokens :: i32
  job_idempotency_key :: rstring
  priority :: i32

definition CreateJobRequest_validate :: "CreateJobRequest \<Rightarrow> unit wire" where
  "CreateJobRequest_validate r =
     (if payload_encoding r = RegulatedAeadV1
      then invalid ''payload_encoding'' ''standard jobs cannot use regulated_aead_v1''
      else and_then (validate_identifier ''encrypted_payload'' (encrypted_payload r) 900000) (\<lambda>_.
        validate_job_metadata (virtual_model r) (job_tags r) (estimated_input_tokens r)
          (max_output_tokens r) (job_idempotency_key r) (priority r)))"

record JobExecutionTelemetry =
  ttft_ms :: "i64 option"
  tps_milli :: "i64 option"
  peak_vram_mib :: "i64 option"
  vram_sample_count :: u32

definition JobExecutionTelemetry_validate :: "JobExecutionTelemetry \<Rightarrow> unit wire" where
  "JobExecutionTelemetry_validate r =
     (if is_some_and (ttft_ms r) (\<lambda>v. \<not> (1 \<le> sint v \<and> sint v \<le> 7 * 24 * 60 * 60 * 1000))
      then invalid ''execution_telemetry.ttft_ms'' ''positive and at most 7 days''
      else if is_some_and (tps_milli r) (\<lambda>v. \<not> (1 \<le> sint v \<and> sint v \<le> 1000000000000))
      then invalid ''execution_telemetry.tps_milli'' ''positive and within the protocol bound''
      else if is_some_and (peak_vram_mib r) (\<lambda>v. \<not> (0 \<le> sint v \<and> sint v \<le> 1048576))
      then invalid ''execution_telemetry.peak_vram_mib'' ''not negative and within the protocol bound''
      else if unat (vram_sample_count r) > 10000000 \<or> (vram_sample_count r = 0) \<noteq> (peak_vram_mib r = None)
      then invalid ''execution_telemetry.vram_sample_count'' ''peak and sample count disagree''
      else Inr ())"

record JobResultRequest =
  res_node_id :: Uuid
  res_idempotency_key :: rstring
  result_ciphertext :: rstring
  actual_input_tokens :: i32
  actual_output_tokens :: i32
  execution_telemetry :: JobExecutionTelemetry

definition JobResultRequest_validate :: "JobResultRequest \<Rightarrow> unit wire" where
  "JobResultRequest_validate r =
     and_then (validate_identifier ''idempotency_key'' (res_idempotency_key r) 200) (\<lambda>_.
     and_then (validate_identifier ''result_ciphertext'' (result_ciphertext r) 900000) (\<lambda>_.
       if sint (actual_input_tokens r) < 0 \<or> sint (actual_output_tokens r) < 0
       then invalid ''actual_tokens'' ''token counts must not be negative''
       else JobExecutionTelemetry_validate (execution_telemetry r)))"

datatype JobStreamEventKind = Data | UpstreamDone

record JobStreamEventRequest =
  ev_node_id :: Uuid
  ev_attempt :: i32
  ev_sequence :: i32
  ev_idempotency_key :: rstring
  ev_kind :: JobStreamEventKind
  event_data :: "rstring option"

definition JobStreamEventRequest_validate :: "'v serde_json \<Rightarrow> JobStreamEventRequest \<Rightarrow> unit wire" where
  "JobStreamEventRequest_validate js r =
     (if sint (ev_attempt r) \<le> 0 then invalid ''attempt'' ''must be positive''
      else if \<not> (0 \<le> sint (ev_sequence r) \<and> sint (ev_sequence r) < sint MAX_JOB_STREAM_EVENTS)
      then invalid ''sequence'' ''beyond the protocol bound''
      else and_then (validate_identifier ''idempotency_key'' (ev_idempotency_key r) 200) (\<lambda>_.
        case (ev_kind r, event_data r) of
          (Data, Some d) \<Rightarrow>
            if d = [] \<or> str_len d > MAX_JOB_STREAM_EVENT_BYTES
            then invalid ''event_data'' ''empty or beyond the safe size''
            else and_then (ok_or (value_from_str js d) (ProtocolValidationError_new ''event_data'' ''not JSON'')) (\<lambda>v.
              if object_keys js v = None then invalid ''event_data'' ''must be a JSON object'' else Inr ())
        | (UpstreamDone, None) \<Rightarrow> Inr ()
        | (Data, None) \<Rightarrow> invalid ''event_data'' ''a data event has a body''
        | (UpstreamDone, Some _) \<Rightarrow> invalid ''event_data'' ''upstream_done has no body''))"

record JobFailRequest =
  fail_node_id :: Uuid
  fail_idempotency_key :: rstring
  error_class :: JobErrorClass
  error_message :: rstring
  retryable :: bool

definition JobFailRequest_validate :: "JobFailRequest \<Rightarrow> unit wire" where
  "JobFailRequest_validate r =
     and_then (validate_identifier ''idempotency_key'' (fail_idempotency_key r) 200) (\<lambda>_.
       validate_identifier ''error_message'' (error_message r) 1000)"

section \<open>Contracts\<close>

definition base64url_ok :: "(rstring \<Rightarrow> bytes option) \<Rightarrow> rstring \<Rightarrow> nat \<Rightarrow> nat \<Rightarrow> bytes \<Rightarrow> bool" where
  "base64url_ok b64 v minimum maximum decoded \<longleftrightarrow>
     v \<noteq> [] \<and> str_len v \<le> maximum * 4 div 3 + 4 \<and>
     list_all (\<lambda>b. \<not> is_ascii_whitespace b \<and> b \<noteq> 61) (utf8 v) \<and>
     b64 v = Some decoded \<and> minimum \<le> length decoded \<and> length decoded \<le> maximum"

definition envelope_ok :: "(rstring \<Rightarrow> bytes option) \<Rightarrow> RegulatedEnvelope \<Rightarrow> bool" where
  "envelope_ok b64 e \<longleftrightarrow>
     env_version e = REGULATED_ENVELOPE_VERSION \<and> env_algorithm e = REGULATED_ALGORITHM \<and>
     lower_hex_ok 64 (sender_public_key e) \<and> (\<exists>b \<in> set (sender_public_key e). b \<noteq> 48) \<and>
     (\<exists>nonce. base64url_ok b64 (env_nonce e) 12 12 nonce \<and> (\<exists>b \<in> set nonce. b \<noteq> 0)) \<and>
     (\<exists>ciphertext. base64url_ok b64 (env_ciphertext e) 17 900000 ciphertext)"

definition metadata_ok :: "rstring \<Rightarrow> rstring list \<Rightarrow> i32 \<Rightarrow> i32 \<Rightarrow> rstring \<Rightarrow> i32 \<Rightarrow> bool" where
  "metadata_ok vm tags inp out key prio \<longleftrightarrow>
     identifier_ok 128 vm \<and> identifier_ok 200 key \<and> tags_ok tags \<and>
     0 \<le> sint inp \<and> 0 < sint out \<and> sint out \<le> 1000000 \<and> - 100 \<le> sint prio \<and> sint prio \<le> 100"

definition prepare_ok :: "PrepareRegulatedJobRequest \<Rightarrow> bool" where
  "prepare_ok r \<longleftrightarrow> metadata_ok (prep_virtual_model r) (prep_tags r) (prep_estimated_input_tokens r)
       (prep_max_output_tokens r) (prep_idempotency_key r) (prep_priority r)"

definition create_regulated_ok :: "(rstring \<Rightarrow> bytes option) \<Rightarrow> CreateRegulatedJobRequest \<Rightarrow> bool" where
  "create_regulated_ok b64 r \<longleftrightarrow> identifier_ok 200 (cr_idempotency_key r) \<and> envelope_ok b64 (envelope r) \<and>
     direction (envelope r) = Request \<and> env_route_id (envelope r) = cr_route_id r"

definition encrypted_envelope_ok :: "EncryptedEnvelope \<Rightarrow> bool" where
  "encrypted_envelope_ok e \<longleftrightarrow> 0 < unat (enc_version e) \<and> identifier_ok 128 (enc_algorithm e) \<and>
     identifier_ok 4096 (enc_ephemeral_public_key e) \<and> identifier_ok 1024 (enc_nonce e) \<and>
     identifier_ok (16 * 1024 * 1024) (enc_ciphertext e)"

definition create_job_ok :: "CreateJobRequest \<Rightarrow> bool" where
  "create_job_ok r \<longleftrightarrow> payload_encoding r \<noteq> RegulatedAeadV1 \<and> identifier_ok 900000 (encrypted_payload r) \<and>
     metadata_ok (virtual_model r) (job_tags r) (estimated_input_tokens r)
       (max_output_tokens r) (job_idempotency_key r) (priority r)"

definition telemetry_ok :: "JobExecutionTelemetry \<Rightarrow> bool" where
  "telemetry_ok r \<longleftrightarrow>
     (\<forall>v. ttft_ms r = Some v \<longrightarrow> 1 \<le> sint v \<and> sint v \<le> 604800000) \<and>
     (\<forall>v. tps_milli r = Some v \<longrightarrow> 1 \<le> sint v \<and> sint v \<le> 10 ^ 12) \<and>
     (\<forall>v. peak_vram_mib r = Some v \<longrightarrow> 0 \<le> sint v \<and> sint v \<le> 2 ^ 20) \<and>
     unat (vram_sample_count r) \<le> 10000000 \<and> (peak_vram_mib r \<noteq> None \<longleftrightarrow> 0 < unat (vram_sample_count r))"

definition result_ok :: "JobResultRequest \<Rightarrow> bool" where
  "result_ok r \<longleftrightarrow> identifier_ok 200 (res_idempotency_key r) \<and> identifier_ok 900000 (result_ciphertext r) \<and>
     0 \<le> sint (actual_input_tokens r) \<and> 0 \<le> sint (actual_output_tokens r) \<and>
     telemetry_ok (execution_telemetry r)"

definition stream_event_ok :: "'v serde_json \<Rightarrow> JobStreamEventRequest \<Rightarrow> bool" where
  "stream_event_ok js r \<longleftrightarrow>
     0 < sint (ev_attempt r) \<and> 0 \<le> sint (ev_sequence r) \<and> sint (ev_sequence r) < 65536 \<and>
     identifier_ok 200 (ev_idempotency_key r) \<and>
     (ev_kind r = UpstreamDone \<longleftrightarrow> event_data r = None) \<and>
     (\<forall>d. event_data r = Some d \<longrightarrow> d \<noteq> [] \<and> str_len d \<le> 65536 \<and>
        (\<exists>v. value_from_str js d = Some v \<and> object_keys js v \<noteq> None))"

definition fail_ok :: "JobFailRequest \<Rightarrow> bool" where
  "fail_ok r \<longleftrightarrow> identifier_ok 200 (fail_idempotency_key r) \<and> identifier_ok 1000 (error_message r)"

lemma validate_lower_hex_32 [result_simps]: "validate_lower_hex f v 32 = Inr u \<longleftrightarrow> lower_hex_ok 64 v"
  using hex_len_iff [of v 64] by (auto simp: validate_lower_hex_def saturating_mul_def usize_max_def)

lemma decode_base64url_iff:
  assumes "maximum \<le> 900000"
  shows "decode_base64url b64 f v minimum maximum = Inr d \<longleftrightarrow> base64url_ok b64 v minimum maximum d"
proof -
  have "saturating_add (saturating_mul maximum 4 div 3) 4 = maximum * 4 div 3 + 4"
    using assms by (simp add: saturating_add_def saturating_mul_def usize_max_def)
  then show ?thesis
    by (auto simp: decode_base64url_def base64url_ok_def result_simps list_ex_iff list_all_iff not_less)
qed

lemma hex_utf8: "lower_hex_ok n v \<Longrightarrow> utf8 v = v"
  by (rule utf8_ascii) (auto simp: lower_hex_ok_def is_ascii_str_def list_all_iff dest: is_lower_hex_ascii)

interpretation regulated_envelope: validated "RegulatedEnvelope_validate b64" "envelope_ok b64" for b64
  by unfold_locales
    (auto simp: RegulatedEnvelope_validate_def envelope_ok_def result_simps decode_base64url_iff hex_utf8
      list_all_iff base64url_ok_def not_less)

lemma validate_job_metadata_iff [result_simps]:
  "validate_job_metadata vm tags inp out key prio = Inr u \<longleftrightarrow> metadata_ok vm tags inp out key prio"
  by (auto simp: validate_job_metadata_def metadata_ok_def result_simps)

interpretation prepare: validated PrepareRegulatedJobRequest_validate prepare_ok
  by unfold_locales (auto simp: PrepareRegulatedJobRequest_validate_def prepare_ok_def result_simps)

interpretation create_regulated: validated "CreateRegulatedJobRequest_validate b64" "create_regulated_ok b64" for b64
  by unfold_locales
    (auto simp: CreateRegulatedJobRequest_validate_def create_regulated_ok_def result_simps
      regulated_envelope.validate_ok)

interpretation encrypted_envelope: validated EncryptedEnvelope_validate encrypted_envelope_ok
  by unfold_locales
    (auto simp: EncryptedEnvelope_validate_def encrypted_envelope_ok_def result_simps unat_gt_0)

interpretation create_job: validated CreateJobRequest_validate create_job_ok
  by unfold_locales (auto simp: CreateJobRequest_validate_def create_job_ok_def result_simps)

interpretation telemetry: validated JobExecutionTelemetry_validate telemetry_ok
  by unfold_locales
    (auto simp: JobExecutionTelemetry_validate_def telemetry_ok_def result_simps is_some_and_iff unat_gt_0 not_less)

interpretation result: validated JobResultRequest_validate result_ok
  by unfold_locales
    (auto simp: JobResultRequest_validate_def result_ok_def result_simps telemetry.validate_ok)

interpretation stream_event: validated "JobStreamEventRequest_validate js" "stream_event_ok js" for js
  by unfold_locales
    (auto simp: JobStreamEventRequest_validate_def stream_event_ok_def result_simps MAX_JOB_STREAM_EVENTS_def
      MAX_JOB_STREAM_EVENT_BYTES_def split: option.splits JobStreamEventKind.splits)

interpretation fail: validated JobFailRequest_validate fail_ok
  by unfold_locales (auto simp: JobFailRequest_validate_def fail_ok_def result_simps)

section \<open>Properties\<close>

text \<open>Only an exact trailing speed suffix is read: the parser succeeds exactly on a base name of 1 to 128
  printable bytes followed by the suffix of its speed class, the base name is returned unchanged, and the
  standard class is reported exactly when the name carries neither suffix.\<close>
theorem speed_model_parse_exact:
  "parse_speed_qualified_model model = Inr q \<longleftrightarrow>
     model = base_model q @ speed_suffix (speed_class q) \<and> identifier_ok 128 (base_model q) \<and>
     (has_speed_suffix model \<longleftrightarrow> speed_class q \<noteq> StandardSpeed)"
proof -
  have "model = base_model q @ speed_suffix (speed_class q) \<Longrightarrow> speed_class q \<noteq> StandardSpeed \<Longrightarrow>
      has_speed_suffix model"
    by (cases "speed_class q") (auto simp: has_speed_suffix_def suffix_def simp del: lit_simps)
  then show ?thesis unfolding parse_speed_iff by blast
qed

lemma regulated_aad_eq_Inr:
  "regulated_aad as_bytes hex_decode dir route report inst h = Inr aad \<longleftrightarrow>
     lower_hex_ok 64 h \<and> (\<exists>m. hex_decode h = Some m \<and>
       aad = aad_domain @ [direction_byte dir] @ as_bytes route @ as_bytes report @ as_bytes inst @ m)"
  by (auto simp: regulated_aad_def result_simps)

lemma direction_byte_inject [simp]: "direction_byte d = direction_byte d' \<longleftrightarrow> d = d'"
  by (cases d; cases d') simp_all

lemma uuid_bytes_prefix:
  "uuid_bytes_ok as_bytes \<Longrightarrow> as_bytes u @ r = as_bytes v @ q \<longleftrightarrow> u = v \<and> r = q"
  by (auto simp: uuid_bytes_ok_def dest: injD)

lemma hex_decoder_inject:
  assumes "hex_decoder d" "lower_hex_ok 64 s" "lower_hex_ok 64 t" "d s = d t"
  shows "s = t"
proof -
  have "hex_pairs s = hex_pairs t"
    using assms unfolding hex_decoder_def lower_hex_ok_def by (metis even_numeral option.inject)
  with assms(2,3) show ?thesis
    unfolding lower_hex_ok_def by (metis even_numeral hex_pairs_inject)
qed

text \<open>C40. The associated data of a regulated envelope binds it: two calls of \<open>regulated_aad\<close> that produce
  the same bytes agree on the direction, the route, the attestation report, the model instance and the
  model weights hash, so a ciphertext sealed under one binding cannot be opened under another.\<close>
theorem regulated_aad_binds:
  assumes "uuid_bytes_ok as_bytes" "hex_decoder hex_decode"
    and "regulated_aad as_bytes hex_decode dir route report inst h = Inr aad"
    and "regulated_aad as_bytes hex_decode dir' route' report' inst' h' = Inr aad"
  shows "dir = dir' \<and> route = route' \<and> report = report' \<and> inst = inst' \<and> h = h'"
proof -
  obtain m m' where m: "lower_hex_ok 64 h" "hex_decode h = Some m" "lower_hex_ok 64 h'" "hex_decode h' = Some m'"
    and eq: "aad_domain @ [direction_byte dir] @ as_bytes route @ as_bytes report @ as_bytes inst @ m =
        aad_domain @ [direction_byte dir'] @ as_bytes route' @ as_bytes report' @ as_bytes inst' @ m'"
    using assms(3,4) by (auto simp: regulated_aad_eq_Inr)
  then have "dir = dir' \<and> route = route' \<and> report = report' \<and> inst = inst' \<and> m = m'"
    by (simp add: uuid_bytes_prefix [OF assms(1)])
  with m hex_decoder_inject [OF assms(2), of h h'] show ?thesis by simp
qed

definition sample_hash :: rstring where
  "sample_hash = replicate 64 97"

lemma sample_hash_ok: "lower_hex_ok 64 sample_hash"
  by (simp add: sample_hash_def lower_hex_ok_def list_all_iff is_lower_hex_def is_ascii_digit_def)

theorem regulated_aad_binds_witness:
  "\<exists>aad. regulated_aad (\<lambda>u. be_bytes 16 (unat u)) (\<lambda>s. Some (hex_pairs s)) Request 1 2 3 sample_hash = Inr aad \<and>
     regulated_aad (\<lambda>u. be_bytes 16 (unat u)) (\<lambda>s. Some (hex_pairs s)) Result 1 2 3 sample_hash \<noteq> Inr aad"
proof -
  obtain aad where a: "regulated_aad (\<lambda>u. be_bytes 16 (unat u)) (\<lambda>s. Some (hex_pairs s)) Request 1 2 3 sample_hash = Inr aad"
    using sample_hash_ok by (auto simp: regulated_aad_eq_Inr)
  then show ?thesis
    using regulated_aad_binds [OF be_uuid_ok hex_pairs_decoder a, of Result 1 2 3 sample_hash] by blast
qed

text \<open>What a job reserves is bounded before it runs: when a standard payload is accepted, its input
  authorization is the number of bytes of its JSON text plus 1024, its output authorization is exactly the
  tokens per choice times the number of choices of the parsed request and lies between 1 and a million, and
  the model name and stream flag are those of the request at the endpoint named by the payload.\<close>
theorem validated_limits_exact:
  assumes "validated_limits js p = Inr lm"
  shows "identifier_ok 128 (lim_model lm) \<and> 0 < sint (maximum_output_tokens lm) \<and>
    sint (maximum_output_tokens lm) \<le> 1000000 \<and>
    (\<exists>json. to_vec js (request p) = Some json \<and> sint (minimum_input_tokens lm) = int (length json + 1024) \<and>
      ((endpoint p = OPENAI_CHAT_COMPLETIONS \<and> (\<exists>r. chat_from_slice js json = Some r \<and> chat_ok r \<and>
          lim_model lm = chat_model r \<and> lim_stream lm = chat_stream r \<and>
          sint (maximum_output_tokens lm) =
            int (unat (unwrap_or (opt_or (chat_max_tokens r) (max_completion_tokens r)) DEFAULT_NETWORK_MAX_OUTPUT_TOKENS)
              * unat (unwrap_or (chat_n r) 1)))) \<or>
       (endpoint p = OPENAI_COMPLETIONS \<and> (\<exists>r. completions_from_slice js json = Some r \<and> completions_ok r \<and>
          lim_model lm = cmp_model r \<and> lim_stream lm = cmp_stream r \<and>
          sint (maximum_output_tokens lm) =
            int (unat (unwrap_or (cmp_max_tokens r) DEFAULT_NETWORK_MAX_OUTPUT_TOKENS)
              * unat (unwrap_or (cmp_n r) 1))))))"
proof -
  obtain model stream per n where
    sel: "(if endpoint p = OPENAI_CHAT_COMPLETIONS then chat_limits js (request p)
        else if endpoint p = OPENAI_COMPLETIONS then completions_limits js (request p)
        else invalid ''endpoint'' ''only chat/completions or completions'') = Inr (model, stream, per, n)"
    and lm: "identifier_ok 128 model" "output_token_limit per n = Some (maximum_output_tokens lm)"
      "conservative_input_token_authorization js (request p) = Inr (minimum_input_tokens lm)"
      "lim_model lm = model" "lim_stream lm = stream"
    using assms unfolding validated_limits_def by (auto simp: result_simps)
  from lm(3) obtain json where tx: "to_vec js (request p) = Some json"
    "sint (minimum_input_tokens lm) = int (length json + 1024)"
    by (auto simp: input_authorization_iff)
  have out: "sint (maximum_output_tokens lm) = int (unat per * unat n)" "0 < unat per * unat n"
      "unat per * unat n \<le> 1000000"
    using lm(2) unfolding output_token_limit_Some by blast+
  have b: "0 < sint (maximum_output_tokens lm)" "sint (maximum_output_tokens lm) \<le> 1000000"
    unfolding out(1) using out(2,3) by (simp_all only: of_nat_0_less_iff of_nat_le_numeral_iff)
  from sel tx(1) have "(endpoint p = OPENAI_CHAT_COMPLETIONS \<and> (\<exists>r. chat_from_slice js json = Some r \<and> chat_ok r \<and>
          model = chat_model r \<and> stream = chat_stream r \<and>
          per = unwrap_or (opt_or (chat_max_tokens r) (max_completion_tokens r)) DEFAULT_NETWORK_MAX_OUTPUT_TOKENS \<and>
          n = unwrap_or (chat_n r) 1)) \<or>
       (endpoint p = OPENAI_COMPLETIONS \<and> (\<exists>r. completions_from_slice js json = Some r \<and> completions_ok r \<and>
          model = cmp_model r \<and> stream = cmp_stream r \<and>
          per = unwrap_or (cmp_max_tokens r) DEFAULT_NETWORK_MAX_OUTPUT_TOKENS \<and> n = unwrap_or (cmp_n r) 1))"
    by (auto simp: chat_limits_def completions_limits_def result_simps chat.validate_ok completions.validate_ok
        split: if_splits)
  then show ?thesis
  proof (elim disjE conjE exE, goal_cases)
    case (1 r)
    have "sint (maximum_output_tokens lm) =
        int (unat (unwrap_or (opt_or (chat_max_tokens r) (max_completion_tokens r)) DEFAULT_NETWORK_MAX_OUTPUT_TOKENS)
          * unat (unwrap_or (chat_n r) 1))"
      using out(1) unfolding 1(6,7) .
    with b lm(1) 1(1-3) tx show ?case unfolding lm(4,5) 1(4,5) by blast
  next
    case (2 r)
    have "sint (maximum_output_tokens lm) =
        int (unat (unwrap_or (cmp_max_tokens r) DEFAULT_NETWORK_MAX_OUTPUT_TOKENS) * unat (unwrap_or (cmp_n r) 1))"
      using out(1) unfolding 2(6,7) .
    with b lm(1) 2(1-3) tx show ?case unfolding lm(4,5) 2(4,5) by blast
  qed
qed

definition sample_chat :: ChatCompletionsRequest where
  "sample_chat = \<lparr>chat_model = lit ''auto'',
     messages = [\<lparr>role = User, content = Text (lit ''hello''), msg_name = None, tool_call_id = None\<rparr>],
     chat_stream = False, chat_max_tokens = None, max_completion_tokens = None, chat_temperature = Some (Fin 1),
     chat_top_p = None, seed = None, chat_n = Some 2, chat_stop = None, chat_user = None\<rparr>"

definition sample_json :: "unit serde_json" where
  "sample_json = \<lparr>object_keys = (\<lambda>_. Some [lit ''model'', lit ''messages'']), to_vec = (\<lambda>_. Some (replicate 10 32)),
     chat_from_slice = (\<lambda>_. Some sample_chat), completions_from_slice = (\<lambda>_. None),
     value_from_str = (\<lambda>_. Some ())\<rparr>"

definition sample_payload :: "unit StandardJobPayload" where
  "sample_payload = \<lparr>endpoint = OPENAI_CHAT_COMPLETIONS, request = ()\<rparr>"

lemma auto_identifier: "identifier_ok 256 (lit ''auto'')" "identifier_ok 128 (lit ''auto'')"
  by (simp_all add: identifier_ok_def trim_def is_whitespace_def utf8_char_def any_control_def is_control_def)

lemma sample_chat_ok: "chat_ok sample_chat"
  unfolding chat_ok_def sample_chat_def
  by (simp add: auto_identifier sampling_ok_def opt_or_def del: lit_simps)

lemma sample_limits:
  "validated_limits sample_json sample_payload = Inr \<lparr>lim_model = lit ''auto'', minimum_input_tokens = 1034,
     maximum_output_tokens = 512, lim_stream = False\<rparr>"
proof -
  have "validate_standard_request_fields sample_json () chat_fields = Inr ()"
    by (simp add: validate_standard_request_fields_def sample_json_def chat_fields_def)
  moreover have "ChatCompletionsRequest_validate sample_chat = Inr ()"
    by (simp add: chat.validate_ok sample_chat_ok)
  ultimately have c: "chat_limits sample_json () = Inr (lit ''auto'', False, 256, 2)"
    by (simp add: chat_limits_def sample_json_def sample_chat_def opt_or_def unwrap_or_def
        DEFAULT_NETWORK_MAX_OUTPUT_TOKENS_def del: lit_simps)
  have o: "output_token_limit 256 2 = Some 512" by (simp add: output_token_limit_Some)
  have i: "conservative_input_token_authorization sample_json () = Inr 1034"
    by (simp add: input_authorization_iff sample_json_def)
  have "validate_identifier ''model'' (lit ''auto'') 128 = Inr ()"
    by (simp add: validate_identifier_iff auto_identifier del: lit_simps)
  with c o i show ?thesis by (simp add: validated_limits_def sample_payload_def del: lit_simps)
qed

theorem validated_limits_exact_witness:
  "\<exists>lm. validated_limits sample_json sample_payload = Inr lm \<and> sint (minimum_input_tokens lm) = 1034"
proof -
  obtain lm where l: "validated_limits sample_json sample_payload = Inr lm" using sample_limits ..
  have "\<exists>json. to_vec sample_json (request sample_payload) = Some json \<and>
      sint (minimum_input_tokens lm) = int (length json + 1024)"
    using validated_limits_exact [OF l] by blast
  with l show ?thesis by (auto simp: sample_json_def)
qed

text \<open>A regulated submission is accepted exactly when its idempotency key is 1 to 200 printable bytes,
  its envelope has the supported version and algorithm, a non-zero 32-byte sender key in lowercase
  hexadecimal, a non-zero 12-byte nonce and a ciphertext of 17 to 900000 bytes in unpadded URL-safe base64,
  points in the request direction, and names the prepared route.\<close>
theorem regulated_submission_accepted_iff:
  "CreateRegulatedJobRequest_validate b64 r = Inr () \<longleftrightarrow>
     identifier_ok 200 (cr_idempotency_key r) \<and>
     env_version (envelope r) = REGULATED_ENVELOPE_VERSION \<and>
     env_algorithm (envelope r) = REGULATED_ALGORITHM \<and>
     lower_hex_ok 64 (sender_public_key (envelope r)) \<and>
     (\<exists>digit \<in> set (sender_public_key (envelope r)). digit \<noteq> 48) \<and>
     (\<exists>nonce. base64url_ok b64 (env_nonce (envelope r)) 12 12 nonce \<and> (\<exists>b \<in> set nonce. b \<noteq> 0)) \<and>
     (\<exists>ciphertext. base64url_ok b64 (env_ciphertext (envelope r)) 17 900000 ciphertext) \<and>
     direction (envelope r) = Request \<and> env_route_id (envelope r) = cr_route_id r"
  by (simp add: create_regulated.validate_ok create_regulated_ok_def envelope_ok_def)

end
