(* ===== verification/Db.thy ===== *)
theory Db
  imports JobWire Ledger Billing Policy Reserve
begin

text \<open>
  The coordinator's database as its handlers see it: the tables of \<open>migrations/\<close> that the job
  lifecycle reads and writes, as lists of row records, with the SQL statements of the code as list
  functions (\<open>fetch_optional\<close>, \<open>checked_update\<close>, \<open>rows_affected\<close>). Text columns restricted by a
  \<open>CHECK\<close> to fixed spellings are datatypes and a nullable column is an \<open>option\<close>; a comparison with
  \<open>NULL\<close> does not hold. A violated constraint, a trigger exception and a \<open>bigint\<close> overflow are the
  \<open>sqlx::Error\<close> that \<open>ApiError::from\<close> turns into \<open>InternalError\<close>. The row locks of the code
  (\<open>FOR UPDATE\<close>, advisory locks) make its transactions serial, so a handler is a function from a
  database to its result and the next database, and a transaction that returns an error before its
  commit leaves the database unchanged (\<open>run_tx\<close>). \<open>now()\<close>, \<open>OffsetDateTime::now_utc()\<close> and fresh
  identifiers are arguments. The tables of the anti-abuse and telemetry components are one
  polymorphic field, read and written only through the operations of those components.

  The three append-only ledgers share the trigger of migration 0024 (\<open>advance_head\<close>). The locale
  \<open>ledger_book\<close> states what every book keeps, and is interpreted on each of the three tables.
\<close>

section \<open>Errors\<close>

datatype ApiError =
    BadRequest string
  | Authentication
  | Forbidden
  | AntiAbuseBlocked
  | NotFound
  | Conflict string
  | InsufficientQuota
  | PolicyRejected
  | RateLimited
  | Unavailable string
  | GatewayTimeout
  | AttestationFailed
  | AttestationUnavailable
  | InternalError

fun ApiError_status :: "ApiError \<Rightarrow> nat" where
  "ApiError_status (BadRequest _) = 400"
| "ApiError_status Authentication = 401"
| "ApiError_status Forbidden = 403"
| "ApiError_status AntiAbuseBlocked = 403"
| "ApiError_status NotFound = 404"
| "ApiError_status (Conflict _) = 409"
| "ApiError_status InsufficientQuota = 402"
| "ApiError_status PolicyRejected = 403"
| "ApiError_status RateLimited = 429"
| "ApiError_status (Unavailable _) = 503"
| "ApiError_status GatewayTimeout = 504"
| "ApiError_status AttestationFailed = 422"
| "ApiError_status AttestationUnavailable = 503"
| "ApiError_status InternalError = 500"

fun ApiError_code :: "ApiError \<Rightarrow> nat" where
  "ApiError_code Authentication = 10"
| "ApiError_code Forbidden = 10"
| "ApiError_code AntiAbuseBlocked = 10"
| "ApiError_code InsufficientQuota = 40"
| "ApiError_code PolicyRejected = 50"
| "ApiError_code AttestationFailed = 30"
| "ApiError_code AttestationUnavailable = 30"
| "ApiError_code _ = 1"

type_synonym 'a api = "ApiError + 'a"

section \<open>Statements\<close>

definition fetch_optional :: "('r \<Rightarrow> bool) \<Rightarrow> 'r list \<Rightarrow> 'r option" where
  "fetch_optional P rows = List.find P rows"

definition fetch_one :: "('r \<Rightarrow> bool) \<Rightarrow> 'r list \<Rightarrow> 'r api" where
  "fetch_one P rows = ok_or (List.find P rows) InternalError"

definition rows_affected :: "('r \<Rightarrow> bool) \<Rightarrow> 'r list \<Rightarrow> nat" where
  "rows_affected P rows = length (filter P rows)"

definition sql_update :: "('r \<Rightarrow> bool) \<Rightarrow> ('r \<Rightarrow> 'r) \<Rightarrow> 'r list \<Rightarrow> 'r list" where
  "sql_update P f rows = map (\<lambda>r. if P r then f r else r) rows"

text \<open>An \<open>UPDATE\<close> of a table with \<open>CHECK\<close> constraints; \<open>f\<close> is \<open>None\<close> where its arithmetic overflows.\<close>

fun checked_update :: "('r \<Rightarrow> bool) \<Rightarrow> ('r \<Rightarrow> bool) \<Rightarrow> ('r \<Rightarrow> 'r option) \<Rightarrow> 'r list \<Rightarrow> 'r list api" where
  "checked_update chk P f [] = Inr []"
| "checked_update chk P f (r # rs) =
     and_then
       (if P r then
          and_then (ok_or (f r) InternalError) (\<lambda>r'. if chk r' then Inr r' else Inl InternalError)
        else Inr r)
       (\<lambda>r'. and_then (checked_update chk P f rs) (\<lambda>rs'. Inr (r' # rs')))"

lemma checked_update_eq:
  "checked_update chk P f rs = Inr rs' \<longleftrightarrow>
     list_all2 (\<lambda>r r'. if P r then f r = Some r' \<and> chk r' else r' = r) rs rs'"
  by (induction rs arbitrary: rs') (auto simp: result_simps list_all2_Cons1)

lemma checked_update_total:
  "(\<And>r. r \<in> set rs \<Longrightarrow> P r \<Longrightarrow> \<exists>r'. f r = Some r' \<and> chk r') \<Longrightarrow> \<exists>rs'. checked_update chk P f rs = Inr rs'"
  by (induction rs) (force simp: result_simps)+

lemma length_sql_update [simp]: "length (sql_update P f rows) = length rows"
  by (simp add: sql_update_def)

lemma sql_update_Nil_Cons [simp]:
  "sql_update P f [] = []"
  "sql_update P f (r # rs) = (if P r then f r else r) # sql_update P f rs"
  by (simp_all add: sql_update_def)

lemma in_set_sql_update:
  "r' \<in> set (sql_update P f rows) \<longleftrightarrow> (\<exists>r \<in> set rows. r' = (if P r then f r else r))"
  by (auto simp: sql_update_def)

lemma map_sql_update: "(\<And>r. P r \<Longrightarrow> g (f r) = g r) \<Longrightarrow> map g (sql_update P f rows) = map g rows"
  by (simp add: sql_update_def)

lemma fetch_optional_Some:
  "fetch_optional P rows = Some r \<Longrightarrow> r \<in> set rows \<and> P r"
  by (simp add: fetch_optional_def find_Some_iff) (metis nth_mem)

lemma fetch_optional_None: "fetch_optional P rows = None \<longleftrightarrow> (\<forall>r \<in> set rows. \<not> P r)"
  by (auto simp: fetch_optional_def find_None_iff)

lemma fetch_one_Inr: "fetch_one P rows = Inr r \<Longrightarrow> r \<in> set rows \<and> P r"
  using fetch_optional_Some by (fastforce simp: fetch_one_def fetch_optional_def result_simps)

text \<open>A row found by its key is the row with that key.\<close>

lemma key_row_unique:
  "distinct (map key rows) \<Longrightarrow> r \<in> set rows \<Longrightarrow> s \<in> set rows \<Longrightarrow> key r = key s \<Longrightarrow> r = s"
  by (metis distinct_map inj_on_eq_iff)

lemma fetch_optional_key:
  assumes "distinct (map key rows)" "r \<in> set rows" "\<And>s. P s \<Longrightarrow> key s = key r" "P r"
  shows "fetch_optional P rows = Some r"
proof (cases "fetch_optional P rows")
  case None
  with assms(2,4) show ?thesis by (simp add: fetch_optional_None)
next
  case (Some s)
  then have "s \<in> set rows" "P s" by (simp_all add: fetch_optional_Some)
  with assms(2,3) have "s = r" by (intro key_row_unique [OF assms(1)]) simp_all
  with Some show ?thesis by simp
qed

lemma sum_list_sql_update:
  fixes g :: "'r \<Rightarrow> int"
  assumes "distinct (map key rows)" "r \<in> set rows"
  shows "sum_list (map g (sql_update (\<lambda>s. key s = key r) f rows)) = sum_list (map g rows) - g r + g (f r)"
  using assms
proof (induction rows)
  case (Cons s rows)
  show ?case
  proof (cases "key s = key r")
    case True
    with Cons.prems have s: "s = r" by (metis key_row_unique list.set_intros(1))
    then have "r \<notin> set rows" "\<And>t. t \<in> set rows \<Longrightarrow> key t \<noteq> key r"
      using Cons.prems by (auto simp: rev_image_eqI)
    then have "sql_update (\<lambda>s. key s = key r) f rows = rows"
      by (simp add: sql_update_def map_idI)
    with s show ?thesis by simp
  next
    case False
    with Cons show ?thesis by auto
  qed
qed simp

section \<open>Transactions\<close>

text \<open>
  A transaction body returns \<open>Inl\<close> where the code leaves without a commit, and otherwise what it
  committed together with the answer it gives afterwards, which may itself be an error.
\<close>

definition run_tx :: "('d \<Rightarrow> ('a api \<times> 'd) api) \<Rightarrow> 'd \<Rightarrow> 'a api \<times> 'd" where
  "run_tx body d = (case body d of Inl e \<Rightarrow> (Inl e, d) | Inr (answer, d') \<Rightarrow> (answer, d'))"

definition commit :: "'d \<Rightarrow> 'a \<Rightarrow> ('a api \<times> 'd) api" where
  "commit d x = Inr (Inr x, d)"

lemma run_tx_cases:
  assumes "run_tx body d = (answer, d')"
  obtains (rolled_back) e where "body d = Inl e" "answer = Inl e" "d' = d"
  | (committed) "body d = Inr (answer, d')"
proof (cases "body d")
  case (Inl e)
  with assms show ?thesis by (intro rolled_back) (auto simp: run_tx_def)
next
  case (Inr p)
  with assms show ?thesis by (intro committed) (cases p, simp add: run_tx_def)
qed

lemma run_tx_Inr: "run_tx body d = (Inr x, d') \<longleftrightarrow> body d = Inr (Inr x, d')"
  by (auto simp: run_tx_def split: sum.splits)

lemma commit_eq_Inr [result_simps]: "commit d x = Inr (a, d') \<longleftrightarrow> a = Inr x \<and> d' = d"
  by (auto simp: commit_def)

text \<open>A loop over fetched rows, each step of which may leave the handler with \<open>?\<close>.\<close>

fun try_fold :: "('a \<Rightarrow> 's \<Rightarrow> 'e + 's) \<Rightarrow> 'a list \<Rightarrow> 's \<Rightarrow> 'e + 's" where
  "try_fold f [] s = Inr s"
| "try_fold f (x # xs) s = and_then (f x s) (try_fold f xs)"

lemma try_fold_invariant:
  assumes "try_fold f xs s = Inr s'" "I s"
    and "\<And>x s s'. x \<in> set xs \<Longrightarrow> I s \<Longrightarrow> f x s = Inr s' \<Longrightarrow> I s'"
  shows "I s'"
  using assms by (induction xs arbitrary: s) (auto simp: result_simps)

section \<open>Tables\<close>

datatype ConfidentialityMode = StandardMode | Regulated
datatype NodeStatus = Online | Paused | DrainingNode | Offline
datatype InstanceStatus = Published | Draining | Unpublished
datatype AttemptStatus = AttemptLeased | AttemptSucceeded | AttemptFailed | AttemptExpired
datatype ReportStatus = Pending | Verified | Rejected | ExpiredReport
datatype KeyOrigin = ControlSoftware | TeeRuntime
datatype RouteStatus = Prepared | Consumed | ExpiredRoute

text \<open>The frozen billing columns: \<open>JobBillingSnapshot\<close> of \<open>settlement.rs\<close>.\<close>

record JobBillingSnapshot =
  contract_version :: rstring
  bl_profile_id :: Uuid
  bl_profile_version :: i64
  bl_profile_fingerprint :: rstring
  bl_model_weights_hash :: rstring
  bl_reference_hardware_class :: rstring
  bl_profile_evidence_hash :: rstring
  bl_profile_valid_from :: OffsetDateTime
  bl_profile_valid_until :: OffsetDateTime
  bl_profile :: ServerReferenceBillingProfile
  authorized_input_tokens :: i64
  authorized_max_output_tokens :: i64
  bl_billable_tokens :: i64
  bl_reference_gpu_time_us :: i64
  bl_reference_vram_mib_microseconds :: i64
  token_cost_micro :: i64
  gpu_cost_micro :: i64
  vram_cost_micro :: i64
  base_cost_micro :: i64

text \<open>
  The billing columns of a job are all null, a legacy marker, or a complete snapshot (the \<open>CHECK\<close> of
  migration 0032); \<open>None\<close> stands for the first two, which the code refuses alike. The columns an
  \<open>INSERT INTO jobs\<close> copies from the request and no statement changes later, and the result columns,
  which only the settlement writes, all in one statement, are records of their own.
\<close>

record JobRequestColumns =
  rq_idempotency_key :: rstring
  rq_encrypted_payload :: rstring
  rq_payload_encoding :: PayloadEncoding
  rq_tags :: "rstring list"
  rq_estimated_input_tokens :: i32
  rq_max_output_tokens :: i32
  rq_priority :: i32
  rq_standard_request_fingerprint :: "rstring option"
  rq_standard_payload_storage_version :: "i16 option"
  rq_speed_class :: SpeedClass

record JobResultColumns =
  rs_ciphertext :: rstring
  rs_idempotency_key :: rstring
  rs_actual_input_tokens :: i32
  rs_actual_output_tokens :: i32
  rs_telemetry_fingerprint :: rstring
  rs_standard_storage_version :: "i16 option"

record Job =
  j_id :: Uuid
  j_user_id :: Uuid
  j_model_id :: Uuid
  j_model_instance_id :: "Uuid option"
  j_status :: JobStatus
  j_request :: JobRequestColumns
  j_reserved_cost_micro :: i64
  j_leased_to_node_id :: "Uuid option"
  j_lease_expires_at :: "OffsetDateTime option"
  j_attempt_count :: i32
  j_max_attempts :: i32
  j_available_at :: OffsetDateTime
  j_created_at :: OffsetDateTime
  j_updated_at :: OffsetDateTime
  j_completed_at :: "OffsetDateTime option"
  j_confidentiality :: ConfidentialityMode
  j_regulated_route_id :: "Uuid option"
  j_regulated_node_id :: "Uuid option"
  j_attestation_report_id :: "Uuid option"
  j_result :: "JobResultColumns option"
  j_billing :: "JobBillingSnapshot option"

record JobAttempt =
  at_id :: Uuid
  at_job_id :: Uuid
  at_node_id :: Uuid
  at_attempt_number :: i32
  at_status :: AttemptStatus
  at_lease_started_at :: OffsetDateTime
  at_lease_expires_at :: OffsetDateTime
  at_finished_at :: "OffsetDateTime option"
  at_error_class :: "rstring option"
  at_error_message :: "rstring option"
  at_result_idempotency_key :: "rstring option"
  at_retryable_requested :: "bool option"
  at_claim_device_binding_version :: "i32 option"
  at_claim_device_key_id :: "Uuid option"

record QuotaAccount =
  q_user_id :: Uuid
  spendable_micro :: i64
  reserved_micro :: i64
  contribution_micro :: i64
  quota_ledger_head_hash :: rstring
  quota_ledger_entry_count :: i64
  contribution_ledger_head_hash :: rstring
  contribution_ledger_entry_count :: i64
  q_updated_at :: OffsetDateTime

record ReserveAccount =
  ra_balance_micro :: i64
  ra_ledger_head_hash :: rstring
  ra_ledger_entry_count :: i64

record Node =
  n_id :: Uuid
  n_user_id :: Uuid
  n_device_key_id :: "Uuid option"
  n_status :: NodeStatus
  n_last_seen_at :: "OffsetDateTime option"
  n_trust_level :: TrustLevel
  n_trust_expires_at :: "OffsetDateTime option"
  n_attestation_report_id :: "Uuid option"
  n_hardware_profile :: rstring

record NodePolicyRow =
  p_node_id :: Uuid
  p_reject_tags :: "rstring list"
  p_max_concurrent :: i32
  p_gpu_temp_limit_c :: "i32 option"
  p_vram_reserve_mib :: i64

record NodeMetric =
  nm_id :: Uuid
  nm_node_id :: Uuid
  nm_measured_at :: OffsetDateTime
  nm_tps_milli :: i64
  nm_current_concurrent :: i32
  nm_gpu_temp_c :: "i32 option"
  nm_vram_used_mib :: "i64 option"
  nm_vram_total_mib :: "i64 option"
  nm_error_rate_ppm :: i32
  nm_coordinator_rtt_ms :: "i64 option"

record ModelRow =
  m_id :: Uuid
  m_name :: rstring
  m_weights_hash :: rstring
  m_size_bytes :: i64
  m_context_length :: i32
  m_benchmark_normalized :: i32
  m_glicko_normalized :: i32
  m_evaluation_samples :: i32
  m_tier :: PerformanceTier
  m_base_cost_per_1k_micro :: i64
  m_enabled :: bool

record BillingProfileRow =
  bp_contract_version :: rstring
  bp_id :: Uuid
  bp_profile_version :: i64
  bp_profile_fingerprint :: rstring
  bp_model_id :: Uuid
  bp_model_weights_hash :: rstring
  bp_reference_hardware_class :: rstring
  bp_evidence_hash :: rstring
  bp_valid_from :: OffsetDateTime
  bp_valid_until :: OffsetDateTime
  bp_profile :: ServerReferenceBillingProfile

record ModelInstance =
  mi_id :: Uuid
  mi_model_id :: Uuid
  mi_node_id :: Uuid
  mi_tags :: "rstring list"
  mi_status :: InstanceStatus
  mi_unpublished_at :: "OffsetDateTime option"

record AttestationReport =
  ar_id :: Uuid
  ar_node_id :: Uuid
  ar_model_instance_id :: "Uuid option"
  ar_model_hash :: "rstring option"
  ar_status :: ReportStatus
  ar_key_origin :: KeyOrigin
  ar_expires_at :: OffsetDateTime
  ar_collateral_current :: bool
  ar_collateral_expires_at :: "OffsetDateTime option"
  ar_signature_verified :: bool
  ar_certificate_chain_verified :: bool
  ar_tcb_current :: bool
  ar_ephemeral_public_key :: "rstring option"

text \<open>\<open>model_evaluation_challenges\<close>, as the lifecycle reads it.\<close>

record HiddenWork =
  hw_id :: Uuid
  hw_node_id :: Uuid
  hw_model_instance_id :: Uuid
  hw_leased :: bool
  hw_lease_expires_at :: "OffsetDateTime option"

record RegulatedRoute =
  rt_id :: Uuid
  rt_user_id :: Uuid
  rt_status :: RouteStatus
  rt_model_id :: Uuid
  rt_model_instance_id :: Uuid
  rt_node_id :: Uuid
  rt_attestation_report_id :: Uuid
  rt_tags :: "rstring list"
  rt_estimated_input_tokens :: i32
  rt_max_output_tokens :: i32
  rt_priority :: i32
  rt_expires_at :: OffsetDateTime
  rt_consumed_at :: "OffsetDateTime option"
  rt_job_id :: "Uuid option"
  rt_create_request_fingerprint :: "rstring option"
  rt_billing :: "JobBillingSnapshot option"

record Receipt =
  rc_id :: Uuid
  rc_job_id :: Uuid
  rc_consumer_user_id :: Uuid
  rc_node_user_id :: Uuid
  rc_model_name :: rstring
  rc_tier :: PerformanceTier
  rc_trust_level :: TrustLevel
  rc_base_cost_micro :: i64
  rc_user_deduction_micro :: i64
  rc_node_quota_micro :: i64
  rc_contribution_micro :: i64
  rc_contribution_weight_ppm :: i32
  rc_reserve_micro :: i64
  rc_settlement_hash :: rstring
  rc_billing :: JobBillingSnapshot

record ReserveReleaseAudit =
  ra_id :: Uuid
  ra_reserve_ledger_id :: Uuid
  ra_request_fingerprint :: rstring

record OperatorGrantRow =
  og_id :: Uuid
  og_user_id :: Uuid
  og_operator_id :: rstring
  og_reason :: rstring
  og_amount_micro :: i64
  og_idempotency_key :: rstring
  og_request_fingerprint :: rstring
  og_quota_ledger_id :: Uuid
  og_quota_ledger_entry_hash :: rstring

record 'x db =
  users :: "Uuid list"
  quota_accounts :: "QuotaAccount list"
  reserve_account :: ReserveAccount
  quota_ledger :: "LedgerEntry list"
  contribution_ledger :: "LedgerEntry list"
  reserve_ledger :: "(LedgerEntry \<times> rstring option) list"
  jobs :: "Job list"
  job_attempts :: "JobAttempt list"
  nodes :: "Node list"
  node_policies :: "NodePolicyRow list"
  node_metrics :: "NodeMetric list"
  models :: "ModelRow list"
  billing_profiles :: "BillingProfileRow list"
  model_instances :: "ModelInstance list"
  attestation_reports :: "AttestationReport list"
  hidden_work :: "HiddenWork list"
  canary_quarantined :: "Uuid list"
  regulated_routes :: "RegulatedRoute list"
  receipts :: "Receipt list"
  operator_reserve_releases :: "ReserveReleaseAudit list"
  operator_quota_grants :: "OperatorGrantRow list"
  risk :: 'x

end
