(* ===== verification/Accounts.thy ===== *)
theory Accounts
  imports Db
begin

text \<open>
  Quota accounts, reservations and the three ledger books of the coordinator
  (\<open>settlement.rs\<close>: \<open>lock_accounts\<close>, \<open>account_spendable\<close>, \<open>append_quota\<close>, \<open>append_contribution\<close>,
  \<open>append_reserve\<close>; the reservation statements of the job handlers; \<open>device_binding.rs\<close>; the triggers
  and constraints of migrations 0001 and 0024). Every append goes through \<open>advance_head\<close>, the trigger
  that ties an entry to the account's head hash, balance and entry count.
\<close>

section \<open>Device binding\<close>

record Principal =
  pr_user_id :: Uuid
  pr_device_key_id :: Uuid

definition DEVICE_BINDING_VERSION :: i32 where
  "DEVICE_BINDING_VERSION = 1"

definition require_node_device_binding :: "Principal \<Rightarrow> Uuid \<Rightarrow> Uuid option \<Rightarrow> unit api" where
  "require_node_device_binding prin node_user_id node_device_key_id =
     (if node_user_id \<noteq> pr_user_id prin \<or> node_device_key_id \<noteq> Some (pr_device_key_id prin)
      then Inl Forbidden else Inr ())"

definition exact_claim_device_binding :: "Principal \<Rightarrow> Uuid option \<Rightarrow> Uuid option \<Rightarrow> i32 option \<Rightarrow> bool" where
  "exact_claim_device_binding prin claimed_user_id claimed_device_key_id binding_version \<longleftrightarrow>
     claimed_user_id = Some (pr_user_id prin) \<and>
     claimed_device_key_id = Some (pr_device_key_id prin) \<and>
     binding_version = Some DEVICE_BINDING_VERSION"

section \<open>Quota accounts\<close>

definition i64_saturating_sub :: "i64 \<Rightarrow> i64 \<Rightarrow> i64" where
  "i64_saturating_sub a b =
     word_of_int (max (- 9223372036854775808) (min 9223372036854775807 (sint a - sint b)))"

definition s_checked_sub :: "'a::len word \<Rightarrow> 'a word \<Rightarrow> 'a word option" where
  "s_checked_sub a b = (let c = a - b in if sint c = sint a - sint b then Some c else None)"

lemma s_checked_sub_Some [result_simps]: "s_checked_sub a b = Some c \<longleftrightarrow> sint c = sint a - sint b"
proof
  assume c: "sint c = sint a - sint b"
  then have "of_int (sint a - sint b) = c" by (rule of_int_sint_same)
  then have "a - b = c" by simp
  with c show "s_checked_sub a b = Some c" by (simp add: s_checked_sub_def)
qed (auto simp: s_checked_sub_def Let_def split: if_splits)

lemma sint_saturating_sub:
  "sint (i64_saturating_sub a b) = max (- 9223372036854775808) (min 9223372036854775807 (sint a - sint b))"
  by (simp add: i64_saturating_sub_def sint_word_of_int_fits_iff max_def min_def)

text \<open>The \<open>CHECK\<close> constraints of \<open>quota_accounts\<close>.\<close>

definition quota_account_check :: "QuotaAccount \<Rightarrow> bool" where
  "quota_account_check a \<longleftrightarrow>
     0 \<le> sint (spendable_micro a) \<and> 0 \<le> sint (reserved_micro a) \<and> 0 \<le> sint (contribution_micro a) \<and>
     sint (reserved_micro a) \<le> sint (spendable_micro a)"

definition update_accounts ::
    "(QuotaAccount \<Rightarrow> bool) \<Rightarrow> (QuotaAccount \<Rightarrow> QuotaAccount option) \<Rightarrow> 'x db \<Rightarrow> 'x db api" where
  "update_accounts P f d =
     and_then (checked_update quota_account_check P f (quota_accounts d)) (\<lambda>as.
       Inr (d\<lparr>quota_accounts := as\<rparr>))"

text \<open>Take a reservation: the read under lock, the test of the available quota, the update.\<close>

definition reserve_quota :: "OffsetDateTime \<Rightarrow> Uuid \<Rightarrow> i64 \<Rightarrow> 'x db \<Rightarrow> 'x db api" where
  "reserve_quota now user reservation d =
     and_then (fetch_one (\<lambda>a. q_user_id a = user) (quota_accounts d)) (\<lambda>account.
       if sint (i64_saturating_sub (spendable_micro account) (reserved_micro account)) < sint reservation
       then Inl InsufficientQuota
       else update_accounts (\<lambda>a. q_user_id a = user)
         (\<lambda>a. map_option (\<lambda>r. a\<lparr>reserved_micro := r, q_updated_at := now\<rparr>)
           (s_checked_add (reserved_micro a) reservation)) d)"

text \<open>Give it back: one row must qualify, or the handler fails.\<close>

definition release_reservation :: "OffsetDateTime \<Rightarrow> Uuid \<Rightarrow> i64 \<Rightarrow> 'x db \<Rightarrow> 'x db api" where
  "release_reservation now user amount d =
     (let P = (\<lambda>a. q_user_id a = user \<and> sint amount \<le> sint (reserved_micro a)) in
      and_then
        (update_accounts P
          (\<lambda>a. map_option (\<lambda>r. a\<lparr>reserved_micro := r, q_updated_at := now\<rparr>)
            (s_checked_sub (reserved_micro a) amount)) d)
        (\<lambda>d'. if rows_affected P (quota_accounts d) \<noteq> 1 then Inl InternalError else Inr d'))"

definition lock_accounts :: "Uuid \<Rightarrow> Uuid \<Rightarrow> 'x db \<Rightarrow> unit api" where
  "lock_accounts first second d =
     (let ids = (if first = second then [first] else [first, second]) in
      if rows_affected (\<lambda>a. q_user_id a \<in> set ids) (quota_accounts d) \<noteq> length ids
      then Inl InternalError else Inr ())"

definition account_spendable :: "Uuid \<Rightarrow> 'x db \<Rightarrow> i64 api" where
  "account_spendable user d =
     and_then (fetch_one (\<lambda>a. q_user_id a = user) (quota_accounts d)) (\<lambda>a. Inr (spendable_micro a))"

definition find_account :: "Uuid \<Rightarrow> 'x db \<Rightarrow> QuotaAccount option" where
  "find_account user d = fetch_optional (\<lambda>a. q_user_id a = user) (quota_accounts d)"

lemma fetch_checked_update:
  assumes "checked_update chk P f rows = Inr rows'"
    and "\<And>r r'. P r \<Longrightarrow> f r = Some r' \<Longrightarrow> key r' = key r"
  shows "fetch_optional (\<lambda>r. key r = k) rows' =
    (case fetch_optional (\<lambda>r. key r = k) rows of None \<Rightarrow> None | Some r \<Rightarrow> if P r then f r else Some r)"
  using assms(1)
proof (induction rows arbitrary: rows')
  case (Cons r rows)
  then obtain r' rs' where rs: "rows' = r' # rs'" "checked_update chk P f rows = Inr rs'"
    and r': "if P r then f r = Some r' else r' = r"
    by (auto simp: result_simps split: if_splits)
  then have "key r' = key r" using assms(2) by (auto split: if_splits)
  with rs r' Cons.IH [OF rs(2)] show ?case by (auto simp: fetch_optional_def)
qed (simp add: fetch_optional_def)

lemma keys_checked_update:
  assumes "checked_update chk P f rows = Inr rows'"
    and "\<And>r r'. P r \<Longrightarrow> f r = Some r' \<Longrightarrow> key r' = key r"
  shows "map key rows' = map key rows"
  using assms(1)
proof (induction rows arbitrary: rows')
  case (Cons r rows)
  then show ?case using assms(2) by (fastforce simp: result_simps split: if_splits)
qed simp

section \<open>Ledger books\<close>

record Book =
  bk_head :: rstring
  bk_count :: i64
  bk_balance :: i64

definition quota_book :: "QuotaAccount \<Rightarrow> Book" where
  "quota_book a = \<lparr>bk_head = quota_ledger_head_hash a, bk_count = quota_ledger_entry_count a,
     bk_balance = spendable_micro a\<rparr>"

definition contribution_book :: "QuotaAccount \<Rightarrow> Book" where
  "contribution_book a = \<lparr>bk_head = contribution_ledger_head_hash a,
     bk_count = contribution_ledger_entry_count a, bk_balance = contribution_micro a\<rparr>"

definition reserve_book :: "ReserveAccount \<Rightarrow> Book" where
  "reserve_book a = \<lparr>bk_head = ra_ledger_head_hash a, bk_count = ra_ledger_entry_count a,
     bk_balance = ra_balance_micro a\<rparr>"

text \<open>\<open>mindone_advance_*_ledger_head\<close>: \<open>es\<close> are the entries of the account the new one names.\<close>

definition advance_head :: "Book \<Rightarrow> LedgerEntry list \<Rightarrow> LedgerEntry \<Rightarrow> Book api" where
  "advance_head b es e =
     (if \<not> (if bk_count b = 0 then bk_head b = GENESIS_HASH \<and> bk_balance b = 0
            else is_some_and (fetch_optional (\<lambda>x. hash x = bk_head b) es)
              (\<lambda>x. balance_after_micro x = bk_balance b))
      then Inl InternalError
      else if hash e = GENESIS_HASH \<or> previous_hash e \<noteq> bk_head b \<or> balance_before_micro e \<noteq> bk_balance b \<or>
        s_checked_add (balance_before_micro e) (amount_micro e) \<noteq> Some (balance_after_micro e)
      then Inl InternalError
      else and_then (ok_or (s_checked_add (bk_count b) 1) InternalError) (\<lambda>n.
        Inr \<lparr>bk_head = hash e, bk_count = n, bk_balance = balance_after_micro e\<rparr>))"

text \<open>The primary key and the unique columns of a ledger table.\<close>

definition entry_fresh :: "LedgerEntry list \<Rightarrow> LedgerEntry \<Rightarrow> bool" where
  "entry_fresh es e \<longleftrightarrow>
     list_all (\<lambda>x. entry_id x \<noteq> entry_id e \<and> Ledger.idempotency_key x \<noteq> Ledger.idempotency_key e \<and> hash x \<noteq> hash e) es"

definition entries_of :: "LedgerEntry list \<Rightarrow> Uuid \<Rightarrow> LedgerEntry list" where
  "entries_of es user = filter (\<lambda>x. account_id x = user) es"

definition single_successor :: "LedgerEntry list \<Rightarrow> LedgerEntry \<Rightarrow> bool" where
  "single_successor es e \<longleftrightarrow> list_all (\<lambda>x. previous_hash x \<noteq> previous_hash e) es"

definition insert_quota_ledger :: "OffsetDateTime \<Rightarrow> LedgerEntry \<Rightarrow> 'x db \<Rightarrow> 'x db api" where
  "insert_quota_ledger now e d =
     and_then (fetch_one (\<lambda>a. q_user_id a = account_id e) (quota_accounts d)) (\<lambda>account.
     and_then (advance_head (quota_book account) (entries_of (quota_ledger d) (account_id e)) e) (\<lambda>b.
     and_then (ensure (entry_fresh (quota_ledger d) e \<and>
                 single_successor (entries_of (quota_ledger d) (account_id e)) e) InternalError) (\<lambda>_.
     and_then (update_accounts (\<lambda>a. q_user_id a = account_id e)
         (\<lambda>a. Some (a\<lparr>spendable_micro := bk_balance b, quota_ledger_head_hash := bk_head b,
            quota_ledger_entry_count := bk_count b, q_updated_at := now\<rparr>)) d) (\<lambda>d'.
       Inr (d'\<lparr>quota_ledger := quota_ledger d @ [e]\<rparr>)))))"

definition insert_contribution_ledger :: "OffsetDateTime \<Rightarrow> LedgerEntry \<Rightarrow> 'x db \<Rightarrow> 'x db api" where
  "insert_contribution_ledger now e d =
     and_then (fetch_one (\<lambda>a. q_user_id a = account_id e) (quota_accounts d)) (\<lambda>account.
     and_then (advance_head (contribution_book account) (entries_of (contribution_ledger d) (account_id e)) e) (\<lambda>b.
     and_then (ensure (entry_fresh (contribution_ledger d) e \<and>
                 single_successor (entries_of (contribution_ledger d) (account_id e)) e) InternalError) (\<lambda>_.
     and_then (update_accounts (\<lambda>a. q_user_id a = account_id e)
         (\<lambda>a. Some (a\<lparr>contribution_micro := bk_balance b, contribution_ledger_head_hash := bk_head b,
            contribution_ledger_entry_count := bk_count b, q_updated_at := now\<rparr>)) d) (\<lambda>d'.
       Inr (d'\<lparr>contribution_ledger := contribution_ledger d @ [e]\<rparr>)))))"

definition insert_reserve_ledger :: "LedgerEntry \<Rightarrow> rstring option \<Rightarrow> 'x db \<Rightarrow> 'x db api" where
  "insert_reserve_ledger e audit_reference d =
     and_then (advance_head (reserve_book (reserve_account d)) (map fst (reserve_ledger d)) e) (\<lambda>b.
     and_then (ensure (entry_fresh (map fst (reserve_ledger d)) e \<and>
                 single_successor (map fst (reserve_ledger d)) e \<and> 0 \<le> sint (bk_balance b)) InternalError) (\<lambda>_.
       Inr (d\<lparr>reserve_account := \<lparr>ra_balance_micro = bk_balance b, ra_ledger_head_hash = bk_head b,
                 ra_ledger_entry_count = bk_count b\<rparr>,
              reserve_ledger := reserve_ledger d @ [(e, audit_reference)]\<rparr>)))"

text \<open>What a book and its entries satisfy.\<close>

definition book_ok :: "Book \<Rightarrow> LedgerEntry list \<Rightarrow> bool" where
  "book_ok b es \<longleftrightarrow>
     linked previous_hash hash GENESIS_HASH es \<and> chain_head hash GENESIS_HASH es = bk_head b \<and>
     sint (bk_count b) = int (length es) \<and> sint (bk_balance b) = (\<Sum>e\<leftarrow>es. sint (amount_micro e))"

text \<open>A book that does not exist has no entries.\<close>

fun account_book_ok :: "Book option \<Rightarrow> LedgerEntry list \<Rightarrow> bool" where
  "account_book_ok None es \<longleftrightarrow> es = []"
| "account_book_ok (Some b) es \<longleftrightarrow> book_ok b es"

definition books_ok :: "('d \<Rightarrow> 'k \<Rightarrow> LedgerEntry list) \<Rightarrow> ('d \<Rightarrow> 'k \<Rightarrow> Book option) \<Rightarrow> 'd \<Rightarrow> bool" where
  "books_ok entries book d \<longleftrightarrow> (\<forall>k. account_book_ok (book d k) (entries d k))"

lemma advance_head_eq_Inr:
  "advance_head b es e = Inr b' \<longleftrightarrow>
     (if bk_count b = 0 then bk_head b = GENESIS_HASH \<and> bk_balance b = 0
      else is_some_and (fetch_optional (\<lambda>x. hash x = bk_head b) es) (\<lambda>x. balance_after_micro x = bk_balance b)) \<and>
     hash e \<noteq> GENESIS_HASH \<and> previous_hash e = bk_head b \<and> balance_before_micro e = bk_balance b \<and>
     sint (balance_after_micro e) = sint (bk_balance b) + sint (amount_micro e) \<and>
     sint (bk_count b') = sint (bk_count b) + 1 \<and> bk_head b' = hash e \<and> bk_balance b' = balance_after_micro e"
  by (cases b') (auto simp: advance_head_def result_simps)

lemma advance_head_book_ok: "book_ok b es \<Longrightarrow> advance_head b es e = Inr b' \<Longrightarrow> book_ok b' (es @ [e])"
  by (auto simp: advance_head_eq_Inr book_ok_def linked_snoc chain_head_def)

text \<open>
  The interface of a ledger table: an insertion appends to the entries of one account, moves that
  account's book by the trigger and touches no other account.
\<close>

locale ledger_book =
  fixes entries :: "'d \<Rightarrow> 'k \<Rightarrow> LedgerEntry list"
    and book :: "'d \<Rightarrow> 'k \<Rightarrow> Book option"
    and insert_entry :: "LedgerEntry \<Rightarrow> 'd \<Rightarrow> 'd api"
    and key :: "LedgerEntry \<Rightarrow> 'k"
  assumes insert_moves: "insert_entry e d = Inr d' \<Longrightarrow>
      \<exists>b b'. book d (key e) = Some b \<and> advance_head b (entries d (key e)) e = Inr b' \<and>
        book d' (key e) = Some b' \<and> entries d' (key e) = entries d (key e) @ [e]"
    and insert_frame: "insert_entry e d = Inr d' \<Longrightarrow> k \<noteq> key e \<Longrightarrow>
      book d' k = book d k \<and> entries d' k = entries d k"
begin

lemma insert_keeps_books:
  assumes "books_ok entries book d" "insert_entry e d = Inr d'"
  shows "books_ok entries book d'"
  unfolding books_ok_def
proof
  fix k
  have old: "account_book_ok (book d k) (entries d k)"
    using assms(1) by (simp add: books_ok_def)
  show "account_book_ok (book d' k) (entries d' k)"
  proof (cases "k = key e")
    case True
    with insert_moves [OF assms(2)] obtain b b' where "book d k = Some b" "book d' k = Some b'"
      "advance_head b (entries d k) e = Inr b'" "entries d' k = entries d k @ [e]" by auto
    with old show ?thesis by (simp add: advance_head_book_ok)
  next
    case False
    with insert_frame [OF assms(2) False] old show ?thesis by simp
  qed
qed

lemma insert_balance:
  "insert_entry e d = Inr d' \<Longrightarrow> \<exists>b b'. book d (key e) = Some b \<and> book d' (key e) = Some b' \<and>
     sint (bk_balance b') = sint (bk_balance b) + sint (amount_micro e) \<and> balance_before_micro e = bk_balance b"
  using insert_moves [of e d d'] by (auto simp: advance_head_eq_Inr)

end

definition quota_entries :: "'x db \<Rightarrow> Uuid \<Rightarrow> LedgerEntry list" where
  "quota_entries d user = entries_of (quota_ledger d) user"

definition quota_books :: "'x db \<Rightarrow> Uuid \<Rightarrow> Book option" where
  "quota_books d user = map_option quota_book (find_account user d)"

definition contribution_entries :: "'x db \<Rightarrow> Uuid \<Rightarrow> LedgerEntry list" where
  "contribution_entries d user = entries_of (contribution_ledger d) user"

definition contribution_books :: "'x db \<Rightarrow> Uuid \<Rightarrow> Book option" where
  "contribution_books d user = map_option contribution_book (find_account user d)"

definition reserve_entries :: "'x db \<Rightarrow> unit \<Rightarrow> LedgerEntry list" where
  "reserve_entries d _ = map fst (reserve_ledger d)"

definition reserve_books :: "'x db \<Rightarrow> unit \<Rightarrow> Book option" where
  "reserve_books d _ = Some (reserve_book (reserve_account d))"

lemma fetch_one_find_account:
  "fetch_one (\<lambda>a. q_user_id a = user) (quota_accounts d) = Inr a \<longleftrightarrow> find_account user d = Some a"
  by (simp add: fetch_one_def find_account_def fetch_optional_def result_simps)

lemma find_account_id: "find_account user d = Some a \<Longrightarrow> q_user_id a = user \<and> a \<in> set (quota_accounts d)"
  using fetch_optional_Some [of "\<lambda>a. q_user_id a = user" "quota_accounts d" a] by (simp add: find_account_def)

lemma update_accounts_eq_Inr:
  "update_accounts P f d = Inr d' \<longleftrightarrow>
     (\<exists>as. checked_update quota_account_check P f (quota_accounts d) = Inr as \<and> d' = d\<lparr>quota_accounts := as\<rparr>)"
  unfolding update_accounts_def and_then_eq_Inr by (metis sum.inject(2))

lemma find_account_update:
  assumes "checked_update quota_account_check P f (quota_accounts d) = Inr as"
    and "\<And>a a'. P a \<Longrightarrow> f a = Some a' \<Longrightarrow> q_user_id a' = q_user_id a"
  shows "find_account user (d\<lparr>quota_accounts := as\<rparr>) =
    (case find_account user d of None \<Rightarrow> None | Some a \<Rightarrow> if P a then f a else Some a)"
  using fetch_checked_update [where key = q_user_id and k = user, OF assms] by (simp add: find_account_def)

lemma find_account_update_key:
  assumes "checked_update quota_account_check (\<lambda>a. q_user_id a = i) (\<lambda>a. Some (f a)) (quota_accounts d) = Inr as"
    and "\<And>a. q_user_id (f a) = q_user_id a"
  shows "find_account user (d\<lparr>quota_accounts := as\<rparr>) =
    map_option (\<lambda>a. if user = i then f a else a) (find_account user d)"
proof -
  have "find_account user (d\<lparr>quota_accounts := as\<rparr>) =
      (case find_account user d of None \<Rightarrow> None | Some a \<Rightarrow> if q_user_id a = i then Some (f a) else Some a)"
    by (rule find_account_update [OF assms(1)]) (use assms(2) in auto)
  then show ?thesis using find_account_id [of user d] by (cases "find_account user d") auto
qed

lemma find_account_ledgers [simp]:
  "find_account user (d\<lparr>quota_ledger := x\<rparr>) = find_account user d"
  "find_account user (d\<lparr>contribution_ledger := x\<rparr>) = find_account user d"
  by (simp_all add: find_account_def)

lemma insert_quota_ledger_eq_Inr:
  "insert_quota_ledger now e d = Inr d' \<longleftrightarrow>
     (\<exists>a b as. find_account (account_id e) d = Some a \<and>
        advance_head (quota_book a) (entries_of (quota_ledger d) (account_id e)) e = Inr b \<and>
        entry_fresh (quota_ledger d) e \<and> single_successor (entries_of (quota_ledger d) (account_id e)) e \<and>
        checked_update quota_account_check (\<lambda>a. q_user_id a = account_id e)
          (\<lambda>a. Some (a\<lparr>spendable_micro := bk_balance b, quota_ledger_head_hash := bk_head b,
            quota_ledger_entry_count := bk_count b, q_updated_at := now\<rparr>)) (quota_accounts d) = Inr as \<and>
        d' = d\<lparr>quota_accounts := as, quota_ledger := quota_ledger d @ [e]\<rparr>)"
  by (auto simp: insert_quota_ledger_def result_simps update_accounts_eq_Inr fetch_one_find_account)

lemma insert_contribution_ledger_eq_Inr:
  "insert_contribution_ledger now e d = Inr d' \<longleftrightarrow>
     (\<exists>a b as. find_account (account_id e) d = Some a \<and>
        advance_head (contribution_book a) (entries_of (contribution_ledger d) (account_id e)) e = Inr b \<and>
        entry_fresh (contribution_ledger d) e \<and>
        single_successor (entries_of (contribution_ledger d) (account_id e)) e \<and>
        checked_update quota_account_check (\<lambda>a. q_user_id a = account_id e)
          (\<lambda>a. Some (a\<lparr>contribution_micro := bk_balance b, contribution_ledger_head_hash := bk_head b,
            contribution_ledger_entry_count := bk_count b, q_updated_at := now\<rparr>)) (quota_accounts d) = Inr as \<and>
        d' = d\<lparr>quota_accounts := as, contribution_ledger := contribution_ledger d @ [e]\<rparr>)"
  by (auto simp: insert_contribution_ledger_def result_simps update_accounts_eq_Inr fetch_one_find_account)

lemma entries_of_append: "entries_of (es @ [e]) user = entries_of es user @ (if account_id e = user then [e] else [])"
  by (simp add: entries_of_def)

interpretation quota: ledger_book quota_entries quota_books "insert_quota_ledger now" account_id for now
proof
  fix e and d d' :: "'a db"
  assume "insert_quota_ledger now e d = Inr d'"
  then obtain a b as where *: "find_account (account_id e) d = Some a"
    "advance_head (quota_book a) (entries_of (quota_ledger d) (account_id e)) e = Inr b"
    "checked_update quota_account_check (\<lambda>a. q_user_id a = account_id e)
       (\<lambda>a. Some (a\<lparr>spendable_micro := bk_balance b, quota_ledger_head_hash := bk_head b,
          quota_ledger_entry_count := bk_count b, q_updated_at := now\<rparr>)) (quota_accounts d) = Inr as"
    "d' = d\<lparr>quota_accounts := as, quota_ledger := quota_ledger d @ [e]\<rparr>"
    by (auto simp: insert_quota_ledger_eq_Inr)
  note upd = find_account_update_key [OF *(3), simplified]
  show "\<exists>b b'. quota_books d (account_id e) = Some b \<and> advance_head b (quota_entries d (account_id e)) e = Inr b' \<and>
        quota_books d' (account_id e) = Some b' \<and> quota_entries d' (account_id e) = quota_entries d (account_id e) @ [e]"
    using *(1,2,4) by (auto simp: quota_books_def quota_entries_def upd quota_book_def entries_of_append)
  fix k assume "k \<noteq> account_id e"
  then show "quota_books d' k = quota_books d k \<and> quota_entries d' k = quota_entries d k"
    using *(4) by (auto simp: quota_books_def quota_entries_def upd entries_of_append option.map_ident)
qed

interpretation contribution: ledger_book contribution_entries contribution_books "insert_contribution_ledger now" account_id
  for now
proof
  fix e and d d' :: "'a db"
  assume "insert_contribution_ledger now e d = Inr d'"
  then obtain a b as where *: "find_account (account_id e) d = Some a"
    "advance_head (contribution_book a) (entries_of (contribution_ledger d) (account_id e)) e = Inr b"
    "checked_update quota_account_check (\<lambda>a. q_user_id a = account_id e)
       (\<lambda>a. Some (a\<lparr>contribution_micro := bk_balance b, contribution_ledger_head_hash := bk_head b,
          contribution_ledger_entry_count := bk_count b, q_updated_at := now\<rparr>)) (quota_accounts d) = Inr as"
    "d' = d\<lparr>quota_accounts := as, contribution_ledger := contribution_ledger d @ [e]\<rparr>"
    by (auto simp: insert_contribution_ledger_eq_Inr)
  note upd = find_account_update_key [OF *(3), simplified]
  show "\<exists>b b'. contribution_books d (account_id e) = Some b \<and>
        advance_head b (contribution_entries d (account_id e)) e = Inr b' \<and>
        contribution_books d' (account_id e) = Some b' \<and>
        contribution_entries d' (account_id e) = contribution_entries d (account_id e) @ [e]"
    using *(1,2,4) by (auto simp: contribution_books_def contribution_entries_def upd contribution_book_def entries_of_append)
  fix k assume "k \<noteq> account_id e"
  then show "contribution_books d' k = contribution_books d k \<and> contribution_entries d' k = contribution_entries d k"
    using *(4) by (auto simp: contribution_books_def contribution_entries_def upd entries_of_append option.map_ident)
qed

interpretation reserve: ledger_book reserve_entries reserve_books "\<lambda>e. insert_reserve_ledger e aud" "\<lambda>_. ()" for aud
  by unfold_locales
    (auto simp: insert_reserve_ledger_def result_simps reserve_entries_def reserve_books_def reserve_book_def)

end
