(* ===== verification/StandardData.thy ===== *)
theory StandardData
  imports Bytes "HOL-Library.Sublist"
begin

text \<open>
  \<open>mindone-coordinator/src/standard_data.rs\<close>: protection of standard-mode payloads, results and
  stream events in the database. The cryptographic crates are a record of parameters: HKDF, AES-256-GCM,
  HMAC, SHA-256, base64 and \<open>Uuid::as_bytes\<close>. \<open>crypto_ok\<close> states what their documentation promises:
  opening inverts sealing and accepts nothing that is not a sealing under the same key, nonce and
  associated data; base64 decodes what it encodes. The random nonce is an argument.

  Values of \<open>Option\<close> stand for the opaque \<open>StandardDataError\<close>. The start-up migration of rows written
  before the protection existed is not modelled.
\<close>

record crypto =
  as_bytes :: "Uuid \<Rightarrow> bytes"
  hkdf_sha256 :: "bytes \<Rightarrow> bytes \<Rightarrow> bytes \<Rightarrow> bytes option"
  aead_seal :: "bytes \<Rightarrow> bytes \<Rightarrow> bytes \<Rightarrow> bytes \<Rightarrow> (bytes \<times> bytes) option"
  aead_open :: "bytes \<Rightarrow> bytes \<Rightarrow> bytes \<Rightarrow> bytes \<Rightarrow> bytes option"
  b64_encode :: "bytes \<Rightarrow> rstring"
  b64_decode :: "rstring \<Rightarrow> bytes option"
  sha256 :: "bytes \<Rightarrow> bytes"
  hmac_sha256 :: "bytes \<Rightarrow> bytes \<Rightarrow> bytes"
  hex_encode :: "bytes \<Rightarrow> rstring"
  hex_decode :: "rstring \<Rightarrow> bytes option"

definition ENVELOPE_PREFIX :: rstring where
  "ENVELOPE_PREFIX = lit ''mindone-standard-aead-v1:''"

definition FINGERPRINT_PREFIX :: rstring where
  "FINGERPRINT_PREFIX = lit ''mindone-standard-hmac-v1:''"

definition STORAGE_VERSION :: i16 where
  "STORAGE_VERSION = 1"

definition NONCE_LENGTH :: nat where
  "NONCE_LENGTH = 12"

definition TAG_LENGTH :: nat where
  "TAG_LENGTH = 16"

definition MAX_STORED_VALUE_BYTES :: nat where
  "MAX_STORED_VALUE_BYTES = 1300000"

definition ENCRYPTION_KEY_INFO :: bytes where
  "ENCRYPTION_KEY_INFO = lit ''MindOne Standard AEAD encryption key v1''"

definition FINGERPRINT_KEY_INFO :: bytes where
  "FINGERPRINT_KEY_INFO = lit ''MindOne Standard fingerprint HMAC key v1''"

definition COMMITMENT_KEY_INFO :: bytes where
  "COMMITMENT_KEY_INFO = lit ''MindOne Standard key commitment key v1''"

datatype StorageDirection = Payload | StoredResult | StreamEvent i32 i32

definition derive_subkey :: "crypto \<Rightarrow> bytes \<Rightarrow> bytes \<Rightarrow> bytes option" where
  "derive_subkey c master_key purpose =
     hkdf_sha256 c (lit ''MindOne Standard data at-rest HKDF salt v1'') master_key purpose"

fun storage_tail :: "StorageDirection \<Rightarrow> bytes" where
  "storage_tail Payload = lit ''payload''"
| "storage_tail StoredResult = lit ''result''"
| "storage_tail (StreamEvent attempt_number sequence_number) =
     lit ''stream-event'' @ [0] @ be_bytes 4 (unat attempt_number) @ be_bytes 4 (unat sequence_number)"

definition storage_aad :: "crypto \<Rightarrow> Uuid \<Rightarrow> StorageDirection \<Rightarrow> bytes" where
  "storage_aad c job_id direction =
     (lit ''MindOne Standard database AEAD v1'' @ [0]) @ as_bytes c job_id @ [0] @ storage_tail direction"

definition encrypt_for_storage ::
    "crypto \<Rightarrow> bytes \<Rightarrow> bytes \<Rightarrow> Uuid \<Rightarrow> StorageDirection \<Rightarrow> bytes \<Rightarrow> rstring option" where
  "encrypt_for_storage c key nonce_bytes job_id direction plaintext =
     (if plaintext = [] \<or> length plaintext > MAX_STORED_VALUE_BYTES then None
      else Option.bind (derive_subkey c key ENCRYPTION_KEY_INFO) (\<lambda>encryption_key.
        Option.bind (aead_seal c encryption_key nonce_bytes (storage_aad c job_id direction) plaintext)
          (\<lambda>(sealed, tag). Some (ENVELOPE_PREFIX @ b64_encode c (nonce_bytes @ sealed @ tag)))))"

definition decrypt_from_storage ::
    "crypto \<Rightarrow> bytes \<Rightarrow> Uuid \<Rightarrow> StorageDirection \<Rightarrow> rstring \<Rightarrow> bytes option" where
  "decrypt_from_storage c key job_id direction envelope =
     (if \<not> prefix ENVELOPE_PREFIX envelope then None
      else let encoded = drop (length ENVELOPE_PREFIX) envelope in
        if encoded = [] \<or> str_len encoded > MAX_STORED_VALUE_BYTES * 2 then None
        else Option.bind (b64_decode c encoded) (\<lambda>sealed.
          if length sealed \<le> NONCE_LENGTH + TAG_LENGTH then None
          else Option.bind (derive_subkey c key ENCRYPTION_KEY_INFO) (\<lambda>encryption_key.
            aead_open c encryption_key (take NONCE_LENGTH sealed) (storage_aad c job_id direction)
              (drop NONCE_LENGTH sealed))))"

definition fingerprint_from_legacy_digest :: "crypto \<Rightarrow> bytes \<Rightarrow> bytes \<Rightarrow> rstring option" where
  "fingerprint_from_legacy_digest c key legacy_digest =
     (if length legacy_digest \<noteq> 32 then None
      else Option.bind (derive_subkey c key FINGERPRINT_KEY_INFO) (\<lambda>fingerprint_key.
        Some (FINGERPRINT_PREFIX @ hex_encode c (hmac_sha256 c fingerprint_key
          ((lit ''MindOne Standard request fingerprint storage v1'' @ [0]) @ legacy_digest)))))"

definition request_fingerprint :: "crypto \<Rightarrow> bytes \<Rightarrow> bytes \<Rightarrow> rstring option" where
  "request_fingerprint c key serialized_request =
     fingerprint_from_legacy_digest c key
       (sha256 c ((lit ''MindOne Standard create idempotency fingerprint v1'' @ [0]) @ serialized_request))"

definition key_commitment :: "crypto \<Rightarrow> bytes \<Rightarrow> bytes option" where
  "key_commitment c master_key =
     Option.bind (derive_subkey c master_key COMMITMENT_KEY_INFO) (\<lambda>commitment_key.
       Some (hmac_sha256 c commitment_key (lit ''MindOne Standard database key commitment v1'')))"

definition valid_lower_hex :: "rstring \<Rightarrow> nat \<Rightarrow> bool" where
  "valid_lower_hex v expected_length \<longleftrightarrow> str_len v = expected_length \<and> list_all is_lower_hex (utf8 v)"

section \<open>Documented behaviour of the crates\<close>

definition octets :: "bytes \<Rightarrow> bool" where
  "octets b \<longleftrightarrow> list_all (\<lambda>x. x < 256) b"

definition crypto_ok :: "crypto \<Rightarrow> bool" where
  "crypto_ok c \<longleftrightarrow>
     uuid_bytes_ok (as_bytes c) \<and>
     (\<forall>k n a p s t. aead_seal c k n a p = Some (s, t) \<longrightarrow>
        length s = length p \<and> length t = TAG_LENGTH \<and> (octets p \<longrightarrow> octets s) \<and> octets t) \<and>
     (\<forall>k n a p s. aead_open c k n a s = Some p \<longleftrightarrow> (\<exists>b t. s = b @ t \<and> aead_seal c k n a p = Some (b, t))) \<and>
     (\<forall>b. octets b \<longrightarrow> b64_decode c (b64_encode c b) = Some b \<and> is_ascii_str (b64_encode c b) \<and>
        length (b64_encode c b) = (4 * length b + 2) div 3)"

lemma length_prefixes:
  "length ENVELOPE_PREFIX = 25" "length FINGERPRINT_PREFIX = 25"
  by (simp_all add: ENVELOPE_PREFIX_def FINGERPRINT_PREFIX_def lit_def)

lemma seal_open:
  "crypto_ok c \<Longrightarrow> aead_seal c k n a p = Some (s, t) \<Longrightarrow> aead_open c k n a (s @ t) = Some p"
  unfolding crypto_ok_def by blast

lemma open_seal:
  "crypto_ok c \<Longrightarrow> aead_open c k n a s = Some p \<Longrightarrow> \<exists>b t. s = b @ t \<and> aead_seal c k n a p = Some (b, t)"
  unfolding crypto_ok_def by blast

lemma seal_lengths:
  "crypto_ok c \<Longrightarrow> aead_seal c k n a p = Some (s, t) \<Longrightarrow>
     length s = length p \<and> length t = TAG_LENGTH \<and> (octets p \<longrightarrow> octets s) \<and> octets t"
  unfolding crypto_ok_def by blast

lemma encrypt_Some:
  "encrypt_for_storage c key nonce job dir p = Some env \<longleftrightarrow>
     p \<noteq> [] \<and> length p \<le> MAX_STORED_VALUE_BYTES \<and>
     (\<exists>sub s t. derive_subkey c key ENCRYPTION_KEY_INFO = Some sub \<and>
        aead_seal c sub nonce (storage_aad c job dir) p = Some (s, t) \<and>
        env = ENVELOPE_PREFIX @ b64_encode c (nonce @ s @ t))"
  by (auto simp: encrypt_for_storage_def bind_eq_Some_conv)

text \<open>What decryption reads from a stored value that encryption produced.\<close>

lemma decrypt_of_envelope:
  assumes ok: "crypto_ok c" and "length nonce = NONCE_LENGTH" and "length t = TAG_LENGTH"
    and "s \<noteq> []" "length s \<le> MAX_STORED_VALUE_BYTES" and oct: "octets nonce" "octets s" "octets t"
    and sub: "derive_subkey c key ENCRYPTION_KEY_INFO = Some sub"
  shows "decrypt_from_storage c key job dir (ENVELOPE_PREFIX @ b64_encode c (nonce @ s @ t)) =
    aead_open c sub nonce (storage_aad c job dir) (s @ t)"
proof -
  let ?e = "b64_encode c (nonce @ s @ t)"
  have enc: "is_ascii_str ?e" "length ?e = (4 * length (nonce @ s @ t) + 2) div 3"
    and dec: "b64_decode c ?e = Some (nonce @ s @ t)"
    using ok oct unfolding crypto_ok_def by (auto simp: octets_def)
  have len: "length (nonce @ s @ t) = 28 + length s" "0 < length s"
    using assms(2-4) by (simp_all add: NONCE_LENGTH_def TAG_LENGTH_def)
  have "length ?e \<le> MAX_STORED_VALUE_BYTES * 2" "?e \<noteq> []"
    using enc(2) len assms(5) by (auto simp: MAX_STORED_VALUE_BYTES_def simp flip: length_greater_0_conv)
  with enc(1) dec len sub assms(2) show ?thesis
    by (simp add: decrypt_from_storage_def str_len_ascii Let_def NONCE_LENGTH_def TAG_LENGTH_def)
qed

lemma storage_tail_inject: "storage_tail d = storage_tail d' \<longleftrightarrow> d = d'"
proof -
  have "unat a < 256 ^ 4" for a :: i32 using unat_u32_less [of a] by simp
  then have be: "be_bytes 4 (unat a) = be_bytes 4 (unat b) \<longleftrightarrow> a = b" for a b :: i32
    using be_bytes_inject [of "unat a" 4 "unat b"] by (auto intro: unsigned_word_eqI)
  show ?thesis by (cases d; cases d') (auto simp: be lit_def)
qed

lemma storage_aad_inject:
  assumes "uuid_bytes_ok (as_bytes c)"
  shows "storage_aad c job dir = storage_aad c job' dir' \<longleftrightarrow> job = job' \<and> dir = dir'"
proof -
  have "length (as_bytes c job) = length (as_bytes c job')"
    using assms by (simp add: uuid_bytes_ok_def)
  then have "storage_aad c job dir = storage_aad c job' dir' \<longleftrightarrow>
      as_bytes c job = as_bytes c job' \<and> storage_tail dir = storage_tail dir'"
    unfolding storage_aad_def by simp
  with assms show ?thesis by (simp add: storage_tail_inject uuid_bytes_ok_def inj_eq)
qed

section \<open>Properties of the protection\<close>

lemma encrypted_decrypts:
  assumes "crypto_ok c" and "octets plaintext" and "octets nonce" and "length nonce = NONCE_LENGTH"
    and "encrypt_for_storage c key nonce job_id dir plaintext = Some envelope"
  shows "decrypt_from_storage c key job_id dir envelope = Some plaintext"
proof -
  obtain sub s t where e: "plaintext \<noteq> []" "length plaintext \<le> MAX_STORED_VALUE_BYTES"
    and sub: "derive_subkey c key ENCRYPTION_KEY_INFO = Some sub"
    and seal: "aead_seal c sub nonce (storage_aad c job_id dir) plaintext = Some (s, t)"
    and env: "envelope = ENVELOPE_PREFIX @ b64_encode c (nonce @ s @ t)"
    using assms(5) by (auto simp: encrypt_Some)
  note len = seal_lengths [OF assms(1) seal]
  have "s \<noteq> []" using e(1) len by auto
  with env len e assms sub show ?thesis
    by (simp add: decrypt_of_envelope seal_open [OF assms(1) seal])
qed

text \<open>C24. What is stored can be read back: whenever a value was encrypted for a job and direction, decrypting
  the stored text for the same job and direction under the same key returns exactly the value.\<close>

theorem storage_round_trip:
  assumes "crypto_ok c" and "octets plaintext" and "octets nonce" and "length nonce = NONCE_LENGTH"
    and "encrypt_for_storage c key nonce job_id dir plaintext = Some envelope"
  shows "decrypt_from_storage c key job_id dir envelope = Some plaintext"
  using assms by (rule encrypted_decrypts)

text \<open>C25. A stored value is bound to its place: a value encrypted for one job and direction (the payload, the
  result, or one event of one attempt) that decrypts for another exhibits two different inputs of
  the AEAD with the same sealed output under one key and nonce; otherwise the place and the
  plaintext are the ones it was encrypted with.\<close>

theorem storage_bound_to_place:
  assumes "crypto_ok c" and "octets plaintext" and "octets nonce" and "length nonce = NONCE_LENGTH"
    and "encrypt_for_storage c key nonce job_id dir plaintext = Some envelope"
    and "decrypt_from_storage c key job_id' dir' envelope = Some plaintext'"
  shows "(job_id' = job_id \<and> dir' = dir \<and> plaintext' = plaintext) \<or>
    (\<exists>sub. derive_subkey c key ENCRYPTION_KEY_INFO = Some sub \<and> (job_id', dir') \<noteq> (job_id, dir) \<and>
      storage_aad c job_id' dir' \<noteq> storage_aad c job_id dir \<and>
      aead_seal c sub nonce (storage_aad c job_id' dir') plaintext' =
        aead_seal c sub nonce (storage_aad c job_id dir) plaintext)"
proof -
  obtain sub s t where e: "plaintext \<noteq> []" "length plaintext \<le> MAX_STORED_VALUE_BYTES"
    and sub: "derive_subkey c key ENCRYPTION_KEY_INFO = Some sub"
    and seal: "aead_seal c sub nonce (storage_aad c job_id dir) plaintext = Some (s, t)"
    and env: "envelope = ENVELOPE_PREFIX @ b64_encode c (nonce @ s @ t)"
    using assms(5) by (auto simp: encrypt_Some)
  note len = seal_lengths [OF assms(1) seal]
  have "s \<noteq> []" using e(1) len by auto
  with env len e assms sub
  have "aead_open c sub nonce (storage_aad c job_id' dir') (s @ t) = Some plaintext'"
    by (simp add: decrypt_of_envelope)
  then obtain b u where bu: "s @ t = b @ u" "aead_seal c sub nonce (storage_aad c job_id' dir') plaintext' = Some (b, u)"
    using open_seal [OF assms(1)] by blast
  with len seal_lengths [OF assms(1) bu(2)] have "b = s" "u = t" by auto
  with bu have seal': "aead_seal c sub nonce (storage_aad c job_id' dir') plaintext' = Some (s, t)" by simp
  have inj: "storage_aad c job_id' dir' = storage_aad c job_id dir \<longleftrightarrow> job_id' = job_id \<and> dir' = dir"
    using assms(1) by (simp add: storage_aad_inject crypto_ok_def)
  show ?thesis
  proof (cases "job_id' = job_id \<and> dir' = dir")
    case True
    with seal seal' have "plaintext' = plaintext"
      using seal_open [OF assms(1)] by (metis option.inject)
    with True show ?thesis by blast
  next
    case False
    with inj sub seal seal' show ?thesis by auto
  qed
qed

text \<open>Concrete crates: unpadded six-bit groups, and a tag that spells out the associated data.\<close>

fun six_bits :: "bytes \<Rightarrow> rstring" where
  "six_bits (a # b # d # r) = (a div 4) # (a mod 4 * 16 + b div 16) # (b mod 16 * 4 + d div 64) # (d mod 64) # six_bits r"
| "six_bits [a, b] = [a div 4, a mod 4 * 16 + b div 16, b mod 16 * 4]"
| "six_bits [a] = [a div 4, a mod 4 * 16]"
| "six_bits [] = []"

fun eight_bits :: "rstring \<Rightarrow> bytes" where
  "eight_bits (p # q # r # s # t) =
     (p * 4 + q div 16) # (q mod 16 * 16 + r div 4) # (r mod 4 * 64 + s) # eight_bits t"
| "eight_bits [p, q, r] = [p * 4 + q div 16, q mod 16 * 16 + r div 4]"
| "eight_bits [p, q] = [p * 4 + q div 16]"
| "eight_bits _ = []"

lemma six_bits_inverse: "octets b \<Longrightarrow> eight_bits (six_bits b) = b"
proof (induction b rule: six_bits.induct)
  case (1 a b d r)
  then have "b < 256" "d < 256" "eight_bits (six_bits r) = r" by (simp_all add: octets_def)
  then have q: "b div 16 < 16" "d div 64 < 4" by simp_all
  then have "(a mod 4 * 16 + b div 16) div 16 = a mod 4" "(a mod 4 * 16 + b div 16) mod 16 = b div 16"
    "(b mod 16 * 4 + d div 64) div 4 = b mod 16" "(b mod 16 * 4 + d div 64) mod 4 = d div 64" by simp_all
  then show ?case using \<open>eight_bits (six_bits r) = r\<close> by simp
next
  case (2 a b)
  then have "b div 16 < 16" by (auto simp: octets_def)
  then have "(a mod 4 * 16 + b div 16) div 16 = a mod 4" "(a mod 4 * 16 + b div 16) mod 16 = b div 16"
    by simp_all
  then show ?case by simp
qed simp_all

lemma six_bit_values:
  "(a :: nat) < 256 \<Longrightarrow> a div 4 < 128" "(a :: nat) mod 64 < 128"
  "(b :: nat) < 256 \<Longrightarrow> a mod 4 * 16 + b div 16 < 128" "(d :: nat) < 256 \<Longrightarrow> b mod 16 * 4 + d div 64 < 128"
  "a mod 4 * 16 < (128 :: nat)" "b mod 16 * 4 < (128 :: nat)"
proof -
  have m: "a mod 4 < 4" "b mod 16 < 16" "a mod 64 < 64" by simp_all
  then show "a mod 64 < 128" "a mod 4 * 16 < 128" "b mod 16 * 4 < 128" by linarith+
  show "a < 256 \<Longrightarrow> a div 4 < 128" by simp
  have "b < 256 \<Longrightarrow> b div 16 < 16" "d < 256 \<Longrightarrow> d div 64 < 4" by simp_all
  with m show "b < 256 \<Longrightarrow> a mod 4 * 16 + b div 16 < 128" "d < 256 \<Longrightarrow> b mod 16 * 4 + d div 64 < 128"
    by linarith+
qed

lemma six_bits_ascii: "octets b \<Longrightarrow> is_ascii_str (six_bits b)"
  by (induction b rule: six_bits.induct) (simp_all add: octets_def is_ascii_str_def six_bit_values)

lemma length_six_bits: "length (six_bits b) = (4 * length b + 2) div 3"
  by (induction b rule: six_bits.induct) simp_all

definition plain_tag :: "bytes \<Rightarrow> bytes" where
  "plain_tag a = be_bytes 16 (foldl (\<lambda>n x. n * 256 + x) 0 a)"

definition plain_crypto :: crypto where
  "plain_crypto = \<lparr>as_bytes = (\<lambda>u. be_bytes 16 (unat u)), hkdf_sha256 = (\<lambda>salt key info. Some key),
     aead_seal = (\<lambda>k n a p. Some (p, plain_tag a)),
     aead_open = (\<lambda>k n a s. if 16 \<le> length s \<and> drop (length s - 16) s = plain_tag a
       then Some (take (length s - 16) s) else None),
     b64_encode = six_bits, b64_decode = (\<lambda>s. Some (eight_bits s)),
     sha256 = (\<lambda>b. take 32 (b @ replicate 32 0)), hmac_sha256 = (\<lambda>k b. take 32 (b @ replicate 32 0)),
     hex_encode = (\<lambda>b. b), hex_decode = (\<lambda>s. Some (hex_pairs s))\<rparr>"

lemma octets_be_bytes: "octets (be_bytes n v)"
  by (induction n arbitrary: v) (auto simp: octets_def)

lemma plain_crypto_ok: "crypto_ok plain_crypto"
proof -
  have "(if 16 \<le> length s \<and> drop (length s - 16) s = plain_tag a then Some (take (length s - 16) s) else None) = Some p
      \<longleftrightarrow> s = p @ plain_tag a" for s a p
    by (auto simp: plain_tag_def) (metis append_take_drop_id)
  then show ?thesis
    using be_uuid_ok
    by (simp add: crypto_ok_def plain_crypto_def six_bits_inverse six_bits_ascii length_six_bits
        octets_be_bytes plain_tag_def TAG_LENGTH_def)
qed

definition sample_nonce :: bytes where
  "sample_nonce = [1, 2, 3, 4, 5, 6, 7, 8, 9, 10, 11, 12]"

lemma sample_encrypted:
  "encrypt_for_storage plain_crypto [7] sample_nonce 5 Payload [104, 105] =
     Some (ENVELOPE_PREFIX @ six_bits (sample_nonce @ [104, 105] @ plain_tag (storage_aad plain_crypto 5 Payload)))"
  by (simp add: encrypt_Some derive_subkey_def plain_crypto_def MAX_STORED_VALUE_BYTES_def)

theorem storage_round_trip_witness:
  "decrypt_from_storage plain_crypto [7] 5 Payload
     (ENVELOPE_PREFIX @ six_bits (sample_nonce @ [104, 105] @ plain_tag (storage_aad plain_crypto 5 Payload))) =
     Some [104, 105]"
  by (rule storage_round_trip [OF plain_crypto_ok _ _ _ sample_encrypted])
    (simp_all add: octets_def sample_nonce_def NONCE_LENGTH_def)

theorem storage_bound_to_place_witness:
  "decrypt_from_storage plain_crypto [7] 5 Payload
     (ENVELOPE_PREFIX @ six_bits (sample_nonce @ [104, 105] @ plain_tag (storage_aad plain_crypto 5 Payload))) =
     Some [104, 105] \<and>
   ((5 :: Uuid) = 5 \<and> Payload = Payload \<and> [104, 105] = [104, 105 :: nat] \<or>
    (\<exists>sub. derive_subkey plain_crypto [7] ENCRYPTION_KEY_INFO = Some sub \<and> (5 :: Uuid, Payload) \<noteq> (5, Payload) \<and>
      storage_aad plain_crypto 5 Payload \<noteq> storage_aad plain_crypto 5 Payload \<and>
      aead_seal plain_crypto sub sample_nonce (storage_aad plain_crypto 5 Payload) [104, 105] =
        aead_seal plain_crypto sub sample_nonce (storage_aad plain_crypto 5 Payload) [104, 105]))"
proof -
  have d: "decrypt_from_storage plain_crypto [7] 5 Payload
     (ENVELOPE_PREFIX @ six_bits (sample_nonce @ [104, 105] @ plain_tag (storage_aad plain_crypto 5 Payload))) =
     Some [104, 105]"
    by (rule storage_round_trip [OF plain_crypto_ok _ _ _ sample_encrypted])
      (simp_all add: octets_def sample_nonce_def NONCE_LENGTH_def)
  with storage_bound_to_place [OF plain_crypto_ok _ _ _ sample_encrypted d] show ?thesis
    by (simp add: octets_def sample_nonce_def NONCE_LENGTH_def)
qed

end
