(* ===== verification/Jobs.thy ===== *)
theory Jobs
  imports Accounts StandardData
begin

text \<open>
  The job lifecycle of \<open>mindone-coordinator/src/routes/jobs.rs\<close>, with the parts of \<open>settlement.rs\<close>,
  \<open>routes/openai_gateway.rs\<close> and \<open>routes/regulated_jobs.rs\<close> that change a job's status: creation,
  claim, renewal, failure report, cancellation and the two reapers. Each handler is a transaction
  body on the database of \<open>Db\<close>. Two operations of other components are parameters: the choice of
  the node and instance that serve a job (the routing query of \<open>claim_job\<close>) and the claim of hidden
  evaluation work, which touches only the hidden-work table and the risk tables.
\<close>

section \<open>Billing snapshots\<close>

definition SERVER_REFERENCE_UPPER_BOUND_V1 :: rstring where
  "SERVER_REFERENCE_UPPER_BOUND_V1 = lit ''server_reference_upper_bound_v1''"

record BillingProfileSnapshot =
  bs_contract_version :: rstring
  bs_profile_id :: Uuid
  bs_profile_version :: i64
  bs_profile_fingerprint :: rstring
  bs_model_weights_hash :: rstring
  bs_reference_hardware_class :: rstring
  bs_evidence_hash :: rstring
  bs_valid_from :: OffsetDateTime
  bs_valid_until :: OffsetDateTime
  bs_profile :: ServerReferenceBillingProfile

record BillingSnapshot =
  sn_profile :: BillingProfileSnapshot
  sn_authorized_input_tokens :: i64
  sn_authorized_max_output_tokens :: i64
  sn_quote :: PhysicalBillingQuote
  reservation_micro :: i64

definition billing_profile_unavailable :: ApiError where
  "billing_profile_unavailable = Unavailable ''billing_profile_unavailable''"

definition BillingProfileSnapshot_from_row :: "BillingProfileRow \<Rightarrow> BillingProfileSnapshot api" where
  "BillingProfileSnapshot_from_row row =
     (if bp_contract_version row \<noteq> SERVER_REFERENCE_UPPER_BOUND_V1 then Inl billing_profile_unavailable
      else Inr \<lparr>bs_contract_version = bp_contract_version row, bs_profile_id = bp_id row,
        bs_profile_version = bp_profile_version row, bs_profile_fingerprint = bp_profile_fingerprint row,
        bs_model_weights_hash = bp_model_weights_hash row,
        bs_reference_hardware_class = bp_reference_hardware_class row, bs_evidence_hash = bp_evidence_hash row,
        bs_valid_from = bp_valid_from row, bs_valid_until = bp_valid_until row, bs_profile = bp_profile row\<rparr>)"

definition BillingSnapshot_calculate :: "BillingProfileSnapshot \<Rightarrow> i64 \<Rightarrow> i64 \<Rightarrow> BillingSnapshot api" where
  "BillingSnapshot_calculate profile authorized_input authorized_output =
     and_then (map_err (\<lambda>_. billing_profile_unavailable)
       (maximum_reservation_quote (bs_profile profile) authorized_input authorized_output)) (\<lambda>quote.
     and_then (map_err (\<lambda>_. billing_profile_unavailable)
       (maximum_reservation_micro (bs_profile profile) authorized_input authorized_output)) (\<lambda>reservation.
       Inr \<lparr>sn_profile = profile, sn_authorized_input_tokens = authorized_input,
         sn_authorized_max_output_tokens = authorized_output, sn_quote = quote,
         reservation_micro = as_i64 reservation\<rparr>))"

text \<open>\<open>ORDER BY profile_version DESC, valid_from DESC, id LIMIT 1\<close>.\<close>

definition profile_before :: "BillingProfileRow \<Rightarrow> BillingProfileRow \<Rightarrow> bool" where
  "profile_before a b \<longleftrightarrow>
     sint (bp_profile_version b) < sint (bp_profile_version a) \<or>
     (bp_profile_version a = bp_profile_version b \<and>
       (bp_valid_from b < bp_valid_from a \<or> bp_valid_from a = bp_valid_from b \<and> unat (bp_id a) \<le> unat (bp_id b)))"

definition current_billing_profile ::
    "OffsetDateTime \<Rightarrow> Uuid \<Rightarrow> rstring \<Rightarrow> 'x db \<Rightarrow> BillingProfileRow option" where
  "current_billing_profile now model_id weights_hash d =
     (case sort_by profile_before (filter (\<lambda>p. bp_contract_version p = SERVER_REFERENCE_UPPER_BOUND_V1 \<and>
        bp_model_id p = model_id \<and> bp_model_weights_hash p = weights_hash \<and>
        bp_valid_from p \<le> now \<and> now < bp_valid_until p) (billing_profiles d)) of
        [] \<Rightarrow> None | p # _ \<Rightarrow> Some p)"

definition load_billing_snapshot ::
    "OffsetDateTime \<Rightarrow> Uuid \<Rightarrow> rstring \<Rightarrow> i32 \<Rightarrow> i32 \<Rightarrow> 'x db \<Rightarrow> BillingSnapshot api" where
  "load_billing_snapshot now model_id weights_hash authorized_input authorized_output d =
     and_then (ok_or (current_billing_profile now model_id weights_hash d) billing_profile_unavailable) (\<lambda>row.
     and_then (BillingProfileSnapshot_from_row row) (\<lambda>profile.
       if bs_model_weights_hash profile \<noteq> weights_hash then Inl billing_profile_unavailable
       else BillingSnapshot_calculate profile (s_from authorized_input) (s_from authorized_output)))"

text \<open>The billing columns bound by the \<open>INSERT INTO jobs\<close> of both creation handlers.\<close>

definition billing_columns :: "BillingSnapshot \<Rightarrow> JobBillingSnapshot" where
  "billing_columns b =
     \<lparr>contract_version = bs_contract_version (sn_profile b), bl_profile_id = bs_profile_id (sn_profile b),
      bl_profile_version = bs_profile_version (sn_profile b),
      bl_profile_fingerprint = bs_profile_fingerprint (sn_profile b),
      bl_model_weights_hash = bs_model_weights_hash (sn_profile b),
      bl_reference_hardware_class = bs_reference_hardware_class (sn_profile b),
      bl_profile_evidence_hash = bs_evidence_hash (sn_profile b),
      bl_profile_valid_from = bs_valid_from (sn_profile b), bl_profile_valid_until = bs_valid_until (sn_profile b),
      bl_profile = bs_profile (sn_profile b), authorized_input_tokens = sn_authorized_input_tokens b,
      authorized_max_output_tokens = sn_authorized_max_output_tokens b,
      bl_billable_tokens = billable_tokens (sn_quote b), bl_reference_gpu_time_us = reference_gpu_time_us (sn_quote b),
      bl_reference_vram_mib_microseconds = reference_vram_mib_microseconds (sn_quote b),
      token_cost_micro = as_i64 (token_cost (sn_quote b)), gpu_cost_micro = as_i64 (gpu_cost (sn_quote b)),
      vram_cost_micro = as_i64 (vram_cost (sn_quote b)), base_cost_micro = as_i64 (quote_base_cost (sn_quote b))\<rparr>"

text \<open>\<open>BillingSnapshot::from_frozen_row\<close>: the snapshot frozen when a regulated route was prepared.\<close>

definition quote_matches_columns :: "PhysicalBillingQuote \<Rightarrow> JobBillingSnapshot \<Rightarrow> bool" where
  "quote_matches_columns q c \<longleftrightarrow>
     billable_tokens q = bl_billable_tokens c \<and> reference_gpu_time_us q = bl_reference_gpu_time_us c \<and>
     reference_vram_mib_microseconds q = bl_reference_vram_mib_microseconds c \<and>
     as_i64 (token_cost q) = token_cost_micro c \<and> as_i64 (gpu_cost q) = gpu_cost_micro c \<and>
     as_i64 (vram_cost q) = vram_cost_micro c \<and> as_i64 (quote_base_cost q) = base_cost_micro c"

definition BillingSnapshot_from_frozen_row :: "JobBillingSnapshot option \<Rightarrow> rstring \<Rightarrow> BillingSnapshot api" where
  "BillingSnapshot_from_frozen_row columns expected_model_weights_hash =
     and_then (ok_or columns billing_profile_unavailable) (\<lambda>c.
       if contract_version c \<noteq> SERVER_REFERENCE_UPPER_BOUND_V1 then Inl billing_profile_unavailable
       else if bl_model_weights_hash c \<noteq> expected_model_weights_hash then Inl billing_profile_unavailable
       else
         and_then (BillingSnapshot_calculate
           \<lparr>bs_contract_version = contract_version c, bs_profile_id = bl_profile_id c,
            bs_profile_version = bl_profile_version c, bs_profile_fingerprint = bl_profile_fingerprint c,
            bs_model_weights_hash = bl_model_weights_hash c,
            bs_reference_hardware_class = bl_reference_hardware_class c,
            bs_evidence_hash = bl_profile_evidence_hash c, bs_valid_from = bl_profile_valid_from c,
            bs_valid_until = bl_profile_valid_until c, bs_profile = bl_profile c\<rparr>
           (authorized_input_tokens c) (authorized_max_output_tokens c)) (\<lambda>snapshot.
           if \<not> quote_matches_columns (sn_quote snapshot) c then Inl billing_profile_unavailable
           else Inr snapshot))"

section \<open>Time\<close>

text \<open>\<open>OffsetDateTime::checked_add\<close> fails past the year 9999.\<close>

definition MAX_DATE_TIME :: OffsetDateTime where
  "MAX_DATE_TIME = 253402300799999999999"

definition date_checked_add :: "OffsetDateTime \<Rightarrow> int \<Rightarrow> OffsetDateTime option" where
  "date_checked_add t seconds =
     (let t' = t + seconds * 1000000000 in if t' \<le> MAX_DATE_TIME then Some t' else None)"

definition expiry :: "OffsetDateTime \<Rightarrow> u64 \<Rightarrow> OffsetDateTime api" where
  "expiry now_utc duration_secs =
     (if unat duration_secs > 9223372036854775807 then Inl InternalError
      else ok_or (date_checked_add now_utc (int (unat duration_secs))) InternalError)"

section \<open>Leases\<close>

definition update_job :: "Uuid \<Rightarrow> (Job \<Rightarrow> Job) \<Rightarrow> 'x db \<Rightarrow> 'x db" where
  "update_job i f d = d\<lparr>jobs := sql_update (\<lambda>j. j_id j = i) f (jobs d)\<rparr>"

definition leased_attempt :: "Uuid \<Rightarrow> i32 \<Rightarrow> JobAttempt \<Rightarrow> bool" where
  "leased_attempt i attempt a \<longleftrightarrow> at_job_id a = i \<and> at_attempt_number a = attempt \<and> at_status a = AttemptLeased"

definition update_attempts :: "(JobAttempt \<Rightarrow> bool) \<Rightarrow> (JobAttempt \<Rightarrow> JobAttempt) \<Rightarrow> 'x db \<Rightarrow> 'x db" where
  "update_attempts P f d = d\<lparr>job_attempts := sql_update P f (job_attempts d)\<rparr>"

definition instance_busy :: "Uuid \<Rightarrow> 'x db \<Rightarrow> bool" where
  "instance_busy i d \<longleftrightarrow>
     list_ex (\<lambda>j. j_model_instance_id j = Some i \<and> j_status j = Leased) (jobs d) \<or>
     list_ex (\<lambda>h. hw_model_instance_id h = i \<and> hw_leased h) (hidden_work d)"

definition unpublish_idle :: "OffsetDateTime \<Rightarrow> (ModelInstance \<Rightarrow> bool) \<Rightarrow> 'x db \<Rightarrow> 'x db" where
  "unpublish_idle now P d =
     d\<lparr>model_instances := sql_update (\<lambda>m. P m \<and> mi_status m = Draining \<and> \<not> instance_busy (mi_id m) d)
       (\<lambda>m. m\<lparr>mi_status := Unpublished, mi_unpublished_at := Some now\<rparr>) (model_instances d)\<rparr>"

definition finalize_draining_instance :: "OffsetDateTime \<Rightarrow> Uuid option \<Rightarrow> 'x db \<Rightarrow> 'x db" where
  "finalize_draining_instance now model_instance_id d =
     (case model_instance_id of None \<Rightarrow> d | Some i \<Rightarrow> unpublish_idle now (\<lambda>m. mi_id m = i) d)"

fun job_error_class_key :: "JobErrorClass \<Rightarrow> rstring" where
  "job_error_class_key Engine = lit ''engine''"
| "job_error_class_key Model = lit ''model''"
| "job_error_class_key JobWire.Policy = lit ''policy''"
| "job_error_class_key Timeout = lit ''timeout''"
| "job_error_class_key ResourceExhausted = lit ''resource_exhausted''"
| "job_error_class_key NodeDisconnected = lit ''node_disconnected''"
| "job_error_class_key InvalidRequest = lit ''invalid_request''"
| "job_error_class_key JobWire.Internal = lit ''internal''"
| "job_error_class_key Attestation = lit ''attestation''"

definition stable_job_error_class :: "rstring option \<Rightarrow> JobErrorClass option" where
  "stable_job_error_class = map_option (\<lambda>v.
     if v = lit ''engine'' then Engine
     else if v = lit ''model'' then Model
     else if v = lit ''policy'' then JobWire.Policy
     else if v = lit ''timeout'' \<or> v = lit ''lease_expired'' then Timeout
     else if v = lit ''resource_exhausted'' then ResourceExhausted
     else if v = lit ''node_disconnected'' then NodeDisconnected
     else if v = lit ''invalid_request'' then InvalidRequest
     else if v = lit ''internal'' then JobWire.Internal
     else if v = lit ''attestation'' then Attestation
     else JobWire.Internal)"

section \<open>Reapers\<close>

definition job_order :: "Job \<Rightarrow> Job \<Rightarrow> bool" where
  "job_order a b \<longleftrightarrow> unat (j_user_id a) < unat (j_user_id b) \<or>
     j_user_id a = j_user_id b \<and> unat (j_id a) \<le> unat (j_id b)"

definition lease_expired :: "OffsetDateTime \<Rightarrow> Job \<Rightarrow> bool" where
  "lease_expired now j \<longleftrightarrow> is_some_and (j_lease_expires_at j) (\<lambda>t. t \<le> now)"

definition lease_valid :: "OffsetDateTime \<Rightarrow> Job \<Rightarrow> bool" where
  "lease_valid now j \<longleftrightarrow> is_some_and (j_lease_expires_at j) (\<lambda>t. now < t)"

definition expired_terminal :: "OffsetDateTime \<Rightarrow> Job \<Rightarrow> bool" where
  "expired_terminal now j \<longleftrightarrow>
     j_status j = Leased \<and> lease_expired now j \<and> sint (j_max_attempts j) \<le> sint (j_attempt_count j)"

definition reap_expired_lease :: "OffsetDateTime \<Rightarrow> Job \<Rightarrow> 'x db \<Rightarrow> 'x db api" where
  "reap_expired_lease now job d =
     and_then (release_reservation now (j_user_id job) (j_reserved_cost_micro job) d) (\<lambda>d.
       let d = update_attempts (leased_attempt (j_id job) (j_attempt_count job))
             (\<lambda>a. a\<lparr>at_status := AttemptExpired, at_finished_at := Some now,
                at_error_class := Some (lit ''timeout''),
                at_error_message := Some (lit ''lease expired and attempts exhausted'')\<rparr>) d;
           d = update_job (j_id job)
             (\<lambda>j. j\<lparr>j_status := Failed, j_completed_at := Some now, j_updated_at := now\<rparr>) d
       in Inr (finalize_draining_instance now (j_model_instance_id job) d))"

definition reap_expired_terminal_leases :: "OffsetDateTime \<Rightarrow> 'x db \<Rightarrow> 'x db api" where
  "reap_expired_terminal_leases now d =
     and_then (try_fold (reap_expired_lease now)
       (take 100 (sort_by job_order (filter (expired_terminal now) (jobs d)))) d) (\<lambda>d.
       Inr (unpublish_idle now (\<lambda>_. True) d))"

definition ninety_seconds :: int where
  "ninety_seconds = 90 * 1000000000"

text \<open>The three rows a regulated job is bound to, or \<open>None\<close> where a join finds no partner.\<close>

definition regulated_binding :: "Job \<Rightarrow> 'x db \<Rightarrow> (Node \<times> ModelInstance \<times> AttestationReport) option" where
  "regulated_binding j d =
     Option.bind (fetch_optional (\<lambda>n. Some (n_id n) = j_regulated_node_id j) (nodes d)) (\<lambda>n.
     Option.bind (fetch_optional (\<lambda>mi. Some (mi_id mi) = j_model_instance_id j) (model_instances d)) (\<lambda>mi.
     Option.bind (fetch_optional (\<lambda>ar. Some (ar_id ar) = j_attestation_report_id j) (attestation_reports d)) (\<lambda>ar.
       Some (n, mi, ar))))"

definition regulated_invalid :: "OffsetDateTime \<Rightarrow> 'x db \<Rightarrow> Job \<Rightarrow> bool" where
  "regulated_invalid now d j \<longleftrightarrow>
     j_confidentiality j = Regulated \<and> j_status j \<in> {Queued, Retry} \<and>
     is_some_and (regulated_binding j d) (\<lambda>(n, mi, ar).
       n_status n \<noteq> Online \<or>
       is_some_and (n_last_seen_at n) (\<lambda>t. t \<le> now - ninety_seconds) \<or>
       n_attestation_report_id n \<noteq> j_attestation_report_id j \<or>
       is_some_and (n_trust_expires_at n) (\<lambda>t. t \<le> now) \<or>
       mi_status mi \<noteq> Published \<or> Some (mi_node_id mi) \<noteq> j_regulated_node_id j \<or>
       ar_status ar \<noteq> Verified \<or> ar_key_origin ar \<noteq> TeeRuntime \<or> ar_expires_at ar \<le> now \<or>
       is_some_and (ar_collateral_expires_at ar) (\<lambda>t. t \<le> now))"

definition i32_saturating_add :: "i32 \<Rightarrow> i32 \<Rightarrow> i32" where
  "i32_saturating_add a b = word_of_int (max (- 2147483648) (min 2147483647 (sint a + sint b)))"

text \<open>The unique constraints of \<open>job_attempts\<close>.\<close>

definition insert_attempt :: "JobAttempt \<Rightarrow> 'x db \<Rightarrow> 'x db api" where
  "insert_attempt a d =
     (if sint (at_attempt_number a) \<le> 0 \<or>
         list_ex (\<lambda>x. at_id x = at_id a \<or> at_job_id x = at_job_id a \<and> at_attempt_number x = at_attempt_number a)
           (job_attempts d)
      then Inl InternalError
      else Inr (d\<lparr>job_attempts := job_attempts d @ [a]\<rparr>))"

definition reap_invalid_regulated ::
    "OffsetDateTime \<Rightarrow> (Uuid \<Rightarrow> Uuid) \<Rightarrow> Job \<Rightarrow> 'x db \<Rightarrow> 'x db api" where
  "reap_invalid_regulated now fresh job d =
     and_then (ok_or (j_regulated_node_id job) InternalError) (\<lambda>node_id.
     let attempt_number = i32_saturating_add (j_attempt_count job) 1 in
     and_then (release_reservation now (j_user_id job) (j_reserved_cost_micro job) d) (\<lambda>d.
     and_then (insert_attempt
         \<lparr>at_id = fresh (j_id job), at_job_id = j_id job, at_node_id = node_id, at_attempt_number = attempt_number,
          at_status = AttemptFailed, at_lease_started_at = now, at_lease_expires_at = now,
          at_finished_at = Some now, at_error_class = Some (lit ''attestation''),
          at_error_message = Some (lit ''regulated binding no longer valid''),
          at_result_idempotency_key = None, at_retryable_requested = None,
          at_claim_device_binding_version = None, at_claim_device_key_id = None\<rparr> d) (\<lambda>d.
       let d = update_job (j_id job)
             (\<lambda>j. j\<lparr>j_status := Failed, j_attempt_count := attempt_number, j_completed_at := Some now,
                j_updated_at := now\<rparr>) d
       in Inr (finalize_draining_instance now (j_model_instance_id job) d))))"

definition reap_invalid_regulated_jobs :: "OffsetDateTime \<Rightarrow> (Uuid \<Rightarrow> Uuid) \<Rightarrow> 'x db \<Rightarrow> 'x db api" where
  "reap_invalid_regulated_jobs now fresh d =
     try_fold (reap_invalid_regulated now fresh)
       (take 100 (sort_by job_order (filter (regulated_invalid now d) (jobs d)))) d"

section \<open>Regulated leases\<close>

definition instance_canary_quarantined :: "Uuid \<Rightarrow> 'x db \<Rightarrow> bool" where
  "instance_canary_quarantined i d \<longleftrightarrow> List.member (canary_quarantined d) i"

definition regulated_lease_binding_valid :: "OffsetDateTime \<Rightarrow> Uuid \<Rightarrow> Uuid \<Rightarrow> 'x db \<Rightarrow> bool" where
  "regulated_lease_binding_valid now job_id node_id d \<longleftrightarrow>
     is_some_and (fetch_optional (\<lambda>j. j_id j = job_id) (jobs d)) (\<lambda>j.
     is_some_and (fetch_optional (\<lambda>m. m_id m = j_model_id j) (models d)) (\<lambda>m.
     is_some_and (regulated_binding j d) (\<lambda>(n, mi, ar).
       j_confidentiality j = Regulated \<and> j_status j = Leased \<and> j_leased_to_node_id j = Some node_id \<and>
       j_regulated_node_id j = Some node_id \<and> n_status n \<in> {Online, Paused, DrainingNode} \<and>
       is_some_and (n_last_seen_at n) (\<lambda>t. now - ninety_seconds < t) \<and> n_trust_level n = TrustLevel.Enhanced \<and>
       is_some_and (n_trust_expires_at n) (\<lambda>t. now < t) \<and>
       n_attestation_report_id n = j_attestation_report_id j \<and>
       mi_node_id mi = node_id \<and> mi_model_id mi = j_model_id j \<and> mi_status mi \<in> {Published, Draining} \<and>
       \<not> instance_canary_quarantined (mi_id mi) d \<and> m_enabled m \<and>
       ar_node_id ar = node_id \<and> ar_model_instance_id ar = j_model_instance_id j \<and>
       ar_model_hash ar = Some (m_weights_hash m) \<and> ar_status ar = Verified \<and> ar_key_origin ar = TeeRuntime \<and>
       now < ar_expires_at ar \<and> ar_collateral_current ar \<and>
       is_some_and (ar_collateral_expires_at ar) (\<lambda>t. now < t) \<and>
       ar_signature_verified ar \<and> ar_certificate_chain_verified ar \<and> ar_tcb_current ar)))"

definition fail_regulated_lease_attestation ::
    "OffsetDateTime \<Rightarrow> Uuid \<Rightarrow> rstring \<Rightarrow> 'x db \<Rightarrow> 'x db api" where
  "fail_regulated_lease_attestation now job_id msg d =
     and_then (ok_or (fetch_optional (\<lambda>j. j_id j = job_id) (jobs d)) NotFound) (\<lambda>job.
       if j_confidentiality job \<noteq> Regulated \<or> j_status job \<noteq> Leased then Inl InternalError
       else
         and_then (release_reservation now (j_user_id job) (j_reserved_cost_micro job) d) (\<lambda>d.
           let P = leased_attempt job_id (j_attempt_count job);
               d' = update_attempts P (\<lambda>a. a\<lparr>at_status := AttemptFailed, at_finished_at := Some now,
                      at_error_class := Some (lit ''attestation''), at_error_message := Some msg,
                      at_retryable_requested := Some False\<rparr>) d
           in if rows_affected P (job_attempts d) \<noteq> 1 then Inl InternalError
              else
                let d'' = d'\<lparr>jobs := sql_update (\<lambda>j. j_id j = job_id \<and> j_status j = Leased)
                      (\<lambda>j. j\<lparr>j_status := Failed, j_completed_at := Some now, j_updated_at := now\<rparr>) (jobs d')\<rparr>
                in Inr (finalize_draining_instance now (j_model_instance_id job) d'')))"

section \<open>Node policy\<close>

definition active_leases :: "OffsetDateTime \<Rightarrow> Uuid \<Rightarrow> Uuid option \<Rightarrow> 'x db \<Rightarrow> nat" where
  "active_leases now node_id excluded d =
     rows_affected (\<lambda>j. j_leased_to_node_id j = Some node_id \<and> j_status j = Leased \<and> lease_valid now j \<and>
       excluded \<noteq> Some (j_id j)) (jobs d) +
     rows_affected (\<lambda>h. hw_node_id h = node_id \<and> hw_leased h \<and>
       is_some_and (hw_lease_expires_at h) (\<lambda>t. now < t) \<and> excluded \<noteq> Some (hw_id h)) (hidden_work d)"

definition latest_metric :: "Uuid \<Rightarrow> 'x db \<Rightarrow> NodeMetric option" where
  "latest_metric node_id d =
     (case sort_by (\<lambda>a b. nm_measured_at b \<le> nm_measured_at a)
        (filter (\<lambda>m. nm_node_id m = node_id) (node_metrics d)) of [] \<Rightarrow> None | m # _ \<Rightarrow> Some m)"

definition f64_from_i32 :: "i32 \<Rightarrow> f64" where
  "f64_from_i32 v = of_exact (of_int (sint v))"

definition u64_try_from_i64 :: "i64 \<Rightarrow> u64 option" where
  "u64_try_from_i64 v = (if 0 \<le> sint v then Some (word_of_int (sint v)) else None)"

definition u32_try_from_i32 :: "i32 \<Rightarrow> u32 option" where
  "u32_try_from_i32 v = (if 0 \<le> sint v then Some v else None)"

definition u16_try_from_i32 :: "i32 \<Rightarrow> u16 option" where
  "u16_try_from_i32 v = (if 0 \<le> sint v \<and> sint v < 65536 then Some (word_of_int (sint v)) else None)"

definition u32_try_from_nat :: "nat \<Rightarrow> u32 option" where
  "u32_try_from_nat n = (if n < 4294967296 then Some (word_of_nat n) else None)"

definition available_vram :: "NodeMetric \<Rightarrow> u64 option" where
  "available_vram m =
     (case (nm_vram_used_mib m, nm_vram_total_mib m) of
        (Some in_use, Some installed) \<Rightarrow> u64_try_from_i64 (i64_saturating_sub installed in_use)
      | _ \<Rightarrow> None)"

definition accounting_policy :: "NodePolicyRow \<Rightarrow> NodePolicy api" where
  "accounting_policy p =
     and_then (ok_or (u32_try_from_i32 (p_max_concurrent p)) InternalError) (\<lambda>mc.
     and_then (case p_gpu_temp_limit_c p of
                 None \<Rightarrow> Inr None
               | Some limit \<Rightarrow> and_then (ok_or (u16_try_from_i32 limit) InternalError) (\<lambda>l. Inr (Some l))) (\<lambda>temp.
     and_then (ok_or (u64_try_from_i64 (p_vram_reserve_mib p)) InternalError) (\<lambda>vram.
       Inr \<lparr>NodePolicy.reject_tags = btree_set (p_reject_tags p), max_concurrent = mc, gpu_temp_limit_c = temp,
         vram_reserve_mib = vram, resume_temp_hysteresis_c = 5\<rparr>)))"

definition enforce_current_policy ::
    "OffsetDateTime \<Rightarrow> Uuid \<Rightarrow> NodePolicyRow \<Rightarrow> Uuid option \<Rightarrow> rstring list \<Rightarrow> 'x db \<Rightarrow> unit api" where
  "enforce_current_policy now node_id policy excluded task_tag_list d =
     (let active = active_leases now node_id excluded d;
          metrics = latest_metric node_id d in
      and_then (accounting_policy policy) (\<lambda>pol.
      and_then (ok_or (u32_try_from_nat active) InternalError) (\<lambda>current.
      and_then (map_err (\<lambda>_. InternalError) (evaluate_policy pol
          \<lparr>task_tags = btree_set task_tag_list, current_concurrent = current,
           gpu_temp_c = Option.bind metrics (\<lambda>m. map_option f64_from_i32 (nm_gpu_temp_c m)),
           available_vram_mib = Option.bind metrics available_vram, paused_for_temperature = False\<rparr>)) (\<lambda>decision.
        case decision of Accept _ \<Rightarrow> Inr () | PauseTemperature _ _ \<Rightarrow> Inl PolicyRejected | Reject _ \<Rightarrow> Inl PolicyRejected))))"

section \<open>Claim\<close>

record config =
  standard_data_key :: bytes
  lease_duration_secs :: u64
  max_job_retries :: i32

text \<open>What time it is and which identifiers are drawn during one call of a handler.\<close>

record clock =
  tx_now :: OffsetDateTime
  now_utc :: OffsetDateTime
  fresh_id :: Uuid
  fresh_for :: "Uuid \<Rightarrow> Uuid"

definition claimable :: "OffsetDateTime \<Rightarrow> Job \<Rightarrow> bool" where
  "claimable now j \<longleftrightarrow>
     (j_status j \<in> {Queued, Retry} \<or> j_status j = Leased \<and> lease_expired now j) \<and>
     j_available_at j \<le> now \<and> sint (j_attempt_count j) < sint (j_max_attempts j)"

definition claim_order :: "Job \<Rightarrow> Job \<Rightarrow> bool" where
  "claim_order a b \<longleftrightarrow> sint (rq_priority (j_request b)) < sint (rq_priority (j_request a)) \<or>
     rq_priority (j_request a) = rq_priority (j_request b) \<and> j_created_at a \<le> j_created_at b"

text \<open>
  The candidate query: \<open>selected\<close> is the result of its lateral join, the node and instance that should
  serve a job.
\<close>

definition claim_candidate ::
    "OffsetDateTime \<Rightarrow> (Job \<Rightarrow> (Uuid \<times> Uuid) option) \<Rightarrow> Uuid \<Rightarrow> Uuid \<Rightarrow> 'x db \<Rightarrow> Job option" where
  "claim_candidate now selected node_id model_instance_id d =
     (case sort_by claim_order (filter (\<lambda>j. claimable now j \<and> selected j = Some (node_id, model_instance_id) \<and>
        list_ex (\<lambda>m. m_id m = j_model_id j \<and> m_enabled m) (models d)) (jobs d)) of
        [] \<Rightarrow> None | j # _ \<Rightarrow> Some j)"

text \<open>\<open>String::from_utf8\<close>: exactly the encodings of sequences of Unicode scalar values.\<close>

definition is_scalar :: "nat \<Rightarrow> bool" where
  "is_scalar c \<longleftrightarrow> c < 55296 \<or> 57344 \<le> c \<and> c < 1114112"

definition utf8_more :: "nat \<Rightarrow> nat" where
  "utf8_more b = (if b < 128 then 0 else if b < 224 then 1 else if b < 240 then 2 else 3)"

definition utf8_code :: "nat \<Rightarrow> bytes \<Rightarrow> nat" where
  "utf8_code b r = foldl (\<lambda>v x. v * 64 + (x - 128))
     (if b < 128 then b else if b < 224 then b - 192 else if b < 240 then b - 224 else b - 240) r"

function from_utf8 :: "bytes \<Rightarrow> rstring option" where
  "from_utf8 [] = Some []"
| "from_utf8 (b # r) =
     (if is_scalar (utf8_code b (take (utf8_more b) r)) \<and>
         utf8_char (utf8_code b (take (utf8_more b) r)) = b # take (utf8_more b) r
      then map_option (\<lambda>s. utf8_code b (take (utf8_more b) r) # s) (from_utf8 (drop (utf8_more b) r))
      else None)"
  by pat_completeness auto

termination
  by (relation "measure length") simp_all

definition claimed_payload :: "crypto \<Rightarrow> config \<Rightarrow> Job \<Rightarrow> rstring api" where
  "claimed_payload cr cfg j =
     (if j_confidentiality j = StandardMode then
        if rq_standard_payload_storage_version (j_request j) \<noteq> Some STORAGE_VERSION then Inl InternalError
        else and_then (ok_or (decrypt_from_storage cr (standard_data_key cfg) (j_id j) Payload
                 (rq_encrypted_payload (j_request j))) InternalError) (\<lambda>plaintext.
               ok_or (from_utf8 plaintext) InternalError)
      else Inr (rq_encrypted_payload (j_request j)))"

record ClaimJobResponse =
  cl_job_id :: Uuid
  cl_model_instance_id :: Uuid
  cl_model :: rstring
  cl_model_weights_hash :: rstring
  cl_encrypted_payload :: rstring
  cl_payload_encoding :: PayloadEncoding
  cl_tags :: "rstring list"
  cl_estimated_input_tokens :: i32
  cl_max_output_tokens :: i32
  cl_attempt :: i32
  cl_lease_expires_at :: OffsetDateTime
  cl_confidentiality :: ConfidentialityMode
  cl_regulated_route_id :: "Uuid option"
  cl_attestation_report_id :: "Uuid option"

datatype 'h ClaimAnswer = NoContent | HiddenWorkClaimed 'h | OrdinaryClaimed ClaimJobResponse

text \<open>Granting the lease: the second half of \<open>claim_job\<close>, from the candidate row on.\<close>

definition grant_lease ::
    "crypto \<Rightarrow> config \<Rightarrow> clock \<Rightarrow> Principal \<Rightarrow> Uuid \<Rightarrow> Uuid \<Rightarrow> Job \<Rightarrow> 'x db \<Rightarrow> ('h ClaimAnswer api \<times> 'x db) api" where
  "grant_lease cr cfg ck prin node_id model_instance_id job d =
     (let previous_attempt = j_attempt_count job;
          d = (if 0 < sint previous_attempt
               then update_attempts (leased_attempt (j_id job) previous_attempt)
                 (\<lambda>a. a\<lparr>at_status := AttemptExpired, at_finished_at := Some (tx_now ck)\<rparr>) d
               else d);
          attempt = i32_saturating_add previous_attempt 1
      in and_then (expiry (now_utc ck) (lease_duration_secs cfg)) (\<lambda>lease_expires_at.
        if instance_canary_quarantined model_instance_id d then commit d NoContent
        else case fetch_optional (\<lambda>mi. mi_id mi = model_instance_id) (model_instances d) of
          None \<Rightarrow> commit d NoContent
        | Some mi \<Rightarrow>
          if mi_status mi \<noteq> Published then commit d NoContent
          else
            let d = update_job (j_id job) (\<lambda>j. j\<lparr>j_status := Leased, j_leased_to_node_id := Some node_id,
                      j_model_instance_id := Some model_instance_id,
                      j_lease_expires_at := Some lease_expires_at, j_attempt_count := attempt,
                      j_updated_at := tx_now ck\<rparr>) d
            in and_then (insert_attempt
                 \<lparr>at_id = fresh_id ck, at_job_id = j_id job, at_node_id = node_id, at_attempt_number = attempt,
                  at_status = AttemptLeased, at_lease_started_at = tx_now ck,
                  at_lease_expires_at = lease_expires_at, at_finished_at = None, at_error_class = None,
                  at_error_message = None, at_result_idempotency_key = None, at_retryable_requested = None,
                  at_claim_device_binding_version = Some DEVICE_BINDING_VERSION,
                  at_claim_device_key_id = Some (pr_device_key_id prin)\<rparr> d) (\<lambda>d.
               and_then (claimed_payload cr cfg job) (\<lambda>payload.
               and_then (fetch_one (\<lambda>m. m_id m = j_model_id job) (models d)) (\<lambda>m.
                 commit d (OrdinaryClaimed
                   \<lparr>cl_job_id = j_id job, cl_model_instance_id = model_instance_id, cl_model = m_name m,
                    cl_model_weights_hash = m_weights_hash m, cl_encrypted_payload = payload,
                    cl_payload_encoding = rq_payload_encoding (j_request job), cl_tags = rq_tags (j_request job),
                    cl_estimated_input_tokens = rq_estimated_input_tokens (j_request job),
                    cl_max_output_tokens = rq_max_output_tokens (j_request job), cl_attempt = attempt,
                    cl_lease_expires_at = lease_expires_at, cl_confidentiality = j_confidentiality job,
                    cl_regulated_route_id = j_regulated_route_id job,
                    cl_attestation_report_id = j_attestation_report_id job\<rparr>))))))"

definition claim_job ::
    "crypto \<Rightarrow> config \<Rightarrow> clock \<Rightarrow> ('x db \<Rightarrow> Job \<Rightarrow> (Uuid \<times> Uuid) option) \<Rightarrow>
     (HiddenWork list \<Rightarrow> 'x \<Rightarrow> ('h option \<times> HiddenWork list \<times> 'x) api) \<Rightarrow>
     Principal \<Rightarrow> Uuid \<Rightarrow> Uuid \<Rightarrow> 'x db \<Rightarrow> ('h ClaimAnswer api \<times> 'x db) api" where
  "claim_job cr cfg ck selected maybe_claim_hidden_job prin node_id model_instance_id d =
     and_then (ok_or (fetch_optional (\<lambda>n. n_id n = node_id) (nodes d)) NotFound) (\<lambda>node.
     and_then (ok_or (fetch_optional (\<lambda>p. p_node_id p = node_id) (node_policies d)) NotFound) (\<lambda>policy.
     and_then (require_node_device_binding prin (n_user_id node) (n_device_key_id node)) (\<lambda>_.
     if n_status node \<noteq> Online then Inl PolicyRejected
     else
     and_then (reap_expired_terminal_leases (tx_now ck) d) (\<lambda>d.
     and_then (reap_invalid_regulated_jobs (tx_now ck) (fresh_for ck) d) (\<lambda>d.
     and_then (enforce_current_policy (tx_now ck) node_id policy None [] d) (\<lambda>_.
     and_then (maybe_claim_hidden_job (hidden_work d) (risk d)) (\<lambda>(hidden, hw, r).
       let d = d\<lparr>hidden_work := hw, risk := r\<rparr> in
       case hidden of
         Some h \<Rightarrow> commit d (HiddenWorkClaimed h)
       | None \<Rightarrow>
         (case claim_candidate (tx_now ck) (selected d) node_id model_instance_id d of
            None \<Rightarrow> commit d NoContent
          | Some job \<Rightarrow>
            and_then (enforce_current_policy (tx_now ck) node_id policy None (rq_tags (j_request job)) d) (\<lambda>_.
              grant_lease cr cfg ck prin node_id model_instance_id job d)))))))))"

section \<open>Renewal\<close>

definition lease_not_renewable :: ApiError where
  "lease_not_renewable = Conflict ''lease_not_renewable''"

text \<open>The ordinary branch of \<open>renew_job\<close>; a hidden work item is renewed by its own component.\<close>

definition renew_job :: "config \<Rightarrow> clock \<Rightarrow> Principal \<Rightarrow> Uuid \<Rightarrow> Uuid \<Rightarrow> 'x db \<Rightarrow> (OffsetDateTime api \<times> 'x db) api" where
  "renew_job cfg ck prin job_id node_id d =
     (let now = tx_now ck in
     and_then (ok_or (fetch_optional (\<lambda>n. n_id n = node_id) (nodes d)) NotFound) (\<lambda>node.
     and_then (ok_or (fetch_optional (\<lambda>p. p_node_id p = node_id) (node_policies d)) NotFound) (\<lambda>policy.
     and_then (require_node_device_binding prin (n_user_id node) (n_device_key_id node)) (\<lambda>_.
     if n_status node \<notin> {Online, Paused, DrainingNode} then Inl PolicyRejected
     else
     and_then (ok_or (fetch_optional (\<lambda>j. j_id j = job_id \<and> j_leased_to_node_id j = Some node_id \<and>
        j_status j = Leased \<and> lease_valid now j) (jobs d)) lease_not_renewable) (\<lambda>task.
     and_then (ok_or (fetch_optional (\<lambda>a. at_job_id a = job_id \<and> at_attempt_number a = j_attempt_count task)
        (job_attempts d)) lease_not_renewable) (\<lambda>ja.
     if \<not> exact_claim_device_binding prin (Some (pr_user_id prin)) (at_claim_device_key_id ja)
          (at_claim_device_binding_version ja)
     then Inl lease_not_renewable
     else if j_confidentiality task = Regulated \<and> \<not> regulated_lease_binding_valid now job_id node_id d
     then and_then (fail_regulated_lease_attestation now job_id (lit ''regulated binding lost at renewal'') d) (\<lambda>d.
       Inr (Inl AttestationFailed, d))
     else
     and_then (enforce_current_policy now node_id policy (Some job_id) (rq_tags (j_request task)) d) (\<lambda>_.
     and_then (expiry (now_utc ck) (lease_duration_secs cfg)) (\<lambda>lease_expires_at.
       let P = (\<lambda>j. j_id j = job_id \<and> j_leased_to_node_id j = Some node_id \<and> j_status j = Leased \<and> lease_valid now j);
           d' = d\<lparr>jobs := sql_update P (\<lambda>j. j\<lparr>j_lease_expires_at := Some lease_expires_at, j_updated_at := now\<rparr>) (jobs d)\<rparr>
       in if rows_affected P (jobs d) \<noteq> 1 then Inl lease_not_renewable
          else commit (update_attempts (\<lambda>a. at_job_id a = job_id \<and> at_status a = AttemptLeased)
                 (\<lambda>a. a\<lparr>at_lease_expires_at := lease_expires_at\<rparr>) d') lease_expires_at))))))))"

section \<open>Failure reports\<close>

definition verify_node_owner :: "Principal \<Rightarrow> Uuid \<Rightarrow> 'x db \<Rightarrow> unit api" where
  "verify_node_owner prin node_id d =
     and_then (ok_or (fetch_optional (\<lambda>n. n_id n = node_id) (nodes d)) NotFound) (\<lambda>node.
       require_node_device_binding prin (n_user_id node) (n_device_key_id node))"

definition retry_backoff :: "i32 \<Rightarrow> int" where
  "retry_backoff attempt_count = max 1 (min 60 (sint attempt_count * 2))"

text \<open>The answer of \<open>job_fail\<close> is its \<open>idempotent_replay\<close> flag.\<close>

definition replay_failure :: "Principal \<Rightarrow> JobFailRequest \<Rightarrow> JobAttempt \<Rightarrow> Node \<Rightarrow> bool api" where
  "replay_failure prin req existing node =
     (if n_user_id node \<noteq> pr_user_id prin \<or> at_node_id existing \<noteq> fail_node_id req \<or>
         \<not> exact_claim_device_binding prin (Some (n_user_id node)) (at_claim_device_key_id existing)
            (at_claim_device_binding_version existing)
      then Inl Forbidden
      else if at_error_class existing \<noteq> Some (job_error_class_key (error_class req)) \<or>
        at_error_message existing \<noteq> Some (error_message req) \<or>
        at_retryable_requested existing \<noteq> Some (retryable req)
      then Inl (Conflict ''idempotency_binding_mismatch'')
      else Inr True)"

definition job_fail :: "clock \<Rightarrow> Principal \<Rightarrow> Uuid \<Rightarrow> JobFailRequest \<Rightarrow> 'x db \<Rightarrow> (bool api \<times> 'x db) api" where
  "job_fail ck prin job_id req d =
     (let now = tx_now ck in
     and_then (map_err (\<lambda>_. BadRequest ''invalid_failure_report'') (JobFailRequest_validate req)) (\<lambda>_.
     and_then (verify_node_owner prin (fail_node_id req) d) (\<lambda>_.
     case fetch_optional (\<lambda>a. at_job_id a = job_id \<and> at_result_idempotency_key a = Some (fail_idempotency_key req) \<and>
         list_ex (\<lambda>n. n_id n = at_node_id a) (nodes d)) (job_attempts d) of
       Some existing \<Rightarrow>
         and_then (fetch_one (\<lambda>n. n_id n = at_node_id existing) (nodes d)) (\<lambda>node.
         and_then (replay_failure prin req existing node) (\<lambda>replay. commit d replay))
     | None \<Rightarrow>
     and_then (ok_or (fetch_optional (\<lambda>j. j_id j = job_id) (jobs d)) NotFound) (\<lambda>job.
     and_then (ok_or (fetch_optional (\<lambda>n. Some (n_id n) = j_leased_to_node_id job) (nodes d)) NotFound) (\<lambda>node.
     and_then (ok_or (fetch_optional (\<lambda>a. at_job_id a = job_id \<and> at_attempt_number a = j_attempt_count job)
        (job_attempts d)) NotFound) (\<lambda>ja.
     if n_user_id node \<noteq> pr_user_id prin \<or> n_id node \<noteq> fail_node_id req \<or>
        \<not> exact_claim_device_binding prin (Some (n_user_id node)) (at_claim_device_key_id ja)
          (at_claim_device_binding_version ja)
     then Inl Forbidden
     else if j_status job \<noteq> Leased then Inl (Conflict ''job_not_leased'')
     else if \<not> lease_valid now job then Inl (Conflict ''lease_expired'')
     else
       let will_retry = (retryable req \<and> sint (j_attempt_count job) < sint (j_max_attempts job));
           d = update_attempts (leased_attempt job_id (j_attempt_count job))
             (\<lambda>a. a\<lparr>at_status := AttemptFailed, at_finished_at := Some now,
                at_error_class := Some (job_error_class_key (error_class req)),
                at_error_message := Some (error_message req),
                at_result_idempotency_key := Some (fail_idempotency_key req),
                at_retryable_requested := Some (retryable req)\<rparr>) d
       in and_then
            (if will_retry then
               and_then (ok_or (date_checked_add (now_utc ck) (retry_backoff (j_attempt_count job))) InternalError)
                 (\<lambda>available_at. Inr (update_job job_id (\<lambda>j. j\<lparr>j_status := Retry, j_leased_to_node_id := None,
                     j_model_instance_id := (if j_confidentiality j = Regulated then j_model_instance_id j else None),
                     j_lease_expires_at := None, j_available_at := available_at, j_updated_at := now\<rparr>) d))
             else
               and_then (release_reservation now (j_user_id job) (j_reserved_cost_micro job) d) (\<lambda>d.
                 Inr (update_job job_id
                   (\<lambda>j. j\<lparr>j_status := Failed, j_completed_at := Some now, j_updated_at := now\<rparr>) d)))
            (\<lambda>d. commit (finalize_draining_instance now (j_model_instance_id job) d) False)))))))"

section \<open>Cancellation\<close>

definition cancel_timed_out_job :: "OffsetDateTime \<Rightarrow> Principal \<Rightarrow> Uuid \<Rightarrow> 'x db \<Rightarrow> (unit api \<times> 'x db) api" where
  "cancel_timed_out_job now prin job_id d =
     and_then (ok_or (fetch_optional (\<lambda>j. j_id j = job_id \<and> j_user_id j = pr_user_id prin) (jobs d)) NotFound) (\<lambda>job.
       if j_status job \<in> {Succeeded, Failed, Cancelled} then commit d ()
       else
         and_then (release_reservation now (pr_user_id prin) (j_reserved_cost_micro job) d) (\<lambda>d.
           let d = (if j_status job = Leased
                    then update_attempts (leased_attempt job_id (j_attempt_count job))
                      (\<lambda>a. a\<lparr>at_status := AttemptFailed, at_finished_at := Some now,
                         at_error_class := Some (lit ''timeout''),
                         at_error_message := Some (lit ''gateway timed out waiting for the job'')\<rparr>) d
                    else d);
               d = update_job job_id (\<lambda>j. j\<lparr>j_status := Cancelled, j_lease_expires_at := None,
                     j_completed_at := Some now, j_updated_at := now\<rparr>) d
           in commit (finalize_draining_instance now (j_model_instance_id job) d) ()))"

section \<open>Status\<close>

text \<open>
  The ordinary branch of \<open>get_job\<close>. It is not a mere read: both reapers run first and what they did is
  committed with the answer. Only the consumer is given the result, opened again for a standard job.
\<close>

record JobStatusResponse =
  js_job_id :: Uuid
  js_status :: JobStatus
  js_model_id :: Uuid
  js_model_instance_id :: "Uuid option"
  js_tags :: "rstring list"
  js_leased_to_node_id :: "Uuid option"
  js_lease_expires_at :: "OffsetDateTime option"
  js_attempt_count :: i32
  js_max_attempts :: i32
  js_actual_input_tokens :: "i32 option"
  js_actual_output_tokens :: "i32 option"
  js_result_ciphertext :: "rstring option"
  js_speed_class :: SpeedClass
  js_confidentiality :: ConfidentialityMode
  js_regulated_route_id :: "Uuid option"
  js_attestation_report_id :: "Uuid option"
  js_error_class :: "JobErrorClass option"
  js_error_message :: "rstring option"
  js_receipt_id :: "Uuid option"
  js_created_at :: OffsetDateTime
  js_updated_at :: OffsetDateTime
  js_completed_at :: "OffsetDateTime option"

definition visible_result :: "crypto \<Rightarrow> config \<Rightarrow> Job \<Rightarrow> rstring option api" where
  "visible_result cr cfg j =
     (case j_result j of
        None \<Rightarrow> Inr None
      | Some rs \<Rightarrow>
          if j_confidentiality j \<noteq> StandardMode then Inr (Some (rs_ciphertext rs))
          else if rs_standard_storage_version rs \<noteq> Some STORAGE_VERSION then Inl InternalError
          else and_then (ok_or (decrypt_from_storage cr (standard_data_key cfg) (j_id j) StoredResult (rs_ciphertext rs))
                 InternalError) (\<lambda>plaintext.
               and_then (ok_or (from_utf8 plaintext) InternalError) (\<lambda>s. Inr (Some s))))"

definition latest_attempt :: "Uuid \<Rightarrow> 'x db \<Rightarrow> JobAttempt option" where
  "latest_attempt job_id d =
     (case sort_by (\<lambda>a b. sint (at_attempt_number b) \<le> sint (at_attempt_number a))
        (filter (\<lambda>a. at_job_id a = job_id) (job_attempts d)) of [] \<Rightarrow> None | a # _ \<Rightarrow> Some a)"

definition get_job ::
    "crypto \<Rightarrow> config \<Rightarrow> clock \<Rightarrow> Principal \<Rightarrow> Uuid \<Rightarrow> 'x db \<Rightarrow> (JobStatusResponse api \<times> 'x db) api" where
  "get_job cr cfg ck prin job_id d =
     and_then (reap_expired_terminal_leases (tx_now ck) d) (\<lambda>d.
     and_then (reap_invalid_regulated_jobs (tx_now ck) (fresh_for ck) d) (\<lambda>d.
     and_then (ok_or (fetch_optional (\<lambda>j. j_id j = job_id) (jobs d)) NotFound) (\<lambda>job.
     let node_user_id = map_option n_user_id (fetch_optional (\<lambda>n. Some (n_id n) = j_leased_to_node_id job) (nodes d));
         receipt_id = map_option rc_id (fetch_optional (\<lambda>r. rc_job_id r = job_id) (receipts d));
         attempt = latest_attempt job_id d in
     if j_user_id job \<noteq> pr_user_id prin \<and> node_user_id \<noteq> Some (pr_user_id prin) then Inl Forbidden
     else
     and_then (if j_user_id job = pr_user_id prin then visible_result cr cfg job else Inr None) (\<lambda>result_ciphertext.
       commit d \<lparr>js_job_id = job_id, js_status = j_status job, js_model_id = j_model_id job,
         js_model_instance_id = j_model_instance_id job, js_tags = rq_tags (j_request job),
         js_leased_to_node_id = j_leased_to_node_id job, js_lease_expires_at = j_lease_expires_at job,
         js_attempt_count = j_attempt_count job, js_max_attempts = j_max_attempts job,
         js_actual_input_tokens = map_option rs_actual_input_tokens (j_result job),
         js_actual_output_tokens = map_option rs_actual_output_tokens (j_result job),
         js_result_ciphertext = result_ciphertext, js_speed_class = rq_speed_class (j_request job),
         js_confidentiality = j_confidentiality job, js_regulated_route_id = j_regulated_route_id job,
         js_attestation_report_id = j_attestation_report_id job,
         js_error_class = stable_job_error_class (Option.bind attempt at_error_class),
         js_error_message = Option.bind attempt at_error_message, js_receipt_id = receipt_id,
         js_created_at = j_created_at job, js_updated_at = j_updated_at job,
         js_completed_at = j_completed_at job\<rparr>))))"

end
