(* ===== verification/Create.thy ===== *)
theory Create
  imports Jobs
begin

text \<open>
  Job creation: \<open>create_job_authenticated\<close> with \<open>validate_create_job\<close> of \<open>routes/jobs.rs\<close>, and
  \<open>create_regulated_job\<close> with its capacity check of \<open>routes/regulated_jobs.rs\<close>. Serialisation and
  base64 are parameters; so are the anti-abuse assessment, which reads and writes only the risk
  tables, and model selection, which only reads.
\<close>

section \<open>Standard jobs\<close>

record 'v wire_env =
  wire_json :: "'v serde_json"
  payload_from_slice :: "bytes \<Rightarrow> 'v StandardJobPayload option"
  base64_standard :: "rstring \<Rightarrow> bytes option"
  base64_url :: "rstring \<Rightarrow> bytes option"
  request_to_vec :: "CreateJobRequest \<Rightarrow> bytes option"
  envelope_to_string :: "RegulatedEnvelope \<Rightarrow> rstring option"

definition decode_standard_payload :: "'v wire_env \<Rightarrow> PayloadEncoding \<Rightarrow> rstring \<Rightarrow> bytes api" where
  "decode_standard_payload w enc encoded =
     and_then
       (case enc of
          Base64 \<Rightarrow> ok_or (base64_standard w encoded) (BadRequest ''invalid_standard_payload'')
        | Base64Url \<Rightarrow> ok_or (base64_url w encoded) (BadRequest ''invalid_standard_payload'')
        | RegulatedAeadV1 \<Rightarrow> Inl (BadRequest ''invalid_job''))
       (\<lambda>decoded. if decoded = [] \<or> length decoded > 900000 then Inl (BadRequest ''invalid_standard_payload'')
          else Inr decoded)"

record ValidatedStandardJob =
  vj_request_fingerprint :: rstring
  vj_stream :: bool

definition validate_create_job ::
    "'v wire_env \<Rightarrow> crypto \<Rightarrow> bytes \<Rightarrow> CreateJobRequest \<Rightarrow> ValidatedStandardJob api" where
  "validate_create_job w cr key r =
     and_then (map_err (\<lambda>_. BadRequest ''invalid_job'') (CreateJobRequest_validate r)) (\<lambda>_.
     if payload_encoding r = RegulatedAeadV1 then Inl (BadRequest ''invalid_job'')
     else
     and_then (decode_standard_payload w (payload_encoding r) (encrypted_payload r)) (\<lambda>decoded.
     and_then (ok_or (payload_from_slice w decoded) (BadRequest ''invalid_standard_payload'')) (\<lambda>payload.
     and_then (map_err (\<lambda>_. BadRequest ''invalid_standard_payload'') (validated_limits (wire_json w) payload)) (\<lambda>limits.
     if lim_model limits \<noteq> virtual_model r then Inl (BadRequest ''model_binding_mismatch'')
     else if sint (estimated_input_tokens r) < sint (minimum_input_tokens limits) \<or>
       sint (max_output_tokens r) < sint (StandardJobLimits.maximum_output_tokens limits)
     then Inl (BadRequest ''usage_authorization_too_small'')
     else
     and_then (ok_or (request_to_vec w r) InternalError) (\<lambda>encoded.
     and_then (ok_or (request_fingerprint cr key encoded) InternalError) (\<lambda>fingerprint.
       Inr \<lparr>vj_request_fingerprint = fingerprint, vj_stream = lim_stream limits\<rparr>))))))"

text \<open>The answers of both creations; the regulated one has no speed class.\<close>

record CreateJobResponse =
  cj_job_id :: Uuid
  cj_status :: JobStatus
  cj_model_id :: Uuid
  cj_reserved_cost_micro :: i64
  cj_speed_class :: "SpeedClass option"
  cj_idempotent_replay :: bool

definition find_by_idempotency_key :: "Uuid \<Rightarrow> rstring \<Rightarrow> 'x db \<Rightarrow> Job option" where
  "find_by_idempotency_key user key d =
     fetch_optional (\<lambda>j. j_user_id j = user \<and> rq_idempotency_key (j_request j) = key) (jobs d)"

definition replay_response :: "SpeedClass option \<Rightarrow> Job \<Rightarrow> CreateJobResponse" where
  "replay_response speed j = \<lparr>cj_job_id = j_id j, cj_status = j_status j, cj_model_id = j_model_id j,
     cj_reserved_cost_micro = j_reserved_cost_micro j, cj_speed_class = speed, cj_idempotent_replay = True\<rparr>"

definition existing_standard_response :: "Job \<Rightarrow> rstring \<Rightarrow> CreateJobResponse api" where
  "existing_standard_response existing fingerprint =
     (if rq_standard_request_fingerprint (j_request existing) \<noteq> Some fingerprint
      then Inl (Conflict ''idempotency_binding_mismatch'')
      else Inr (replay_response (Some (rq_speed_class (j_request existing))) existing))"

text \<open>The constraints and the insert guard of \<open>jobs\<close> (migrations 0001, 0009, 0032, 0034).\<close>

definition job_row_check :: "Job \<Rightarrow> bool" where
  "job_row_check j \<longleftrightarrow>
     0 \<le> sint (rq_estimated_input_tokens (j_request j)) \<and> 0 < sint (rq_max_output_tokens (j_request j)) \<and>
     0 < sint (j_reserved_cost_micro j) \<and> 0 \<le> sint (j_attempt_count j) \<and> 0 < sint (j_max_attempts j) \<and>
     (j_confidentiality j = Regulated \<longleftrightarrow> j_regulated_route_id j \<noteq> None) \<and>
     (j_confidentiality j = Regulated \<longleftrightarrow> j_regulated_node_id j \<noteq> None) \<and>
     (j_confidentiality j = Regulated \<longleftrightarrow> j_attestation_report_id j \<noteq> None) \<and>
     is_some_and (j_billing j) (\<lambda>b. contract_version b = SERVER_REFERENCE_UPPER_BOUND_V1 \<and>
       authorized_input_tokens b = s_from (rq_estimated_input_tokens (j_request j)) \<and>
       authorized_max_output_tokens b = s_from (rq_max_output_tokens (j_request j)))"

definition insert_job :: "Job \<Rightarrow> 'x db \<Rightarrow> 'x db api" where
  "insert_job j d =
     (if \<not> job_row_check j \<or>
         list_ex (\<lambda>x. j_id x = j_id j \<or>
           j_user_id x = j_user_id j \<and> rq_idempotency_key (j_request x) = rq_idempotency_key (j_request j) \<or>
           j_regulated_route_id j \<noteq> None \<and> j_regulated_route_id x = j_regulated_route_id j) (jobs d)
      then Inl InternalError
      else Inr (d\<lparr>jobs := jobs d @ [j]\<rparr>))"

definition attempts_allowed :: "config \<Rightarrow> i32" where
  "attempts_allowed cfg =
     (let n = i32_saturating_add (max_job_retries cfg) 1 in if sint n < 1 then 1 else n)"

definition create_job ::
    "'v wire_env \<Rightarrow> crypto \<Rightarrow> config \<Rightarrow> clock \<Rightarrow> bytes \<Rightarrow>
     (Uuid \<Rightarrow> rstring \<Rightarrow> 'x \<Rightarrow> 'x api) \<Rightarrow>
     (rstring \<Rightarrow> rstring list \<Rightarrow> i32 \<Rightarrow> i32 \<Rightarrow> 'x db \<Rightarrow> (Uuid \<times> rstring) api) \<Rightarrow>
     Principal \<Rightarrow> CreateJobRequest \<Rightarrow> 'x db \<Rightarrow> (CreateJobResponse api \<times> 'x db) api" where
  "create_job w cr cfg ck nonce assess_job_creation select_model prin r d =
     and_then (validate_create_job w cr (standard_data_key cfg) r) (\<lambda>validated.
     case find_by_idempotency_key (pr_user_id prin) (job_idempotency_key r) d of
       Some existing \<Rightarrow>
         and_then (existing_standard_response existing (vj_request_fingerprint validated)) (\<lambda>resp. commit d resp)
     | None \<Rightarrow>
     and_then (assess_job_creation (pr_user_id prin) (job_idempotency_key r) (risk d)) (\<lambda>risk'.
     let d = d\<lparr>risk := risk'\<rparr> in
     and_then (map_err (\<lambda>_. BadRequest ''invalid_job'') (parse_speed_qualified_model (virtual_model r))) (\<lambda>speed_model.
     and_then (select_model (base_model speed_model) (job_tags r) (estimated_input_tokens r) (max_output_tokens r) d)
       (\<lambda>(model_id, weights_hash).
     and_then (load_billing_snapshot (tx_now ck) model_id weights_hash (estimated_input_tokens r)
        (max_output_tokens r) d) (\<lambda>billing.
     and_then (reserve_quota (tx_now ck) (pr_user_id prin) (reservation_micro billing) d) (\<lambda>d.
     and_then (ok_or (encrypt_for_storage cr (standard_data_key cfg) nonce (fresh_id ck) Payload
        (utf8 (encrypted_payload r))) InternalError) (\<lambda>stored_payload.
     and_then (insert_job
       \<lparr>j_id = fresh_id ck, j_user_id = pr_user_id prin, j_model_id = model_id, j_model_instance_id = None,
        j_status = Queued,
        j_request = \<lparr>rq_idempotency_key = job_idempotency_key r, rq_encrypted_payload = stored_payload,
          rq_payload_encoding = payload_encoding r, rq_tags = job_tags r,
          rq_estimated_input_tokens = estimated_input_tokens r, rq_max_output_tokens = max_output_tokens r,
          rq_priority = priority r,
          rq_standard_request_fingerprint = Some (vj_request_fingerprint validated),
          rq_standard_payload_storage_version = Some STORAGE_VERSION,
          rq_speed_class = speed_class speed_model\<rparr>,
        j_reserved_cost_micro = reservation_micro billing, j_leased_to_node_id = None, j_lease_expires_at = None,
        j_attempt_count = 0, j_max_attempts = (if vj_stream validated then 1 else attempts_allowed cfg),
        j_available_at = tx_now ck, j_created_at = tx_now ck, j_updated_at = tx_now ck, j_completed_at = None,
        j_confidentiality = StandardMode, j_regulated_route_id = None, j_regulated_node_id = None,
        j_attestation_report_id = None, j_result = None, j_billing = Some (billing_columns billing)\<rparr> d) (\<lambda>d.
       commit d \<lparr>cj_job_id = fresh_id ck, cj_status = Queued, cj_model_id = model_id,
         cj_reserved_cost_micro = reservation_micro billing, cj_speed_class = Some (speed_class speed_model),
         cj_idempotent_replay = False\<rparr>))))))))"

section \<open>Regulated jobs\<close>

text \<open>A chain of \<open>a? || b? || ...\<close>: later operands are evaluated only if the earlier are false.\<close>

fun any_api :: "bool api list \<Rightarrow> bool api" where
  "any_api [] = Inr False"
| "any_api (c # cs) = and_then c (\<lambda>b. if b then Inr True else any_api cs)"

definition not_null :: "'a option \<Rightarrow> ('a \<Rightarrow> bool) \<Rightarrow> bool api" where
  "not_null v P = and_then (ok_or v InternalError) (\<lambda>x. Inr (P x))"

definition eq_ignore_ascii_case :: "rstring \<Rightarrow> rstring \<Rightarrow> bool" where
  "eq_ignore_ascii_case a b \<longleftrightarrow> to_ascii_lowercase a = to_ascii_lowercase b"

definition min_report_remaining :: int where
  "min_report_remaining = 30 * 1000000000"

definition reserved_slots :: "OffsetDateTime \<Rightarrow> Uuid \<Rightarrow> Uuid option \<Rightarrow> 'x db \<Rightarrow> nat" where
  "reserved_slots now node_id excluded_route_id d =
     rows_affected (\<lambda>j. j_status j = Leased \<and> j_leased_to_node_id j = Some node_id \<and> lease_valid now j \<or>
       j_confidentiality j = Regulated \<and> j_regulated_node_id j = Some node_id \<and> j_status j \<in> {Queued, Retry}) (jobs d) +
     rows_affected (\<lambda>rt. rt_node_id rt = node_id \<and> rt_status rt = Prepared \<and> now < rt_expires_at rt \<and>
       excluded_route_id \<noteq> Some (rt_id rt)) (regulated_routes d) +
     rows_affected (\<lambda>h. hw_node_id h = node_id \<and> hw_leased h \<and>
       is_some_and (hw_lease_expires_at h) (\<lambda>t. now < t)) (hidden_work d)"

definition check_reserved_capacity_and_policy ::
    "clock \<Rightarrow> Uuid \<Rightarrow> rstring list \<Rightarrow> Uuid option \<Rightarrow> Uuid option \<Rightarrow> 'x db \<Rightarrow> bool api" where
  "check_reserved_capacity_and_policy ck node_id tags excluded_route_id expected_report_id d =
     and_then (ok_or (fetch_optional (\<lambda>n. n_id n = node_id) (nodes d)) NotFound) (\<lambda>n.
     and_then (ok_or (fetch_optional (\<lambda>p. p_node_id p = node_id) (node_policies d)) NotFound) (\<lambda>p.
     let now = now_utc ck; metric = latest_metric node_id d in
     Inr (\<not> (n_status n \<noteq> Online \<or> n_trust_level n \<noteq> TrustLevel.Enhanced \<or>
            \<not> is_some_and (n_last_seen_at n) (\<lambda>t. now - ninety_seconds < t) \<or>
            \<not> is_some_and (n_trust_expires_at n) (\<lambda>t. now + min_report_remaining < t) \<or>
            (expected_report_id \<noteq> None \<and> n_attestation_report_id n \<noteq> expected_report_id)) \<and>
          \<not> list_ex (\<lambda>t. list_ex (\<lambda>v. eq_ignore_ascii_case v t) (p_reject_tags p)) tags \<and>
          int (reserved_slots (tx_now ck) node_id excluded_route_id d) < sint (p_max_concurrent p) \<and>
          \<not> is_some_and (p_gpu_temp_limit_c p) (\<lambda>limit.
            \<not> is_some_and (Option.bind metric nm_gpu_temp_c) (\<lambda>t. sint t < sint limit)) \<and>
          (0 < sint (p_vram_reserve_mib p) \<longrightarrow>
            is_some_and metric (\<lambda>m. is_some_and (nm_vram_used_mib m) (\<lambda>in_use.
              is_some_and (nm_vram_total_mib m) (\<lambda>installed.
                sint (p_vram_reserve_mib p) \<le> sint (i64_saturating_sub installed in_use))))))))"

definition route_expired_or_lost ::
    "clock \<Rightarrow> RegulatedRoute \<Rightarrow> ModelRow \<Rightarrow> ModelInstance \<Rightarrow> Node \<Rightarrow> AttestationReport \<Rightarrow> 'x db \<Rightarrow> bool api" where
  "route_expired_or_lost ck rt m mi n ar d =
     (let now = now_utc ck in
      any_api [Inr (rt_expires_at rt \<le> now), Inr (mi_status mi \<noteq> Published),
        Inr (instance_canary_quarantined (mi_id mi) d), Inr (mi_node_id mi \<noteq> rt_node_id rt),
        Inr (n_status n \<noteq> Online), not_null (n_last_seen_at n) (\<lambda>t. t \<le> now - ninety_seconds),
        Inr (n_attestation_report_id n \<noteq> Some (rt_attestation_report_id rt)),
        Inr (\<not> is_some_and (n_trust_expires_at n) (\<lambda>t. now < t)),
        Inr (ar_status ar \<noteq> Verified), Inr (ar_key_origin ar \<noteq> TeeRuntime),
        not_null (ar_model_instance_id ar) (\<lambda>i. i \<noteq> rt_model_instance_id rt),
        Inr (ar_node_id ar \<noteq> rt_node_id rt), not_null (ar_model_hash ar) (\<lambda>h. h \<noteq> m_weights_hash m),
        Inr (ar_expires_at ar \<le> now), not_null (ar_collateral_expires_at ar) (\<lambda>t. t \<le> now)])"

definition existing_regulated_response :: "CreateRegulatedJobRequest \<Rightarrow> rstring \<Rightarrow> 'x db \<Rightarrow> Job \<Rightarrow> CreateJobResponse api" where
  "existing_regulated_response r fingerprint d existing =
     (let stored = Option.bind (fetch_optional (\<lambda>rt. Some (rt_id rt) = j_regulated_route_id existing)
        (regulated_routes d)) rt_create_request_fingerprint in
      if j_regulated_route_id existing \<noteq> Some (cr_route_id r) \<or> stored \<noteq> Some fingerprint
      then Inl (Conflict ''idempotency_binding_mismatch'')
      else Inr (replay_response None existing))"

text \<open>From the locked route on: the checks, the reservation, the job row and the consumed route.\<close>

definition consume_route ::
    "'v wire_env \<Rightarrow> config \<Rightarrow> clock \<Rightarrow> Principal \<Rightarrow> CreateRegulatedJobRequest \<Rightarrow> rstring \<Rightarrow>
     RegulatedRoute \<Rightarrow> ModelRow \<Rightarrow> ModelInstance \<Rightarrow> Node \<Rightarrow> AttestationReport \<Rightarrow> 'x db \<Rightarrow>
     (CreateJobResponse api \<times> 'x db) api" where
  "consume_route w cfg ck prin r fingerprint rt m mi n ar d =
     and_then (route_expired_or_lost ck rt m mi n ar d) (\<lambda>lost.
     if lost then Inl AttestationFailed
     else
     and_then (BillingSnapshot_from_frozen_row (rt_billing rt) (m_weights_hash m)) (\<lambda>billing.
     and_then (check_reserved_capacity_and_policy ck (rt_node_id rt) (rt_tags rt) (Some (cr_route_id r))
        (Some (rt_attestation_report_id rt)) d) (\<lambda>has_slot.
     if \<not> has_slot then Inl PolicyRejected
     else if instance_canary_quarantined (rt_model_instance_id rt) d then Inl AttestationFailed
     else
     and_then (any_api [Inr (report_id (envelope r) \<noteq> rt_attestation_report_id rt),
        Inr (env_model_instance_id (envelope r) \<noteq> rt_model_instance_id rt),
        not_null (ar_ephemeral_public_key ar) (\<lambda>k. sender_public_key (envelope r) = k)]) (\<lambda>mismatch.
     if mismatch then Inl AttestationFailed
     else
     and_then (ok_or (envelope_to_string w (envelope r)) (BadRequest ''invalid_regulated_job'')) (\<lambda>opaque.
     if str_len opaque > 900000 then Inl (BadRequest ''invalid_regulated_job'')
     else if sn_authorized_input_tokens billing \<noteq> s_from (rt_estimated_input_tokens rt) \<or>
       sn_authorized_max_output_tokens billing \<noteq> s_from (rt_max_output_tokens rt)
     then Inl billing_profile_unavailable
     else
     and_then (reserve_quota (tx_now ck) (pr_user_id prin) (reservation_micro billing) d) (\<lambda>d.
     and_then (insert_job
       \<lparr>j_id = fresh_id ck, j_user_id = pr_user_id prin, j_model_id = rt_model_id rt,
        j_model_instance_id = Some (rt_model_instance_id rt), j_status = Queued,
        j_request = \<lparr>rq_idempotency_key = cr_idempotency_key r, rq_encrypted_payload = opaque,
          rq_payload_encoding = RegulatedAeadV1, rq_tags = rt_tags rt,
          rq_estimated_input_tokens = rt_estimated_input_tokens rt,
          rq_max_output_tokens = rt_max_output_tokens rt, rq_priority = rt_priority rt,
          rq_standard_request_fingerprint = None, rq_standard_payload_storage_version = None,
          rq_speed_class = StandardSpeed\<rparr>,
        j_reserved_cost_micro = reservation_micro billing, j_leased_to_node_id = None, j_lease_expires_at = None,
        j_attempt_count = 0, j_max_attempts = attempts_allowed cfg, j_available_at = tx_now ck,
        j_created_at = tx_now ck, j_updated_at = tx_now ck, j_completed_at = None,
        j_confidentiality = Regulated, j_regulated_route_id = Some (cr_route_id r),
        j_regulated_node_id = Some (rt_node_id rt),
        j_attestation_report_id = Some (rt_attestation_report_id rt), j_result = None,
        j_billing = Some (billing_columns billing)\<rparr> d) (\<lambda>d.
       let P = (\<lambda>x. rt_id x = cr_route_id r \<and> rt_status x = Prepared \<and> tx_now ck < rt_expires_at x) in
       if rows_affected P (regulated_routes d) \<noteq> 1 then Inl (Conflict ''regulated_route_replay'')
       else commit (d\<lparr>regulated_routes := sql_update P (\<lambda>x. x\<lparr>rt_status := Consumed,
                rt_consumed_at := Some (tx_now ck), rt_job_id := Some (fresh_id ck),
                rt_create_request_fingerprint := Some fingerprint\<rparr>) (regulated_routes d)\<rparr>)
              \<lparr>cj_job_id = fresh_id ck, cj_status = Queued, cj_model_id = rt_model_id rt,
               cj_reserved_cost_micro = reservation_micro billing, cj_speed_class = None,
               cj_idempotent_replay = False\<rparr>)))))))"

definition create_regulated_job ::
    "'v wire_env \<Rightarrow> config \<Rightarrow> clock \<Rightarrow> (CreateRegulatedJobRequest \<Rightarrow> rstring api) \<Rightarrow>
     (Uuid \<Rightarrow> rstring \<Rightarrow> 'x \<Rightarrow> 'x api) \<Rightarrow> Principal \<Rightarrow> CreateRegulatedJobRequest \<Rightarrow> 'x db \<Rightarrow>
     (CreateJobResponse api \<times> 'x db) api" where
  "create_regulated_job w cfg ck regulated_request_fingerprint assess_job_creation prin r d =
     and_then (map_err (\<lambda>_. BadRequest ''invalid_regulated_job'')
       (CreateRegulatedJobRequest_validate (base64_url w) r)) (\<lambda>_.
     and_then (regulated_request_fingerprint r) (\<lambda>fingerprint.
     case find_by_idempotency_key (pr_user_id prin) (cr_idempotency_key r) d of
       Some existing \<Rightarrow>
         and_then (existing_regulated_response r fingerprint d existing) (\<lambda>resp. commit d resp)
     | None \<Rightarrow>
     and_then (assess_job_creation (pr_user_id prin) (cr_idempotency_key r) (risk d)) (\<lambda>risk'.
     let d = d\<lparr>risk := risk'\<rparr> in
     and_then (ok_or (fetch_optional (\<lambda>rt. rt_id rt = cr_route_id r) (regulated_routes d)) NotFound) (\<lambda>rt.
     and_then (ok_or (fetch_optional (\<lambda>m. m_id m = rt_model_id rt \<and> m_enabled m) (models d)) NotFound) (\<lambda>m.
     and_then (ok_or (fetch_optional (\<lambda>mi. mi_id mi = rt_model_instance_id rt) (model_instances d)) NotFound) (\<lambda>mi.
     and_then (ok_or (fetch_optional (\<lambda>n. n_id n = rt_node_id rt) (nodes d)) NotFound) (\<lambda>n.
     and_then (ok_or (fetch_optional (\<lambda>ar. ar_id ar = rt_attestation_report_id rt) (attestation_reports d)) NotFound) (\<lambda>ar.
       if rt_user_id rt \<noteq> pr_user_id prin then Inl Forbidden
       else if rt_status rt \<noteq> Prepared then Inl (Conflict ''regulated_route_replay'')
       else consume_route w cfg ck prin r fingerprint rt m mi n ar d))))))))"

end
