(* ===== verification/Settle.thy ===== *)
theory Settle
  imports Jobs
begin

text \<open>
  Settlement of a finished job: \<open>complete_job\<close> of \<open>settlement.rs\<close> with the frozen billing snapshot, the
  four ledger entries, the receipt and the job's final state, in one transaction. \<open>settle_env\<close> holds
  the parameters: digest and serialisation functions, and the operations of the telemetry and
  anti-abuse components, which read and write only the risk tables. Successive draws of
  \<open>Uuid::now_v7()\<close> and \<open>OffsetDateTime::now_utc()\<close> within one call are numbered.
\<close>

section \<open>Appending to the ledgers\<close>

record settle_clock =
  sc_now :: OffsetDateTime
  sc_utc :: "nat \<Rightarrow> OffsetDateTime"
  sc_ids :: "nat \<Rightarrow> Uuid"
  sc_nonce :: bytes

record FingerprintContext =
  fc_job_id :: Uuid
  fc_node_id :: Uuid
  fc_model_id :: Uuid
  fc_model_instance_id :: "Uuid option"
  fc_attempt_number :: i32
  fc_result_idempotency_key :: rstring
  fc_confidentiality :: ConfidentialityMode
  fc_trust_level :: TrustLevel
  fc_model_size_bytes :: i64
  fc_hardware_profile :: rstring

datatype ExecutionTelemetryVerdict = InsufficientEvidence | NoAnomalyObserved | Warning | Critical

record FingerprintOutcome =
  verdict :: ExecutionTelemetryVerdict
  alert_count :: u32
  evidence_kind :: rstring

record 'x settle_env =
  sha256_hex :: "bytes \<Rightarrow> rstring"
  uuid_text :: "Uuid \<Rightarrow> rstring"
  snapshot_to_string :: "JobBillingSnapshot \<Rightarrow> rstring option"
  envelope_from_str :: "rstring \<Rightarrow> RegulatedEnvelope option"
  envelope_base64 :: "rstring \<Rightarrow> bytes option"
  telemetry_fingerprint :: "FingerprintContext \<Rightarrow> JobExecutionTelemetry \<Rightarrow> rstring api"
  append_execution_fingerprint ::
    "FingerprintContext \<Rightarrow> JobExecutionTelemetry \<Rightarrow> rstring \<Rightarrow> 'x \<Rightarrow> (FingerprintOutcome \<times> 'x) api"
  stored_fingerprint_outcome :: "Uuid \<Rightarrow> 'x \<Rightarrow> FingerprintOutcome api"
  precreate_weight :: "Uuid \<Rightarrow> rstring \<Rightarrow> 'x \<Rightarrow> i32 option api"
  settlement_contribution_weight :: "Uuid \<Rightarrow> Uuid \<Rightarrow> 'x \<Rightarrow> i32 api"
  record_settled_edge :: "Uuid \<Rightarrow> Uuid \<Rightarrow> 'x \<Rightarrow> 'x api"

definition append_quota ::
    "'x settle_env \<Rightarrow> OffsetDateTime \<Rightarrow> OffsetDateTime \<Rightarrow> Uuid \<Rightarrow> Uuid \<Rightarrow> Uuid \<Rightarrow> rstring \<Rightarrow> i64 \<Rightarrow> i64 \<Rightarrow> i64 \<Rightarrow>
     rstring \<Rightarrow> 'x db \<Rightarrow> (rstring \<times> 'x db) api" where
  "append_quota env now at_time eid user_id job_id entry_type_text delta before after key d =
     and_then (fetch_one (\<lambda>a. q_user_id a = user_id) (quota_accounts d)) (\<lambda>account.
     and_then (if entry_type_text = lit ''consumer_deduction'' then Inr ConsumerDeduction
               else if entry_type_text = lit ''node_reward'' then Inr NodeQuotaCredit
               else Inl InternalError) (\<lambda>k.
     and_then (map_err (\<lambda>_. InternalError) (LedgerEntry_new (sha256_hex env) (uuid_text env) eid user_id
        (Some job_id) key k delta before after at_time (quota_ledger_head_hash account) [])) (\<lambda>ledger.
     and_then (insert_quota_ledger now ledger d) (\<lambda>d. Inr (hash ledger, d)))))"

definition append_contribution ::
    "'x settle_env \<Rightarrow> OffsetDateTime \<Rightarrow> OffsetDateTime \<Rightarrow> Uuid \<Rightarrow> Uuid \<Rightarrow> Uuid \<Rightarrow> i64 \<Rightarrow> i64 \<Rightarrow> i64 \<Rightarrow>
     rstring \<Rightarrow> 'x db \<Rightarrow> (rstring \<times> 'x db) api" where
  "append_contribution env now at_time eid user_id job_id delta before after key d =
     and_then (fetch_one (\<lambda>a. q_user_id a = user_id) (quota_accounts d)) (\<lambda>account.
     and_then (map_err (\<lambda>_. InternalError) (LedgerEntry_new (sha256_hex env) (uuid_text env) eid user_id
        (Some job_id) key ContributionCredit delta before after at_time
        (contribution_ledger_head_hash account) [])) (\<lambda>ledger.
     and_then (insert_contribution_ledger now ledger d) (\<lambda>d. Inr (hash ledger, d))))"

definition append_reserve ::
    "'x settle_env \<Rightarrow> OffsetDateTime \<Rightarrow> Uuid \<Rightarrow> Uuid \<Rightarrow> i64 \<Rightarrow> i64 \<Rightarrow> i64 \<Rightarrow> rstring \<Rightarrow> 'x db \<Rightarrow>
     (rstring \<times> 'x db) api" where
  "append_reserve env at_time eid job_id delta before after key d =
     and_then (map_err (\<lambda>_. InternalError) (LedgerEntry_new (sha256_hex env) (uuid_text env) eid 1
        (Some job_id) key ReserveInflow delta before after at_time
        (ra_ledger_head_hash (reserve_account d)) [])) (\<lambda>ledger.
     and_then (insert_reserve_ledger ledger None d) (\<lambda>d. Inr (hash ledger, d)))"

section \<open>The frozen snapshot\<close>

definition validate_frozen_quote :: "JobBillingSnapshot \<Rightarrow> unit api" where
  "validate_frozen_quote b =
     and_then (map_err (\<lambda>_. InternalError) (maximum_reservation_quote (bl_profile b) (authorized_input_tokens b)
        (authorized_max_output_tokens b))) (\<lambda>quote.
       if \<not> quote_matches_columns quote b then Inl InternalError else Inr ())"

definition JobBillingSnapshot_from_job_row :: "Job \<Rightarrow> JobBillingSnapshot api" where
  "JobBillingSnapshot_from_job_row job =
     and_then (ok_or (j_billing job) (Conflict ''billing_contract_unavailable'')) (\<lambda>snapshot.
       if contract_version snapshot \<noteq> SERVER_REFERENCE_UPPER_BOUND_V1
       then Inl (Conflict ''billing_contract_unavailable'')
       else if authorized_input_tokens snapshot \<noteq> s_from (rq_estimated_input_tokens (j_request job)) \<or>
         authorized_max_output_tokens snapshot \<noteq> s_from (rq_max_output_tokens (j_request job))
       then Inl InternalError
       else and_then (validate_frozen_quote snapshot) (\<lambda>_. Inr snapshot))"

definition canonical_hash :: "'x settle_env \<Rightarrow> JobBillingSnapshot \<Rightarrow> rstring api" where
  "canonical_hash env b =
     and_then (ok_or (snapshot_to_string env b) InternalError) (\<lambda>canonical. Inr (sha256_hex env (utf8 canonical)))"

definition frozen_base_for_authorized_usage :: "JobBillingSnapshot \<Rightarrow> i32 \<Rightarrow> i32 \<Rightarrow> i64 api" where
  "frozen_base_for_authorized_usage billing actual_input actual_output =
     (if sint actual_input > sint (authorized_input_tokens billing) \<or>
         sint actual_output > sint (authorized_max_output_tokens billing)
      then Inl (BadRequest ''usage_exceeds_authorized_limit'')
      else Inr (base_cost_micro billing))"

fun settlement_trust_class :: "TrustLevel \<Rightarrow> TrustClass" where
  "settlement_trust_class TrustLevel.Enhanced = TrustClass.Enhanced"
| "settlement_trust_class TrustLevel.Standard = TrustClass.Standard"
| "settlement_trust_class StandardLimited = TrustClass.Standard"
| "settlement_trust_class Experimental = TrustClass.Unverified"
| "settlement_trust_class TrustLevel.Unverified = TrustClass.Unverified"

definition weighted_contribution :: "i64 \<Rightarrow> i32 \<Rightarrow> i64 api" where
  "weighted_contribution points weight_ppm =
     and_then (ok_or (s_checked_mul (s_from points :: i128) (s_from weight_ppm)) InternalError) (\<lambda>product.
       ok_or (s_try_from (s_div product 1000000)) InternalError)"

section \<open>Posting\<close>

record CompleteJob =
  cm_job_id :: Uuid
  cm_node_id :: Uuid
  cm_worker_user_id :: Uuid
  cm_claim_device_key_id :: Uuid
  cm_idempotency_key :: rstring
  cm_result_ciphertext :: rstring
  cm_actual_input_tokens :: i32
  cm_actual_output_tokens :: i32
  cm_execution_telemetry :: JobExecutionTelemetry

record SettlementOutcome =
  so_receipt_id :: Uuid
  so_job_id :: Uuid
  so_base_cost_micro :: i64
  so_user_deduction_micro :: i64
  so_node_quota_micro :: i64
  so_contribution_micro :: i64
  so_contribution_weight_ppm :: i32
  so_reserve_micro :: i64
  so_settlement_hash :: rstring
  so_fingerprint :: FingerprintOutcome
  so_idempotent_replay :: bool

definition ledger_key :: "'x settle_env \<Rightarrow> Uuid \<Rightarrow> string \<Rightarrow> rstring" where
  "ledger_key env job_id suffix_text = lit ''job:'' @ uuid_text env job_id @ lit suffix_text"

text \<open>The amounts of one settlement.\<close>

record settled_amounts =
  sa_deduction :: i64
  sa_node_quota :: i64
  sa_contribution :: i64
  sa_weight_ppm :: i32
  sa_reserve :: i64

definition settlement_amounts_of ::
    "'x settle_env \<Rightarrow> Uuid \<Rightarrow> Uuid \<Rightarrow> rstring \<Rightarrow> PerformanceTier \<Rightarrow> TrustLevel \<Rightarrow> i64 \<Rightarrow> 'x \<Rightarrow> settled_amounts api" where
  "settlement_amounts_of env consumer node_user job_key tier trust base_micro r =
     and_then (map_err (\<lambda>_. InternalError) (MicroQuota_new base_micro)) (\<lambda>base.
     and_then (map_err (\<lambda>_. InternalError) (Settlement_calculate base tier (settlement_trust_class trust))) (\<lambda>calculated.
     and_then (precreate_weight env consumer job_key r) (\<lambda>precreate.
     and_then (settlement_contribution_weight env consumer node_user r) (\<lambda>graph_weight.
     let created = unwrap_or precreate 0;
         weight = (if sint created \<le> sint graph_weight then created else graph_weight) in
     and_then (weighted_contribution (as_i64 (node_contribution_points calculated)) weight) (\<lambda>contribution.
       Inr \<lparr>sa_deduction = as_i64 (user_deduction calculated), sa_node_quota = as_i64 (node_spendable_quota calculated),
         sa_contribution = contribution, sa_weight_ppm = weight, sa_reserve = as_i64 (reserve_inflow calculated)\<rparr>)))))"

text \<open>
  Release of the reservation and the four entries: the consumer's deduction, the node's quota and
  contribution, and the reserve's inflow. The answer is the four entry hashes.
\<close>

definition post_settlement ::
    "'x settle_env \<Rightarrow> settle_clock \<Rightarrow> Uuid \<Rightarrow> Uuid \<Rightarrow> Uuid \<Rightarrow> i64 \<Rightarrow> settled_amounts \<Rightarrow> 'x db \<Rightarrow>
     ((rstring \<times> rstring \<times> rstring \<times> rstring) \<times> 'x db) api" where
  "post_settlement env ck job_id consumer node_user reserved_cost a d =
     (if sint (sa_deduction a) > sint reserved_cost then Inl InternalError
      else
      and_then (account_spendable consumer d) (\<lambda>consumer_before.
      if sint consumer_before < sint (sa_deduction a) then Inl InsufficientQuota
      else
      and_then (release_reservation (sc_now ck) consumer reserved_cost d) (\<lambda>d.
      and_then (append_quota env (sc_now ck) (sc_utc ck 0) (sc_ids ck 0) consumer job_id (lit ''consumer_deduction'')
         (- sa_deduction a) consumer_before (consumer_before - sa_deduction a)
         (ledger_key env job_id '':consumer'') d) (\<lambda>(consumer_hash, d).
      and_then (account_spendable node_user d) (\<lambda>node_before.
      and_then (ok_or (s_checked_add node_before (sa_node_quota a)) InternalError) (\<lambda>node_after.
      and_then (append_quota env (sc_now ck) (sc_utc ck 1) (sc_ids ck 1) node_user job_id (lit ''node_reward'')
         (sa_node_quota a) node_before node_after (ledger_key env job_id '':node-quota'') d) (\<lambda>(node_quota_hash, d).
      and_then (fetch_one (\<lambda>x. q_user_id x = node_user) (quota_accounts d)) (\<lambda>node_account.
      and_then (ok_or (s_checked_add (contribution_micro node_account) (sa_contribution a)) InternalError) (\<lambda>contribution_after.
      and_then (append_contribution env (sc_now ck) (sc_utc ck 2) (sc_ids ck 2) node_user job_id (sa_contribution a)
         (contribution_micro node_account) contribution_after (ledger_key env job_id '':contribution'') d)
         (\<lambda>(contribution_hash, d).
      and_then (ok_or (s_checked_add (ra_balance_micro (reserve_account d)) (sa_reserve a)) InternalError) (\<lambda>reserve_after.
      and_then (append_reserve env (sc_utc ck 3) (sc_ids ck 3) job_id (sa_reserve a)
         (ra_balance_micro (reserve_account d)) reserve_after (ledger_key env job_id '':reserve'') d) (\<lambda>(reserve_hash, d).
        Inr ((consumer_hash, node_quota_hash, contribution_hash, reserve_hash), d)))))))))))))"

definition receipt_text ::
    "'x settle_env \<Rightarrow> Uuid \<Rightarrow> Uuid \<Rightarrow> rstring \<times> rstring \<times> rstring \<times> rstring \<Rightarrow> settled_amounts \<Rightarrow> rstring \<Rightarrow> rstring" where
  "receipt_text env receipt_id job_id hashes a snapshot_hash =
     (case hashes of (consumer_hash, node_quota_hash, contribution_hash, reserve_hash) \<Rightarrow>
        lit ''receipt-v2|'' @ uuid_text env receipt_id @ lit ''|'' @ uuid_text env job_id @ lit ''|'' @
        consumer_hash @ lit ''|'' @ node_quota_hash @ lit ''|'' @ contribution_hash @ lit ''|'' @ reserve_hash @
        lit ''|'' @ dec_int (sint (sa_deduction a)) @ lit ''|'' @ dec_int (sint (sa_node_quota a)) @ lit ''|'' @
        dec_int (sint (sa_contribution a)) @ lit ''|'' @ dec_int (sint (sa_weight_ppm a)) @ lit ''|'' @ snapshot_hash)"

definition insert_receipt :: "Receipt \<Rightarrow> 'x db \<Rightarrow> 'x db api" where
  "insert_receipt r d =
     (if 0 \<le> sint (rc_base_cost_micro r) \<and> 0 \<le> sint (rc_user_deduction_micro r) \<and>
         0 \<le> sint (rc_node_quota_micro r) \<and> 0 \<le> sint (rc_contribution_micro r) \<and> 0 \<le> sint (rc_reserve_micro r) \<and>
         rc_base_cost_micro r = base_cost_micro (rc_billing r) \<and>
         list_all (\<lambda>x. rc_id x \<noteq> rc_id r \<and> rc_job_id x \<noteq> rc_job_id r \<and> rc_settlement_hash x \<noteq> rc_settlement_hash r)
           (receipts d)
      then Inr (d\<lparr>receipts := receipts d @ [r]\<rparr>) else Inl InternalError)"

section \<open>Completion\<close>

definition validate_regulated_result_binding ::
    "'x settle_env \<Rightarrow> Job \<Rightarrow> rstring option \<Rightarrow> CompleteJob \<Rightarrow> unit api" where
  "validate_regulated_result_binding env job tee_public_key cmd =
     and_then (ok_or (envelope_from_str env (cm_result_ciphertext cmd)) AttestationFailed) (\<lambda>e.
     and_then (map_err (\<lambda>_. AttestationFailed) (RegulatedEnvelope_validate (envelope_base64 env) e)) (\<lambda>_.
       if direction e \<noteq> Result \<or> Some (env_route_id e) \<noteq> j_regulated_route_id job \<or>
          Some (report_id e) \<noteq> j_attestation_report_id job \<or>
          Some (env_model_instance_id e) \<noteq> j_model_instance_id job \<or>
          Some (sender_public_key e) \<noteq> tee_public_key
       then Inl AttestationFailed else Inr ()))"

definition fingerprint_context :: "CompleteJob \<Rightarrow> Job \<Rightarrow> Node \<Rightarrow> ModelRow \<Rightarrow> FingerprintContext" where
  "fingerprint_context cmd job node m =
     \<lparr>fc_job_id = cm_job_id cmd, fc_node_id = cm_node_id cmd, fc_model_id = m_id m,
      fc_model_instance_id = j_model_instance_id job, fc_attempt_number = j_attempt_count job,
      fc_result_idempotency_key = cm_idempotency_key cmd, fc_confidentiality = j_confidentiality job,
      fc_trust_level = n_trust_level node, fc_model_size_bytes = m_size_bytes m,
      fc_hardware_profile = n_hardware_profile node\<rparr>"

definition load_outcome :: "'x settle_env \<Rightarrow> Uuid \<Rightarrow> 'x db \<Rightarrow> SettlementOutcome api" where
  "load_outcome env job_id d =
     and_then (fetch_one (\<lambda>r. rc_job_id r = job_id) (receipts d)) (\<lambda>r.
     and_then (stored_fingerprint_outcome env job_id (risk d)) (\<lambda>f.
       Inr \<lparr>so_receipt_id = rc_id r, so_job_id = job_id, so_base_cost_micro = rc_base_cost_micro r,
         so_user_deduction_micro = rc_user_deduction_micro r, so_node_quota_micro = rc_node_quota_micro r,
         so_contribution_micro = rc_contribution_micro r, so_contribution_weight_ppm = rc_contribution_weight_ppm r,
         so_reserve_micro = rc_reserve_micro r, so_settlement_hash = rc_settlement_hash r,
         so_fingerprint = f, so_idempotent_replay = False\<rparr>))"

text \<open>The branch for a job that has already succeeded.\<close>

definition result_matches :: "crypto \<Rightarrow> bytes \<Rightarrow> CompleteJob \<Rightarrow> Job \<Rightarrow> bool api" where
  "result_matches cr key cmd job =
     (case j_confidentiality job of
        StandardMode \<Rightarrow>
          (case j_result job of
             Some stored \<Rightarrow>
               if rs_standard_storage_version stored = Some STORAGE_VERSION then
                 and_then (ok_or (decrypt_from_storage cr key (cm_job_id cmd) StoredResult (rs_ciphertext stored))
                   InternalError) (\<lambda>plain. Inr (plain = utf8 (cm_result_ciphertext cmd)))
               else Inr False
           | None \<Rightarrow> Inr False)
      | Regulated \<Rightarrow> Inr (map_option rs_ciphertext (j_result job) = Some (cm_result_ciphertext cmd)))"

definition replay_result ::
    "'x settle_env \<Rightarrow> crypto \<Rightarrow> bytes \<Rightarrow> CompleteJob \<Rightarrow> Job \<Rightarrow> rstring \<Rightarrow> 'x db \<Rightarrow> SettlementOutcome api" where
  "replay_result env cr key cmd job submitted_fingerprint d =
     and_then (result_matches cr key cmd job) (\<lambda>same.
       if map_option rs_idempotency_key (j_result job) \<noteq> Some (cm_idempotency_key cmd) \<or> \<not> same \<or>
          map_option rs_actual_input_tokens (j_result job) \<noteq> Some (cm_actual_input_tokens cmd) \<or>
          map_option rs_actual_output_tokens (j_result job) \<noteq> Some (cm_actual_output_tokens cmd) \<or>
          map_option rs_telemetry_fingerprint (j_result job) \<noteq> Some submitted_fingerprint
       then Inl (Conflict ''idempotency_binding_mismatch'')
       else and_then (load_outcome env (cm_job_id cmd) d) (\<lambda>outcome.
         Inr (outcome\<lparr>so_idempotent_replay := True\<rparr>)))"

text \<open>The unique key of an attempt's result within its job: a failure report of an earlier attempt has one too.\<close>

definition result_key_taken :: "Uuid \<Rightarrow> i32 \<Rightarrow> rstring \<Rightarrow> 'x db \<Rightarrow> bool" where
  "result_key_taken job_id attempt key d \<longleftrightarrow>
     list_ex (\<lambda>x. at_job_id x = job_id \<and> at_attempt_number x \<noteq> attempt \<and> at_result_idempotency_key x = Some key)
       (job_attempts d)"

text \<open>From the priced settlement on.\<close>

definition settle_leased_job ::
    "'x settle_env \<Rightarrow> crypto \<Rightarrow> bytes \<Rightarrow> settle_clock \<Rightarrow> CompleteJob \<Rightarrow> Job \<Rightarrow> Node \<Rightarrow> ModelRow \<Rightarrow> rstring \<Rightarrow>
     JobBillingSnapshot \<Rightarrow> i64 \<Rightarrow> 'x db \<Rightarrow> (SettlementOutcome \<times> 'x db) api" where
  "settle_leased_job env cr key ck cmd job node m submitted_fingerprint billing base_micro d =
     (let consumer = j_user_id job; node_user = n_user_id node in
      and_then (lock_accounts consumer node_user d) (\<lambda>_.
      and_then (settlement_amounts_of env consumer node_user (rq_idempotency_key (j_request job)) (m_tier m)
         (n_trust_level node) base_micro (risk d)) (\<lambda>a.
      and_then (post_settlement env ck (cm_job_id cmd) consumer node_user (j_reserved_cost_micro job) a d) (\<lambda>(hashes, d).
      and_then (canonical_hash env billing) (\<lambda>snapshot_hash.
      let receipt_id = sc_ids ck 4;
          settlement_hash = sha256_hex env (utf8 (receipt_text env receipt_id (cm_job_id cmd) hashes a snapshot_hash)) in
      and_then (insert_receipt
        \<lparr>rc_id = receipt_id, rc_job_id = cm_job_id cmd, rc_consumer_user_id = consumer, rc_node_user_id = node_user,
         rc_model_name = m_name m, rc_tier = m_tier m, rc_trust_level = n_trust_level node,
         rc_base_cost_micro = base_micro, rc_user_deduction_micro = sa_deduction a,
         rc_node_quota_micro = sa_node_quota a, rc_contribution_micro = sa_contribution a,
         rc_contribution_weight_ppm = sa_weight_ppm a, rc_reserve_micro = sa_reserve a,
         rc_settlement_hash = settlement_hash, rc_billing = billing\<rparr> d) (\<lambda>d.
      and_then (append_execution_fingerprint env (fingerprint_context cmd job node m) (cm_execution_telemetry cmd)
         submitted_fingerprint (risk d)) (\<lambda>(fp, risk').
      and_then (if j_confidentiality job = StandardMode
                then and_then (ok_or (encrypt_for_storage cr key (sc_nonce ck) (cm_job_id cmd) StoredResult
                       (utf8 (cm_result_ciphertext cmd))) InternalError) (\<lambda>s. Inr (s, Some STORAGE_VERSION))
                else Inr (cm_result_ciphertext cmd, None)) (\<lambda>(stored_result, version).
      let d = d\<lparr>risk := risk'\<rparr>;
          d = update_job (cm_job_id cmd) (\<lambda>j. j\<lparr>j_status := Succeeded,
                j_result := Some \<lparr>rs_ciphertext = stored_result, rs_idempotency_key = cm_idempotency_key cmd,
                  rs_actual_input_tokens = cm_actual_input_tokens cmd,
                  rs_actual_output_tokens = cm_actual_output_tokens cmd,
                  rs_telemetry_fingerprint = submitted_fingerprint, rs_standard_storage_version = version\<rparr>,
                j_completed_at := Some (sc_now ck), j_updated_at := sc_now ck\<rparr>) d;
          d = update_attempts (\<lambda>x. at_job_id x = cm_job_id cmd \<and> at_attempt_number x = j_attempt_count job)
                (\<lambda>x. x\<lparr>at_status := AttemptSucceeded, at_finished_at := Some (sc_now ck),
                   at_result_idempotency_key := Some (cm_idempotency_key cmd)\<rparr>) d;
          d = finalize_draining_instance (sc_now ck) (j_model_instance_id job) d in
      if result_key_taken (cm_job_id cmd) (j_attempt_count job) (cm_idempotency_key cmd) d then Inl InternalError
      else
      and_then (record_settled_edge env consumer node_user (risk d)) (\<lambda>risk''.
        Inr (\<lparr>so_receipt_id = receipt_id, so_job_id = cm_job_id cmd, so_base_cost_micro = base_micro,
           so_user_deduction_micro = sa_deduction a, so_node_quota_micro = sa_node_quota a,
           so_contribution_micro = sa_contribution a, so_contribution_weight_ppm = sa_weight_ppm a,
           so_reserve_micro = sa_reserve a, so_settlement_hash = settlement_hash, so_fingerprint = fp,
           so_idempotent_replay = False\<rparr>, d\<lparr>risk := risk''\<rparr>))))))))))"

definition complete_job ::
    "'x settle_env \<Rightarrow> crypto \<Rightarrow> bytes \<Rightarrow> settle_clock \<Rightarrow> CompleteJob \<Rightarrow> 'x db \<Rightarrow> (SettlementOutcome api \<times> 'x db) api" where
  "complete_job env cr key ck cmd d =
     (if sint (cm_actual_input_tokens cmd) < 0 \<or> sint (cm_actual_output_tokens cmd) < 0 \<or>
         cm_actual_input_tokens cmd = 0 \<and> cm_actual_output_tokens cmd = 0
      then Inl (BadRequest ''invalid_usage'')
      else
      and_then (ok_or (fetch_optional (\<lambda>j. j_id j = cm_job_id cmd) (jobs d)) NotFound) (\<lambda>job.
      and_then (ok_or (fetch_optional (\<lambda>n. Some (n_id n) = j_leased_to_node_id job) (nodes d)) NotFound) (\<lambda>node.
      and_then (ok_or (fetch_optional (\<lambda>m. m_id m = j_model_id job) (models d)) NotFound) (\<lambda>m.
      let ja = fetch_optional (\<lambda>a. at_job_id a = j_id job \<and> at_attempt_number a = j_attempt_count job) (job_attempts d);
          tee_key = Option.bind (fetch_optional (\<lambda>ar. Some (ar_id ar) = j_attestation_report_id job)
            (attestation_reports d)) ar_ephemeral_public_key in
      if j_leased_to_node_id job \<noteq> Some (cm_node_id cmd) then Inl Forbidden
      else if n_user_id node \<noteq> cm_worker_user_id cmd \<or> n_device_key_id node \<noteq> Some (cm_claim_device_key_id cmd) \<or>
        Option.bind ja at_claim_device_key_id \<noteq> Some (cm_claim_device_key_id cmd) \<or>
        Option.bind ja at_claim_device_binding_version \<noteq> Some DEVICE_BINDING_VERSION
      then Inl Forbidden
      else
      and_then (telemetry_fingerprint env (fingerprint_context cmd job node m) (cm_execution_telemetry cmd)) (\<lambda>fp.
      if j_status job = Succeeded
      then and_then (replay_result env cr key cmd job fp d) (\<lambda>outcome. commit d outcome)
      else if j_status job \<noteq> Leased then Inl (Conflict ''job_not_leased'')
      else if j_confidentiality job = Regulated \<and>
        \<not> regulated_lease_binding_valid (sc_now ck) (cm_job_id cmd) (cm_node_id cmd) d
      then and_then (fail_regulated_lease_attestation (sc_now ck) (cm_job_id cmd)
             (lit ''regulated binding lost before settlement'') d) (\<lambda>d. Inr (Inl AttestationFailed, d))
      else
      and_then (if j_confidentiality job = Regulated then validate_regulated_result_binding env job tee_key cmd
                else Inr ()) (\<lambda>_.
      if \<not> lease_valid (sc_now ck) job then Inl (Conflict ''lease_expired'')
      else
      and_then (JobBillingSnapshot_from_job_row job) (\<lambda>billing.
      and_then (frozen_base_for_authorized_usage billing (cm_actual_input_tokens cmd) (cm_actual_output_tokens cmd))
        (\<lambda>base_micro.
      and_then (settle_leased_job env cr key ck cmd job node m fp billing base_micro d) (\<lambda>(outcome, d).
        commit d outcome)))))))))"

end
