(* ===== verification/Escrow.thy ===== *)
theory Escrow
  imports Create Settle
begin

text \<open>
  The contract of the quota system, as an abstract machine: consumers own funds, every open job holds a
  reservation of its owner's funds, and the network reserve is a pot. \<open>escrow_step\<close> says how the
  three may change. \<open>escrow_of\<close> reads that state off a database and \<open>escrow_ok\<close> is the invariant that
  connects the stored \<open>reserved_micro\<close> with the jobs that are still open. The lemmas show the effect of
  the account and job statements on both; the handlers' proofs are assembled from them.
\<close>

section \<open>The abstract machine\<close>

record escrow =
  es_funds :: "Uuid \<Rightarrow> int"
  es_held :: "Uuid \<Rightarrow> int"
  es_open :: "Uuid \<Rightarrow> (Uuid \<times> int) option"
  es_pot :: int

inductive escrow_step :: "escrow \<Rightarrow> escrow \<Rightarrow> bool" where
  open_job: "es_open s j = None \<Longrightarrow> 0 < r \<Longrightarrow> es_held s u + r \<le> es_funds s u \<Longrightarrow>
    escrow_step s (s\<lparr>es_open := (es_open s)(j \<mapsto> (u, r)), es_held := (es_held s)(u := es_held s u + r)\<rparr>)"
| close_job: "es_open s j = Some (u, r) \<Longrightarrow>
    escrow_step s (s\<lparr>es_open := (es_open s)(j := None), es_held := (es_held s)(u := es_held s u - r)\<rparr>)"
| settle_job: "es_open s j = Some (u, r) \<Longrightarrow> 0 \<le> charge \<Longrightarrow> charge \<le> r \<Longrightarrow> 0 \<le> wage \<Longrightarrow> 0 \<le> inflow \<Longrightarrow>
    charge = wage + inflow \<Longrightarrow> f = (es_funds s)(u := es_funds s u - charge) \<Longrightarrow>
    escrow_step s (s\<lparr>es_open := (es_open s)(j := None), es_held := (es_held s)(u := es_held s u - r),
      es_funds := f(worker := f worker + wage), es_pot := es_pot s + inflow\<rparr>)"
| grant: "0 < g \<Longrightarrow> escrow_step s (s\<lparr>es_funds := (es_funds s)(u := es_funds s u + g)\<rparr>)"
| release_pot: "0 < g \<Longrightarrow> g \<le> es_pot s \<Longrightarrow> escrow_step s (s\<lparr>es_pot := es_pot s - g\<rparr>)"

section \<open>Reading the database\<close>

definition job_active :: "Job \<Rightarrow> bool" where
  "job_active j \<longleftrightarrow> j_status j \<in> {Queued, Retry, Leased}"

definition job_view :: "Job \<Rightarrow> Uuid \<times> Uuid \<times> int \<times> bool" where
  "job_view j = (j_id j, j_user_id j, sint (j_reserved_cost_micro j), job_active j)"

definition view_held :: "Uuid \<Rightarrow> (Uuid \<times> Uuid \<times> int \<times> bool) list \<Rightarrow> int" where
  "view_held u vs = (\<Sum>(i, v, r, a)\<leftarrow>vs. if v = u \<and> a then r else 0)"

definition view_open :: "(Uuid \<times> Uuid \<times> int \<times> bool) list \<Rightarrow> Uuid \<Rightarrow> (Uuid \<times> int) option" where
  "view_open vs i = map_of (map (\<lambda>(i, v, r, a). (i, (v, r))) (filter (\<lambda>(i, v, r, a). a) vs)) i"

definition held :: "Uuid \<Rightarrow> 'x db \<Rightarrow> int" where
  "held u d = view_held u (map job_view (jobs d))"

definition escrow_of :: "'x db \<Rightarrow> escrow" where
  "escrow_of d =
     \<lparr>es_funds = (\<lambda>u. case find_account u d of None \<Rightarrow> 0 | Some a \<Rightarrow> sint (spendable_micro a)),
      es_held = (\<lambda>u. case find_account u d of None \<Rightarrow> 0 | Some a \<Rightarrow> sint (reserved_micro a)),
      es_open = view_open (map job_view (jobs d)),
      es_pot = sint (ra_balance_micro (reserve_account d))\<rparr>"

definition views_ok :: "(Uuid \<times> Uuid \<times> int \<times> bool) list \<Rightarrow> Uuid set \<Rightarrow> bool" where
  "views_ok vs us \<longleftrightarrow> distinct (map fst vs) \<and> (\<forall>(i, v, r, a) \<in> set vs. 0 < r \<and> v \<in> us)"

definition accounts_ok :: "QuotaAccount list \<Rightarrow> (Uuid \<times> Uuid \<times> int \<times> bool) list \<Rightarrow> bool" where
  "accounts_ok as vs \<longleftrightarrow> distinct (map q_user_id as) \<and>
     (\<forall>a \<in> set as. quota_account_check a \<and> sint (reserved_micro a) = view_held (q_user_id a) vs)"

definition escrow_ok :: "'x db \<Rightarrow> bool" where
  "escrow_ok d \<longleftrightarrow>
     views_ok (map job_view (jobs d)) (q_user_id ` set (quota_accounts d)) \<and>
     accounts_ok (quota_accounts d) (map job_view (jobs d)) \<and>
     0 \<le> sint (ra_balance_micro (reserve_account d))"

section \<open>Views\<close>

lemma view_held_simps [simp]:
  "view_held u [] = 0"
  "view_held u ((i, v, r, a) # vs) = (if v = u \<and> a then r else 0) + view_held u vs"
  "view_held u (vs @ ws) = view_held u vs + view_held u ws"
  by (simp_all add: view_held_def)

lemma view_open_simps [simp]:
  "view_open [] i = None"
  "view_open ((i', v, r, a) # vs) i = (if a \<and> i' = i then Some (v, r) else view_open vs i)"
  by (auto simp: view_open_def)

lemma view_open_notin: "i \<notin> fst ` set vs \<Longrightarrow> view_open vs i = None"
  by (induction vs) auto

lemma view_held_nonneg: "\<forall>(i, v, r, a) \<in> set vs. 0 < r \<Longrightarrow> 0 \<le> view_held u vs"
  by (induction vs) auto

text \<open>Deactivating the view of one job.\<close>

definition close_view :: "Uuid \<Rightarrow> (Uuid \<times> Uuid \<times> int \<times> bool) list \<Rightarrow> (Uuid \<times> Uuid \<times> int \<times> bool) list" where
  "close_view i vs = map (\<lambda>(i', v, r, a). (i', v, r, a \<and> i' \<noteq> i)) vs"

lemma close_view_other: "i \<notin> fst ` set vs \<Longrightarrow> close_view i vs = vs"
  unfolding close_view_def by (rule map_idI) (auto simp: rev_image_eqI)

lemma close_view_Cons [simp]: "close_view i ((i', v, r, a) # vs) = (i', v, r, a \<and> i' \<noteq> i) # close_view i vs"
  by (simp add: close_view_def)

lemma fst_close_view [simp]: "map fst (close_view i vs) = map fst vs"
  by (simp add: close_view_def case_prod_beta)

lemma view_held_close:
  "distinct (map fst vs) \<Longrightarrow> (i, v, r, True) \<in> set vs \<Longrightarrow>
     view_held u (close_view i vs) = view_held u vs - (if v = u then r else 0)"
proof (induction vs)
  case (Cons x vs)
  obtain i' v' r' a' where x: "x = (i', v', r', a')" by (cases x)
  show ?case
  proof (cases "i' = i")
    case True
    then have "i \<notin> fst ` set vs" "(v', r', a') = (v, r, True)"
      using Cons.prems x by (force simp: rev_image_eqI)+
    with True x show ?thesis by (simp add: close_view_other)
  next
    case False
    with Cons x show ?thesis by auto
  qed
qed simp

lemma view_open_close:
  "distinct (map fst vs) \<Longrightarrow> view_open (close_view i vs) = (view_open vs)(i := None)"
proof (induction vs)
  case (Cons x vs)
  obtain i' v' r' a' where x: "x = (i', v', r', a')" by (cases x)
  show ?case
  proof
    fix k
    show "view_open (close_view i (x # vs)) k = ((view_open (x # vs))(i := None)) k"
      using Cons x by (auto simp: view_open_notin close_view_other)
  qed
qed (auto simp: close_view_def)

lemma view_open_mem:
  "distinct (map fst vs) \<Longrightarrow> (i, v, r, True) \<in> set vs \<Longrightarrow> view_open vs i = Some (v, r)"
proof (induction vs)
  case (Cons x vs)
  obtain i' v' r' a' where x: "x = (i', v', r', a')" by (cases x)
  with Cons show ?case by (auto simp: rev_image_eqI)
qed simp

lemma view_open_append:
  "i \<notin> fst ` set vs \<Longrightarrow> view_open (vs @ [(i, v, r, True)]) = (view_open vs)(i \<mapsto> (v, r))"
proof (induction vs)
  case (Cons x vs)
  obtain i' v' r' a' where x: "x = (i', v', r', a')" by (cases x)
  show ?case
  proof
    fix k
    show "view_open ((x # vs) @ [(i, v, r, True)]) k = ((view_open (x # vs))(i \<mapsto> (v, r))) k"
      using Cons x by auto
  qed
qed auto

lemma view_held_member_le:
  "\<forall>(i, v, r, a) \<in> set vs. 0 < r \<Longrightarrow> (i, u, r, True) \<in> set vs \<Longrightarrow> r \<le> view_held u vs"
proof (induction vs)
  case (Cons x vs)
  obtain i' v' r' a' where x: "x = (i', v', r', a')" by (cases x)
  from Cons.prems x have "0 < r'" "0 \<le> view_held u vs" by (auto simp: view_held_nonneg)
  with Cons x show ?case by auto
qed simp

section \<open>Statements\<close>

lemma find_account_Some_iff:
  assumes "distinct (map q_user_id (quota_accounts d))"
  shows "find_account u d = Some a \<longleftrightarrow> a \<in> set (quota_accounts d) \<and> q_user_id a = u"
proof
  assume "a \<in> set (quota_accounts d) \<and> q_user_id a = u"
  then show "find_account u d = Some a"
    unfolding find_account_def by (intro fetch_optional_key [OF assms]) auto
qed (simp add: find_account_id)

lemma escrow_ok_account:
  "escrow_ok d \<Longrightarrow> find_account u d = Some a \<Longrightarrow>
     quota_account_check a \<and> sint (reserved_micro a) = view_held u (map job_view (jobs d))"
  using find_account_id by (fastforce simp: escrow_ok_def accounts_ok_def)

lemma escrow_frame:
  assumes "quota_accounts d' = quota_accounts d" "map job_view (jobs d') = map job_view (jobs d)"
    "reserve_account d' = reserve_account d"
  shows "escrow_of d' = escrow_of d" "escrow_ok d' = escrow_ok d"
  using assms by (simp_all add: escrow_of_def escrow_ok_def find_account_def)

text \<open>Releasing a reservation of an open job: it succeeds, and this is what it changes.\<close>

definition released :: "OffsetDateTime \<Rightarrow> Uuid \<Rightarrow> i64 \<Rightarrow> QuotaAccount \<Rightarrow> QuotaAccount" where
  "released now u r a =
     (if q_user_id a = u then a\<lparr>reserved_micro := reserved_micro a - r, q_updated_at := now\<rparr> else a)"

lemma checked_update_map:
  assumes "\<And>r. r \<in> set rows \<Longrightarrow> P r \<Longrightarrow> f r = Some (g r) \<and> chk (g r)"
    and "\<And>r. r \<in> set rows \<Longrightarrow> \<not> P r \<Longrightarrow> g r = r"
  shows "checked_update chk P f rows = Inr (map g rows)"
  using assms by (induction rows) auto

lemma filter_distinct_key:
  assumes "distinct (map key rows)" "r \<in> set rows" "\<And>x. x \<in> set rows \<Longrightarrow> P x \<longleftrightarrow> key x = key r"
  shows "filter P rows = [r]"
  using assms
proof (induction rows)
  case (Cons x rows)
  show ?case
  proof (cases "x = r")
    case True
    then have "\<And>y. y \<in> set rows \<Longrightarrow> \<not> P y" using Cons.prems by (metis distinct.simps(2) image_eqI list.set_intros(2) list.simps(9) set_map)
    with True Cons.prems show ?thesis by simp
  next
    case False
    then have r: "r \<in> set rows" using Cons.prems by simp
    then have "\<not> P x" using Cons.prems False by (metis key_row_unique list.set_intros(1))
    moreover have "filter P rows = [r]" using r Cons.prems by (intro Cons.IH) auto
    ultimately show ?thesis by simp
  qed
qed simp

lemma release_succeeds:
  assumes ok: "escrow_ok d" and job: "job \<in> set (jobs d)" "job_active job"
  shows "release_reservation now (j_user_id job) (j_reserved_cost_micro job) d =
    Inr (d\<lparr>quota_accounts := map (released now (j_user_id job) (j_reserved_cost_micro job)) (quota_accounts d)\<rparr>)"
proof -
  let ?u = "j_user_id job" and ?r = "j_reserved_cost_micro job"
  let ?P = "\<lambda>a. q_user_id a = ?u \<and> sint ?r \<le> sint (reserved_micro a)"
  have dist: "distinct (map q_user_id (quota_accounts d))"
    and views: "\<forall>(i, v, r, a) \<in> set (map job_view (jobs d)). 0 < r"
    using ok by (auto simp: escrow_ok_def views_ok_def accounts_ok_def)
  have mem: "(j_id job, ?u, sint ?r, True) \<in> set (map job_view (jobs d))"
    using job by (force simp: job_view_def)
  have r: "0 < sint ?r" "sint ?r \<le> view_held ?u (map job_view (jobs d))"
    using views mem view_held_member_le [OF views mem] by auto
  have acct: "quota_account_check a \<and> (q_user_id a = ?u \<longrightarrow> sint ?r \<le> sint (reserved_micro a))"
    if "a \<in> set (quota_accounts d)" for a
    using that ok r(2) by (auto simp: escrow_ok_def accounts_ok_def)
  obtain a where a: "a \<in> set (quota_accounts d)" "q_user_id a = ?u"
    using ok mem by (auto simp: escrow_ok_def views_ok_def)
  have filt: "filter ?P (quota_accounts d) = [a]"
    using a acct by (intro filter_distinct_key [OF dist]) auto
  have upd: "checked_update quota_account_check ?P
      (\<lambda>a. map_option (\<lambda>r. a\<lparr>reserved_micro := r, q_updated_at := now\<rparr>) (s_checked_sub (reserved_micro a) ?r))
      (quota_accounts d) = Inr (map (released now ?u ?r) (quota_accounts d))"
  proof (rule checked_update_map)
    fix x assume x: "x \<in> set (quota_accounts d)" "?P x"
    have "sint (reserved_micro x - ?r) = sint (reserved_micro x) - sint ?r"
      using x r(1) by (intro sint_diff_i64) auto
    with x r(1) acct [OF x(1)]
    show "map_option (\<lambda>r. x\<lparr>reserved_micro := r, q_updated_at := now\<rparr>) (s_checked_sub (reserved_micro x) ?r) =
        Some (released now ?u ?r x) \<and> quota_account_check (released now ?u ?r x)"
      by (auto simp: s_checked_sub_def released_def quota_account_check_def)
  qed (use acct in \<open>auto simp: released_def\<close>)
  show ?thesis
    unfolding release_reservation_def Let_def update_accounts_def rows_affected_def filt upd by simp
qed

lemma fetch_optional_map:
  "(\<And>a. key (g a) = key a) \<Longrightarrow>
     fetch_optional (\<lambda>a. key a = k) (map g rows) = map_option g (fetch_optional (\<lambda>a. key a = k) rows)"
  by (induction rows) (simp_all add: fetch_optional_def)

lemma find_account_map:
  assumes "quota_accounts d' = map g (quota_accounts d)" "\<And>a. q_user_id (g a) = q_user_id a"
  shows "find_account u d' = map_option g (find_account u d)"
  using assms by (simp add: find_account_def fetch_optional_map)

lemma q_user_id_released [simp]: "q_user_id (released now u r a) = q_user_id a"
  by (simp add: released_def)

lemma sint_released:
  assumes "escrow_ok d" "job \<in> set (jobs d)" "job_active job" "a \<in> set (quota_accounts d)"
  shows "sint (reserved_micro (released now (j_user_id job) (j_reserved_cost_micro job) a)) =
    sint (reserved_micro a) - (if q_user_id a = j_user_id job then sint (j_reserved_cost_micro job) else 0)"
proof (cases "q_user_id a = j_user_id job")
  case True
  have views: "\<forall>(i, v, r, a) \<in> set (map job_view (jobs d)). 0 < r"
    using assms(1) by (auto simp: escrow_ok_def views_ok_def)
  have mem: "(j_id job, j_user_id job, sint (j_reserved_cost_micro job), True) \<in> set (map job_view (jobs d))"
    using assms(2,3) by (force simp: job_view_def)
  have "sint (j_reserved_cost_micro job) \<le> sint (reserved_micro a)"
    using view_held_member_le [OF views mem] assms(1,4) True by (simp add: escrow_ok_def accounts_ok_def)
  moreover have "0 \<le> sint (j_reserved_cost_micro job)" using views mem by auto
  ultimately show ?thesis using True by (simp add: released_def sint_diff_i64)
qed (simp add: released_def)

lemma job_views_closed:
  assumes "\<And>j. j_id (f j) = j_id j \<and> j_user_id (f j) = j_user_id j \<and>
      j_reserved_cost_micro (f j) = j_reserved_cost_micro j \<and> \<not> job_active (f j)"
  shows "map job_view (sql_update (\<lambda>j. j_id j = i) f js) = close_view i (map job_view js)"
  using assms by (simp add: close_view_def sql_update_def job_view_def)

lemma job_views_kept:
  assumes "\<And>j. P j \<Longrightarrow> job_view (f j) = job_view j"
  shows "map job_view (sql_update P f js) = map job_view js"
  using assms by (simp add: map_sql_update)

lemma active_view:
  assumes "escrow_ok d" "job \<in> set (jobs d)" "job_active job"
  shows "(j_id job, j_user_id job, sint (j_reserved_cost_micro job), True) \<in> set (map job_view (jobs d))"
    "0 < sint (j_reserved_cost_micro job)" "find_account (j_user_id job) d \<noteq> None"
proof -
  show mem: "(j_id job, j_user_id job, sint (j_reserved_cost_micro job), True) \<in> set (map job_view (jobs d))"
    using assms(2,3) by (force simp: job_view_def)
  have "\<forall>(i, v, r, a) \<in> set (map job_view (jobs d)). 0 < r \<and> v \<in> q_user_id ` set (quota_accounts d)"
    using assms(1) by (simp add: escrow_ok_def views_ok_def)
  from bspec [OF this mem] show "0 < sint (j_reserved_cost_micro job)" "find_account (j_user_id job) d \<noteq> None"
    by (auto simp: find_account_def fetch_optional_None)
qed

text \<open>What a database satisfies after an open job was closed, whatever happened to the spendable balances.\<close>

lemma closed_ok:
  assumes ok: "escrow_ok d" and job: "job \<in> set (jobs d)" "job_active job"
    and acc: "quota_accounts d' = map h (quota_accounts d)" "\<And>a. q_user_id (h a) = q_user_id a"
    and chk: "\<And>a. a \<in> set (quota_accounts d) \<Longrightarrow> quota_account_check (h a)"
    and rsv: "\<And>a. a \<in> set (quota_accounts d) \<Longrightarrow> sint (reserved_micro (h a)) =
      sint (reserved_micro a) - (if q_user_id a = j_user_id job then sint (j_reserved_cost_micro job) else 0)"
    and js: "map job_view (jobs d') = close_view (j_id job) (map job_view (jobs d))"
    and res: "0 \<le> sint (ra_balance_micro (reserve_account d'))"
  shows "escrow_ok d'"
    and "es_open (escrow_of d') = (es_open (escrow_of d))(j_id job := None)"
    and "es_open (escrow_of d) (j_id job) = Some (j_user_id job, sint (j_reserved_cost_micro job))"
    and "es_held (escrow_of d') = (es_held (escrow_of d))
      (j_user_id job := es_held (escrow_of d) (j_user_id job) - sint (j_reserved_cost_micro job))"
proof -
  let ?vs = "map job_view (jobs d)" and ?u = "j_user_id job" and ?r = "sint (j_reserved_cost_micro job)"
  have v: "distinct (map fst ?vs)" "\<forall>(i, v, r, a) \<in> set ?vs. 0 < r \<and> v \<in> q_user_id ` set (quota_accounts d)"
    and a: "distinct (map q_user_id (quota_accounts d))"
      "\<forall>a \<in> set (quota_accounts d). sint (reserved_micro a) = view_held (q_user_id a) ?vs"
    using ok by (simp_all add: escrow_ok_def views_ok_def accounts_ok_def)
  note mem = active_view(1) [OF ok job]
  have "views_ok (close_view (j_id job) ?vs) (q_user_id ` set (quota_accounts d'))"
    using v acc unfolding views_ok_def close_view_def by (auto simp: image_image case_prod_beta comp_def)
  moreover have "sint (reserved_micro (h x)) = view_held (q_user_id x) (close_view (j_id job) ?vs)"
    if "x \<in> set (quota_accounts d)" for x
    using rsv [OF that] view_held_close [OF v(1) mem] a(2) that by auto
  ultimately show "escrow_ok d'"
    using a(1) acc js res chk by (simp add: escrow_ok_def accounts_ok_def comp_def)
  show "es_open (escrow_of d') = (es_open (escrow_of d))(j_id job := None)"
    "es_open (escrow_of d) (j_id job) = Some (?u, ?r)"
    using js v(1) mem by (simp_all add: escrow_of_def view_open_close view_open_mem)
  have "find_account u d' = map_option h (find_account u d)" for u
    using acc by (rule find_account_map)
  moreover have "find_account u d = Some x \<Longrightarrow> sint (reserved_micro (h x)) =
      sint (reserved_micro x) - (if u = ?u then ?r else 0)" for u x
    using find_account_id [of u d x] rsv by auto
  ultimately show "es_held (escrow_of d') = (es_held (escrow_of d))(?u := es_held (escrow_of d) ?u - ?r)"
    using active_view(3) [OF ok job] by (auto simp: escrow_of_def fun_eq_iff split: option.splits)
qed

lemma released_check:
  assumes ok: "escrow_ok d" and job: "job \<in> set (jobs d)" "job_active job" and x: "x \<in> set (quota_accounts d)"
  shows "quota_account_check (released now (j_user_id job) (j_reserved_cost_micro job) x)"
proof -
  let ?u = "j_user_id job" and ?r = "j_reserved_cost_micro job"
  have frame: "spendable_micro (released now ?u ?r x) = spendable_micro x"
    "contribution_micro (released now ?u ?r x) = contribution_micro x" by (simp_all add: released_def)
  have "quota_account_check x" "sint (reserved_micro x) = view_held (q_user_id x) (map job_view (jobs d))"
    using ok x by (simp_all add: escrow_ok_def accounts_ok_def)
  moreover have "view_held ?u (map job_view (jobs d)) \<ge> sint ?r"
    using ok by (intro view_held_member_le [OF _ active_view(1) [OF ok job]]) (auto simp: escrow_ok_def views_ok_def)
  ultimately show ?thesis
    using sint_released [OF ok job x, of now] active_view(2) [OF ok job]
    unfolding quota_account_check_def frame by (cases "q_user_id x = ?u") auto
qed

text \<open>A job leaves the open state and its reservation is returned.\<close>

lemma close_effect:
  assumes ok: "escrow_ok d" and job: "job \<in> set (jobs d)" "job_active job"
    and acc: "quota_accounts d' = map (released now (j_user_id job) (j_reserved_cost_micro job)) (quota_accounts d)"
    and js: "map job_view (jobs d') = close_view (j_id job) (map job_view (jobs d))"
    and res: "reserve_account d' = reserve_account d"
  shows "escrow_ok d' \<and> escrow_step (escrow_of d) (escrow_of d')"
proof
  let ?u = "j_user_id job" and ?r = "j_reserved_cost_micro job"
  let ?g = "released now ?u ?r"
  have frame: "spendable_micro (?g x) = spendable_micro x" "contribution_micro (?g x) = contribution_micro x" for x
    by (simp_all add: released_def)
  have res0: "0 \<le> sint (ra_balance_micro (reserve_account d'))" using ok res by (simp add: escrow_ok_def)
  note closed = closed_ok [where h = ?g, OF ok job acc _ released_check [OF ok job] sint_released [OF ok job] js res0, simplified]
  show "escrow_ok d'" by (rule closed)
  have "find_account u d' = map_option ?g (find_account u d)" for u
    using acc by (rule find_account_map) simp
  then have "es_funds (escrow_of d') = es_funds (escrow_of d)" "es_pot (escrow_of d') = es_pot (escrow_of d)"
    using res by (auto simp: escrow_of_def fun_eq_iff frame split: option.splits)
  with closed(2-4) have "escrow_of d' = (escrow_of d)\<lparr>es_open := (es_open (escrow_of d))(j_id job := None),
      es_held := (es_held (escrow_of d))(?u := es_held (escrow_of d) ?u - sint ?r)\<rparr>"
    by (intro escrow.equality) simp_all
  then show "escrow_step (escrow_of d) (escrow_of d')"
    using escrow_step.close_job [OF closed(3)] by simp
qed

text \<open>A job is settled: its reservation is returned, its owner charged, the worker and the reserve paid.\<close>

definition settled :: "escrow \<Rightarrow> Uuid \<Rightarrow> Uuid \<Rightarrow> int \<Rightarrow> int \<Rightarrow> Uuid \<Rightarrow> int \<Rightarrow> int \<Rightarrow> escrow" where
  "settled s j u r charge worker wage inflow =
     (let f = (es_funds s)(u := es_funds s u - charge) in
      s\<lparr>es_open := (es_open s)(j := None), es_held := (es_held s)(u := es_held s u - r),
        es_funds := f(worker := f worker + wage), es_pot := es_pot s + inflow\<rparr>)"

lemma settle_effect:
  assumes ok: "escrow_ok d" and job: "job \<in> set (jobs d)" "job_active job"
    and acc: "quota_accounts d' = map h (quota_accounts d)" "\<And>a. q_user_id (h a) = q_user_id a"
    and chk: "\<And>a. a \<in> set (quota_accounts d) \<Longrightarrow> quota_account_check (h a)"
    and rsv: "\<And>a. a \<in> set (quota_accounts d) \<Longrightarrow> sint (reserved_micro (h a)) =
      sint (reserved_micro a) - (if q_user_id a = j_user_id job then sint (j_reserved_cost_micro job) else 0)"
    and spd: "\<And>a. a \<in> set (quota_accounts d) \<Longrightarrow> sint (spendable_micro (h a)) = sint (spendable_micro a)
      - (if q_user_id a = j_user_id job then charge else 0) + (if q_user_id a = worker then wage else 0)"
    and wrk: "find_account worker d \<noteq> None"
    and js: "map job_view (jobs d') = close_view (j_id job) (map job_view (jobs d))"
    and res: "sint (ra_balance_micro (reserve_account d')) = sint (ra_balance_micro (reserve_account d)) + inflow"
    and amounts: "0 \<le> charge" "charge \<le> sint (j_reserved_cost_micro job)" "0 \<le> wage" "0 \<le> inflow" "charge = wage + inflow"
  shows "escrow_ok d' \<and> escrow_step (escrow_of d) (escrow_of d') \<and>
    escrow_of d' = settled (escrow_of d) (j_id job) (j_user_id job) (sint (j_reserved_cost_micro job)) charge worker wage inflow"
proof (intro conjI)
  let ?u = "j_user_id job" and ?r = "j_reserved_cost_micro job"
  have res0: "0 \<le> sint (ra_balance_micro (reserve_account d'))"
    using ok res amounts by (simp add: escrow_ok_def)
  note closed = closed_ok [where h = h, OF ok job acc chk rsv js res0, simplified]
  show "escrow_ok d'" by (rule closed)
  define f where "f = (es_funds (escrow_of d))(?u := es_funds (escrow_of d) ?u - charge)"
  have fa: "find_account u d' = map_option h (find_account u d)" for u
    using acc by (rule find_account_map)
  have fs: "find_account u d = Some x \<Longrightarrow> sint (spendable_micro (h x)) = sint (spendable_micro x)
      - (if u = ?u then charge else 0) + (if u = worker then wage else 0)" for u x
    using find_account_id [of u d x] spd by auto
  have "es_funds (escrow_of d') = f(worker := f worker + wage)"
  proof
    fix u
    show "es_funds (escrow_of d') u = (f(worker := f worker + wage)) u"
      using fa [of u] fs [of u] wrk active_view(3) [OF ok job]
      by (cases "find_account u d") (auto simp: f_def escrow_of_def split: option.splits)
  qed
  moreover have "es_pot (escrow_of d') = es_pot (escrow_of d) + inflow" using res by (simp add: escrow_of_def)
  ultimately have "escrow_of d' = (escrow_of d)\<lparr>es_open := (es_open (escrow_of d))(j_id job := None),
      es_held := (es_held (escrow_of d))(?u := es_held (escrow_of d) ?u - sint ?r),
      es_funds := f(worker := f worker + wage), es_pot := es_pot (escrow_of d) + inflow\<rparr>"
    using closed(2,4) by (intro escrow.equality) simp_all
  then show "escrow_step (escrow_of d) (escrow_of d')"
    "escrow_of d' = settled (escrow_of d) (j_id job) ?u (sint ?r) charge worker wage inflow"
    using escrow_step.settle_job [OF closed(3) amounts, of f worker] by (simp_all add: f_def settled_def)
qed

text \<open>A job is created: its owner had the funds, and they are reserved.\<close>

lemma checked_update_is_map:
  assumes "checked_update chk P f rows = Inr rows'"
    and "\<And>r r'. P r \<Longrightarrow> f r = Some r' \<Longrightarrow> r' = g r" and "\<And>r. \<not> P r \<Longrightarrow> g r = r"
  shows "rows' = map g rows \<and> (\<forall>r \<in> set rows. P r \<longrightarrow> f r = Some (g r) \<and> chk (g r))"
  using assms(1)
proof (induction rows arbitrary: rows')
  case (Cons r rows)
  then obtain r' rs' where *: "rows' = r' # rs'" "checked_update chk P f rows = Inr rs'"
    "if P r then f r = Some r' \<and> chk r' else r' = r"
    by (auto simp: result_simps split: if_splits)
  have "r' = g r" using *(3) assms(2) [of r r'] assms(3) [of r] by (cases "P r") simp_all
  with * Cons.IH [OF *(2)] show ?case by (auto split: if_splits)
qed simp

definition taken :: "OffsetDateTime \<Rightarrow> Uuid \<Rightarrow> i64 \<Rightarrow> QuotaAccount \<Rightarrow> QuotaAccount" where
  "taken now u r a =
     (if q_user_id a = u then a\<lparr>reserved_micro := reserved_micro a + r, q_updated_at := now\<rparr> else a)"

lemma reserve_quota_effect:
  assumes "reserve_quota now u r d = Inr d'" and "escrow_ok d"
  shows "d' = d\<lparr>quota_accounts := map (taken now u r) (quota_accounts d)\<rparr>"
    and "\<And>a. a \<in> set (quota_accounts d) \<Longrightarrow> quota_account_check (taken now u r a) \<and>
      sint (reserved_micro (taken now u r a)) = sint (reserved_micro a) + (if q_user_id a = u then sint r else 0)"
    and "\<exists>a. find_account u d = Some a \<and> sint (reserved_micro a) + sint r \<le> sint (spendable_micro a)"
proof -
  obtain a as where a: "find_account u d = Some a"
    and avail: "sint r \<le> sint (i64_saturating_sub (spendable_micro a) (reserved_micro a))"
    and upd: "checked_update quota_account_check (\<lambda>a. q_user_id a = u)
      (\<lambda>a. map_option (\<lambda>v. a\<lparr>reserved_micro := v, q_updated_at := now\<rparr>) (s_checked_add (reserved_micro a) r))
      (quota_accounts d) = Inr as" and d': "d' = d\<lparr>quota_accounts := as\<rparr>"
    using assms(1)
    by (auto simp: reserve_quota_def result_simps fetch_one_find_account update_accounts_eq_Inr not_less
        split: if_splits)
  have m: "as = map (taken now u r) (quota_accounts d) \<and> (\<forall>x \<in> set (quota_accounts d). q_user_id x = u \<longrightarrow>
      map_option (\<lambda>v. x\<lparr>reserved_micro := v, q_updated_at := now\<rparr>) (s_checked_add (reserved_micro x) r) =
        Some (taken now u r x) \<and> quota_account_check (taken now u r x))"
    by (rule checked_update_is_map [OF upd]) (auto simp: taken_def s_checked_add_def Let_def split: if_splits)
  then show "d' = d\<lparr>quota_accounts := map (taken now u r) (quota_accounts d)\<rparr>" using d' by simp
  show "quota_account_check (taken now u r x) \<and>
      sint (reserved_micro (taken now u r x)) = sint (reserved_micro x) + (if q_user_id x = u then sint r else 0)"
    if x: "x \<in> set (quota_accounts d)" for x
  proof (cases "q_user_id x = u")
    case True
    with m x have t: "map_option (\<lambda>v. x\<lparr>reserved_micro := v, q_updated_at := now\<rparr>) (s_checked_add (reserved_micro x) r) =
        Some (taken now u r x)" "quota_account_check (taken now u r x)" by auto
    then obtain v where v: "s_checked_add (reserved_micro x) r = Some v"
      "taken now u r x = x\<lparr>reserved_micro := v, q_updated_at := now\<rparr>" by auto
    from v(1) have "sint v = sint (reserved_micro x) + sint r" by (simp only: s_checked_add_Some)
    with v(2) t(2) True show ?thesis by simp
  next
    case False
    with x assms(2) show ?thesis by (simp add: taken_def escrow_ok_def accounts_ok_def)
  qed
  have "quota_account_check a" using assms(2) a find_account_id [OF a] by (simp add: escrow_ok_def accounts_ok_def)
  then have "sint (reserved_micro a) + sint r \<le> sint (spendable_micro a)"
    using avail i64_bounds [of "spendable_micro a"]
    by (auto simp: sint_saturating_sub quota_account_check_def)
  with a show "\<exists>a. find_account u d = Some a \<and> sint (reserved_micro a) + sint r \<le> sint (spendable_micro a)"
    by blast
qed

lemma open_effect:
  assumes ok: "escrow_ok d"
    and rsv: "reserve_quota now (j_user_id job) (j_reserved_cost_micro job) d = Inr d1"
    and ins: "insert_job job d1 = Inr d2" and act: "job_active job"
  shows "escrow_ok d2 \<and> escrow_step (escrow_of d) (escrow_of d2)"
proof
  let ?u = "j_user_id job" and ?r = "j_reserved_cost_micro job" and ?vs = "map job_view (jobs d)"
  let ?g = "taken now ?u ?r"
  note eff = reserve_quota_effect [OF rsv ok]
  have r: "0 < sint ?r" and fresh: "\<forall>x \<in> set (jobs d). j_id x \<noteq> j_id job"
    and d2: "quota_accounts d2 = map ?g (quota_accounts d)" "jobs d2 = jobs d @ [job]"
      "reserve_account d2 = reserve_account d"
    using ins eff(1) by (auto simp: insert_job_def job_row_check_def list_ex_iff split: if_splits)
  then have new: "j_id job \<notin> fst ` set ?vs" by (auto simp: job_view_def)
  have jv: "job_view job = (j_id job, ?u, sint ?r, True)" using act by (simp add: job_view_def)
  have id: "q_user_id (?g a) = q_user_id a" for a by (simp add: taken_def)
  obtain a where a: "find_account ?u d = Some a" "sint (reserved_micro a) + sint ?r \<le> sint (spendable_micro a)"
    using eff(3) by blast
  have views: "views_ok ?vs (q_user_id ` set (quota_accounts d))" and accs: "accounts_ok (quota_accounts d) ?vs"
    using ok by (simp_all add: escrow_ok_def)
  have "?u \<in> q_user_id ` set (quota_accounts d)" using find_account_id [OF a(1)] by force
  with views r new have "views_ok (?vs @ [job_view job]) (q_user_id ` set (quota_accounts d))"
    by (auto simp: views_ok_def jv)
  moreover have "accounts_ok (map ?g (quota_accounts d)) (?vs @ [job_view job])"
    using accs eff(2) by (auto simp: accounts_ok_def jv id comp_def)
  ultimately show "escrow_ok d2" using ok d2 by (simp add: escrow_ok_def id image_image)
  have fa: "find_account u d2 = map_option ?g (find_account u d)" for u
    using d2(1) id by (rule find_account_map)
  have fr: "find_account u d = Some x \<Longrightarrow> sint (reserved_micro (?g x)) =
      sint (reserved_micro x) + (if u = ?u then sint ?r else 0) \<and> spendable_micro (?g x) = spendable_micro x" for u x
    using find_account_id [of u d x] eff(2) [of x] by (auto simp: taken_def)
  have "escrow_of d2 = (escrow_of d)\<lparr>es_open := (es_open (escrow_of d))(j_id job \<mapsto> (?u, sint ?r)),
      es_held := (es_held (escrow_of d))(?u := es_held (escrow_of d) ?u + sint ?r)\<rparr>"
    using d2 a(1) fa fr view_open_append [OF new, of ?u "sint ?r"]
    by (auto simp: escrow_of_def jv fun_eq_iff split: option.splits)
  moreover have "es_open (escrow_of d) (j_id job) = None" using new by (simp add: escrow_of_def view_open_notin)
  moreover have "es_held (escrow_of d) ?u + sint ?r \<le> es_funds (escrow_of d) ?u"
    using a by (simp add: escrow_of_def)
  ultimately show "escrow_step (escrow_of d) (escrow_of d2)" using r escrow_step.open_job by simp
qed

end
