(* ===== verification/Lifecycle.thy ===== *)
theory Lifecycle
  imports Escrow
begin

text \<open>
  Every handler of the job lifecycle respects the escrow contract. \<open>money_ok\<close> collects the invariants of
  the database: the escrow invariant and the three ledger books. \<open>money_run d d'\<close> says that a change
  of the database keeps them, performs only steps of the abstract escrow machine, and leaves every
  job that has reached a final state as it is.
\<close>

text \<open>Inversion of a fallible body one statement at a time, without looking into its tail.\<close>

lemma and_thenE: "and_then m f = Inr y \<Longrightarrow> (\<And>x. m = Inr x \<Longrightarrow> f x = Inr y \<Longrightarrow> P) \<Longrightarrow> P"
  by (auto simp: and_then_eq_Inr)

lemma guardE: "(if c then Inl e else m) = Inr y \<Longrightarrow> (\<not> c \<Longrightarrow> m = Inr y \<Longrightarrow> P) \<Longrightarrow> P"
  by (auto split: if_splits)

lemma pairE: "(case p of (a, b) \<Rightarrow> f a b) = y \<Longrightarrow> (\<And>a b. p = (a, b) \<Longrightarrow> f a b = y \<Longrightarrow> P) \<Longrightarrow> P"
  by (cases p) auto

lemmas inversion = and_thenE guardE pairE

section \<open>Invariants and runs\<close>

definition money_ok :: "'x db \<Rightarrow> bool" where
  "money_ok d \<longleftrightarrow> escrow_ok d \<and> books_ok quota_entries quota_books d \<and>
     books_ok contribution_entries contribution_books d \<and> books_ok reserve_entries reserve_books d"

definition finals_kept :: "'x db \<Rightarrow> 'x db \<Rightarrow> bool" where
  "finals_kept d d' \<longleftrightarrow> (\<forall>j \<in> set (jobs d). \<not> job_active j \<longrightarrow> j \<in> set (jobs d'))"

text \<open>What there is in circulation: the spendable balances and the reserve.\<close>

definition circulation :: "'x db \<Rightarrow> int" where
  "circulation d = (\<Sum>a\<leftarrow>quota_accounts d. sint (spendable_micro a)) + sint (ra_balance_micro (reserve_account d))"

definition money_flow :: "int \<Rightarrow> 'x db \<Rightarrow> 'x db \<Rightarrow> bool" where
  "money_flow g d d' \<longleftrightarrow> (money_ok d \<longrightarrow>
     money_ok d' \<and> escrow_step\<^sup>*\<^sup>* (escrow_of d) (escrow_of d') \<and> finals_kept d d' \<and>
     circulation d' = circulation d + g)"

abbreviation money_run :: "'x db \<Rightarrow> 'x db \<Rightarrow> bool" where
  "money_run \<equiv> money_flow 0"

lemma money_run_refl [simp]: "money_run d d"
  by (simp add: money_flow_def finals_kept_def)

lemma money_flow_trans: "money_flow g d d' \<Longrightarrow> money_flow h d' d'' \<Longrightarrow> money_flow (g + h) d d''"
  unfolding money_flow_def finals_kept_def by (auto intro: rtranclp_trans)

lemma money_run_trans: "money_run d d' \<Longrightarrow> money_run d' d'' \<Longrightarrow> money_run d d''"
  using money_flow_trans [of 0 d d' 0 d''] by simp

definition same_ledgers :: "'x db \<Rightarrow> 'x db \<Rightarrow> bool" where
  "same_ledgers d d' \<longleftrightarrow> quota_ledger d' = quota_ledger d \<and> contribution_ledger d' = contribution_ledger d \<and>
     reserve_ledger d' = reserve_ledger d \<and> reserve_account d' = reserve_account d"

lemma same_ledgers_refl [simp]: "same_ledgers d d"
  by (simp add: same_ledgers_def)

definition same_books :: "QuotaAccount \<Rightarrow> QuotaAccount \<Rightarrow> bool" where
  "same_books a b \<longleftrightarrow> quota_book b = quota_book a \<and> contribution_book b = contribution_book a"

lemma circulation_kept:
  assumes "reserve_account d' = reserve_account d" "quota_accounts d' = map g (quota_accounts d)"
    "\<And>a. spendable_micro (g a) = spendable_micro a"
  shows "circulation d' = circulation d"
  using assms by (simp add: circulation_def comp_def)

lemma books_kept:
  assumes "same_ledgers d d'" "quota_accounts d' = map g (quota_accounts d)"
    "\<And>a. q_user_id (g a) = q_user_id a" "\<And>a. same_books a (g a)"
  shows "books_ok quota_entries quota_books d' = books_ok quota_entries quota_books d"
    "books_ok contribution_entries contribution_books d' = books_ok contribution_entries contribution_books d"
    "books_ok reserve_entries reserve_books d' = books_ok reserve_entries reserve_books d"
proof -
  have "find_account u d' = map_option g (find_account u d)" for u using assms(2,3) by (rule find_account_map)
  then have "quota_books d' = quota_books d" "contribution_books d' = contribution_books d"
    using assms(4) by (auto simp: quota_books_def contribution_books_def same_books_def fun_eq_iff option.map_comp
        intro!: option.map_cong0)
  then show "books_ok quota_entries quota_books d' = books_ok quota_entries quota_books d"
    "books_ok contribution_entries contribution_books d' = books_ok contribution_entries contribution_books d"
    "books_ok reserve_entries reserve_books d' = books_ok reserve_entries reserve_books d"
    using assms(1) by (simp_all add: books_ok_def quota_entries_def contribution_entries_def reserve_entries_def
        reserve_books_def same_ledgers_def)
qed

section \<open>What the statements leave alone\<close>

named_theorems frame_simps "fields a statement does not write"

lemma update_attempts_frame [frame_simps]:
  "quota_accounts (update_attempts P f d) = quota_accounts d" "jobs (update_attempts P f d) = jobs d"
  "same_ledgers d (update_attempts P f d)" "same_ledgers d0 (update_attempts P f d) = same_ledgers d0 d"
  "reserve_account (update_attempts P f d) = reserve_account d" "risk (update_attempts P f d) = risk d"
  by (simp_all add: update_attempts_def same_ledgers_def)

lemma update_job_frame [frame_simps]:
  "quota_accounts (update_job i f d) = quota_accounts d"
  "jobs (update_job i f d) = sql_update (\<lambda>j. j_id j = i) f (jobs d)"
  "same_ledgers d0 (update_job i f d) = same_ledgers d0 d"
  "reserve_account (update_job i f d) = reserve_account d" "risk (update_job i f d) = risk d"
  by (simp_all add: update_job_def same_ledgers_def)

lemma unpublish_idle_frame [frame_simps]:
  "quota_accounts (unpublish_idle now P d) = quota_accounts d" "jobs (unpublish_idle now P d) = jobs d"
  "same_ledgers d0 (unpublish_idle now P d) = same_ledgers d0 d"
  "reserve_account (unpublish_idle now P d) = reserve_account d" "risk (unpublish_idle now P d) = risk d"
  by (simp_all add: unpublish_idle_def same_ledgers_def)

lemma finalize_frame [frame_simps]:
  "quota_accounts (finalize_draining_instance now i d) = quota_accounts d"
  "jobs (finalize_draining_instance now i d) = jobs d"
  "same_ledgers d0 (finalize_draining_instance now i d) = same_ledgers d0 d"
  "reserve_account (finalize_draining_instance now i d) = reserve_account d"
  "risk (finalize_draining_instance now i d) = risk d"
  by (cases i; simp add: finalize_draining_instance_def frame_simps)+

lemma set_jobs_frame [frame_simps]:
  "quota_accounts (d\<lparr>jobs := js\<rparr>) = quota_accounts d" "jobs (d\<lparr>jobs := js\<rparr>) = js"
  "same_ledgers d0 (d\<lparr>jobs := js\<rparr>) = same_ledgers d0 d"
  by (simp_all add: same_ledgers_def)

lemma insert_attempt_frame:
  assumes "insert_attempt a d = Inr d'"
  shows "quota_accounts d' = quota_accounts d" "jobs d' = jobs d" "same_ledgers d0 d' = same_ledgers d0 d"
    "reserve_account d' = reserve_account d"
  using assms by (auto simp: insert_attempt_def same_ledgers_def split: if_splits)

text \<open>A change of other tables, or of columns the contract does not read.\<close>

lemma run_frame:
  assumes "quota_accounts d' = quota_accounts d" "same_ledgers d d'"
    "map job_view (jobs d') = map job_view (jobs d)" "finals_kept d d'"
  shows "money_run d d'"
proof -
  have "books_ok quota_entries quota_books d' = books_ok quota_entries quota_books d"
    "books_ok contribution_entries contribution_books d' = books_ok contribution_entries contribution_books d"
    "books_ok reserve_entries reserve_books d' = books_ok reserve_entries reserve_books d"
    by (rule books_kept [where g = "\<lambda>a. a"]; use assms in \<open>simp add: same_books_def\<close>)+
  moreover have "escrow_of d' = escrow_of d" "escrow_ok d' = escrow_ok d"
    using escrow_frame [of d' d] assms(1-3) by (simp_all add: same_ledgers_def)
  moreover have "circulation d' = circulation d"
    using assms(1,2) by (simp add: circulation_def same_ledgers_def)
  ultimately show ?thesis using assms(4) by (simp add: money_flow_def money_ok_def)
qed

lemma run_same_jobs:
  "quota_accounts d' = quota_accounts d \<Longrightarrow> same_ledgers d d' \<Longrightarrow> jobs d' = jobs d \<Longrightarrow> money_run d d'"
  by (rule run_frame) (simp_all add: finals_kept_def)

text \<open>An update of one open job that keeps it open.\<close>

lemma run_relabel:
  assumes "quota_accounts d' = quota_accounts d" "same_ledgers d d'"
    "jobs d' = sql_update P f (jobs d)"
    "\<And>j. j \<in> set (jobs d) \<Longrightarrow> P j \<Longrightarrow> job_active j \<and> job_view (f j) = job_view j"
  shows "money_run d d'"
proof (rule run_frame [OF assms(1,2)])
  show "map job_view (jobs d') = map job_view (jobs d)"
    using assms(4) by (simp add: assms(3) sql_update_def)
  show "finals_kept d d'"
    using assms(4) by (auto simp: finals_kept_def assms(3) in_set_sql_update)
qed

text \<open>Closing an open job after its reservation was released.\<close>

lemma closed_keeps_finals:
  assumes "escrow_ok d" "job \<in> set (jobs d)" "job_active job"
  shows "\<forall>j \<in> set (jobs d). \<not> job_active j \<longrightarrow> j \<in> set (sql_update (\<lambda>j. j_id j = j_id job) f (jobs d))"
proof (intro ballI impI)
  fix j assume j: "j \<in> set (jobs d)" "\<not> job_active j"
  have "distinct (map j_id (jobs d))"
    using assms(1) by (simp add: escrow_ok_def views_ok_def comp_def job_view_def)
  with j assms(2,3) have "j_id j \<noteq> j_id job" by (metis key_row_unique)
  with j show "j \<in> set (sql_update (\<lambda>j. j_id j = j_id job) f (jobs d))"
    by (auto simp: in_set_sql_update intro!: bexI [of _ j])
qed

lemma run_close:
  assumes job: "job \<in> set (jobs d)" "job_active job"
    and rel: "release_reservation now (j_user_id job) (j_reserved_cost_micro job) d = Inr d1"
    and acc: "quota_accounts d' = quota_accounts d1" and led: "same_ledgers d1 d'"
    and js: "jobs d' = sql_update (\<lambda>j. j_id j = j_id job) f (jobs d1)"
    and f: "\<And>j. j_id (f j) = j_id j \<and> j_user_id (f j) = j_user_id j \<and>
      j_reserved_cost_micro (f j) = j_reserved_cost_micro j \<and> \<not> job_active (f j)"
  shows "money_run d d'"
  unfolding money_flow_def
proof
  assume ok: "money_ok d"
  then have e: "escrow_ok d" by (simp add: money_ok_def)
  let ?g = "released now (j_user_id job) (j_reserved_cost_micro job)"
  have d1: "d1 = d\<lparr>quota_accounts := map ?g (quota_accounts d)\<rparr>"
    using rel release_succeeds [OF e job] by simp
  have js': "jobs d' = sql_update (\<lambda>j. j_id j = j_id job) f (jobs d)" by (simp add: js d1)
  have "escrow_ok d' \<and> escrow_step (escrow_of d) (escrow_of d')"
  proof (rule close_effect [OF e job])
    show "quota_accounts d' = map ?g (quota_accounts d)" by (simp add: acc d1)
    show "map job_view (jobs d') = close_view (j_id job) (map job_view (jobs d))"
      unfolding js' by (rule job_views_closed) (rule f)
    show "reserve_account d' = reserve_account d" using led by (simp add: same_ledgers_def d1)
  qed
  moreover have "books_ok quota_entries quota_books d' = books_ok quota_entries quota_books d"
    "books_ok contribution_entries contribution_books d' = books_ok contribution_entries contribution_books d"
    "books_ok reserve_entries reserve_books d' = books_ok reserve_entries reserve_books d"
    by (rule books_kept [where g = ?g]; use led in \<open>simp add: acc d1 same_ledgers_def released_def same_books_def
        quota_book_def contribution_book_def\<close>)+
  moreover have "finals_kept d d'"
    unfolding finals_kept_def js' by (rule closed_keeps_finals [OF e job])
  moreover have "circulation d' = circulation d"
    by (rule circulation_kept [where g = ?g]) (use led in \<open>simp_all add: acc d1 same_ledgers_def released_def\<close>)
  ultimately show "money_ok d' \<and> escrow_step\<^sup>*\<^sup>* (escrow_of d) (escrow_of d') \<and> finals_kept d d' \<and>
      circulation d' = circulation d + 0"
    using ok by (auto simp: money_ok_def)
qed

section \<open>Handlers\<close>

lemma terminal_not_active: "j_status j \<in> {Succeeded, Failed, Cancelled} \<longleftrightarrow> \<not> job_active j"
  by (cases "j_status j") (simp_all add: job_active_def)

lemma not_active_simps [simp]:
  "\<not> job_active (j\<lparr>j_status := Failed, j_completed_at := c, j_updated_at := n\<rparr>)"
  "\<not> job_active (j\<lparr>j_status := Failed, j_attempt_count := k, j_completed_at := c, j_updated_at := n\<rparr>)"
  "\<not> job_active (j\<lparr>j_status := Cancelled, j_lease_expires_at := l, j_completed_at := c, j_updated_at := n\<rparr>)"
  by (simp_all add: job_active_def)

text \<open>The jobs a reaper has selected are still there, unchanged, when their turn comes.\<close>

lemma run_reap_loop:
  assumes "try_fold f js d = Inr d'" and "distinct (map j_id js)" and "set js \<subseteq> set (jobs d)"
    and step: "\<And>j d d'. f j d = Inr d' \<Longrightarrow> j \<in> set js \<Longrightarrow> j \<in> set (jobs d) \<Longrightarrow>
      money_run d d' \<and> (\<exists>h. jobs d' = sql_update (\<lambda>x. j_id x = j_id j) h (jobs d))"
  shows "money_run d d'"
  using assms
proof (induction js arbitrary: d)
  case (Cons j js)
  then obtain d1 where d1: "f j d = Inr d1" "try_fold f js d1 = Inr d'" by (auto simp: result_simps)
  then have run: "money_run d d1" and "\<exists>h. jobs d1 = sql_update (\<lambda>x. j_id x = j_id j) h (jobs d)"
    using Cons.prems(3,4) by auto
  then obtain h where h: "jobs d1 = sql_update (\<lambda>x. j_id x = j_id j) h (jobs d)" by blast
  have "set js \<subseteq> set (jobs d1)"
  proof
    fix x assume x: "x \<in> set js"
    then have "j_id x \<in> set (map j_id js)" by simp
    then have "j_id x \<noteq> j_id j" using Cons.prems(2) by (metis distinct.simps(2) list.simps(9))
    with x Cons.prems(3) show "x \<in> set (jobs d1)"
      by (auto simp: h in_set_sql_update intro!: bexI [of _ x])
  qed
  with Cons.prems(2,4) d1 have "money_run d1 d'" by (intro Cons.IH) auto
  with run show ?case by (rule money_run_trans)
qed simp

lemma selected_jobs:
  assumes "escrow_ok d"
  shows "distinct (map j_id (take n (sort_by le (filter P (jobs d)))))"
    "set (take n (sort_by le (filter P (jobs d)))) \<subseteq> {j \<in> set (jobs d). P j}"
proof -
  have "distinct (map j_id (jobs d))" using assms by (simp add: escrow_ok_def views_ok_def comp_def job_view_def)
  then have "distinct (map j_id (filter P (jobs d)))" by (simp add: distinct_map_filter)
  moreover have "mset (map j_id (sort_by le (filter P (jobs d)))) = mset (map j_id (filter P (jobs d)))" by simp
  ultimately have "distinct (map j_id (sort_by le (filter P (jobs d))))" by (metis mset_eq_imp_distinct_iff)
  then show "distinct (map j_id (take n (sort_by le (filter P (jobs d)))))" by (metis distinct_take take_map)
  show "set (take n (sort_by le (filter P (jobs d)))) \<subseteq> {j \<in> set (jobs d). P j}"
    using set_take_subset [of n "sort_by le (filter P (jobs d))"] by auto
qed

lemma money_flow_if_ok: "(money_ok d \<Longrightarrow> money_flow g d d') \<Longrightarrow> money_flow g d d'"
  by (simp add: money_flow_def)

lemmas money_run_if_ok = money_flow_if_ok [where g = 0]

lemma release_reservation_frame:
  "release_reservation now u r d = Inr d1 \<Longrightarrow> jobs d1 = jobs d \<and> same_ledgers d d1 \<and> job_attempts d1 = job_attempts d"
  by (auto simp: release_reservation_def Let_def result_simps update_accounts_eq_Inr same_ledgers_def split: if_splits)

lemma run_reap_expired:
  assumes "reap_expired_terminal_leases now d = Inr d'"
  shows "money_run d d'"
proof (rule money_run_if_ok)
  assume "money_ok d"
  then have e: "escrow_ok d" by (simp add: money_ok_def)
  obtain d1 where d1: "try_fold (reap_expired_lease now)
      (take 100 (sort_by job_order (filter (expired_terminal now) (jobs d)))) d = Inr d1"
    and d': "d' = unpublish_idle now (\<lambda>_. True) d1"
    using assms by (auto simp: reap_expired_terminal_leases_def result_simps)
  note sel = selected_jobs [OF e, of 100 job_order "expired_terminal now"]
  have "money_run d d1"
  proof (rule run_reap_loop [OF d1 sel(1)])
    fix j and s s' :: "'a db"
    assume f: "reap_expired_lease now j s = Inr s'" and j: "j \<in> set (jobs s)"
      and "j \<in> set (take 100 (sort_by job_order (filter (expired_terminal now) (jobs d))))"
    with sel(2) have act: "job_active j" by (auto simp: expired_terminal_def job_active_def)
    obtain s1 where rel: "release_reservation now (j_user_id j) (j_reserved_cost_micro j) s = Inr s1"
      and js: "jobs s' = sql_update (\<lambda>x. j_id x = j_id j)
        (\<lambda>j. j\<lparr>j_status := Failed, j_completed_at := Some now, j_updated_at := now\<rparr>) (jobs s1)"
      and fr: "quota_accounts s' = quota_accounts s1" "same_ledgers s1 s'"
      using f by (auto simp: reap_expired_lease_def result_simps frame_simps Let_def)
    have "money_run s s'" by (rule run_close [OF j act rel fr js]) simp
    with js release_reservation_frame [OF rel]
    show "money_run s s' \<and> (\<exists>h. jobs s' = sql_update (\<lambda>x. j_id x = j_id j) h (jobs s))" by auto
  qed (use sel(2) in auto)
  moreover have "money_run d1 d'" unfolding d' by (rule run_same_jobs) (simp_all add: frame_simps)
  ultimately show "money_run d d'" by (rule money_run_trans)
qed

lemma run_reap_invalid:
  assumes "reap_invalid_regulated_jobs now fresh d = Inr d'"
  shows "money_run d d'"
proof (rule money_run_if_ok)
  assume "money_ok d"
  then have e: "escrow_ok d" by (simp add: money_ok_def)
  note sel = selected_jobs [OF e, of 100 job_order "regulated_invalid now d"]
  show "money_run d d'"
  proof (rule run_reap_loop [OF assms [unfolded reap_invalid_regulated_jobs_def] sel(1)])
    fix j and s s' :: "'a db"
    assume f: "reap_invalid_regulated now fresh j s = Inr s'" and j: "j \<in> set (jobs s)"
      and "j \<in> set (take 100 (sort_by job_order (filter (regulated_invalid now d) (jobs d))))"
    with sel(2) have act: "job_active j" by (auto simp: regulated_invalid_def job_active_def)
    obtain s1 s2 att k where rel: "release_reservation now (j_user_id j) (j_reserved_cost_micro j) s = Inr s1"
      and ins: "insert_attempt att s1 = Inr s2"
      and js2: "jobs s' = sql_update (\<lambda>x. j_id x = j_id j)
        (\<lambda>j. j\<lparr>j_status := Failed, j_attempt_count := k, j_completed_at := Some now, j_updated_at := now\<rparr>) (jobs s2)"
      and fr: "quota_accounts s' = quota_accounts s2" "same_ledgers s2 s'"
      using f by (auto simp: reap_invalid_regulated_def result_simps frame_simps Let_def)
    note fi = insert_attempt_frame [OF ins]
    have js: "jobs s' = sql_update (\<lambda>x. j_id x = j_id j)
        (\<lambda>j. j\<lparr>j_status := Failed, j_attempt_count := k, j_completed_at := Some now, j_updated_at := now\<rparr>) (jobs s1)"
      using js2 fi by simp
    have "same_ledgers s1 s'" using fr(2) fi(3) [of s1] by (auto simp: same_ledgers_def)
    then have "money_run s s'" using fr(1) fi(1) by (intro run_close [OF j act rel _ _ js]) simp_all
    with js release_reservation_frame [OF rel]
    show "money_run s s' \<and> (\<exists>h. jobs s' = sql_update (\<lambda>x. j_id x = j_id j) h (jobs s))" by auto
  qed (use sel(2) in auto)
qed

lemma run_fail_attestation:
  assumes "fail_regulated_lease_attestation now i msg d = Inr d'"
  shows "money_run d d'"
proof (rule money_run_if_ok)
  assume "money_ok d"
  then have e: "escrow_ok d" by (simp add: money_ok_def)
  obtain job d1 where job: "fetch_optional (\<lambda>j. j_id j = i) (jobs d) = Some job" "j_status job = Leased"
    and rel: "release_reservation now (j_user_id job) (j_reserved_cost_micro job) d = Inr d1"
    and js: "jobs d' = sql_update (\<lambda>j. j_id j = i \<and> j_status j = Leased)
      (\<lambda>j. j\<lparr>j_status := Failed, j_completed_at := Some now, j_updated_at := now\<rparr>) (jobs d1)"
    and fr: "quota_accounts d' = quota_accounts d1" "same_ledgers d1 d'"
    using assms
    by (auto simp: fail_regulated_lease_attestation_def result_simps frame_simps Let_def simp del: lit_simps
        split: if_splits)
  have mem: "job \<in> set (jobs d)" "j_id job = i" using fetch_optional_Some [OF job(1)] by auto
  have dist: "distinct (map j_id (jobs d))" using e by (simp add: escrow_ok_def views_ok_def comp_def job_view_def)
  have "jobs d1 = jobs d" using release_reservation_frame [OF rel] by simp
  then have "jobs d' = sql_update (\<lambda>j. j_id j = j_id job)
      (\<lambda>j. j\<lparr>j_status := Failed, j_completed_at := Some now, j_updated_at := now\<rparr>) (jobs d1)"
    unfolding js sql_update_def using key_row_unique [OF dist _ mem(1)] mem(2) job(2) by (intro map_cong) auto
  then show "money_run d d'"
    by (intro run_close [OF mem(1) _ rel fr]) (auto simp: job_active_def job(2))
qed

text \<open>An update of the open job with a given id.\<close>

lemma run_relabel_key:
  assumes "job \<in> set (jobs d)" "job_active job" "job_view (f job) = job_view job"
    and "quota_accounts d' = quota_accounts d" "same_ledgers d d'"
    and "jobs d' = sql_update (\<lambda>j. j_id j = j_id job) f (jobs d)"
  shows "money_run d d'"
proof (rule money_run_if_ok)
  assume "money_ok d"
  then have "distinct (map j_id (jobs d))"
    by (simp add: money_ok_def escrow_ok_def views_ok_def comp_def job_view_def)
  then have "j = job" if "j \<in> set (jobs d)" "j_id j = j_id job" for j
    using that assms(1) by (blast intro: key_row_unique)
  with assms(2,3) show "money_run d d'" by (intro run_relabel [OF assms(4,5,6)]) auto
qed

lemma run_grant_lease:
  assumes "grant_lease cr cfg ck prin node inst job d = Inr (ans, d')"
    and "job \<in> set (jobs d)" "job_active job"
  shows "money_run d d'"
proof -
  define d0 where "d0 = (if 0 < sint (j_attempt_count job)
     then update_attempts (leased_attempt (j_id job) (j_attempt_count job))
       (\<lambda>a. a\<lparr>at_status := AttemptExpired, at_finished_at := Some (tx_now ck)\<rparr>) d else d)"
  have fr0: "quota_accounts d0 = quota_accounts d" "same_ledgers d d0" "jobs d0 = jobs d"
    by (simp_all add: d0_def frame_simps)
  consider "d' = d0" | lease k att d1 where
      "d1 = update_job (j_id job) (\<lambda>j. j\<lparr>j_status := Leased, j_leased_to_node_id := Some node,
         j_model_instance_id := Some inst, j_lease_expires_at := Some lease, j_attempt_count := k,
         j_updated_at := tx_now ck\<rparr>) d0" "insert_attempt att d1 = Inr d'"
    using assms(1) unfolding grant_lease_def Let_def d0_def [symmetric]
    by (auto simp: result_simps split: if_splits option.splits)
  then show ?thesis
  proof cases
    case 1
    with fr0 show ?thesis by (simp add: run_same_jobs)
  next
    case 2
    note fi = insert_attempt_frame [OF 2(2)]
    show ?thesis
      by (rule run_relabel_key [OF assms(2,3), where f = "\<lambda>j. j\<lparr>j_status := Leased,
         j_leased_to_node_id := Some node, j_model_instance_id := Some inst, j_lease_expires_at := Some lease,
         j_attempt_count := k, j_updated_at := tx_now ck\<rparr>"])
        (use assms(3) fi fr0 in \<open>simp_all add: 2(1) frame_simps job_view_def job_active_def\<close>)
  qed
qed

lemma claim_candidate_active:
  assumes "claim_candidate now sel node inst d = Some job"
  shows "job \<in> set (jobs d) \<and> job_active job \<and> claimable now job \<and> sel job = Some (node, inst)"
proof -
  have "job \<in> set (sort_by claim_order (filter (\<lambda>j. claimable now j \<and> sel j = Some (node, inst) \<and>
        list_ex (\<lambda>m. m_id m = j_model_id j \<and> m_enabled m) (models d)) (jobs d)))"
    using assms unfolding claim_candidate_def by (metis (no_types, lifting) list.case_eq_if list.set_sel(1) option.distinct(1) option.inject)
  then show ?thesis by (auto simp: claimable_def job_active_def)
qed

lemma run_claim_ordinary:
  assumes "(case h of Some h \<Rightarrow> commit d (HiddenWorkClaimed h)
       | None \<Rightarrow> (case claim_candidate (tx_now ck) (sel d) node inst d of
            None \<Rightarrow> commit d NoContent
          | Some job \<Rightarrow> and_then (enforce_current_policy (tx_now ck) node policy None (rq_tags (j_request job)) d)
              (\<lambda>_. grant_lease cr cfg ck prin node inst job d))) = Inr (ans, d')"
  shows "money_run d d'"
  using assms claim_candidate_active run_grant_lease
  by (fastforce simp: commit_eq_Inr and_then_eq_Inr split: option.splits)

lemma run_claim:
  assumes "claim_job cr cfg ck sel hid prin node inst d = Inr (ans, d')"
  shows "money_run d d'"
proof -
  obtain policy d1 d2 h hw r where
    1: "reap_expired_terminal_leases (tx_now ck) d = Inr d1"
    and 2: "reap_invalid_regulated_jobs (tx_now ck) (fresh_for ck) d1 = Inr d2"
    and 3: "(let d = d2\<lparr>hidden_work := hw, risk := r\<rparr> in
       case h of Some h \<Rightarrow> commit d (HiddenWorkClaimed h)
       | None \<Rightarrow> (case claim_candidate (tx_now ck) (sel d) node inst d of
            None \<Rightarrow> commit d NoContent
          | Some job \<Rightarrow> and_then (enforce_current_policy (tx_now ck) node policy None (rq_tags (j_request job)) d)
              (\<lambda>_. grant_lease cr cfg ck prin node inst job d))) = Inr (ans, d')"
    using assms unfolding claim_job_def by (elim inversion; blast)
  let ?d3 = "d2\<lparr>hidden_work := hw, risk := r\<rparr>"
  have "money_run d d2" using run_reap_expired [OF 1] run_reap_invalid [OF 2] by (rule money_run_trans)
  moreover have "money_run d2 ?d3" by (rule run_same_jobs) (simp_all add: same_ledgers_def)
  moreover have "money_run ?d3 d'" using 3 unfolding Let_def by (rule run_claim_ordinary)
  ultimately show ?thesis by (meson money_run_trans)
qed

lemma run_get_job:
  assumes "get_job cr cfg ck prin i d = Inr (ans, d')"
  shows "money_run d d'"
proof -
  obtain d1 where 1: "reap_expired_terminal_leases (tx_now ck) d = Inr d1"
    and 2: "reap_invalid_regulated_jobs (tx_now ck) (fresh_for ck) d1 = Inr d'"
    using assms unfolding get_job_def Let_def by (elim inversion) (simp add: commit_eq_Inr)
  from run_reap_expired [OF 1] run_reap_invalid [OF 2] show ?thesis by (rule money_run_trans)
qed

lemma run_renewed:
  "money_run d (update_attempts P f (d\<lparr>jobs := sql_update (\<lambda>j. j_id j = i \<and> j_leased_to_node_id j = Some node \<and>
     j_status j = Leased \<and> lease_valid now j) (\<lambda>j. j\<lparr>j_lease_expires_at := e, j_updated_at := n\<rparr>) (jobs d)\<rparr>))"
  by (rule run_relabel [where P = "\<lambda>j. j_id j = i \<and> j_leased_to_node_id j = Some node \<and>
       j_status j = Leased \<and> lease_valid now j" and f = "\<lambda>j. j\<lparr>j_lease_expires_at := e, j_updated_at := n\<rparr>"])
    (auto simp: frame_simps job_active_def job_view_def)

lemma run_renew:
  assumes "renew_job cfg ck prin i node d = Inr (ans, d')"
  shows "money_run d d'"
  using assms unfolding renew_job_def Let_def
  by (auto simp: result_simps simp del: lit_simps split: if_splits intro: run_fail_attestation run_renewed)

text \<open>A job is found by its id.\<close>

lemma fetch_job: "fetch_optional (\<lambda>j. j_id j = i) js = Some job \<Longrightarrow> job \<in> set js \<and> j_id job = i"
  by (drule fetch_optional_Some) simp

lemma run_retry:
  assumes "fetch_optional (\<lambda>j. j_id j = i) (jobs d) = Some job" "j_status job = Leased"
  shows "money_run d (finalize_draining_instance now inst (update_job i (\<lambda>j. j\<lparr>j_status := Retry,
    j_leased_to_node_id := None,
    j_model_instance_id := (if j_confidentiality j = Regulated then j_model_instance_id j else None),
    j_lease_expires_at := None, j_available_at := av, j_updated_at := now\<rparr>) (update_attempts P f d)))"
  by (rule run_relabel_key [where job = job and f = "\<lambda>j. j\<lparr>j_status := Retry, j_leased_to_node_id := None,
    j_model_instance_id := (if j_confidentiality j = Regulated then j_model_instance_id j else None),
    j_lease_expires_at := None, j_available_at := av, j_updated_at := now\<rparr>"])
    (use fetch_job [OF assms(1)] assms(2) in \<open>simp_all add: frame_simps job_active_def job_view_def\<close>)

lemma run_fail_final:
  assumes job: "fetch_optional (\<lambda>j. j_id j = i) (jobs d) = Some job" "job_active job"
    and rel: "release_reservation now (j_user_id job) (j_reserved_cost_micro job) (update_attempts P f d) = Inr d1"
  shows "money_run d (finalize_draining_instance now inst (update_job i
    (\<lambda>j. j\<lparr>j_status := Failed, j_completed_at := Some now, j_updated_at := now\<rparr>) d1))"
proof -
  let ?d = "update_attempts P f d"
  have "money_run d ?d" by (rule run_same_jobs) (simp_all add: frame_simps)
  moreover have "money_run ?d (finalize_draining_instance now inst (update_job i
      (\<lambda>j. j\<lparr>j_status := Failed, j_completed_at := Some now, j_updated_at := now\<rparr>) d1))"
    by (rule run_close [OF _ job(2) rel, where f = "\<lambda>j. j\<lparr>j_status := Failed, j_completed_at := Some now,
      j_updated_at := now\<rparr>"]) (use fetch_job [OF job(1)] in \<open>simp_all add: frame_simps\<close>)
  ultimately show ?thesis by (rule money_run_trans)
qed

lemma run_job_fail:
  assumes "job_fail ck prin i req d = Inr (ans, d')"
  shows "money_run d d'"
  using assms unfolding job_fail_def Let_def
  by (auto simp: result_simps job_active_def intro: run_retry run_fail_final simp del: lit_simps
      split: if_splits option.splits)

lemma run_cancelled:
  assumes job: "fetch_optional (\<lambda>j. j_id j = i \<and> j_user_id j = u) (jobs d) = Some job"
      "j_status job \<notin> {Succeeded, Failed, Cancelled}"
    and rel: "release_reservation now u (j_reserved_cost_micro job) d = Inr d1"
    and d2: "d2 = d1 \<or> d2 = update_attempts P f d1"
  shows "money_run d (finalize_draining_instance now inst (update_job i (\<lambda>j. j\<lparr>j_status := Cancelled,
      j_lease_expires_at := None, j_completed_at := Some now, j_updated_at := now\<rparr>) d2))"
proof (rule run_close [where job = job and f = "\<lambda>j. j\<lparr>j_status := Cancelled, j_lease_expires_at := None,
      j_completed_at := Some now, j_updated_at := now\<rparr>"])
  note fetched = fetch_optional_Some [OF job(1)]
  then show "job \<in> set (jobs d)" by simp
  show "job_active job" using job(2) unfolding terminal_not_active by simp
  show "release_reservation now (j_user_id job) (j_reserved_cost_micro job) d = Inr d1" using rel fetched by simp
qed (use d2 fetch_optional_Some [OF job(1)] in \<open>auto simp: frame_simps\<close>)

lemma run_cancel:
  assumes "cancel_timed_out_job now prin i d = Inr (ans, d')"
  shows "money_run d d'"
  using assms unfolding cancel_timed_out_job_def Let_def
  by (elim inversion) (auto simp: result_simps simp del: lit_simps split: if_splits intro!: run_cancelled)

text \<open>Creation: the reservation and the job row, whatever the risk assessment recorded before.\<close>

lemma run_created:
  assumes ins: "insert_job job d1 = Inr d2" and res: "reserve_quota now u r d = Inr d1"
    and job: "j_user_id job = u" "j_reserved_cost_micro job = r" "job_active job"
  shows "money_run d d2"
  unfolding money_flow_def
proof
  assume ok: "money_ok d"
  then have e: "escrow_ok d" by (simp add: money_ok_def)
  let ?g = "taken now (j_user_id job) (j_reserved_cost_micro job)"
  have d1: "d1 = d\<lparr>quota_accounts := map ?g (quota_accounts d)\<rparr>" using reserve_quota_effect(1) [OF res e] job by simp
  have d2: "d2 = d1\<lparr>jobs := jobs d1 @ [job]\<rparr>" using ins by (auto simp: insert_job_def split: if_splits)
  have "books_ok quota_entries quota_books d2 = books_ok quota_entries quota_books d"
    "books_ok contribution_entries contribution_books d2 = books_ok contribution_entries contribution_books d"
    "books_ok reserve_entries reserve_books d2 = books_ok reserve_entries reserve_books d"
    by (rule books_kept [where g = ?g]; simp add: d1 d2 same_ledgers_def taken_def same_books_def
        quota_book_def contribution_book_def)+
  moreover have "finals_kept d d2" by (auto simp: finals_kept_def d1 d2)
  moreover have "circulation d2 = circulation d"
    by (rule circulation_kept [where g = ?g]) (simp_all add: d1 d2 taken_def)
  ultimately show "money_ok d2 \<and> escrow_step\<^sup>*\<^sup>* (escrow_of d) (escrow_of d2) \<and> finals_kept d d2 \<and>
      circulation d2 = circulation d + 0"
    using ok open_effect [OF e res [folded job(1,2)] ins job(3)] by (auto simp: money_ok_def)
qed

lemma run_risk: "money_run (d\<lparr>risk := r\<rparr>) d' \<Longrightarrow> money_run d d'"
  by (rule money_run_trans [OF run_same_jobs]) (auto simp: same_ledgers_def)

lemma run_routes: "money_run d d' \<Longrightarrow> money_run d (d'\<lparr>regulated_routes := r\<rparr>)"
  by (erule money_run_trans [OF _ run_same_jobs]) (auto simp: same_ledgers_def)

lemma run_create:
  assumes "create_job w cr cfg ck nonce assess pick prin r d = Inr (ans, d')"
  shows "money_run d d'"
proof (cases "find_by_idempotency_key (pr_user_id prin) (job_idempotency_key r) d")
  case None
  note body = assms [unfolded create_job_def None option.case Let_def]
  from body show ?thesis
    by (elim inversion) (drule run_created, assumption, simp_all add: commit_eq_Inr job_active_def run_risk)
next
  case (Some existing)
  from assms [unfolded create_job_def Some option.case] show ?thesis
    by (elim inversion) (simp add: commit_eq_Inr)
qed

lemma run_consume_route:
  assumes "consume_route w cfg ck prin r fp rt m mi n ar d = Inr (ans, d')"
  shows "money_run d d'"
  using assms unfolding consume_route_def Let_def
  by (elim inversion) (drule run_created, assumption, simp_all add: commit_eq_Inr job_active_def run_routes)

lemma run_create_regulated:
  assumes "create_regulated_job w cfg ck fpr assess prin r d = Inr (ans, d')"
  shows "money_run d d'"
proof (cases "find_by_idempotency_key (pr_user_id prin) (cr_idempotency_key r) d")
  case None
  from assms [unfolded create_regulated_job_def None option.case Let_def] show ?thesis
    by (elim inversion) (rule run_risk, erule run_consume_route)
next
  case (Some existing)
  from assms [unfolded create_regulated_job_def Some option.case] show ?thesis
    by (elim inversion) (simp add: commit_eq_Inr)
qed

end
