(* ===== verification/Posting.thy ===== *)
theory Posting
  imports Lifecycle
begin

text \<open>
  The settlement of a job, seen as one step of the escrow machine. \<open>moves u q p\<close> is what one ledger
  insertion does to the accounts: it adds \<open>q\<close> to the spendable balance of \<open>u\<close> and \<open>p\<close> to the reserve,
  and keeps the reservations, the jobs and the ledger books. The four insertions of \<open>post_settlement\<close>
  compose to \<open>settle_effect\<close>.
\<close>

section \<open>One insertion\<close>

definition all_books :: "'x db \<Rightarrow> bool" where
  "all_books d \<longleftrightarrow> books_ok quota_entries quota_books d \<and>
     books_ok contribution_entries contribution_books d \<and> books_ok reserve_entries reserve_books d"

lemma money_ok_books: "money_ok d \<longleftrightarrow> escrow_ok d \<and> all_books d"
  by (auto simp: money_ok_def all_books_def)

definition moves :: "Uuid \<Rightarrow> int \<Rightarrow> int \<Rightarrow> 'x db \<Rightarrow> 'x db \<Rightarrow> bool" where
  "moves u q p d d' \<longleftrightarrow>
     (\<exists>g. quota_accounts d' = map g (quota_accounts d) \<and>
        (\<forall>a. q_user_id (g a) = q_user_id a \<and> reserved_micro (g a) = reserved_micro a) \<and>
        (\<forall>a \<in> set (quota_accounts d). (quota_account_check a \<longrightarrow> quota_account_check (g a)) \<and>
           sint (spendable_micro (g a)) = sint (spendable_micro a) + (if q_user_id a = u then q else 0))) \<and>
     sint (ra_balance_micro (reserve_account d')) = sint (ra_balance_micro (reserve_account d)) + p \<and>
     jobs d' = jobs d \<and> (all_books d \<longrightarrow> all_books d')"

lemma movesE:
  assumes "moves u q p d d'"
  obtains g where "quota_accounts d' = map g (quota_accounts d)" "\<And>a. q_user_id (g a) = q_user_id a"
    "\<And>a. reserved_micro (g a) = reserved_micro a"
    "\<And>a. a \<in> set (quota_accounts d) \<Longrightarrow> (quota_account_check a \<longrightarrow> quota_account_check (g a)) \<and>
       sint (spendable_micro (g a)) = sint (spendable_micro a) + (if q_user_id a = u then q else 0)"
  using assms unfolding moves_def by blast

lemma sum_list_add_key:
  "distinct (map k xs) \<Longrightarrow> x \<in> set xs \<Longrightarrow> (\<Sum>y\<leftarrow>xs. f y + (if k y = k x then c else 0)) = (\<Sum>y\<leftarrow>xs. f y) + (c :: int)"
proof (induction xs)
  case (Cons y ys)
  show ?case
  proof (cases "k y = k x")
    case True
    then have "\<forall>z \<in> set ys. k z \<noteq> k x" using Cons.prems(1) by (auto simp: rev_image_eqI)
    then have "(\<Sum>z\<leftarrow>ys. f z + (if k z = k x then c else 0)) = (\<Sum>z\<leftarrow>ys. f z)"
      by (intro arg_cong [of _ _ sum_list] map_cong) auto
    with True show ?thesis by simp
  next
    case False
    then have "x \<in> set ys" using Cons.prems(2) by auto
    with Cons False show ?thesis by simp
  qed
qed simp

lemma moves_circulation:
  assumes "moves u q p d d'" "distinct (map q_user_id (quota_accounts d))" "q = 0 \<or> find_account u d \<noteq> None"
  shows "circulation d' = circulation d + q + p"
proof -
  obtain g where g: "quota_accounts d' = map g (quota_accounts d)"
    "\<And>a. a \<in> set (quota_accounts d) \<Longrightarrow> (quota_account_check a \<longrightarrow> quota_account_check (g a)) \<and>
       sint (spendable_micro (g a)) = sint (spendable_micro a) + (if q_user_id a = u then q else 0)"
    using assms(1) by (rule movesE) blast
  have "(\<Sum>a\<leftarrow>quota_accounts d'. sint (spendable_micro a)) =
      (\<Sum>a\<leftarrow>quota_accounts d. sint (spendable_micro a) + (if q_user_id a = u then q else 0))"
    using g(2) by (simp add: g(1) comp_def cong: map_cong)
  also have "\<dots> = (\<Sum>a\<leftarrow>quota_accounts d. sint (spendable_micro a)) + q"
  proof (cases "find_account u d")
    case None
    then have "q = 0" using assms(3) by simp
    then show ?thesis by (simp only: if_cancel add_0_right)
  next
    case (Some a)
    then have "a \<in> set (quota_accounts d)" "q_user_id a = u" using find_account_id [OF Some] by auto
    with sum_list_add_key [OF assms(2), of a "\<lambda>a. sint (spendable_micro a)" q] show ?thesis by simp
  qed
  finally show ?thesis using assms(1) by (simp add: circulation_def moves_def)
qed

lemma books_map:
  assumes "quota_accounts d' = map g (quota_accounts d)" "\<And>a. q_user_id (g a) = q_user_id a"
  shows "(\<And>a. quota_book (g a) = quota_book a) \<Longrightarrow> quota_books d' = quota_books d"
    "(\<And>a. contribution_book (g a) = contribution_book a) \<Longrightarrow> contribution_books d' = contribution_books d"
proof -
  note fa = find_account_map [OF assms]
  show "(\<And>a. quota_book (g a) = quota_book a) \<Longrightarrow> quota_books d' = quota_books d"
    by (rule ext) (simp add: quota_books_def fa option.map_comp comp_def)
  show "(\<And>a. contribution_book (g a) = contribution_book a) \<Longrightarrow> contribution_books d' = contribution_books d"
    by (rule ext) (simp add: contribution_books_def fa option.map_comp comp_def)
qed

lemma books_ok_cong:
  "quota_ledger d' = quota_ledger d \<Longrightarrow> quota_books d' = quota_books d \<Longrightarrow>
     books_ok quota_entries quota_books d' = books_ok quota_entries quota_books d"
  "contribution_ledger d' = contribution_ledger d \<Longrightarrow> contribution_books d' = contribution_books d \<Longrightarrow>
     books_ok contribution_entries contribution_books d' = books_ok contribution_entries contribution_books d"
  "reserve_ledger d' = reserve_ledger d \<Longrightarrow> reserve_account d' = reserve_account d \<Longrightarrow>
     books_ok reserve_entries reserve_books d' = books_ok reserve_entries reserve_books d"
  by (simp_all add: books_ok_def quota_entries_def contribution_entries_def reserve_entries_def reserve_books_def)

lemma insert_quota_moves:
  assumes ins: "insert_quota_ledger now e d = Inr d'" and dist: "distinct (map q_user_id (quota_accounts d))"
  shows "moves (account_id e) (sint (amount_micro e)) 0 d d'"
proof -
  obtain a b as where a: "find_account (account_id e) d = Some a"
    and adv: "advance_head (quota_book a) (entries_of (quota_ledger d) (account_id e)) e = Inr b"
    and upd: "checked_update quota_account_check (\<lambda>a. q_user_id a = account_id e)
       (\<lambda>a. Some (a\<lparr>spendable_micro := bk_balance b, quota_ledger_head_hash := bk_head b,
          quota_ledger_entry_count := bk_count b, q_updated_at := now\<rparr>)) (quota_accounts d) = Inr as"
    and d': "d' = d\<lparr>quota_accounts := as, quota_ledger := quota_ledger d @ [e]\<rparr>"
    using ins by (auto simp: insert_quota_ledger_eq_Inr)
  define g where "g x = (if q_user_id x = account_id e then x\<lparr>spendable_micro := bk_balance b,
      quota_ledger_head_hash := bk_head b, quota_ledger_entry_count := bk_count b, q_updated_at := now\<rparr> else x)" for x :: QuotaAccount
  have m: "as = map g (quota_accounts d) \<and> (\<forall>x \<in> set (quota_accounts d). q_user_id x = account_id e \<longrightarrow>
      Some (x\<lparr>spendable_micro := bk_balance b, quota_ledger_head_hash := bk_head b,
          quota_ledger_entry_count := bk_count b, q_updated_at := now\<rparr>) = Some (g x) \<and> quota_account_check (g x))"
    by (rule checked_update_is_map [OF upd]) (auto simp: g_def)
  have acc: "quota_accounts d' = map g (quota_accounts d)" using m d' by simp
  have id: "q_user_id (g x) = q_user_id x" for x by (simp add: g_def)
  have bal: "sint (bk_balance b) = sint (spendable_micro a) + sint (amount_micro e)"
    using adv by (simp add: advance_head_eq_Inr quota_book_def)
  have only: "x = a" if "x \<in> set (quota_accounts d)" "q_user_id x = account_id e" for x
    using that a find_account_id [OF a] dist by (metis key_row_unique)
  have rows: "(quota_account_check x \<longrightarrow> quota_account_check (g x)) \<and>
      sint (spendable_micro (g x)) = sint (spendable_micro x) + (if q_user_id x = account_id e then sint (amount_micro e) else 0)"
    if "x \<in> set (quota_accounts d)" for x
    using that m only [OF that] bal by (auto simp: g_def)
  have "contribution_books d' = contribution_books d"
    by (rule books_map(2) [OF acc id]) (simp add: g_def contribution_book_def)
  then have "all_books d \<longrightarrow> all_books d'"
    using quota.insert_keeps_books [OF _ ins] books_ok_cong(2,3) [of d' d] d' by (auto simp: all_books_def)
  with acc id rows show ?thesis unfolding moves_def
    by (intro conjI exI [of _ g]) (simp_all add: g_def d')
qed

lemma insert_contribution_moves:
  assumes ins: "insert_contribution_ledger now e d = Inr d'"
  shows "moves u 0 0 d d'"
proof -
  obtain b :: Book and as where
    upd: "checked_update quota_account_check (\<lambda>a. q_user_id a = account_id e)
       (\<lambda>a. Some (a\<lparr>contribution_micro := bk_balance b, contribution_ledger_head_hash := bk_head b,
          contribution_ledger_entry_count := bk_count b, q_updated_at := now\<rparr>)) (quota_accounts d) = Inr as"
    and d': "d' = d\<lparr>quota_accounts := as, contribution_ledger := contribution_ledger d @ [e]\<rparr>"
    using ins by (auto simp: insert_contribution_ledger_eq_Inr)
  define g where "g x = (if q_user_id x = account_id e then x\<lparr>contribution_micro := bk_balance b,
      contribution_ledger_head_hash := bk_head b, contribution_ledger_entry_count := bk_count b,
      q_updated_at := now\<rparr> else x)" for x :: QuotaAccount
  have m: "as = map g (quota_accounts d) \<and> (\<forall>x \<in> set (quota_accounts d). q_user_id x = account_id e \<longrightarrow>
      Some (x\<lparr>contribution_micro := bk_balance b, contribution_ledger_head_hash := bk_head b,
          contribution_ledger_entry_count := bk_count b, q_updated_at := now\<rparr>) = Some (g x) \<and> quota_account_check (g x))"
    by (rule checked_update_is_map [OF upd]) (auto simp: g_def)
  have acc: "quota_accounts d' = map g (quota_accounts d)" using m d' by simp
  have id: "q_user_id (g x) = q_user_id x" for x by (simp add: g_def)
  have rows: "(quota_account_check x \<longrightarrow> quota_account_check (g x)) \<and> sint (spendable_micro (g x)) = sint (spendable_micro x)"
    if "x \<in> set (quota_accounts d)" for x using that m by (auto simp: g_def)
  have "quota_books d' = quota_books d"
    by (rule books_map(1) [OF acc id]) (simp add: g_def quota_book_def)
  then have "all_books d \<longrightarrow> all_books d'"
    using contribution.insert_keeps_books [OF _ ins] books_ok_cong(1,3) [of d' d] d' by (auto simp: all_books_def)
  with acc id rows show ?thesis unfolding moves_def
    by (intro conjI exI [of _ g]) (simp_all add: g_def d')
qed

lemma insert_reserve_moves:
  assumes ins: "insert_reserve_ledger e aud d = Inr d'"
  shows "moves u 0 (sint (amount_micro e)) d d' \<and> 0 \<le> sint (ra_balance_micro (reserve_account d'))"
proof -
  have acc: "quota_accounts d' = map (\<lambda>a. a) (quota_accounts d)"
    and fr: "jobs d' = jobs d" "quota_ledger d' = quota_ledger d" "contribution_ledger d' = contribution_ledger d"
      "0 \<le> sint (ra_balance_micro (reserve_account d'))"
      "sint (ra_balance_micro (reserve_account d')) = sint (ra_balance_micro (reserve_account d)) + sint (amount_micro e)"
    using ins by (auto simp: insert_reserve_ledger_def result_simps advance_head_eq_Inr reserve_book_def)
  have "quota_books d' = quota_books d" "contribution_books d' = contribution_books d"
    using acc by (simp_all add: quota_books_def contribution_books_def find_account_def fun_eq_iff)
  then have "all_books d \<longrightarrow> all_books d'"
    using reserve.insert_keeps_books [OF _ ins] books_ok_cong(1,2) [of d' d] fr by (auto simp: all_books_def)
  with acc fr show ?thesis unfolding moves_def by (intro conjI exI [of _ "\<lambda>a. a"]) simp_all
qed

section \<open>The four entries\<close>

lemma moves_ids: "moves u q p d d' \<Longrightarrow> map q_user_id (quota_accounts d') = map q_user_id (quota_accounts d)"
  by (auto simp: moves_def comp_def)

lemma append_quota_moves:
  assumes "append_quota env now t i u job ty delta before after key d = Inr (h, d')"
    and "distinct (map q_user_id (quota_accounts d))"
  shows "moves u (sint delta) 0 d d'" "find_account u d \<noteq> None"
proof -
  obtain account e where "find_account u d = Some account" "insert_quota_ledger now e d = Inr d'"
    "account_id e = u" "amount_micro e = delta"
    using assms(1) unfolding append_quota_def
    by (auto simp: result_simps LedgerEntry_new_eq_Inr fetch_one_find_account)
  with insert_quota_moves assms(2) show "moves u (sint delta) 0 d d'" "find_account u d \<noteq> None" by auto
qed

lemma append_contribution_moves:
  "append_contribution env now t i u job delta before after key d = Inr (h, d') \<Longrightarrow> moves v 0 0 d d'"
  unfolding append_contribution_def by (auto simp: result_simps intro: insert_contribution_moves)

lemma append_reserve_moves:
  assumes "append_reserve env t i job delta before after key d = Inr (h, d')"
  shows "moves v 0 (sint delta) d d'"
proof -
  obtain e where "insert_reserve_ledger e None d = Inr d'" "amount_micro e = delta"
    using assms unfolding append_reserve_def by (auto simp: result_simps LedgerEntry_new_eq_Inr)
  with insert_reserve_moves [of e None d d' v] show ?thesis by simp
qed

lemma sint_minus_i64:
  assumes "0 \<le> sint (w :: i64)"
  shows "sint (- w) = - sint w"
proof -
  have "\<exists>c :: i64. sint c = - sint w" using i64_bounds [of w] assms by (simp add: ex_sint_eq)
  then obtain c :: i64 where c: "sint c = - sint w" ..
  then have "of_int (- sint w) = c" by (rule of_int_sint_same)
  then have "- w = c" by simp
  with c show ?thesis by simp
qed

lemma post_settlement_moves:
  assumes "post_settlement env ck i u w r a d = Inr (hs, d')"
    and "distinct (map q_user_id (quota_accounts d))" "0 \<le> sint (sa_deduction a)"
  obtains d1 d2 d3 d4 where "release_reservation (sc_now ck) u r d = Inr d1"
    "moves u (- sint (sa_deduction a)) 0 d1 d2" "moves w (sint (sa_node_quota a)) 0 d2 d3" "moves w 0 0 d3 d4"
    "moves w 0 (sint (sa_reserve a)) d4 d'" "sint (sa_deduction a) \<le> sint r" "find_account w d2 \<noteq> None"
proof -
  obtain consumer_before d1 h1 d2 nb na h2 d3 cm ca h3 d4 ra h4 where
    d: "\<not> sint (sa_deduction a) > sint r" "release_reservation (sc_now ck) u r d = Inr d1"
    "append_quota env (sc_now ck) (sc_utc ck 0) (sc_ids ck 0) u i (lit ''consumer_deduction'')
         (- sa_deduction a) consumer_before (consumer_before - sa_deduction a)
         (ledger_key env i '':consumer'') d1 = Inr (h1, d2)"
    "append_quota env (sc_now ck) (sc_utc ck 1) (sc_ids ck 1) w i (lit ''node_reward'')
         (sa_node_quota a) nb na (ledger_key env i '':node-quota'') d2 = Inr (h2, d3)"
    "append_contribution env (sc_now ck) (sc_utc ck 2) (sc_ids ck 2) w i (sa_contribution a)
         cm ca (ledger_key env i '':contribution'') d3 = Inr (h3, d4)"
    "append_reserve env (sc_utc ck 3) (sc_ids ck 3) i (sa_reserve a)
         (ra_balance_micro (reserve_account d4)) ra (ledger_key env i '':reserve'') d4 = Inr (h4, d')"
    using assms(1) unfolding post_settlement_def
    by (elim inversion) (simp only: sum.inject prod.inject, blast)
  have "map q_user_id (quota_accounts d1) = map q_user_id (quota_accounts d)"
    using d(2) unfolding release_reservation_def Let_def
    by (auto simp: result_simps update_accounts_eq_Inr split: if_splits
        intro!: keys_checked_update [where key = q_user_id])
  then have dist: "distinct (map q_user_id (quota_accounts d1))" using assms(2) by simp
  note m1 = append_quota_moves [OF d(3) dist]
  have "distinct (map q_user_id (quota_accounts d2))" using dist moves_ids [OF m1(1)] by simp
  note m2 = append_quota_moves [OF d(4) this]
  have "sint (- sa_deduction a) = - sint (sa_deduction a)" using assms(3) by (rule sint_minus_i64)
  with that [OF d(2) _ m2(1) append_contribution_moves [OF d(5)] append_reserve_moves [OF d(6)] _ m2(2)] m1(1) d(1)
  show thesis by simp
qed

lemma post_settlement_jobs:
  assumes "post_settlement env ck i u w r a d = Inr (hs, d')"
  shows "jobs d' = jobs d"
  using assms unfolding post_settlement_def
  by (elim inversion) (auto simp: append_quota_def append_contribution_def append_reserve_def release_reservation_def Let_def
      insert_quota_ledger_eq_Inr insert_contribution_ledger_eq_Inr insert_reserve_ledger_def result_simps update_accounts_eq_Inr
      simp del: lit_simps elim!: inversion split: if_splits)

text \<open>The amounts are those of the accounting library, so that the charge is what the worker and the reserve get.\<close>

lemma settlement_amounts_of_sum:
  assumes "settlement_amounts_of env u w k tier trust base r = Inr a"
  shows "0 \<le> sint (sa_deduction a)" "0 \<le> sint (sa_node_quota a)" "0 \<le> sint (sa_reserve a)"
    "sint (sa_deduction a) = sint (sa_node_quota a) + sint (sa_reserve a)"
proof -
  obtain b s where b: "MicroQuota_new base = Inr b" and s: "Settlement_calculate b tier (settlement_trust_class trust) = Inr s"
    and a: "sa_deduction a = as_i64 (user_deduction s)" "sa_node_quota a = as_i64 (node_spendable_quota s)"
      "sa_reserve a = as_i64 (reserve_inflow s)"
    using assms unfolding settlement_amounts_of_def Let_def by (elim inversion) (auto simp: map_err_eq_Inr)
  have ok: "mq_ok b" using b by (auto simp: result_simps mq_ok_def)
  have d0: "0 \<le> micro (user_deduction s)"
    using s ok by (simp add: Settlement_calculate_eq_Inr mq_ok_def spec_deduction_nonneg)
  note eqs = s [unfolded Settlement_calculate_eq_Inr [OF ok]]
  show "0 \<le> sint (sa_deduction a)" "0 \<le> sint (sa_node_quota a)" "0 \<le> sint (sa_reserve a)"
    "sint (sa_deduction a) = sint (sa_node_quota a) + sint (sa_reserve a)"
    using eqs d0 spec_share_nonneg [OF d0, of 800 "settlement_trust_class trust"]
      spec_share_quota_le [OF d0, of "settlement_trust_class trust"]
    unfolding a by (auto simp: micro_def)
qed

text \<open>Release, four entries and the final state of the job are one step of the escrow machine.\<close>

lemma run_settled:
  assumes job: "job \<in> set (jobs d)" "job_active job"
    and rel: "release_reservation now (j_user_id job) (j_reserved_cost_micro job) d = Inr d1"
    and m: "moves (j_user_id job) (- charge) 0 d1 d2" "moves w wage 0 d2 d3" "moves w 0 0 d3 d4" "moves w 0 inflow d4 d5"
    and amounts: "0 \<le> charge" "charge \<le> sint (j_reserved_cost_micro job)" "0 \<le> wage" "0 \<le> inflow" "charge = wage + inflow"
    and w: "find_account w d2 \<noteq> None"
    and fr: "quota_accounts d' = quota_accounts d5" "same_ledgers d5 d'"
    and js: "jobs d' = sql_update (\<lambda>j. j_id j = j_id job) f (jobs d5)"
    and f: "\<And>j. j_id (f j) = j_id j \<and> j_user_id (f j) = j_user_id j \<and>
      j_reserved_cost_micro (f j) = j_reserved_cost_micro j \<and> \<not> job_active (f j)"
    and ok: "money_ok d"
  shows "money_run d d' \<and> escrow_of d' = settled (escrow_of d) (j_id job) (j_user_id job)
    (sint (j_reserved_cost_micro job)) charge w wage inflow"
proof -
  from ok have e: "escrow_ok d" by (simp add: money_ok_def)
  let ?rel = "released now (j_user_id job) (j_reserved_cost_micro job)"
  have d1: "d1 = d\<lparr>quota_accounts := map ?rel (quota_accounts d)\<rparr>" using rel release_succeeds [OF e job] by simp
  obtain g1 where g1: "quota_accounts d2 = map g1 (quota_accounts d1)" "\<And>a. q_user_id (g1 a) = q_user_id a"
    "\<And>a. reserved_micro (g1 a) = reserved_micro a" "\<And>a. a \<in> set (quota_accounts d1) \<Longrightarrow>
      (quota_account_check a \<longrightarrow> quota_account_check (g1 a)) \<and> sint (spendable_micro (g1 a)) =
        sint (spendable_micro a) + (if q_user_id a = j_user_id job then - charge else 0)"
    using m(1) by (rule movesE) blast
  obtain g2 where g2: "quota_accounts d3 = map g2 (quota_accounts d2)" "\<And>a. q_user_id (g2 a) = q_user_id a"
    "\<And>a. reserved_micro (g2 a) = reserved_micro a" "\<And>a. a \<in> set (quota_accounts d2) \<Longrightarrow>
      (quota_account_check a \<longrightarrow> quota_account_check (g2 a)) \<and> sint (spendable_micro (g2 a)) =
        sint (spendable_micro a) + (if q_user_id a = w then wage else 0)"
    using m(2) by (rule movesE) blast
  obtain g3 where g3: "quota_accounts d4 = map g3 (quota_accounts d3)" "\<And>a. q_user_id (g3 a) = q_user_id a"
    "\<And>a. reserved_micro (g3 a) = reserved_micro a" "\<And>a. a \<in> set (quota_accounts d3) \<Longrightarrow>
      (quota_account_check a \<longrightarrow> quota_account_check (g3 a)) \<and> sint (spendable_micro (g3 a)) =
        sint (spendable_micro a) + (if q_user_id a = w then 0 else 0)"
    using m(3) by (rule movesE) blast
  obtain g4 where g4: "quota_accounts d5 = map g4 (quota_accounts d4)" "\<And>a. q_user_id (g4 a) = q_user_id a"
    "\<And>a. reserved_micro (g4 a) = reserved_micro a" "\<And>a. a \<in> set (quota_accounts d4) \<Longrightarrow>
      (quota_account_check a \<longrightarrow> quota_account_check (g4 a)) \<and> sint (spendable_micro (g4 a)) =
        sint (spendable_micro a) + (if q_user_id a = w then 0 else 0)"
    using m(4) by (rule movesE) blast
  note g = g1(1) g2(1) g3(1) g4(1) and ids = g1(2,3) g2(2,3) g3(2,3) g4(2,3)
  define h where "h = g4 \<circ> g3 \<circ> g2 \<circ> g1 \<circ> ?rel"
  have acc: "quota_accounts d' = map h (quota_accounts d)" by (simp add: fr g d1 h_def)
  have hid: "q_user_id (h a) = q_user_id a" "reserved_micro (h a) = reserved_micro (?rel a)" for a
    by (simp_all add: h_def ids)
  have rows: "quota_account_check (h a) \<and> sint (spendable_micro (h a)) = sint (spendable_micro a)
      - (if q_user_id a = j_user_id job then charge else 0) + (if q_user_id a = w then wage else 0)"
    if a: "a \<in> set (quota_accounts d)" for a
  proof -
    have mem: "?rel a \<in> set (quota_accounts d1)" "g1 (?rel a) \<in> set (quota_accounts d2)"
      "g2 (g1 (?rel a)) \<in> set (quota_accounts d3)" "g3 (g2 (g1 (?rel a))) \<in> set (quota_accounts d4)"
      using a by (simp_all add: g d1)
    have "spendable_micro (?rel a) = spendable_micro a" by (simp add: released_def)
    with g1(4) [OF mem(1)] g2(4) [OF mem(2)] g3(4) [OF mem(3)] g4(4) [OF mem(4)]
      released_check [OF e job a, of now]
    show ?thesis by (simp add: h_def ids)
  qed
  have jb: "jobs d5 = jobs d" using m by (simp add: moves_def d1)
  have "find_account w d \<noteq> None"
    using w by (auto simp: find_account_def fetch_optional_None g d1 ids)
  moreover have "sint (ra_balance_micro (reserve_account d')) = sint (ra_balance_micro (reserve_account d)) + inflow"
    using m fr(2) by (simp add: moves_def same_ledgers_def d1)
  moreover have "map job_view (jobs d') = close_view (j_id job) (map job_view (jobs d))"
    unfolding js jb by (rule job_views_closed) (rule f)
  ultimately have "escrow_ok d' \<and> escrow_step (escrow_of d) (escrow_of d') \<and> escrow_of d' =
      settled (escrow_of d) (j_id job) (j_user_id job) (sint (j_reserved_cost_micro job)) charge w wage inflow"
    using rows sint_released [OF e job] amounts
    by (intro settle_effect [OF e job acc, where charge = charge and wage = wage and worker = w and inflow = inflow])
      (simp_all add: hid)
  moreover have "all_books d1" using books_kept [where g = ?rel, of d d1] ok
    by (simp add: d1 all_books_def money_ok_def same_ledgers_def same_books_def released_def quota_book_def contribution_book_def)
  then have "all_books d5" using m by (simp add: moves_def)
  then have "all_books d'" using books_kept [where g = "\<lambda>a. a", of d5 d'] fr
    by (simp add: all_books_def same_books_def)
  moreover have "finals_kept d d'" unfolding js finals_kept_def jb
    by (rule closed_keeps_finals [OF e job])
  moreover have "circulation d' = circulation d"
  proof -
    have dist: "distinct (map q_user_id (quota_accounts d))" using e by (simp add: escrow_ok_def accounts_ok_def)
    then have "distinct (map q_user_id (quota_accounts d1))" by (simp add: d1 comp_def)
    moreover from this have "distinct (map q_user_id (quota_accounts d2))" using moves_ids [OF m(1)] by simp
    moreover from this have "distinct (map q_user_id (quota_accounts d3))" using moves_ids [OF m(2)] by simp
    moreover from this have "distinct (map q_user_id (quota_accounts d4))" using moves_ids [OF m(3)] by simp
    moreover have "find_account (j_user_id job) d1 \<noteq> None"
      using active_view(3) [OF e job] by (auto simp: d1 find_account_def fetch_optional_None)
    moreover have "circulation d1 = circulation d"
      by (rule circulation_kept [where g = ?rel]) (simp_all add: d1 released_def)
    ultimately have "circulation d5 = circulation d + (- charge) + wage + inflow"
      using moves_circulation [OF m(1)] moves_circulation [OF m(2)] moves_circulation [OF m(3)]
        moves_circulation [OF m(4)] w by simp
    then show ?thesis using fr amounts by (simp add: circulation_def same_ledgers_def)
  qed
  ultimately show ?thesis by (auto simp: money_ok_books money_flow_def)
qed

lemma insert_receipt_frame:
  assumes "insert_receipt r d = Inr d'"
  shows "quota_accounts d' = quota_accounts d" "jobs d' = jobs d" "same_ledgers d0 d' = same_ledgers d0 d"
  using assms by (auto simp: insert_receipt_def same_ledgers_def split: if_splits)

lemma set_risk_frame [frame_simps]:
  "quota_accounts (d\<lparr>risk := r\<rparr>) = quota_accounts d" "jobs (d\<lparr>risk := r\<rparr>) = jobs d"
  "same_ledgers d0 (d\<lparr>risk := r\<rparr>) = same_ledgers d0 d"
  by (simp_all add: same_ledgers_def)

lemma settle_leased_job_inversion:
  assumes "settle_leased_job env cr key ck cmd job node m fp billing base d = Inr (out, d')"
  obtains a hs d5 rc d6 res where
    "settlement_amounts_of env (j_user_id job) (n_user_id node) (rq_idempotency_key (j_request job)) (m_tier m)
       (n_trust_level node) base (risk d) = Inr a"
    "post_settlement env ck (cm_job_id cmd) (j_user_id job) (n_user_id node) (j_reserved_cost_micro job) a d = Inr (hs, d5)"
    "insert_receipt rc d5 = Inr d6" "quota_accounts d' = quota_accounts d6" "same_ledgers d6 d'"
    "jobs d' = sql_update (\<lambda>j. j_id j = cm_job_id cmd) (\<lambda>j. j\<lparr>j_status := Succeeded, j_result := res,
       j_completed_at := Some (sc_now ck), j_updated_at := sc_now ck\<rparr>) (jobs d6)"
    "so_user_deduction_micro out = sa_deduction a" "so_base_cost_micro out = base" "so_node_quota_micro out = sa_node_quota a"
    "so_reserve_micro out = sa_reserve a" "so_idempotent_replay out = False"
    "rc_user_deduction_micro rc = sa_deduction a" "rc_job_id rc = cm_job_id cmd"
  using assms unfolding settle_leased_job_def Let_def
  by (elim inversion) (simp only: sum.inject prod.inject, elim conjE, hypsubst, rule that, assumption, assumption,
      assumption, simp_all only: frame_simps same_ledgers_refl SettlementOutcome.simps Receipt.simps)

lemma run_settle:
  assumes settle: "settle_leased_job env cr key ck cmd job node m fp billing base d = Inr (out, d')"
    and job: "fetch_optional (\<lambda>j. j_id j = cm_job_id cmd) (jobs d) = Some job" "j_status job = Leased"
    and ok: "money_ok d"
  shows "money_run d d' \<and> escrow_of d' = settled (escrow_of d) (j_id job) (j_user_id job)
      (sint (j_reserved_cost_micro job)) (sint (so_user_deduction_micro out)) (n_user_id node)
      (sint (so_node_quota_micro out)) (sint (so_reserve_micro out)) \<and>
    sint (so_user_deduction_micro out) \<le> sint (j_reserved_cost_micro job)"
proof -
  from ok have dist: "distinct (map q_user_id (quota_accounts d))"
    by (simp add: money_ok_def escrow_ok_def accounts_ok_def)
  obtain a hs d5 rc d6 res where
    a: "settlement_amounts_of env (j_user_id job) (n_user_id node) (rq_idempotency_key (j_request job)) (m_tier m)
       (n_trust_level node) base (risk d) = Inr a"
    and post: "post_settlement env ck (cm_job_id cmd) (j_user_id job) (n_user_id node) (j_reserved_cost_micro job) a d = Inr (hs, d5)"
    and rc: "insert_receipt rc d5 = Inr d6" and fr: "quota_accounts d' = quota_accounts d6" "same_ledgers d6 d'"
    and js: "jobs d' = sql_update (\<lambda>j. j_id j = cm_job_id cmd) (\<lambda>j. j\<lparr>j_status := Succeeded, j_result := res,
       j_completed_at := Some (sc_now ck), j_updated_at := sc_now ck\<rparr>) (jobs d6)"
    and out: "so_user_deduction_micro out = sa_deduction a" "so_node_quota_micro out = sa_node_quota a"
      "so_reserve_micro out = sa_reserve a"
    using settle by (rule settle_leased_job_inversion)
  note sums = settlement_amounts_of_sum [OF a]
  obtain d1 d2 d3 d4 where m: "release_reservation (sc_now ck) (j_user_id job) (j_reserved_cost_micro job) d = Inr d1"
    "moves (j_user_id job) (- sint (sa_deduction a)) 0 d1 d2" "moves (n_user_id node) (sint (sa_node_quota a)) 0 d2 d3"
    "moves (n_user_id node) 0 0 d3 d4" "moves (n_user_id node) 0 (sint (sa_reserve a)) d4 d5"
    and le: "sint (sa_deduction a) \<le> sint (j_reserved_cost_micro job)" and w: "find_account (n_user_id node) d2 \<noteq> None"
    using post dist sums(1) by (rule post_settlement_moves)
  note rf = insert_receipt_frame [OF rc]
  have fetched: "job \<in> set (jobs d)" "j_id job = cm_job_id cmd" using fetch_job [OF job(1)] by simp_all
  have "money_run d d' \<and> escrow_of d' = settled (escrow_of d) (j_id job) (j_user_id job) (sint (j_reserved_cost_micro job))
      (sint (sa_deduction a)) (n_user_id node) (sint (sa_node_quota a)) (sint (sa_reserve a))"
  proof (rule run_settled [OF fetched(1) _ m sums(1) le sums(2,3,4) w _ _ _ _ ok])
    show "job_active job" using job(2) by (simp add: job_active_def)
    show "quota_accounts d' = quota_accounts d5" using fr(1) rf(1) by simp
    show "same_ledgers d5 d'" using fr(2) rf(3) [of d5] by (simp add: same_ledgers_def)
    show "jobs d' = sql_update (\<lambda>j. j_id j = j_id job) (\<lambda>j. j\<lparr>j_status := Succeeded, j_result := res,
       j_completed_at := Some (sc_now ck), j_updated_at := sc_now ck\<rparr>) (jobs d5)"
      using js rf(2) fetched(2) by simp
  qed (simp add: job_active_def)
  with le show ?thesis by (simp add: out)
qed

lemma run_complete:
  assumes "complete_job env cr key ck cmd d = Inr (ans, d')"
  shows "money_run d d'"
proof (rule money_run_if_ok)
  assume ok: "money_ok d"
  show ?thesis
    using assms unfolding complete_job_def Let_def
    by (elim inversion)
      (auto simp: ok_or_eq_Inr commit_eq_Inr simp del: lit_simps elim!: inversion split: if_splits
        intro: run_settle [OF _ _ _ ok, THEN conjunct1] run_fail_attestation)
qed

text \<open>The two ways in which a completion is acknowledged.\<close>

lemma complete_job_acknowledged:
  assumes "complete_job env cr key ck cmd d = Inr (Inr out, d')"
  obtains (replayed) job fp where "fetch_optional (\<lambda>j. j_id j = cm_job_id cmd) (jobs d) = Some job" "j_status job = Succeeded"
      "replay_result env cr key cmd job fp d = Inr out" "d' = d"
  | (settled_now) job node m fp billing base where
      "fetch_optional (\<lambda>j. j_id j = cm_job_id cmd) (jobs d) = Some job" "j_status job = Leased"
      "lease_valid (sc_now ck) job" "j_leased_to_node_id job = Some (cm_node_id cmd)"
      "fetch_optional (\<lambda>n. Some (n_id n) = j_leased_to_node_id job) (nodes d) = Some node"
      "n_user_id node = cm_worker_user_id cmd" "fetch_optional (\<lambda>m. m_id m = j_model_id job) (models d) = Some m"
      "JobBillingSnapshot_from_job_row job = Inr billing"
      "frozen_base_for_authorized_usage billing (cm_actual_input_tokens cmd) (cm_actual_output_tokens cmd) = Inr base"
      "settle_leased_job env cr key ck cmd job node m fp billing base d = Inr (out, d')"
proof -
  show thesis
    using assms unfolding complete_job_def Let_def
    by (elim inversion)
      (auto simp: ok_or_eq_Inr commit_eq_Inr simp del: lit_simps elim!: inversion split: if_splits
        intro: replayed settled_now)
qed

end
