(* ===== verification/Operator.thy ===== *)
theory Operator
  imports Posting
begin

text \<open>
  Money that enters and leaves from outside: the operator's quota grant (\<open>operator_grant.rs\<close>), the
  operator's reserve release (\<open>release_reserve\<close> of \<open>settlement.rs\<close>) and the account a first login opens
  (\<open>routes/auth_routes.rs\<close>). Each is one transaction; its replay by idempotency key returns the stored
  outcome and changes nothing. The request fingerprints (JSON and SHA-256) are parameters.
\<close>

section \<open>Operator identifiers\<close>

definition is_ascii_alphanumeric :: "nat \<Rightarrow> bool" where
  "is_ascii_alphanumeric b \<longleftrightarrow> 48 \<le> b \<and> b \<le> 57 \<or> 65 \<le> b \<and> b \<le> 90 \<or> 97 \<le> b \<and> b \<le> 122"

definition identifier_byte :: "nat \<Rightarrow> bool" where
  "identifier_byte b \<longleftrightarrow> is_ascii_alphanumeric b \<or> List.member [46, 95, 58, 64, 47, 45] b"

definition valid_ascii_identifier :: "rstring \<Rightarrow> bool" where
  "valid_ascii_identifier v \<longleftrightarrow>
     (let bs = utf8 v in bs \<noteq> [] \<and> length bs \<le> 128 \<and> is_ascii_alphanumeric (hd bs) \<and> list_all identifier_byte bs)"

definition valid_reason :: "rstring \<Rightarrow> bool" where
  "valid_reason r \<longleftrightarrow> 8 \<le> length r \<and> length r \<le> 512 \<and> trim r = r \<and> \<not> any_control r"

section \<open>Quota grants\<close>

definition MAX_OPERATOR_GRANT_MICRO :: int where
  "MAX_OPERATOR_GRANT_MICRO = 1000000000000"

record OperatorQuotaGrantRequest =
  gr_user_id :: Uuid
  gr_amount_micro :: i64
  gr_idempotency_key :: rstring
  gr_operator_id :: rstring
  gr_reason :: rstring

record OperatorQuotaGrantResult =
  gx_grant_id :: Uuid
  gx_user_id :: Uuid
  gx_amount_micro :: i64
  gx_balance_before_micro :: i64
  gx_balance_after_micro :: i64
  gx_quota_ledger_id :: Uuid
  gx_quota_ledger_entry_hash :: rstring
  gx_idempotent_replay :: bool

datatype OperatorQuotaGrantError =
    InvalidInput string
  | UserNotFound Uuid
  | AccountNotFound Uuid
  | IdempotencyConflict
  | BalanceOverflow
  | Accounting AccountingError
  | Database

definition OperatorQuotaGrantRequest_validate :: "OperatorQuotaGrantRequest \<Rightarrow> OperatorQuotaGrantError + unit" where
  "OperatorQuotaGrantRequest_validate r =
     (if \<not> (1 \<le> sint (gr_amount_micro r) \<and> sint (gr_amount_micro r) \<le> MAX_OPERATOR_GRANT_MICRO)
      then Inl (InvalidInput ''amount_micro'')
      else if \<not> valid_ascii_identifier (gr_idempotency_key r) then Inl (InvalidInput ''idempotency_key'')
      else if \<not> valid_ascii_identifier (gr_operator_id r) then Inl (InvalidInput ''operator'')
      else if \<not> valid_reason (gr_reason r) then Inl (InvalidInput ''reason'')
      else Inr ())"

text \<open>The trigger \<open>mindone_validate_operator_quota_grant\<close> and the unique columns.\<close>

definition grant_matches_ledger :: "OperatorGrantRow \<Rightarrow> 'x db \<Rightarrow> bool" where
  "grant_matches_ledger g d \<longleftrightarrow>
     list_ex (\<lambda>q. entry_id q = og_quota_ledger_id g \<and> account_id q = og_user_id g \<and> request_id q = None \<and>
       kind q = OperatorGrant \<and> amount_micro q = og_amount_micro g \<and>
       sint (balance_after_micro q) = sint (balance_before_micro q) + sint (og_amount_micro g) \<and>
       idempotency_key q = lit ''operator-grant:'' @ og_idempotency_key g \<and>
       hash q = og_quota_ledger_entry_hash g \<and>
       list_ex (\<lambda>a. q_user_id a = og_user_id g \<and> spendable_micro a = balance_after_micro q) (quota_accounts d))
       (quota_ledger d)"

definition insert_operator_grant :: "OperatorGrantRow \<Rightarrow> 'x db \<Rightarrow> 'x db api" where
  "insert_operator_grant g d =
     (if \<not> grant_matches_ledger g d \<or>
         list_ex (\<lambda>x. og_id x = og_id g \<or> og_idempotency_key x = og_idempotency_key g \<or>
           og_quota_ledger_id x = og_quota_ledger_id g) (operator_quota_grants d)
      then Inl InternalError
      else Inr (d\<lparr>operator_quota_grants := operator_quota_grants d @ [g]\<rparr>))"

definition replay_grant :: "OperatorQuotaGrantRequest \<Rightarrow> rstring \<Rightarrow> OperatorGrantRow \<Rightarrow> LedgerEntry \<Rightarrow>
    OperatorQuotaGrantError + OperatorQuotaGrantResult" where
  "replay_grant r fingerprint g q =
     (if \<not> (og_user_id g = gr_user_id r \<and> og_amount_micro g = gr_amount_micro r \<and>
            og_operator_id g = gr_operator_id r \<and> og_reason g = gr_reason r \<and>
            og_request_fingerprint g = fingerprint)
      then Inl IdempotencyConflict
      else Inr \<lparr>gx_grant_id = og_id g, gx_user_id = gr_user_id r, gx_amount_micro = gr_amount_micro r,
             gx_balance_before_micro = balance_before_micro q, gx_balance_after_micro = balance_after_micro q,
             gx_quota_ledger_id = og_quota_ledger_id g,
             gx_quota_ledger_entry_hash = og_quota_ledger_entry_hash g, gx_idempotent_replay = True\<rparr>)"

definition find_grant :: "rstring \<Rightarrow> 'x db \<Rightarrow> (OperatorGrantRow \<times> LedgerEntry) option" where
  "find_grant key d =
     Option.bind (fetch_optional (\<lambda>g. og_idempotency_key g = key) (operator_quota_grants d)) (\<lambda>g.
     Option.bind (fetch_optional (\<lambda>q. entry_id q = og_quota_ledger_id g) (quota_ledger d)) (\<lambda>q. Some (g, q)))"

definition grant_operator_quota ::
    "'x settle_env \<Rightarrow> settle_clock \<Rightarrow> (OperatorQuotaGrantRequest \<Rightarrow> OperatorQuotaGrantError + rstring) \<Rightarrow>
     OperatorQuotaGrantRequest \<Rightarrow> 'x db \<Rightarrow> OperatorQuotaGrantError + (OperatorQuotaGrantResult \<times> 'x db)" where
  "grant_operator_quota env ck grant_fingerprint r d =
     and_then (OperatorQuotaGrantRequest_validate r) (\<lambda>_.
     and_then (grant_fingerprint r) (\<lambda>fingerprint.
     case find_grant (gr_idempotency_key r) d of
       Some (g, q) \<Rightarrow> and_then (replay_grant r fingerprint g q) (\<lambda>x. Inr (x, d))
     | None \<Rightarrow>
     (case (if List.member (users d) (gr_user_id r) then find_account (gr_user_id r) d else None) of
       None \<Rightarrow> Inl (if List.member (users d) (gr_user_id r) then AccountNotFound (gr_user_id r)
                    else UserNotFound (gr_user_id r))
     | Some account \<Rightarrow>
     and_then (ok_or (s_checked_add (spendable_micro account) (gr_amount_micro r)) BalanceOverflow) (\<lambda>after.
     and_then (map_err Accounting (LedgerEntry_new (sha256_hex env) (uuid_text env) (sc_ids ck 1) (gr_user_id r) None
        (lit ''operator-grant:'' @ gr_idempotency_key r) OperatorGrant (gr_amount_micro r)
        (spendable_micro account) after (sc_utc ck 0) (quota_ledger_head_hash account)
        [(lit ''operator_id'', gr_operator_id r), (lit ''reason'', gr_reason r)])) (\<lambda>ledger.
     and_then (map_err (\<lambda>_. Database) (insert_quota_ledger (sc_now ck) ledger d)) (\<lambda>d.
     and_then (map_err (\<lambda>_. Database) (insert_operator_grant
        \<lparr>og_id = sc_ids ck 0, og_user_id = gr_user_id r, og_operator_id = gr_operator_id r, og_reason = gr_reason r,
         og_amount_micro = gr_amount_micro r, og_idempotency_key = gr_idempotency_key r,
         og_request_fingerprint = fingerprint, og_quota_ledger_id = entry_id ledger,
         og_quota_ledger_entry_hash = hash ledger\<rparr> d)) (\<lambda>d.
       Inr (\<lparr>gx_grant_id = sc_ids ck 0, gx_user_id = gr_user_id r, gx_amount_micro = gr_amount_micro r,
          gx_balance_before_micro = spendable_micro account, gx_balance_after_micro = after,
          gx_quota_ledger_id = entry_id ledger, gx_quota_ledger_entry_hash = hash ledger,
          gx_idempotent_replay = False\<rparr>, d))))))))"

section \<open>Reserve releases\<close>

definition MAX_OPERATOR_RESERVE_RELEASE_MICRO :: int where
  "MAX_OPERATOR_RESERVE_RELEASE_MICRO = 1000000000000"

fun reserve_entry_type :: "ReservePurpose \<Rightarrow> rstring" where
  "reserve_entry_type ResultValidation = lit ''verification''"
| "reserve_entry_type FailedRetry = lit ''retry''"
| "reserve_entry_type BandwidthSubsidy = lit ''bandwidth''"
| "reserve_entry_type PeakGuarantee = lit ''peak_capacity''"

record ReserveReleaseCommand =
  rr_cmd_purpose :: ReservePurpose
  rr_cmd_amount_micro :: i64
  rr_cmd_reference_id :: rstring
  rr_cmd_idempotency_key :: rstring
  rr_cmd_operator_id :: rstring
  rr_cmd_reason :: rstring

record ReserveReleaseOutcome =
  ro_operator_audit_id :: Uuid
  ro_release_id :: Uuid
  ro_purpose :: ReservePurpose
  ro_amount_micro :: i64
  ro_balance_before_micro :: i64
  ro_balance_after_micro :: i64
  ro_reference_id :: rstring
  ro_entry_hash :: rstring
  ro_idempotent_replay :: bool

definition validate_reserve_release_command :: "ReserveReleaseCommand \<Rightarrow> unit api" where
  "validate_reserve_release_command c =
     (if \<not> (1 \<le> sint (rr_cmd_amount_micro c) \<and> sint (rr_cmd_amount_micro c) \<le> MAX_OPERATOR_RESERVE_RELEASE_MICRO)
      then Inl (BadRequest ''invalid_reserve_amount'')
      else if \<not> valid_ascii_identifier (rr_cmd_idempotency_key c) then Inl (BadRequest ''invalid_idempotency_key'')
      else if \<not> valid_ascii_identifier (rr_cmd_operator_id c) then Inl (BadRequest ''invalid_operator'')
      else if rr_cmd_reference_id c = [] \<or> str_len (rr_cmd_reference_id c) > 255 \<or>
        trim (rr_cmd_reference_id c) \<noteq> rr_cmd_reference_id c \<or> any_control (rr_cmd_reference_id c)
      then Inl (BadRequest ''invalid_reserve_reference'')
      else if \<not> valid_reason (rr_cmd_reason c) then Inl (BadRequest ''invalid_operator_reason'')
      else Inr ())"

definition sum_bigint :: "i64 list \<Rightarrow> i64 api" where
  "sum_bigint vs = ok_or (let s = (\<Sum>v\<leftarrow>vs. sint v) in
     if - 9223372036854775808 \<le> s \<and> s \<le> 9223372036854775807 then Some (word_of_int s) else None) InternalError"

definition map_release_error :: "AccountingError \<Rightarrow> ApiError" where
  "map_release_error e = (case e of InsufficientBalance _ _ \<Rightarrow> Conflict ''reserve_insufficient'' | _ \<Rightarrow> InternalError)"

definition replay_release ::
    "ReserveReleaseCommand \<Rightarrow> rstring \<Rightarrow> LedgerEntry \<times> rstring option \<Rightarrow> 'x db \<Rightarrow> ReserveReleaseOutcome api" where
  "replay_release c fingerprint row d =
     (case row of (e, stored_reference) \<Rightarrow>
      let audit = fetch_optional (\<lambda>a. ra_reserve_ledger_id a = entry_id e) (operator_reserve_releases d) in
      if amount_micro e \<noteq> - rr_cmd_amount_micro c \<or> stored_reference \<noteq> Some (rr_cmd_reference_id c) \<or>
         entry_type (kind e) (metadata e) \<noteq> Inr (reserve_entry_type (rr_cmd_purpose c)) \<or>
         map_option ra_request_fingerprint audit \<noteq> Some fingerprint
      then Inl (Conflict ''idempotency_key_reused'')
      else and_then (ok_or audit InternalError) (\<lambda>a.
        Inr \<lparr>ro_operator_audit_id = ra_id a, ro_release_id = entry_id e, ro_purpose = rr_cmd_purpose c,
          ro_amount_micro = rr_cmd_amount_micro c, ro_balance_before_micro = balance_before_micro e,
          ro_balance_after_micro = balance_after_micro e, ro_reference_id = rr_cmd_reference_id c,
          ro_entry_hash = hash e, ro_idempotent_replay = True\<rparr>))"

definition reserve_state_of :: "'x db \<Rightarrow> ReserveState api" where
  "reserve_state_of d =
     and_then (sum_bigint (filter (\<lambda>v. 0 < sint v) (map (amount_micro \<circ> fst) (reserve_ledger d)))) (\<lambda>inflow.
     and_then (sum_bigint (map uminus (filter (\<lambda>v. sint v < 0) (map (amount_micro \<circ> fst) (reserve_ledger d))))) (\<lambda>outflow.
     and_then (map_err (\<lambda>_. InternalError) (MicroQuota_new (ra_balance_micro (reserve_account d)))) (\<lambda>b.
     and_then (map_err (\<lambda>_. InternalError) (MicroQuota_new inflow)) (\<lambda>i.
     and_then (map_err (\<lambda>_. InternalError) (MicroQuota_new outflow)) (\<lambda>out.
       Inr \<lparr>ReserveState.balance = b, total_inflow = i, total_outflow = out\<rparr>)))))"

text \<open>The unique columns of \<open>operator_reserve_releases\<close>; its trigger compares the row with the entry it names.\<close>

definition insert_release_audit :: "ReserveReleaseAudit \<Rightarrow> 'x db \<Rightarrow> 'x db api" where
  "insert_release_audit a d =
     (if list_ex (\<lambda>x. ra_id x = ra_id a \<or> ra_reserve_ledger_id x = ra_reserve_ledger_id a) (operator_reserve_releases d) \<or>
         \<not> list_ex (\<lambda>(e, _). entry_id e = ra_reserve_ledger_id a \<and> request_id e = None \<and>
             balance_after_micro e = ra_balance_micro (reserve_account d)) (reserve_ledger d)
      then Inl InternalError
      else Inr (d\<lparr>operator_reserve_releases := operator_reserve_releases d @ [a]\<rparr>))"

definition release_reserve ::
    "'x settle_env \<Rightarrow> settle_clock \<Rightarrow> (ReserveReleaseCommand \<Rightarrow> rstring api) \<Rightarrow> ReserveReleaseCommand \<Rightarrow> 'x db \<Rightarrow>
     (ReserveReleaseOutcome api \<times> 'x db) api" where
  "release_reserve env ck reserve_release_request_fingerprint c d =
     and_then (validate_reserve_release_command c) (\<lambda>_.
     and_then (reserve_release_request_fingerprint c) (\<lambda>fingerprint.
     and_then (map_err (\<lambda>_. InternalError) (MicroQuota_new (rr_cmd_amount_micro c))) (\<lambda>amount.
     case fetch_optional (\<lambda>(e, _). idempotency_key e = rr_cmd_idempotency_key c) (reserve_ledger d) of
       Some row \<Rightarrow> and_then (replay_release c fingerprint row d) (\<lambda>outcome. commit d outcome)
     | None \<Rightarrow>
     and_then (reserve_state_of d) (\<lambda>state.
     and_then (map_err map_release_error (fst (release state (sc_ids ck 0) (rr_cmd_purpose c) amount
        (rr_cmd_reference_id c) (sc_utc ck 0)))) (\<lambda>rel.
     let before = ra_balance_micro (reserve_account d); after = as_i64 (rr_balance_after rel) in
     and_then (map_err (\<lambda>_. InternalError) (LedgerEntry_new (sha256_hex env) (uuid_text env) (sc_ids ck 0) 1 None
        (rr_cmd_idempotency_key c) ReserveReleaseKind (- rr_cmd_amount_micro c) before after (sc_utc ck 0)
        (ra_ledger_head_hash (reserve_account d))
        [(lit ''operator_id'', rr_cmd_operator_id c), (lit ''purpose'', reserve_entry_type (rr_cmd_purpose c)),
         (lit ''reason'', rr_cmd_reason c), (lit ''reference_id'', rr_cmd_reference_id c)])) (\<lambda>ledger.
     and_then (insert_reserve_ledger ledger (Some (rr_cmd_reference_id c)) d) (\<lambda>d.
     and_then (insert_release_audit \<lparr>ra_id = sc_ids ck 1, ra_reserve_ledger_id = sc_ids ck 0,
        ra_request_fingerprint = fingerprint\<rparr> d) (\<lambda>d.
       commit d \<lparr>ro_operator_audit_id = sc_ids ck 1, ro_release_id = sc_ids ck 0, ro_purpose = rr_cmd_purpose c,
          ro_amount_micro = rr_cmd_amount_micro c, ro_balance_before_micro = before, ro_balance_after_micro = after,
          ro_reference_id = rr_cmd_reference_id c, ro_entry_hash = hash ledger, ro_idempotent_replay = False\<rparr>))))))))"

section \<open>Opening an account\<close>

definition empty_account :: "OffsetDateTime \<Rightarrow> Uuid \<Rightarrow> QuotaAccount" where
  "empty_account now user =
     \<lparr>q_user_id = user, spendable_micro = 0, reserved_micro = 0, contribution_micro = 0,
      quota_ledger_head_hash = GENESIS_HASH, quota_ledger_entry_count = 0,
      contribution_ledger_head_hash = GENESIS_HASH, contribution_ledger_entry_count = 0, q_updated_at = now\<rparr>"

text \<open>The account part of the token exchange: the row is created once, with the development quota if configured.\<close>

definition open_account ::
    "'x settle_env \<Rightarrow> settle_clock \<Rightarrow> rstring \<Rightarrow> i64 \<Rightarrow> Uuid \<Rightarrow> 'x db \<Rightarrow> 'x db api" where
  "open_account env ck provider initial_quota user d =
     (if find_account user d \<noteq> None then Inr d
      else
        let d = d\<lparr>quota_accounts := quota_accounts d @ [empty_account (sc_now ck) user]\<rparr> in
        if 0 < sint initial_quota then
          and_then (map_err (\<lambda>_. InternalError) (LedgerEntry_new (sha256_hex env) (uuid_text env) (sc_ids ck 0) user None
             (lit ''local-dev-bootstrap:'' @ uuid_text env user) BootstrapGrant initial_quota 0 initial_quota
             (sc_utc ck 0) GENESIS_HASH
             [(lit ''environment'', lit ''local-development''), (lit ''provider'', provider)])) (\<lambda>ledger.
            insert_quota_ledger (sc_now ck) ledger d)
        else Inr d)"

section \<open>Their effect\<close>

lemma moves_escrow:
  assumes m: "moves u q p d d'" and ok: "escrow_ok d" and acc: "q = 0 \<or> find_account u d \<noteq> None"
    and bal: "0 \<le> sint (ra_balance_micro (reserve_account d'))"
  shows "escrow_ok d'"
    and "escrow_of d' = (escrow_of d)\<lparr>es_funds := (es_funds (escrow_of d))(u := es_funds (escrow_of d) u + q),
      es_pot := es_pot (escrow_of d) + p\<rparr>"
proof -
  obtain g where g: "quota_accounts d' = map g (quota_accounts d)" "\<And>a. q_user_id (g a) = q_user_id a"
    "\<And>a. reserved_micro (g a) = reserved_micro a"
    "\<And>a. a \<in> set (quota_accounts d) \<Longrightarrow> (quota_account_check a \<longrightarrow> quota_account_check (g a)) \<and>
       sint (spendable_micro (g a)) = sint (spendable_micro a) + (if q_user_id a = u then q else 0)"
    using m by (rule movesE) blast
  have js: "jobs d' = jobs d" and pot: "sint (ra_balance_micro (reserve_account d')) = sint (ra_balance_micro (reserve_account d)) + p"
    using m by (simp_all add: moves_def)
  show "escrow_ok d'"
    using ok bal g by (auto simp: escrow_ok_def accounts_ok_def js comp_def image_image)
  have fa: "find_account v d' = map_option g (find_account v d)" for v using g(1,2) by (rule find_account_map)
  have fs: "find_account v d = Some a \<Longrightarrow> sint (spendable_micro (g a)) = sint (spendable_micro a) + (if v = u then q else 0)" for v a
    using find_account_id [of v d a] g(4) by auto
  show "escrow_of d' = (escrow_of d)\<lparr>es_funds := (es_funds (escrow_of d))(u := es_funds (escrow_of d) u + q),
      es_pot := es_pot (escrow_of d) + p\<rparr>"
    using fs acc by (auto simp: escrow_of_def fun_eq_iff js pot fa g(3) split: option.splits)
qed

lemma run_granted:
  assumes "moves u q 0 d d'" "0 < q" "find_account u d \<noteq> None"
  shows "money_flow q d d'"
  unfolding money_flow_def
proof
  assume ok: "money_ok d"
  then have e: "escrow_ok d" by (simp add: money_ok_def)
  have "0 \<le> sint (ra_balance_micro (reserve_account d'))" using e assms(1) by (simp add: moves_def escrow_ok_def)
  note eff = moves_escrow [OF assms(1) e disjI2 [OF assms(3)] this]
  have "escrow_step (escrow_of d) (escrow_of d')"
    unfolding eff(2) using escrow_step.grant [OF assms(2), of "escrow_of d" u] by simp
  moreover have "circulation d' = circulation d + q"
    using moves_circulation [OF assms(1)] e assms(3) by (simp add: escrow_ok_def accounts_ok_def)
  ultimately show "money_ok d' \<and> escrow_step\<^sup>*\<^sup>* (escrow_of d) (escrow_of d') \<and> finals_kept d d' \<and>
      circulation d' = circulation d + q"
    using eff(1) assms(1) ok by (auto simp: money_ok_books moves_def finals_kept_def)
qed

lemma run_released_pot:
  assumes m: "moves u 0 (- g) d d'" and "0 < g" "0 \<le> sint (ra_balance_micro (reserve_account d'))"
  shows "money_flow (- g) d d'"
  unfolding money_flow_def
proof
  assume ok: "money_ok d"
  then have e: "escrow_ok d" by (simp add: money_ok_def)
  note eff = moves_escrow [OF m e _ assms(3)]
  have "g \<le> es_pot (escrow_of d)" using m assms(3) by (simp add: moves_def escrow_of_def)
  then have "escrow_step (escrow_of d) (escrow_of d')"
    using escrow_step.release_pot [OF assms(2), of "escrow_of d"] eff(2) by simp
  moreover have "circulation d' = circulation d + - g"
    using moves_circulation [OF m] e by (simp add: escrow_ok_def accounts_ok_def)
  ultimately show "money_ok d' \<and> escrow_step\<^sup>*\<^sup>* (escrow_of d) (escrow_of d') \<and> finals_kept d d' \<and>
      circulation d' = circulation d + - g"
    using eff(1) m ok by (auto simp: money_ok_books moves_def finals_kept_def)
qed

lemma run_grant:
  assumes "grant_operator_quota env ck fp r d = Inr (x, d')"
  shows "money_flow (if gx_idempotent_replay x then 0 else sint (gr_amount_micro r)) d d'"
proof (cases "find_grant (gr_idempotency_key r) d")
  case None
  obtain account e d1 where val: "OperatorQuotaGrantRequest_validate r = Inr ()"
    and acc: "find_account (gr_user_id r) d = Some account"
    and ins: "insert_quota_ledger (sc_now ck) e d = Inr d1" and e: "account_id e = gr_user_id r" "amount_micro e = gr_amount_micro r"
    and d': "quota_accounts d' = quota_accounts d1" "same_ledgers d1 d'" "jobs d' = jobs d1"
    and x: "\<not> gx_idempotent_replay x"
    using assms unfolding grant_operator_quota_def None option.case
    by (auto simp: result_simps LedgerEntry_new_eq_Inr insert_operator_grant_def same_ledgers_def simp del: lit_simps
        split: option.splits if_splits)
  have pos: "0 < sint (amount_micro e)"
    using val e(2) by (auto simp: OperatorQuotaGrantRequest_validate_def split: if_splits)
  have "money_flow (sint (amount_micro e)) d d1"
  proof (rule money_flow_if_ok)
    assume "money_ok d"
    then have "distinct (map q_user_id (quota_accounts d))" by (simp add: money_ok_def escrow_ok_def accounts_ok_def)
    from insert_quota_moves [OF ins this] pos show "money_flow (sint (amount_micro e)) d d1" by (rule run_granted) (simp add: acc e(1))
  qed
  moreover have "money_run d1 d'" using d' by (rule run_same_jobs)
  ultimately have "money_flow (sint (amount_micro e) + 0) d d'" by (rule money_flow_trans)
  with x e(2) show ?thesis by simp
next
  case (Some gq)
  then show ?thesis using assms unfolding grant_operator_quota_def
    by (cases gq) (auto simp: result_simps replay_grant_def split: if_splits)
qed

lemma release_reserve_answer: "release_reserve env ck fp c d = Inr (ans, d') \<Longrightarrow> \<exists>x. ans = Inr x"
  unfolding release_reserve_def Let_def
  by (elim inversion) (auto simp: commit_eq_Inr elim!: inversion split: option.splits)

lemma run_release:
  assumes "release_reserve env ck fp c d = Inr (Inr x, d')"
  shows "money_flow (if ro_idempotent_replay x then 0 else - sint (rr_cmd_amount_micro c)) d d'"
proof (cases "fetch_optional (\<lambda>(e, _). idempotency_key e = rr_cmd_idempotency_key c) (reserve_ledger d)")
  case None
  obtain e d1 where val: "validate_reserve_release_command c = Inr ()"
    and ins: "insert_reserve_ledger e (Some (rr_cmd_reference_id c)) d = Inr d1"
    and e: "amount_micro e = - rr_cmd_amount_micro c"
    and d': "quota_accounts d' = quota_accounts d1" "same_ledgers d1 d'" "jobs d' = jobs d1"
    and x: "\<not> ro_idempotent_replay x"
    using assms unfolding release_reserve_def None option.case Let_def
    by (auto simp: result_simps LedgerEntry_new_eq_Inr insert_release_audit_def same_ledgers_def simp del: lit_simps
        split: if_splits)
  have pos: "0 < sint (rr_cmd_amount_micro c)"
    using val by (auto simp: validate_reserve_release_command_def split: if_splits)
  then have "sint (amount_micro e) = - sint (rr_cmd_amount_micro c)" unfolding e by (intro sint_minus_i64) simp
  with insert_reserve_moves [OF ins] pos have "money_flow (- sint (rr_cmd_amount_micro c)) d d1"
    by (intro run_released_pot [where u = 0 and g = "sint (rr_cmd_amount_micro c)"]) auto
  moreover have "money_run d1 d'" using d' by (rule run_same_jobs)
  ultimately have "money_flow (- sint (rr_cmd_amount_micro c) + 0) d d'" by (rule money_flow_trans)
  with x show ?thesis by simp
next
  case (Some row)
  then show ?thesis using assms unfolding release_reserve_def
    by (cases row) (auto simp: result_simps replay_release_def Let_def split: if_splits)
qed

lemma find_append: "find P (xs @ ys) = (case find P xs of None \<Rightarrow> find P ys | Some x \<Rightarrow> Some x)"
  by (induction xs) auto

lemma find_account_snoc:
  "find_account v (d\<lparr>quota_accounts := quota_accounts d @ [a]\<rparr>) =
     (case find_account v d of None \<Rightarrow> if q_user_id a = v then Some a else None | Some x \<Rightarrow> Some x)"
  by (auto simp: find_account_def fetch_optional_def find_append split: option.splits)

lemma view_held_none: "\<forall>(i, v, r, a) \<in> set vs. v \<noteq> u \<Longrightarrow> view_held u vs = 0"
  by (induction vs) auto

lemma views_ok_mono: "views_ok vs us \<Longrightarrow> us \<subseteq> us' \<Longrightarrow> views_ok vs us'"
  by (auto simp: views_ok_def)

lemma empty_account_simps:
  "q_user_id (empty_account now u) = u" "reserved_micro (empty_account now u) = 0"
  "spendable_micro (empty_account now u) = 0"
  "quota_account_check (empty_account now u)"
  by (simp_all add: empty_account_def quota_account_check_def)

lemma run_account_row:
  assumes new: "find_account u d = None"
  shows "money_run d (d\<lparr>quota_accounts := quota_accounts d @ [empty_account now u]\<rparr>)" (is "money_run d ?d")
  unfolding money_flow_def
proof
  assume ok: "money_ok d"
  then have e: "escrow_ok d" by (simp add: money_ok_def)
  have fa: "find_account v ?d = (if v = u then Some (empty_account now u) else find_account v d)" for v
    using new by (auto simp: find_account_snoc empty_account_simps split: option.splits)
  have u: "u \<notin> q_user_id ` set (quota_accounts d)"
    using new by (auto simp: find_account_def fetch_optional_None)
  have "\<forall>(i, v, r, a) \<in> set (map job_view (jobs d)). v \<noteq> u"
    using e u by (fastforce simp: escrow_ok_def views_ok_def)
  then have "view_held u (map job_view (jobs d)) = 0"
    by (rule view_held_none)
  moreover have "views_ok (map job_view (jobs d)) (q_user_id ` set (quota_accounts ?d))"
    using e unfolding escrow_ok_def by (elim conjE) (erule views_ok_mono, simp add: subset_insertI)
  ultimately have "escrow_ok ?d"
    using e u empty_account_simps [of now u] unfolding escrow_ok_def accounts_ok_def by simp
  moreover have "escrow_of ?d = escrow_of d"
    using new by (auto simp: escrow_of_def fun_eq_iff fa empty_account_simps)
  moreover have "all_books ?d"
  proof -
    have b: "account_book_ok (quota_books d k) (quota_entries d k)"
      "account_book_ok (contribution_books d k) (contribution_entries d k)"
      "account_book_ok (reserve_books d i) (reserve_entries d i)" for k i
      using ok by (simp_all add: money_ok_def books_ok_def)
    have "quota_entries d u = []" "contribution_entries d u = []"
      using b(1,2) [of u] new by (simp_all add: quota_books_def contribution_books_def)
    moreover have "book_ok (quota_book (empty_account now u)) []" "book_ok (contribution_book (empty_account now u)) []"
      by (simp_all add: book_ok_def quota_book_def contribution_book_def empty_account_def chain_head_def)
    ultimately show ?thesis using b
      by (auto simp: all_books_def books_ok_def quota_books_def contribution_books_def fa quota_entries_def
          contribution_entries_def reserve_books_def reserve_entries_def)
  qed
  moreover have "circulation ?d = circulation d" by (simp add: circulation_def empty_account_simps)
  ultimately show "money_ok ?d \<and> escrow_step\<^sup>*\<^sup>* (escrow_of d) (escrow_of ?d) \<and> finals_kept d ?d \<and>
      circulation ?d = circulation d + 0"
    by (auto simp: money_ok_books finals_kept_def)
qed

lemma run_open_account:
  assumes "open_account env ck provider q u d = Inr d'"
  shows "money_flow (if find_account u d = None then max 0 (sint q) else 0) d d'"
proof (cases "find_account u d")
  case None
  let ?d = "d\<lparr>quota_accounts := quota_accounts d @ [empty_account (sc_now ck) u]\<rparr>"
  have row: "money_run d ?d" using None by (rule run_account_row)
  have "money_flow (max 0 (sint q)) ?d d'"
  proof (cases "0 < sint q")
    case True
    then obtain e where ins: "insert_quota_ledger (sc_now ck) e ?d = Inr d'" and e: "account_id e = u" "amount_micro e = q"
      using assms None unfolding open_account_def Let_def
      by (auto simp: result_simps LedgerEntry_new_eq_Inr simp del: lit_simps)
    show ?thesis
    proof (rule money_flow_if_ok)
      assume "money_ok ?d"
      then have "distinct (map q_user_id (quota_accounts ?d))"
        by (simp only: money_ok_def escrow_ok_def accounts_ok_def)
      from insert_quota_moves [OF ins this] have "moves u (sint q) 0 ?d d'" by (simp add: e)
      then have "money_flow (sint q) ?d d'" using True
        by (rule run_granted) (auto simp: find_account_snoc empty_account_def split: option.splits)
      then show "money_flow (max 0 (sint q)) ?d d'" using True by simp
    qed
  next
    case False
    with assms None show ?thesis by (simp add: open_account_def Let_def)
  qed
  with row have "money_flow (0 + max 0 (sint q)) d d'" by (rule money_flow_trans)
  with None show ?thesis by simp
next
  case (Some a)
  with assms show ?thesis by (simp add: open_account_def)
qed

end
