(* ===== verification/Coordinator.thy ===== *)
theory Coordinator
  imports Operator
begin

text \<open>
  The coordinator as a state machine. A \<open>call\<close> is one transaction of the server: the handlers of the
  job lifecycle, the settlement, the operator's two commands, the account a login opens, and
  \<open>Elsewhere\<close>, which stands for every handler that writes no job, account or ledger (heartbeats, model
  publication, attestation, routes, anti-abuse records): it may put any rows in those tables. \<open>handle\<close>
  runs a call and is total: what a handler refuses leaves the database as it was. \<open>world\<close> fixes what
  the code takes from outside for a whole run.
\<close>

record ('v, 'x, 'h) world =
  wo_wire :: "'v wire_env"
  wo_crypto :: crypto
  wo_config :: config
  wo_settle :: "'x settle_env"
  wo_assess :: "Uuid \<Rightarrow> rstring \<Rightarrow> 'x \<Rightarrow> 'x api"
  wo_select :: "rstring \<Rightarrow> rstring list \<Rightarrow> i32 \<Rightarrow> i32 \<Rightarrow> 'x db \<Rightarrow> (Uuid \<times> rstring) api"
  wo_route :: "'x db \<Rightarrow> Job \<Rightarrow> (Uuid \<times> Uuid) option"
  wo_hidden :: "HiddenWork list \<Rightarrow> 'x \<Rightarrow> ('h option \<times> HiddenWork list \<times> 'x) api"
  wo_regulated_fingerprint :: "CreateRegulatedJobRequest \<Rightarrow> rstring api"
  wo_grant_fingerprint :: "OperatorQuotaGrantRequest \<Rightarrow> OperatorQuotaGrantError + rstring"
  wo_release_fingerprint :: "ReserveReleaseCommand \<Rightarrow> rstring api"

record 'x tables =
  tb_users :: "Uuid list"
  tb_nodes :: "Node list"
  tb_policies :: "NodePolicyRow list"
  tb_metrics :: "NodeMetric list"
  tb_models :: "ModelRow list"
  tb_profiles :: "BillingProfileRow list"
  tb_instances :: "ModelInstance list"
  tb_reports :: "AttestationReport list"
  tb_hidden :: "HiddenWork list"
  tb_quarantined :: "Uuid list"
  tb_routes :: "RegulatedRoute list"
  tb_risk :: 'x

datatype 'x call =
    CreateJob clock bytes Principal CreateJobRequest
  | CreateRegulatedJob clock Principal CreateRegulatedJobRequest
  | ClaimJob clock Principal Uuid Uuid
  | RenewJob clock Principal Uuid Uuid
  | FailJob clock Principal Uuid JobFailRequest
  | CompleteLeased settle_clock CompleteJob
  | CancelTimedOut OffsetDateTime Principal Uuid
  | GrantQuota settle_clock OperatorQuotaGrantRequest
  | ReleaseReserve settle_clock ReserveReleaseCommand
  | OpenAccount settle_clock rstring i64 Uuid
  | GetJob clock Principal Uuid
  | Elsewhere "'x tables"

definition replace_tables :: "'x tables \<Rightarrow> 'x db \<Rightarrow> 'x db" where
  "replace_tables t d =
     d\<lparr>users := tb_users t, nodes := tb_nodes t, node_policies := tb_policies t, node_metrics := tb_metrics t,
       models := tb_models t, billing_profiles := tb_profiles t, model_instances := tb_instances t,
       attestation_reports := tb_reports t, hidden_work := tb_hidden t, canary_quarantined := tb_quarantined t,
       regulated_routes := tb_routes t, risk := tb_risk t\<rparr>"

definition applied :: "'d \<Rightarrow> 'e + ('a \<times> 'd) \<Rightarrow> 'd" where
  "applied d r = (case r of Inl _ \<Rightarrow> d | Inr (_, d') \<Rightarrow> d')"

fun handle :: "('v, 'x, 'h) world \<Rightarrow> 'x call \<Rightarrow> 'x db \<Rightarrow> 'x db" where
  "handle w (CreateJob ck nonce prin r) d =
     snd (run_tx (create_job (wo_wire w) (wo_crypto w) (wo_config w) ck nonce (wo_assess w) (wo_select w) prin r) d)"
| "handle w (CreateRegulatedJob ck prin r) d =
     snd (run_tx (create_regulated_job (wo_wire w) (wo_config w) ck (wo_regulated_fingerprint w) (wo_assess w) prin r) d)"
| "handle w (ClaimJob ck prin node inst) d =
     snd (run_tx (claim_job (wo_crypto w) (wo_config w) ck (wo_route w) (wo_hidden w) prin node inst) d)"
| "handle w (RenewJob ck prin i node) d = snd (run_tx (renew_job (wo_config w) ck prin i node) d)"
| "handle w (FailJob ck prin i r) d = snd (run_tx (job_fail ck prin i r) d)"
| "handle w (CompleteLeased ck cmd) d =
     snd (run_tx (complete_job (wo_settle w) (wo_crypto w) (standard_data_key (wo_config w)) ck cmd) d)"
| "handle w (CancelTimedOut now prin i) d = snd (run_tx (cancel_timed_out_job now prin i) d)"
| "handle w (GrantQuota ck r) d = applied d (grant_operator_quota (wo_settle w) ck (wo_grant_fingerprint w) r d)"
| "handle w (ReleaseReserve ck c) d = snd (run_tx (release_reserve (wo_settle w) ck (wo_release_fingerprint w) c) d)"
| "handle w (OpenAccount ck provider q u) d =
     (case open_account (wo_settle w) ck provider q u d of Inl _ \<Rightarrow> d | Inr d' \<Rightarrow> d')"
| "handle w (GetJob ck prin i) d = snd (run_tx (get_job (wo_crypto w) (wo_config w) ck prin i) d)"
| "handle w (Elsewhere t) d = replace_tables t d"

text \<open>The database of a fresh installation.\<close>

definition initial_db :: "'x \<Rightarrow> 'x db" where
  "initial_db x =
     \<lparr>users = [], quota_accounts = [],
      reserve_account = \<lparr>ra_balance_micro = 0, ra_ledger_head_hash = GENESIS_HASH, ra_ledger_entry_count = 0\<rparr>,
      quota_ledger = [], contribution_ledger = [], reserve_ledger = [], jobs = [], job_attempts = [], nodes = [],
      node_policies = [], node_metrics = [], models = [], billing_profiles = [], model_instances = [],
      attestation_reports = [], hidden_work = [], canary_quarantined = [], regulated_routes = [], receipts = [],
      operator_reserve_releases = [], operator_quota_grants = [], risk = x\<rparr>"

inductive reachable :: "('v, 'x, 'h) world \<Rightarrow> 'x db \<Rightarrow> bool" for w where
  installed: "reachable w (initial_db x)"
| called: "reachable w d \<Longrightarrow> reachable w (handle w c d)"

inductive_cases reachable_cases: "reachable w d"

lemma initial_money_ok: "money_ok (initial_db x)"
  by (simp add: money_ok_def escrow_ok_def views_ok_def accounts_ok_def initial_db_def books_ok_def
      quota_books_def contribution_books_def find_account_def fetch_optional_def quota_entries_def entries_of_def
      contribution_entries_def reserve_entries_def reserve_books_def reserve_book_def book_ok_def chain_head_def)

lemma run_tx_run:
  "(\<And>ans d'. body d = Inr (ans, d') \<Longrightarrow> money_run d d') \<Longrightarrow> money_run d (snd (run_tx body d))"
  by (auto simp: run_tx_def split: sum.splits)

text \<open>How much money a call may bring into circulation.\<close>

fun mints :: "'x call \<Rightarrow> int set" where
  "mints (GrantQuota ck r) = {0, sint (gr_amount_micro r)}"
| "mints (ReleaseReserve ck c) = {0, - sint (rr_cmd_amount_micro c)}"
| "mints (OpenAccount ck provider q u) = {0, max 0 (sint q)}"
| "mints _ = {0}"

lemma handle_flow: "\<exists>g \<in> mints c. money_flow g d (handle w c d)"
proof (cases c)
  case (GrantQuota ck r)
  have "\<exists>g \<in> {0, sint (gr_amount_micro r)}. money_flow g d (applied d (grant_operator_quota (wo_settle w) ck (wo_grant_fingerprint w) r d))"
    by (cases "grant_operator_quota (wo_settle w) ck (wo_grant_fingerprint w) r d")
      (auto simp: applied_def dest: run_grant split: if_splits)
  then show ?thesis by (simp add: GrantQuota)
next
  case (ReleaseReserve ck r)
  let ?body = "release_reserve (wo_settle w) ck (wo_release_fingerprint w) r"
  have "\<exists>g \<in> {0, - sint (rr_cmd_amount_micro r)}. money_flow g d (snd (run_tx ?body d))"
  proof (cases "?body d")
    case (Inr p)
    then obtain x d' where p: "?body d = Inr (Inr x, d')" using release_reserve_answer by (cases p) blast
    from run_release [OF p] p show ?thesis by (auto simp: run_tx_def split: if_splits)
  qed (simp add: run_tx_def)
  then show ?thesis by (simp add: ReleaseReserve)
next
  case (OpenAccount ck provider q u)
  have "\<exists>g \<in> {0, max 0 (sint q)}. money_flow g d
      (case open_account (wo_settle w) ck provider q u d of Inl _ \<Rightarrow> d | Inr d' \<Rightarrow> d')"
    by (cases "open_account (wo_settle w) ck provider q u d") (auto dest: run_open_account split: if_splits)
  then show ?thesis by (simp add: OpenAccount)
next
  case (Elsewhere t)
  then show ?thesis by (simp add: replace_tables_def run_same_jobs same_ledgers_def)
qed (auto intro!: run_tx_run intro: run_create run_create_regulated run_claim run_renew run_job_fail run_complete
    run_cancel run_get_job)

lemma reachable_ok: "reachable w d \<Longrightarrow> money_ok d"
proof (induction rule: reachable.induct)
  case (called d c)
  then show ?case using handle_flow [of c d w] by (auto simp: money_flow_def)
qed (rule initial_money_ok)

end
