(* ===== verification/Sample.thy ===== *)
theory Sample
  imports Coordinator "HOL-Library.Code_Target_Nat"
begin

text \<open>
  A concrete run: a network with one consumer, one node and one model, through account opening,
  and creation of a job. The third-party functions are small computable stand-ins. The lemmas evaluate
  the run one call at a time; the witnesses of the system's properties apply them.
\<close>

definition toy_digest :: "bytes \<Rightarrow> rstring" where
  "toy_digest b = 49 # replicate 61 48 @ [if 112 \<in> set b then 49 else 48, if 119 \<in> set b then 49 else 48]"

lemma letter_in_utf8: "x < 128 \<Longrightarrow> x \<in> set (utf8 f) \<longleftrightarrow> x \<in> set f"
  by (induction f) (auto simp: utf8_char_def)

lemma letter_not_decimal: "57 < x \<Longrightarrow> x \<notin> set (dec_nat n)" "57 < x \<Longrightarrow> x \<notin> set (dec_int i)"
proof -
  show n: "57 < x \<Longrightarrow> x \<notin> set (dec_nat n)" for n using dec_nat_digits [of x n] by (auto simp: is_ascii_digit_def)
  show "57 < x \<Longrightarrow> x \<notin> set (dec_int i)" using n by (simp add: dec_int_def)
qed

lemma not_genesis: "49 # r \<noteq> GENESIS_HASH"
  using replicate_Suc [of 63 "48 :: nat"] by (simp add: GENESIS_HASH_def)

lemma letter_in_canonical: "58 < x \<Longrightarrow> x < 128 \<Longrightarrow> x \<in> set (canonical fs) \<longleftrightarrow> (\<exists>f \<in> set fs. x \<in> set f)"
  by (induction fs) (auto simp: letter_in_utf8 letter_not_decimal)

lemma letters:
  "112 \<in> set (canonical fs) \<longleftrightarrow> (\<exists>f \<in> set fs. 112 \<in> set f)" "119 \<in> set (canonical fs) \<longleftrightarrow> (\<exists>f \<in> set fs. 119 \<in> set f)"
  by (rule letter_in_canonical; simp)+

definition toy_wire :: "unit wire_env" where
  "toy_wire = \<lparr>wire_json = sample_json, payload_from_slice = (\<lambda>_. Some sample_payload),
     base64_standard = (\<lambda>_. Some [123, 125]), base64_url = (\<lambda>_. None), request_to_vec = (\<lambda>_. Some [123, 125]),
     envelope_to_string = (\<lambda>_. None)\<rparr>"

definition toy_settle :: "unit settle_env" where
  "toy_settle = \<lparr>sha256_hex = toy_digest, uuid_text = decimal_uuid, snapshot_to_string = (\<lambda>_. Some (lit ''{}'')),
     envelope_from_str = (\<lambda>_. None), envelope_base64 = (\<lambda>_. None),
     telemetry_fingerprint = (\<lambda>_ _. Inr (lit ''fp'')),
     append_execution_fingerprint = (\<lambda>_ _ _ r. Inr (\<lparr>verdict = NoAnomalyObserved, alert_count = 0, evidence_kind = []\<rparr>, r)),
     stored_fingerprint_outcome = (\<lambda>_ _. Inr \<lparr>verdict = NoAnomalyObserved, alert_count = 0, evidence_kind = []\<rparr>),
     precreate_weight = (\<lambda>_ _ _. Inr (Some 1000000)), settlement_contribution_weight = (\<lambda>_ _ _. Inr 1000000),
     record_settled_edge = (\<lambda>_ _ r. Inr r)\<rparr>"

definition toy_config :: config where
  "toy_config = \<lparr>standard_data_key = [7], lease_duration_secs = 60, max_job_retries = 2\<rparr>"

definition toy_world :: "(unit, unit, unit) world" where
  "toy_world = \<lparr>wo_wire = toy_wire, wo_crypto = plain_crypto, wo_config = toy_config, wo_settle = toy_settle,
     wo_assess = (\<lambda>_ _ r. Inr r), wo_select = (\<lambda>_ _ _ _ _. Inr (30, lit ''w'')),
     wo_route = (\<lambda>_ _. Some (20, 40)), wo_hidden = (\<lambda>h r. Inr (None, h, r)),
     wo_regulated_fingerprint = (\<lambda>_. Inr []), wo_grant_fingerprint = (\<lambda>_. Inr (toy_digest [])),
     wo_release_fingerprint = (\<lambda>_. Inr (toy_digest []))\<rparr>"

definition toy_now :: OffsetDateTime where
  "toy_now = 1700000000000000000"

definition toy_clock :: "nat \<Rightarrow> clock" where
  "toy_clock n = \<lparr>tx_now = toy_now + int n, now_utc = toy_now + int n, fresh_id = of_nat (1000 + n), fresh_for = (\<lambda>u. u + 5000)\<rparr>"

definition toy_settle_clock :: "nat \<Rightarrow> settle_clock" where
  "toy_settle_clock n = \<lparr>sc_now = toy_now + int n, sc_utc = (\<lambda>k. toy_now + int n + int k),
     sc_ids = (\<lambda>k. of_nat (10000 + 100 * n + k)), sc_nonce = sample_nonce\<rparr>"

definition consumer_login :: Principal where
  "consumer_login = \<lparr>pr_user_id = 1, pr_device_key_id = 101\<rparr>"

definition worker_login :: Principal where
  "worker_login = \<lparr>pr_user_id = 2, pr_device_key_id = 102\<rparr>"

definition toy_tables :: "unit tables" where
  "toy_tables = \<lparr>tb_users = [1, 2],
     tb_nodes = [\<lparr>n_id = 20, n_user_id = 2, n_device_key_id = Some 102, n_status = Online, n_last_seen_at = Some toy_now,
       n_trust_level = TrustLevel.Standard, n_trust_expires_at = None, n_attestation_report_id = None, n_hardware_profile = []\<rparr>],
     tb_policies = [\<lparr>p_node_id = 20, p_reject_tags = [], p_max_concurrent = 4, p_gpu_temp_limit_c = None,
       p_vram_reserve_mib = 0\<rparr>],
     tb_metrics = [],
     tb_models = [\<lparr>m_id = 30, m_name = lit ''auto'', m_weights_hash = lit ''w'', m_size_bytes = 1, m_context_length = 8192,
       m_benchmark_normalized = 0, m_glicko_normalized = 0, m_evaluation_samples = 0, m_tier = High,
       m_base_cost_per_1k_micro = 1000, m_enabled = True\<rparr>],
     tb_profiles = [\<lparr>bp_contract_version = SERVER_REFERENCE_UPPER_BOUND_V1, bp_id = 50, bp_profile_version = 1,
       bp_profile_fingerprint = [], bp_model_id = 30, bp_model_weights_hash = lit ''w'',
       bp_reference_hardware_class = [], bp_evidence_hash = [], bp_valid_from = 0, bp_valid_until = 2 * toy_now,
       bp_profile = sample_profile\<rparr>],
     tb_instances = [\<lparr>mi_id = 40, mi_model_id = 30, mi_node_id = 20, mi_tags = [], mi_status = Published,
       mi_unpublished_at = None\<rparr>],
     tb_reports = [], tb_hidden = [], tb_quarantined = [], tb_routes = [], tb_risk = ()\<rparr>"

definition toy_request :: CreateJobRequest where
  "toy_request = \<lparr>virtual_model = lit ''auto'', encrypted_payload = lit ''e30'', payload_encoding = Base64, job_tags = [],
     estimated_input_tokens = 1100, max_output_tokens = 512, job_idempotency_key = lit ''job-1'', priority = 0\<rparr>"

definition open_call :: "unit call" where
  "open_call = OpenAccount (toy_settle_clock 1) (lit ''local'') 1000000000 1"

definition worker_call :: "unit call" where
  "worker_call = OpenAccount (toy_settle_clock 2) (lit ''local'') 0 2"

definition create_call :: "unit call" where
  "create_call = CreateJob (toy_clock 3) sample_nonce consumer_login toy_request"

text \<open>Evaluation of a fallible body: the tail is looked at once its head is a value.\<close>

lemma and_then_weak: "m = m' \<Longrightarrow> and_then m f = and_then m' f"
  by simp

text \<open>The first account and its bootstrap grant.\<close>

definition toy_unhashed :: LedgerEntry where
  "toy_unhashed = \<lparr>hash_version = LEDGER_HASH_VERSION, entry_id = 10100, account_id = 1, request_id = None,
     idempotency_key = lit ''local-dev-bootstrap:'' @ decimal_uuid 1, kind = BootstrapGrant, amount_micro = 1000000000,
     balance_before_micro = 0, balance_after_micro = 1000000000, created_at = toy_now + 1,
     previous_hash = GENESIS_HASH,
     metadata = [(lit ''environment'', lit ''local-development''), (lit ''provider'', lit ''local'')], hash = []\<rparr>"

definition toy_hash :: rstring where
  "toy_hash = toy_digest (foldl append_canonical_field [] (canonical_fields decimal_uuid toy_unhashed 1700000000000000
     (lit ''bootstrap_grant'')))"

definition toy_account :: QuotaAccount where
  "toy_account = \<lparr>q_user_id = 1, spendable_micro = 1000000000, reserved_micro = 0, contribution_micro = 0,
      quota_ledger_head_hash = toy_hash, quota_ledger_entry_count = 1,
      contribution_ledger_head_hash = GENESIS_HASH, contribution_ledger_entry_count = 0, q_updated_at = toy_now + 1\<rparr>"

definition db_start :: "unit db" where
  "db_start = handle toy_world (Elsewhere toy_tables) (initial_db ())"

definition db_granted :: "unit db" where
  "db_granted = db_start\<lparr>quota_accounts := [toy_account], quota_ledger := [toy_unhashed\<lparr>hash := toy_hash\<rparr>]\<rparr>"

definition db_opened :: "unit db" where
  "db_opened = db_granted\<lparr>quota_accounts := [toy_account, empty_account (toy_now + 2) 2]\<rparr>"

lemma toy_fields: "validate_fields toy_unhashed = Inr ()"
  by code_simp

lemma toy_hash_value: "toy_hash = 49 # replicate 61 48 @ [49, 48]"
  unfolding toy_hash_def canonical_def [symmetric] toy_digest_def letters
  by (simp add: canonical_fields_def
      toy_unhashed_def LEDGER_HASH_DOMAIN_def letter_not_decimal decimal_uuid_def GENESIS_HASH_def
      del: dec_nat.simps)

lemma toy_hash_new: "toy_hash \<noteq> GENESIS_HASH"
  by (simp add: toy_hash_value not_genesis)

lemma toy_micros: "created_at_unix_micros (toy_now + 1) = Inr 1700000000000000"
  by (simp add: toy_now_def created_at_unix_micros_def Let_def POSTGRES_EPOCH_UNIX_SECONDS_def)

lemma toy_entry:
  "LedgerEntry_new toy_digest decimal_uuid 10100 1 None (lit ''local-dev-bootstrap:'' @ decimal_uuid 1) BootstrapGrant
     1000000000 0 1000000000 (toy_now + 1) GENESIS_HASH
     [(lit ''environment'', lit ''local-development''), (lit ''provider'', lit ''local'')] = Inr (toy_unhashed\<lparr>hash := toy_hash\<rparr>)"
  unfolding LedgerEntry_new_def Let_def toy_unhashed_def [symmetric] toy_fields
  by (simp add: recompute_hash_def toy_hash_def toy_unhashed_def toy_micros entry_type_def
      del: lit_simps cong: and_then_weak)

lemma start_tables: "quota_accounts db_start = []" "quota_ledger db_start = []" "jobs db_start = []"
  by (simp_all add: db_start_def replace_tables_def initial_db_def)

lemma toy_insert:
  "insert_quota_ledger (toy_now + 1) (toy_unhashed\<lparr>hash := toy_hash\<rparr>)
     (db_start\<lparr>quota_accounts := [empty_account (toy_now + 1) 1]\<rparr>) = Inr db_granted"
  by (simp add: insert_quota_ledger_def fetch_one_def empty_account_def toy_unhashed_def entries_of_def start_tables
      quota_book_def advance_head_def s_checked_add_def entry_fresh_def single_successor_def ensure_def
      update_accounts_def quota_account_check_def db_granted_def toy_account_def toy_hash_new ok_or_def rows_affected_def
      del: lit_simps cong: and_then_weak)

lemma toy_granted: "handle toy_world open_call db_start = db_granted"
proof -
  have s: "find_account 1 db_start = None"
    by (simp add: start_tables find_account_def fetch_optional_def)
  show ?thesis
    by (simp add: open_call_def open_account_def s start_tables toy_entry toy_insert toy_world_def toy_settle_def
        toy_settle_clock_def del: lit_simps cong: and_then_weak)
qed

lemma toy_opened: "handle toy_world worker_call db_granted = db_opened"
proof -
  have s: "find_account 2 db_granted = None" "quota_accounts db_granted = [toy_account]"
    by (simp_all add: db_granted_def find_account_def fetch_optional_def toy_account_def)
  show ?thesis
    by (simp add: worker_call_def open_account_def s toy_settle_clock_def db_opened_def del: lit_simps)
qed

text \<open>The job of the consumer.\<close>

lemma toy_quote:
  obtains r q where "maximum_reservation_quote sample_profile 1100 512 = Inr q" "maximum_reservation_micro sample_profile 1100 512 = Inr r"
    "micro (quote_base_cost q) = 1698424" "micro r = spec_deduction 1698424 High"
proof -
  have m: "maximum_reservation_quote sample_profile 1100 512 = quote_server_reference_upper_bound sample_profile 1612"
    by (rule maximum_reservation_quote_eq) (simp_all add: sample_profile_def)
  obtain q where q: "quote_server_reference_upper_bound sample_profile 1612 = Inr q"
    using quote_exists [OF sample_profile_valid, of 1612] by (auto simp: sample_profile_def spec_token_bound_def)
  have b: "micro (quote_base_cost q) = 1698424"
    using q by (simp add: quote_eq_Inr spec_base_cost_def spec_token_cost_def spec_gpu_cost_def spec_vram_cost_def
        spec_gpu_time_def spec_vram_def sample_profile_def ceil_div_def)
  obtain s where s: "Settlement_calculate (quote_base_cost q) High Enhanced = Inr s"
    using settlement_of_quote [OF sample_profile_valid q] by blast
  moreover have "micro (user_deduction s) = spec_deduction 1698424 High"
    using s b by (simp add: Settlement_calculate_eq_Inr mq_ok_def)
  ultimately show thesis using that [of q "user_deduction s"] b by (simp add: m q maximum_reservation_micro_def)
qed

definition toy_fingerprint :: rstring where
  "toy_fingerprint = the (request_fingerprint plain_crypto [7] [123, 125])"

definition toy_stored :: rstring where
  "toy_stored = the (encrypt_for_storage plain_crypto [7] sample_nonce 1003 Payload (utf8 (lit ''e30'')))"

lemma toy_request_ok: "CreateJobRequest_validate toy_request = Inr ()"
  by code_simp

lemma toy_fingerprint_ok: "request_fingerprint plain_crypto [7] [123, 125] = Some toy_fingerprint"
proof -
  have "request_fingerprint plain_crypto [7] [123, 125] \<noteq> None" by code_simp
  then show ?thesis by (auto simp: toy_fingerprint_def)
qed

lemma toy_stored_ok: "encrypt_for_storage plain_crypto [7] sample_nonce 1003 Payload (utf8 (lit ''e30'')) = Some toy_stored"
proof -
  have "encrypt_for_storage plain_crypto [7] sample_nonce 1003 Payload (utf8 (lit ''e30'')) \<noteq> None" by code_simp
  then show ?thesis by (auto simp: toy_stored_def)
qed

lemma toy_model_ok:
  "parse_speed_qualified_model (lit ''auto'') = Inr \<lparr>base_model = lit ''auto'', speed_class = StandardSpeed\<rparr>"
  by code_simp

lemma toy_validated:
  "validate_create_job toy_wire plain_crypto [7] toy_request =
     Inr \<lparr>vj_request_fingerprint = toy_fingerprint, vj_stream = False\<rparr>"
  unfolding validate_create_job_def toy_request_ok
  by (simp add: decode_standard_payload_def toy_request_def toy_wire_def sample_limits toy_fingerprint_ok
      del: lit_simps cong: and_then_weak)

lemma opened_tables:
  "jobs db_opened = []" "risk db_opened = ()" "models db_opened = tb_models toy_tables" "nodes db_opened = tb_nodes toy_tables"
  "node_policies db_opened = tb_policies toy_tables" "billing_profiles db_opened = tb_profiles toy_tables"
  "model_instances db_opened = tb_instances toy_tables" "job_attempts db_opened = []" "receipts db_opened = []"
  "reserve_ledger db_opened = []" "contribution_ledger db_opened = []" "hidden_work db_opened = []"
  "canary_quarantined db_opened = []" "node_metrics db_opened = []" "attestation_reports db_opened = []"
  "quota_accounts db_opened = [toy_account, empty_account (toy_now + 2) 2]"
  "quota_ledger db_opened = [toy_unhashed\<lparr>hash := toy_hash\<rparr>]"
  "reserve_account db_opened = \<lparr>ra_balance_micro = 0, ra_ledger_head_hash = GENESIS_HASH, ra_ledger_entry_count = 0\<rparr>"
  by (simp_all add: db_opened_def db_granted_def db_start_def replace_tables_def initial_db_def toy_tables_def)

definition toy_profile :: BillingProfileSnapshot where
  "toy_profile = \<lparr>bs_contract_version = SERVER_REFERENCE_UPPER_BOUND_V1, bs_profile_id = 50, bs_profile_version = 1,
     bs_profile_fingerprint = [], bs_model_weights_hash = lit ''w'', bs_reference_hardware_class = [],
     bs_evidence_hash = [], bs_valid_from = 0, bs_valid_until = 2 * toy_now, bs_profile = sample_profile\<rparr>"

definition toy_quote_of :: PhysicalBillingQuote where
  "toy_quote_of = projr (maximum_reservation_quote sample_profile 1100 512)"

definition toy_snapshot :: BillingSnapshot where
  "toy_snapshot = \<lparr>sn_profile = toy_profile, sn_authorized_input_tokens = 1100, sn_authorized_max_output_tokens = 512,
     sn_quote = toy_quote_of,
     reservation_micro = as_i64 (projr (maximum_reservation_micro sample_profile 1100 512))\<rparr>"

lemma toy_billing:
  "load_billing_snapshot (toy_now + 3) 30 (lit ''w'') 1100 512 (db_opened\<lparr>risk := ()\<rparr>) = Inr toy_snapshot"
  "sint (reservation_micro toy_snapshot) = spec_deduction 1698424 High"
  "sint (as_i64 (quote_base_cost toy_quote_of)) = 1698424"
  "maximum_reservation_quote sample_profile 1100 512 = Inr toy_quote_of"
proof -
  obtain r q where q: "maximum_reservation_quote sample_profile 1100 512 = Inr q"
    "maximum_reservation_micro sample_profile 1100 512 = Inr r" "micro r = spec_deduction 1698424 High"
    "micro (quote_base_cost q) = 1698424"
    by (rule toy_quote)
  show "load_billing_snapshot (toy_now + 3) 30 (lit ''w'') 1100 512 (db_opened\<lparr>risk := ()\<rparr>) = Inr toy_snapshot"
    by (simp add: load_billing_snapshot_def current_billing_profile_def opened_tables toy_snapshot_def toy_profile_def
        toy_quote_of_def toy_tables_def toy_now_def BillingProfileSnapshot_from_row_def BillingSnapshot_calculate_def s_from_def q
        del: lit_simps cong: and_then_weak)
  show "sint (reservation_micro toy_snapshot) = spec_deduction 1698424 High"
    "sint (as_i64 (quote_base_cost toy_quote_of)) = 1698424"
    "maximum_reservation_quote sample_profile 1100 512 = Inr toy_quote_of"
    using q by (simp_all add: toy_snapshot_def toy_quote_of_def micro_def)
qed

text \<open>The consumer's job, with its reservation.\<close>

definition toy_job :: Job where
  "toy_job = \<lparr>j_id = 1003, j_user_id = 1, j_model_id = 30, j_model_instance_id = None, j_status = Queued,
     j_request = \<lparr>rq_idempotency_key = lit ''job-1'', rq_encrypted_payload = toy_stored, rq_payload_encoding = Base64,
       rq_tags = [], rq_estimated_input_tokens = 1100, rq_max_output_tokens = 512, rq_priority = 0,
       rq_standard_request_fingerprint = Some toy_fingerprint, rq_standard_payload_storage_version = Some STORAGE_VERSION,
       rq_speed_class = StandardSpeed\<rparr>,
     j_reserved_cost_micro = reservation_micro toy_snapshot, j_leased_to_node_id = None, j_lease_expires_at = None,
     j_attempt_count = 0, j_max_attempts = 3, j_available_at = toy_now + 3, j_created_at = toy_now + 3,
     j_updated_at = toy_now + 3, j_completed_at = None, j_confidentiality = StandardMode, j_regulated_route_id = None,
     j_regulated_node_id = None, j_attestation_report_id = None, j_result = None,
     j_billing = Some (billing_columns toy_snapshot)\<rparr>"

definition db_created :: "unit db" where
  "db_created = db_opened\<lparr>risk := (), quota_accounts :=
     [toy_account\<lparr>reserved_micro := reservation_micro toy_snapshot, q_updated_at := toy_now + 3\<rparr>, empty_account (toy_now + 2) 2],
     jobs := [toy_job]\<rparr>"

lemma reservation_size: "spec_deduction 1698424 High \<le> 1000000000" "0 < spec_deduction 1698424 High"
  by (simp_all add: spec_deduction_def ceil_div_def tier_milli_def)

lemma toy_created: "handle toy_world create_call db_opened = db_created"
proof -
  have r: "reserve_quota (toy_now + 3) 1 (reservation_micro toy_snapshot) (db_opened\<lparr>risk := ()\<rparr>) = Inr (db_opened\<lparr>risk := (),
      quota_accounts := [toy_account\<lparr>reserved_micro := reservation_micro toy_snapshot, q_updated_at := toy_now + 3\<rparr>,
        empty_account (toy_now + 2) 2]\<rparr>)"
    using toy_billing(2) reservation_size by (simp add: reserve_quota_def fetch_one_def opened_tables toy_account_def
        empty_account_def i64_saturating_sub_def s_checked_sub_def s_checked_add_def update_accounts_def
        quota_account_check_def ok_or_def del: lit_simps cong: and_then_weak)
  have f: "find_by_idempotency_key 1 k db_opened = None" for k
    by (simp add: find_by_idempotency_key_def fetch_optional_def opened_tables)
  have b: "job_row_check toy_job" using toy_billing(2) reservation_size
    by (simp add: job_row_check_def toy_job_def billing_columns_def toy_snapshot_def toy_profile_def s_from_def)
  have "create_job toy_wire plain_crypto toy_config (toy_clock 3) sample_nonce (\<lambda>_ _ r. Inr r)
      (\<lambda>_ _ _ _ _. Inr (30, lit ''w'')) consumer_login toy_request db_opened =
      and_then (insert_job toy_job (db_opened\<lparr>risk := (), quota_accounts :=
        [toy_account\<lparr>reserved_micro := reservation_micro toy_snapshot, q_updated_at := toy_now + 3\<rparr>,
         empty_account (toy_now + 2) 2]\<rparr>)) (\<lambda>d. commit d \<lparr>cj_job_id = 1003, cj_status = Queued, cj_model_id = 30,
         cj_reserved_cost_micro = reservation_micro toy_snapshot, cj_speed_class = Some StandardSpeed,
         cj_idempotent_replay = False\<rparr>)"
    by (subst create_job_def, simp add: toy_validated [unfolded toy_request_def] toy_config_def consumer_login_def f toy_clock_def
        toy_request_def toy_model_ok toy_billing(1) r toy_stored_ok opened_tables Let_def attempts_allowed_def
        i32_saturating_add_def toy_job_def del: lit_simps cong: and_then_weak, simp add: toy_clock_def)
  then show ?thesis
    by (simp add: create_call_def run_tx_def toy_world_def insert_job_def b opened_tables commit_def db_created_def)
qed

text \<open>The claim by the worker's node.\<close>

definition claim_call :: "unit call" where
  "claim_call = ClaimJob (toy_clock 4) worker_login 20 40"

definition toy_expiry :: OffsetDateTime where
  "toy_expiry = toy_now + 60000000004"

definition toy_leased :: Job where
  "toy_leased = toy_job\<lparr>j_status := Leased, j_leased_to_node_id := Some 20, j_model_instance_id := Some 40,
     j_lease_expires_at := Some toy_expiry, j_attempt_count := 1, j_updated_at := toy_now + 4\<rparr>"

definition toy_attempt :: JobAttempt where
  "toy_attempt = \<lparr>at_id = 1004, at_job_id = 1003, at_node_id = 20, at_attempt_number = 1, at_status = AttemptLeased,
     at_lease_started_at = toy_now + 4, at_lease_expires_at = toy_expiry, at_finished_at = None, at_error_class = None,
     at_error_message = None, at_result_idempotency_key = None, at_retryable_requested = None,
     at_claim_device_binding_version = Some DEVICE_BINDING_VERSION, at_claim_device_key_id = Some 102\<rparr>"

definition db_claimed :: "unit db" where
  "db_claimed = db_created\<lparr>jobs := [toy_leased], job_attempts := [toy_attempt]\<rparr>"

lemma toy_decrypted: "decrypt_from_storage plain_crypto [7] 1003 Payload toy_stored = Some (utf8 (lit ''e30''))"
  by (rule encrypted_decrypts [OF plain_crypto_ok _ _ _ toy_stored_ok])
    (simp_all add: octets_def utf8_char_def sample_nonce_def NONCE_LENGTH_def)

lemma toy_text: "from_utf8 (utf8 (lit ''e30'')) = Some (lit ''e30'')"
  by code_simp

lemma toy_accepts:
  "\<exists>x. evaluate_policy \<lparr>NodePolicy.reject_tags = btree_set [], max_concurrent = 4, gpu_temp_limit_c = None,
     vram_reserve_mib = 0, resume_temp_hysteresis_c = 5\<rparr>
   \<lparr>task_tags = btree_set [], current_concurrent = 0, gpu_temp_c = None, available_vram_mib = None,
     paused_for_temperature = False\<rparr> = Inr (Accept x)"
  by (simp add: evaluate_policy_def NodePolicy_validate_def btree_set_def normalize_tags_def temperature_step_def
      vram_step_def decided_def, blast)

lemma created_tables:
  "jobs db_created = [toy_job]" "risk db_created = ()" "models db_created = tb_models toy_tables" "nodes db_created = tb_nodes toy_tables"
  "node_policies db_created = tb_policies toy_tables"
  "model_instances db_created = tb_instances toy_tables" "job_attempts db_created = []" "receipts db_created = []"
  "reserve_ledger db_created = []" "contribution_ledger db_created = []" "hidden_work db_created = []"
  "canary_quarantined db_created = []" "node_metrics db_created = []" "attestation_reports db_created = []"
  "quota_accounts db_created =
     [toy_account\<lparr>reserved_micro := reservation_micro toy_snapshot, q_updated_at := toy_now + 3\<rparr>, empty_account (toy_now + 2) 2]"
  "quota_ledger db_created = [toy_unhashed\<lparr>hash := toy_hash\<rparr>]"
  "reserve_account db_created = \<lparr>ra_balance_micro = 0, ra_ledger_head_hash = GENESIS_HASH, ra_ledger_entry_count = 0\<rparr>"
  by (simp_all add: db_created_def opened_tables)

lemma toy_claim:
  "\<exists>c. claim_job plain_crypto toy_config (toy_clock 4) (\<lambda>_ _. Some (20, 40)) (\<lambda>h r. Inr (None, h, r)) worker_login 20 40
      db_created = Inr (Inr (OrdinaryClaimed c :: unit ClaimAnswer), db_claimed)"
proof -
  have idle: "unpublish_idle (toy_now + 4) (\<lambda>_. True) db_created = db_created"
    by (simp add: unpublish_idle_def created_tables toy_tables_def sql_update_def db_created_def opened_tables)
  have reap: "reap_expired_terminal_leases (toy_now + 4) db_created = Inr db_created"
    "reap_invalid_regulated_jobs (toy_now + 4) f db_created = Inr db_created" for f
    by (simp_all add: reap_expired_terminal_leases_def created_tables expired_terminal_def toy_job_def idle
        reap_invalid_regulated_jobs_def regulated_invalid_def)
  have pol: "enforce_current_policy (toy_now + 4) 20 \<lparr>p_node_id = 20, p_reject_tags = [], p_max_concurrent = 4,
      p_gpu_temp_limit_c = None, p_vram_reserve_mib = 0\<rparr> None [] db_created = Inr ()"
    using toy_accepts
    by (auto simp: enforce_current_policy_def Let_def accounting_policy_def u32_try_from_i32_def u64_try_from_i64_def
        active_leases_def latest_metric_def created_tables rows_affected_def toy_job_def u32_try_from_nat_def)
  have cand: "claim_candidate (toy_now + 4) (\<lambda>_. Some (20, 40)) 20 40 db_created = Some toy_job"
    by (simp add: claim_candidate_def created_tables claimable_def toy_job_def toy_tables_def)
  have expires: "expiry (toy_now + 4) 60 = Inr toy_expiry"
    by (simp add: expiry_def date_checked_add_def toy_now_def toy_expiry_def MAX_DATE_TIME_def)
  have "\<exists>c. grant_lease plain_crypto toy_config (toy_clock 4) worker_login 20 40 toy_job db_created =
      Inr (Inr (OrdinaryClaimed c :: unit ClaimAnswer), db_claimed)"
    by (simp add: grant_lease_def expires toy_config_def toy_clock_def created_tables instance_canary_quarantined_def
        fetch_optional_def fetch_one_def toy_tables_def update_job_def insert_attempt_def claimed_payload_def toy_decrypted
        toy_text worker_login_def toy_job_def i32_saturating_add_def commit_def db_claimed_def toy_leased_def toy_attempt_def
        del: lit_simps cong: and_then_weak)
  then obtain c where c: "grant_lease plain_crypto toy_config (toy_clock 4) worker_login 20 40 toy_job db_created =
      Inr (Inr (OrdinaryClaimed c :: unit ClaimAnswer), db_claimed)" by blast
  have same: "db_created\<lparr>hidden_work := [], risk := ()\<rparr> = db_created"
    by (simp add: db_created_def db_opened_def db_granted_def db_start_def replace_tables_def initial_db_def toy_tables_def)
  have now: "tx_now (toy_clock 4) = toy_now + 4" "rq_tags (j_request toy_job) = []"
    by (simp_all add: toy_clock_def toy_job_def)
  have "claim_job plain_crypto toy_config (toy_clock 4) (\<lambda>_ _. Some (20, 40)) (\<lambda>h r. Inr (None, h, r)) worker_login 20 40
      db_created = Inr (Inr (OrdinaryClaimed c :: unit ClaimAnswer), db_claimed)"
    by (simp add: claim_job_def created_tables toy_tables_def fetch_optional_def require_node_device_binding_def
        worker_login_def now reap pol cand same c [unfolded worker_login_def] del: lit_simps cong: and_then_weak)
  then show ?thesis ..
qed

lemma toy_claimed: "handle toy_world claim_call db_created = db_claimed"
  using toy_claim by (auto simp: claim_call_def toy_world_def run_tx_def)

text \<open>The settlement of the finished job.\<close>

definition toy_completion :: CompleteJob where
  "toy_completion = \<lparr>cm_job_id = 1003, cm_node_id = 20, cm_worker_user_id = 2, cm_claim_device_key_id = 102,
     cm_idempotency_key = lit ''r-1'', cm_result_ciphertext = lit ''done'', cm_actual_input_tokens = 1000,
     cm_actual_output_tokens = 200,
     cm_execution_telemetry = \<lparr>ttft_ms = None, tps_milli = None, peak_vram_mib = None, vram_sample_count = 0\<rparr>\<rparr>"

definition complete_call :: "unit call" where
  "complete_call = CompleteLeased (toy_settle_clock 5) toy_completion"

definition toy_amounts :: settled_amounts where
  "toy_amounts = \<lparr>sa_deduction = 2547636, sa_node_quota = 2038108, sa_contribution = 3057163, sa_weight_ppm = 1000000,
     sa_reserve = 509528\<rparr>"

lemma toy_priced:
  "settlement_amounts_of toy_settle 1 2 (lit ''job-1'') High TrustLevel.Standard 1698424 () = Inr toy_amounts"
proof -
  have m: "MicroQuota_new 1698424 = Inr (MicroQuota 1698424)" by (simp add: MicroQuota_new_def)
  have "Settlement_calculate (MicroQuota 1698424) High TrustClass.Standard =
      Inr \<lparr>base_cost = MicroQuota 1698424, user_deduction = MicroQuota 2547636,
        node_spendable_quota = MicroQuota 2038108, node_contribution_points = MicroQuota 3057163,
        reserve_inflow = MicroQuota 509528, performance_tier = High, trust_class = TrustClass.Standard\<rparr>"
    by (subst Settlement_calculate_eq_Inr) (simp_all add: mq_ok_def micro_def spec_deduction_def spec_share_def
        tier_milli_def trust_milli_def ceil_div_def)
  then show ?thesis
    by (simp add: settlement_amounts_of_def m toy_settle_def Let_def unwrap_or_def weighted_contribution_def
        s_checked_mul_def s_try_from_def s_from_def s_div_def toy_amounts_def)
qed

text \<open>The four entries, before hashing.\<close>

definition toy_entry_of :: "Uuid \<Rightarrow> Uuid \<Rightarrow> string \<Rightarrow> LedgerKind \<Rightarrow> i64 \<Rightarrow> i64 \<Rightarrow> i64 \<Rightarrow> OffsetDateTime \<Rightarrow> rstring \<Rightarrow> LedgerEntry" where
  "toy_entry_of eid account suffix_text k amount before after t prev =
     \<lparr>hash_version = LEDGER_HASH_VERSION, entry_id = eid, account_id = account, request_id = Some 1003,
      idempotency_key = ledger_key toy_settle 1003 suffix_text, kind = k, amount_micro = amount,
      balance_before_micro = before, balance_after_micro = after, created_at = t, previous_hash = prev,
      metadata = [], hash = []\<rparr>"

definition hashed :: "LedgerEntry \<Rightarrow> LedgerEntry" where
  "hashed e = e\<lparr>hash := (case recompute_hash toy_digest decimal_uuid e of Inl _ \<Rightarrow> [] | Inr h \<Rightarrow> h)\<rparr>"

definition deduction_entry :: LedgerEntry where
  "deduction_entry = hashed (toy_entry_of 10500 1 '':consumer'' ConsumerDeduction (- 2547636) 1000000000 997452364 (toy_now + 5) toy_hash)"

definition reward_entry :: LedgerEntry where
  "reward_entry = hashed (toy_entry_of 10501 2 '':node-quota'' NodeQuotaCredit 2038108 0 2038108 (toy_now + 6) GENESIS_HASH)"

definition points_entry :: LedgerEntry where
  "points_entry = hashed (toy_entry_of 10502 2 '':contribution'' ContributionCredit 3057163 0 3057163 (toy_now + 7) GENESIS_HASH)"

definition inflow_entry :: LedgerEntry where
  "inflow_entry = hashed (toy_entry_of 10503 1 '':reserve'' ReserveInflow 509528 0 509528 (toy_now + 8) GENESIS_HASH)"

lemma toy_entries_ok:
  "validate_fields (toy_entry_of 10500 1 '':consumer'' ConsumerDeduction (- 2547636) 1000000000 997452364 (toy_now + 5) toy_hash) = Inr ()"
  "validate_fields (toy_entry_of 10501 2 '':node-quota'' NodeQuotaCredit 2038108 0 2038108 (toy_now + 6) GENESIS_HASH) = Inr ()"
  "validate_fields (toy_entry_of 10502 2 '':contribution'' ContributionCredit 3057163 0 3057163 (toy_now + 7) GENESIS_HASH) = Inr ()"
  "validate_fields (toy_entry_of 10503 1 '':reserve'' ReserveInflow 509528 0 509528 (toy_now + 8) GENESIS_HASH) = Inr ()"
  unfolding toy_hash_value by code_simp+

lemma toy_times:
  "created_at_unix_micros (toy_now + 5) = Inr 1700000000000000" "created_at_unix_micros (toy_now + 6) = Inr 1700000000000000"
  "created_at_unix_micros (toy_now + 7) = Inr 1700000000000000" "created_at_unix_micros (toy_now + 8) = Inr 1700000000000000"
  by (simp_all add: toy_now_def created_at_unix_micros_def Let_def POSTGRES_EPOCH_UNIX_SECONDS_def)

definition digest_of :: "LedgerEntry \<Rightarrow> rstring \<Rightarrow> rstring" where
  "digest_of e etype = toy_digest (foldl append_canonical_field [] (canonical_fields decimal_uuid e 1700000000000000 etype))"

lemma hash_hashed:
  assumes "created_at_unix_micros (created_at e) = Inr 1700000000000000" "fixed_entry_type (kind e) = Some etype"
    "hash_version e = LEDGER_HASH_VERSION"
  shows "hash (hashed e) = digest_of e etype"
  using assms by (simp add: hashed_def recompute_hash_def entry_type_def digest_of_def)

lemma toy_digests:
  "hash deduction_entry = digest_of (toy_entry_of 10500 1 '':consumer'' ConsumerDeduction (- 2547636) 1000000000 997452364
     (toy_now + 5) toy_hash) (lit ''consumer_deduction'')"
  "hash reward_entry = digest_of (toy_entry_of 10501 2 '':node-quota'' NodeQuotaCredit 2038108 0 2038108 (toy_now + 6)
     GENESIS_HASH) (lit ''node_reward'')"
  "hash points_entry = digest_of (toy_entry_of 10502 2 '':contribution'' ContributionCredit 3057163 0 3057163 (toy_now + 7)
     GENESIS_HASH) (lit ''node_contribution'')"
  "hash inflow_entry = digest_of (toy_entry_of 10503 1 '':reserve'' ReserveInflow 509528 0 509528 (toy_now + 8)
     GENESIS_HASH) (lit ''settlement_inflow'')"
  unfolding deduction_entry_def reward_entry_def points_entry_def inflow_entry_def
  by (rule hash_hashed; simp add: toy_entry_of_def toy_times del: lit_simps)+

lemma toy_hash_values:
  "hash deduction_entry = 49 # replicate 61 48 @ [48, 48]" "hash reward_entry = 49 # replicate 61 48 @ [48, 49]"
  "hash points_entry = 49 # replicate 61 48 @ [48, 48]" "hash inflow_entry = 49 # replicate 61 48 @ [48, 49]"
  unfolding toy_digests digest_of_def canonical_def [symmetric] toy_digest_def letters
  by (simp_all add: canonical_fields_def
      toy_entry_of_def LEDGER_HASH_DOMAIN_def letter_not_decimal decimal_uuid_def GENESIS_HASH_def ledger_key_def
      toy_settle_def toy_hash_value del: dec_nat.simps)

lemma toy_hashes:
  "hash deduction_entry \<noteq> GENESIS_HASH" "hash reward_entry \<noteq> GENESIS_HASH" "hash points_entry \<noteq> GENESIS_HASH"
  "hash inflow_entry \<noteq> GENESIS_HASH" "toy_hash \<noteq> hash deduction_entry" "toy_hash \<noteq> hash reward_entry"
  "hash deduction_entry \<noteq> hash reward_entry"
  by (simp_all add: toy_hash_values toy_hash_value not_genesis)

lemma hashed_entry:
  assumes "validate_fields (toy_entry_of eid account sfx k amount before after t prev) = Inr ()"
    "created_at_unix_micros t = Inr micros" "fixed_entry_type k \<noteq> None"
  shows "LedgerEntry_new toy_digest decimal_uuid eid account (Some 1003) (ledger_key toy_settle 1003 sfx) k amount before after
      t prev [] = Inr (hashed (toy_entry_of eid account sfx k amount before after t prev))"
  using assms unfolding LedgerEntry_new_def Let_def toy_entry_of_def [symmetric]
  by (auto simp: recompute_hash_def hashed_def entry_type_def toy_entry_of_def)

lemmas toy_appended =
  hashed_entry [OF toy_entries_ok(1) toy_times(1), simplified, folded deduction_entry_def]
  hashed_entry [OF toy_entries_ok(2) toy_times(2), simplified, folded reward_entry_def]
  hashed_entry [OF toy_entries_ok(3) toy_times(3), simplified, folded points_entry_def]
  hashed_entry [OF toy_entries_ok(4) toy_times(4), simplified, folded inflow_entry_def]

lemma hashed_fields:
  "previous_hash (hashed e) = previous_hash e" "account_id (hashed e) = account_id e" "entry_id (hashed e) = entry_id e"
  "Ledger.idempotency_key (hashed e) = Ledger.idempotency_key e" "amount_micro (hashed e) = amount_micro e"
  "balance_before_micro (hashed e) = balance_before_micro e" "balance_after_micro (hashed e) = balance_after_micro e"
  by (simp_all add: hashed_def)

text \<open>The postings, one statement at a time.\<close>

lemma toy_reserved: "reservation_micro toy_snapshot = 2547636"
proof -
  have "sint (reservation_micro toy_snapshot) = sint (2547636 :: i64)"
    unfolding toy_billing(2) by (simp add: spec_deduction_def ceil_div_def tier_milli_def)
  then show ?thesis by (simp only: signed_word_eqI)
qed

definition charged_account :: QuotaAccount where
  "charged_account = toy_account\<lparr>spendable_micro := 997452364, quota_ledger_head_hash := hash deduction_entry,
     quota_ledger_entry_count := 2, q_updated_at := toy_now + 5\<rparr>"

definition paid_account :: QuotaAccount where
  "paid_account = (empty_account (toy_now + 2) 2)\<lparr>spendable_micro := 2038108, quota_ledger_head_hash := hash reward_entry,
     quota_ledger_entry_count := 1, contribution_micro := 3057163, contribution_ledger_head_hash := hash points_entry,
     contribution_ledger_entry_count := 1, q_updated_at := toy_now + 5\<rparr>"

definition db_released :: "unit db" where
  "db_released = db_claimed\<lparr>quota_accounts := [toy_account\<lparr>q_updated_at := toy_now + 5\<rparr>, empty_account (toy_now + 2) 2]\<rparr>"

definition db_charged :: "unit db" where
  "db_charged = db_claimed\<lparr>quota_accounts := [charged_account, empty_account (toy_now + 2) 2],
     quota_ledger := [toy_unhashed\<lparr>hash := toy_hash\<rparr>, deduction_entry]\<rparr>"

definition db_rewarded :: "unit db" where
  "db_rewarded = db_claimed\<lparr>quota_accounts := [charged_account, (empty_account (toy_now + 2) 2)\<lparr>spendable_micro := 2038108,
       quota_ledger_head_hash := hash reward_entry, quota_ledger_entry_count := 1, q_updated_at := toy_now + 5\<rparr>],
     quota_ledger := [toy_unhashed\<lparr>hash := toy_hash\<rparr>, deduction_entry, reward_entry]\<rparr>"

definition db_paid :: "unit db" where
  "db_paid = db_claimed\<lparr>quota_accounts := [charged_account, paid_account],
     quota_ledger := [toy_unhashed\<lparr>hash := toy_hash\<rparr>, deduction_entry, reward_entry],
     contribution_ledger := [points_entry]\<rparr>"

definition db_posted :: "unit db" where
  "db_posted = db_paid\<lparr>reserve_account := \<lparr>ra_balance_micro = 509528, ra_ledger_head_hash = hash inflow_entry,
     ra_ledger_entry_count = 1\<rparr>, reserve_ledger := [(inflow_entry, None)]\<rparr>"

lemma claimed_tables:
  "jobs db_claimed = [toy_leased]" "risk db_claimed = ()" "models db_claimed = tb_models toy_tables" "nodes db_claimed = tb_nodes toy_tables"
  "model_instances db_claimed = tb_instances toy_tables" "job_attempts db_claimed = [toy_attempt]" "receipts db_claimed = []"
  "reserve_ledger db_claimed = []" "contribution_ledger db_claimed = []" "attestation_reports db_claimed = []"
  "quota_accounts db_claimed =
     [toy_account\<lparr>reserved_micro := reservation_micro toy_snapshot, q_updated_at := toy_now + 3\<rparr>, empty_account (toy_now + 2) 2]"
  "quota_ledger db_claimed = [toy_unhashed\<lparr>hash := toy_hash\<rparr>]"
  "reserve_account db_claimed = \<lparr>ra_balance_micro = 0, ra_ledger_head_hash = GENESIS_HASH, ra_ledger_entry_count = 0\<rparr>"
  by (simp_all add: db_claimed_def created_tables)

lemmas posting_simps = fetch_one_def ok_or_def entries_of_def quota_book_def contribution_book_def advance_head_def
  s_checked_add_def s_checked_sub_def entry_fresh_def single_successor_def ensure_def update_accounts_def quota_account_check_def
  rows_affected_def fetch_optional_def map_err_def

lemma toy_released: "release_reservation (toy_now + 5) 1 2547636 db_claimed = Inr db_released"
  by (simp add: release_reservation_def Let_def posting_simps claimed_tables toy_reserved toy_account_def empty_account_def
      db_released_def del: lit_simps cong: and_then_weak)

lemma toy_fields_of:
  "previous_hash deduction_entry = toy_hash" "account_id deduction_entry = 1" "entry_id deduction_entry = 10500"
  "Ledger.idempotency_key deduction_entry = ledger_key toy_settle 1003 '':consumer''" "amount_micro deduction_entry = - 2547636"
  "balance_before_micro deduction_entry = 1000000000" "balance_after_micro deduction_entry = 997452364"
  "previous_hash reward_entry = GENESIS_HASH" "account_id reward_entry = 2" "entry_id reward_entry = 10501"
  "Ledger.idempotency_key reward_entry = ledger_key toy_settle 1003 '':node-quota''" "amount_micro reward_entry = 2038108"
  "balance_before_micro reward_entry = 0" "balance_after_micro reward_entry = 2038108"
  "previous_hash points_entry = GENESIS_HASH" "account_id points_entry = 2" "amount_micro points_entry = 3057163"
  "balance_before_micro points_entry = 0" "balance_after_micro points_entry = 3057163"
  "previous_hash inflow_entry = GENESIS_HASH" "account_id inflow_entry = 1" "amount_micro inflow_entry = 509528"
  "balance_before_micro inflow_entry = 0" "balance_after_micro inflow_entry = 509528"
  unfolding deduction_entry_def reward_entry_def points_entry_def inflow_entry_def
  by (simp_all only: hashed_fields toy_entry_of_def LedgerEntry.simps)

lemma toy_first_fields:
  "previous_hash toy_unhashed = GENESIS_HASH" "account_id toy_unhashed = 1" "entry_id toy_unhashed = 10100"
  "Ledger.idempotency_key toy_unhashed = lit ''local-dev-bootstrap:'' @ decimal_uuid 1" "balance_after_micro toy_unhashed = 1000000000"
  by (simp_all only: toy_unhashed_def LedgerEntry.simps)

lemma toy_keys:
  "lit ''local-dev-bootstrap:'' @ decimal_uuid 1 \<noteq> ledger_key toy_settle 1003 '':consumer''"
  "lit ''local-dev-bootstrap:'' @ decimal_uuid 1 \<noteq> ledger_key toy_settle 1003 '':node-quota''"
  "ledger_key toy_settle 1003 '':consumer'' \<noteq> ledger_key toy_settle 1003 '':node-quota''"
  by code_simp+

lemmas toy_simps = posting_simps toy_fields_of toy_first_fields toy_keys toy_hashes toy_hash_new claimed_tables toy_account_def
  empty_account_def

lemma toy_env: "sha256_hex toy_settle = toy_digest" "uuid_text toy_settle = decimal_uuid"
  by (simp_all add: toy_settle_def)

lemma toy_charged:
  "append_quota toy_settle (toy_now + 5) (toy_now + 5) 10500 1 1003 (lit ''consumer_deduction'') (- 2547636) 1000000000 997452364
     (ledger_key toy_settle 1003 '':consumer'') db_released = Inr (hash deduction_entry, db_charged)"
proof -
  have "insert_quota_ledger (toy_now + 5) deduction_entry db_released = Inr db_charged"
    by (simp add: insert_quota_ledger_def toy_simps toy_hash_new [symmetric] db_released_def db_charged_def charged_account_def
        del: lit_simps cong: and_then_weak)
  moreover have "fetch_one (\<lambda>a. q_user_id a = 1) (quota_accounts db_released) = Inr (toy_account\<lparr>q_updated_at := toy_now + 5\<rparr>)"
    "quota_ledger_head_hash (toy_account\<lparr>q_updated_at := toy_now + 5\<rparr>) = toy_hash"
    by (simp_all add: db_released_def fetch_one_def toy_account_def)
  ultimately show ?thesis by (simp add: append_quota_def toy_env toy_appended del: lit_simps cong: and_then_weak)
qed

lemma toy_rewarded:
  "append_quota toy_settle (toy_now + 5) (toy_now + 6) 10501 2 1003 (lit ''node_reward'') 2038108 0 2038108
     (ledger_key toy_settle 1003 '':node-quota'') db_charged = Inr (hash reward_entry, db_rewarded)"
proof -
  have "insert_quota_ledger (toy_now + 5) reward_entry db_charged = Inr db_rewarded"
    by (simp add: insert_quota_ledger_def toy_simps toy_hash_new [symmetric] db_rewarded_def db_charged_def charged_account_def
        del: lit_simps cong: and_then_weak)
  moreover have "fetch_one (\<lambda>a. q_user_id a = 2) (quota_accounts db_charged) = Inr (empty_account (toy_now + 2) 2)"
    "quota_ledger_head_hash (empty_account (toy_now + 2) 2) = GENESIS_HASH"
    by (simp_all add: db_charged_def fetch_one_def charged_account_def toy_account_def empty_account_def)
  moreover have "lit ''node_reward'' \<noteq> lit ''consumer_deduction''" by code_simp
  ultimately show ?thesis by (simp add: append_quota_def toy_env toy_appended del: lit_simps cong: and_then_weak)
qed

lemma toy_paid:
  "append_contribution toy_settle (toy_now + 5) (toy_now + 7) 10502 2 1003 3057163 0 3057163
     (ledger_key toy_settle 1003 '':contribution'') db_rewarded = Inr (hash points_entry, db_paid)"
proof -
  have "insert_contribution_ledger (toy_now + 5) points_entry db_rewarded = Inr db_paid"
    by (simp add: insert_contribution_ledger_def toy_simps db_rewarded_def db_paid_def charged_account_def paid_account_def
        del: lit_simps cong: and_then_weak)
  moreover have "\<exists>a. fetch_one (\<lambda>a. q_user_id a = 2) (quota_accounts db_rewarded) = Inr a \<and>
      contribution_ledger_head_hash a = GENESIS_HASH"
    by (simp add: db_rewarded_def fetch_one_def charged_account_def toy_account_def empty_account_def)
  ultimately show ?thesis
    by (auto simp add: append_contribution_def toy_env toy_appended simp del: lit_simps cong: and_then_weak)
qed

lemma toy_inflow:
  "append_reserve toy_settle (toy_now + 8) 10503 1003 509528 0 509528 (ledger_key toy_settle 1003 '':reserve'') db_paid =
     Inr (hash inflow_entry, db_posted)"
proof -
  have r: "reserve_account db_paid = \<lparr>ra_balance_micro = 0, ra_ledger_head_hash = GENESIS_HASH, ra_ledger_entry_count = 0\<rparr>"
    "reserve_ledger db_paid = []" by (simp_all add: db_paid_def claimed_tables)
  then have "insert_reserve_ledger inflow_entry None db_paid = Inr db_posted"
    by (simp add: insert_reserve_ledger_def toy_simps reserve_book_def db_posted_def del: lit_simps cong: and_then_weak)
  then show ?thesis by (simp add: append_reserve_def r toy_env toy_appended del: lit_simps cong: and_then_weak)
qed

lemma toy_posted:
  "post_settlement toy_settle (toy_settle_clock 5) 1003 1 2 2547636 toy_amounts db_claimed =
     Inr ((hash deduction_entry, hash reward_entry, hash points_entry, hash inflow_entry), db_posted)"
proof -
  have b: "account_spendable 1 db_claimed = Inr 1000000000" "account_spendable 2 db_charged = Inr 0"
    "\<exists>a. fetch_one (\<lambda>a. q_user_id a = 2) (quota_accounts db_rewarded) = Inr a \<and> contribution_micro a = 0"
    "ra_balance_micro (reserve_account db_paid) = 0"
    by (simp_all add: account_spendable_def claimed_tables db_charged_def db_rewarded_def db_paid_def fetch_one_def
        charged_account_def toy_account_def empty_account_def)
  have c: "sc_now (toy_settle_clock 5) = toy_now + 5" "sc_utc (toy_settle_clock 5) 0 = toy_now + 5"
    "sc_utc (toy_settle_clock 5) 1 = toy_now + 6" "sc_utc (toy_settle_clock 5) 2 = toy_now + 7"
    "sc_utc (toy_settle_clock 5) 3 = toy_now + 8" "sc_ids (toy_settle_clock 5) 0 = 10500" "sc_ids (toy_settle_clock 5) 1 = 10501"
    "sc_ids (toy_settle_clock 5) 2 = 10502" "sc_ids (toy_settle_clock 5) 3 = 10503"
    by (simp_all add: toy_settle_clock_def)
  from b show ?thesis
    by (auto simp add: post_settlement_def toy_amounts_def c [unfolded One_nat_def] c s_checked_add_def toy_released toy_charged toy_rewarded toy_paid
        toy_inflow simp del: lit_simps cong: and_then_weak)
qed

lemma toy_billing_row: "JobBillingSnapshot_from_job_row toy_leased = Inr (billing_columns toy_snapshot)"
  by (simp add: JobBillingSnapshot_from_job_row_def toy_leased_def toy_job_def billing_columns_def toy_snapshot_def
      toy_profile_def s_from_def validate_frozen_quote_def toy_billing(4) quote_matches_columns_def cong: and_then_weak)

lemma toy_sealed: "encrypt_for_storage plain_crypto [7] sample_nonce 1003 StoredResult (utf8 (lit ''done'')) \<noteq> None"
  by code_simp

definition settled_tables :: "unit db \<Rightarrow> bool" where
  "settled_tables d \<longleftrightarrow> nodes d = nodes db_claimed \<and> models d = models db_claimed \<and> attestation_reports d = [] \<and>
     job_attempts d = [toy_attempt\<lparr>at_status := AttemptSucceeded, at_finished_at := Some (toy_now + 5),
       at_result_idempotency_key := Some (lit ''r-1'')\<rparr>] \<and>
     (\<exists>rc. receipts d = [rc] \<and> rc_job_id rc = 1003) \<and>
     (\<exists>s. encrypt_for_storage plain_crypto [7] sample_nonce 1003 StoredResult (utf8 (lit ''done'')) = Some s \<and>
       jobs d = [toy_leased\<lparr>j_status := Succeeded, j_result := Some \<lparr>rs_ciphertext = s, rs_idempotency_key = lit ''r-1'',
         rs_actual_input_tokens = 1000, rs_actual_output_tokens = 200, rs_telemetry_fingerprint = lit ''fp'',
         rs_standard_storage_version = Some STORAGE_VERSION\<rparr>, j_completed_at := Some (toy_now + 5),
         j_updated_at := toy_now + 5\<rparr>])"

lemma toy_settled:
  "\<exists>out d'. complete_job toy_settle plain_crypto [7] (toy_settle_clock 5) toy_completion db_claimed = Inr (Inr out, d') \<and>
     \<not> so_idempotent_replay out \<and> settled_tables d'"
proof -
  obtain s where s: "encrypt_for_storage plain_crypto [7] sample_nonce 1003 StoredResult (utf8 (lit ''done'')) = Some s"
    using toy_sealed by blast
  have base: "base_cost_micro (billing_columns toy_snapshot) = 1698424"
    "authorized_input_tokens (billing_columns toy_snapshot) = 1100"
    "authorized_max_output_tokens (billing_columns toy_snapshot) = 512"
  proof -
    have "sint (as_i64 (quote_base_cost toy_quote_of)) = sint (1698424 :: i64)" unfolding toy_billing(3) by simp
    then show "base_cost_micro (billing_columns toy_snapshot) = 1698424"
      by (simp only: signed_word_eqI billing_columns_def toy_snapshot_def BillingSnapshot.simps JobBillingSnapshot.simps)
  qed (simp_all add: billing_columns_def toy_snapshot_def)
  have lock: "lock_accounts 1 2 db_claimed = Inr ()"
    by (simp add: lock_accounts_def rows_affected_def claimed_tables toy_account_def empty_account_def)
  have posted: "risk db_posted = ()" "receipts db_posted = []" "jobs db_posted = [toy_leased]"
    "job_attempts db_posted = [toy_attempt]" "nodes db_posted = nodes db_claimed" "models db_posted = models db_claimed"
    "attestation_reports db_posted = []"
    by (simp_all add: db_posted_def db_paid_def claimed_tables)
  have am: "sa_deduction toy_amounts = 2547636" "sa_node_quota toy_amounts = 2038108" "sa_contribution toy_amounts = 3057163"
    "sa_reserve toy_amounts = 509528" by (simp_all add: toy_amounts_def)
  define node where "node = hd (tb_nodes toy_tables)"
  define m where "m = hd (tb_models toy_tables)"
  have nm: "n_user_id node = 2" "n_trust_level node = TrustLevel.Standard" "m_tier m = High" "n_device_key_id node = Some 102"
    by (simp_all add: node_def m_def toy_tables_def)
  have job: "j_user_id toy_leased = 1" "rq_idempotency_key (j_request toy_leased) = lit ''job-1''"
    "j_reserved_cost_micro toy_leased = 2547636" "j_confidentiality toy_leased = StandardMode" "j_status toy_leased = Leased"
    "j_leased_to_node_id toy_leased = Some 20" "j_id toy_leased = 1003" "j_attempt_count toy_leased = 1"
    "lease_valid (toy_now + 5) toy_leased" "j_model_id toy_leased = 30" "j_attestation_report_id toy_leased = None"
    by (simp_all add: toy_leased_def toy_job_def toy_reserved lease_valid_def toy_expiry_def)
  have inst: "j_model_instance_id toy_leased = Some 40" "at_job_id toy_attempt = 1003" "at_attempt_number toy_attempt = 1"
    by (simp_all add: toy_leased_def toy_attempt_def)
  have cmd: "cm_job_id toy_completion = 1003" "cm_node_id toy_completion = 20" "cm_worker_user_id toy_completion = 2"
    "cm_claim_device_key_id toy_completion = 102" "cm_actual_input_tokens toy_completion = 1000"
    "cm_actual_output_tokens toy_completion = 200" "cm_idempotency_key toy_completion = lit ''r-1''" "cm_result_ciphertext toy_completion = lit ''done''"
    by (simp_all only: toy_completion_def CompleteJob.simps)
  have rows: "fetch_optional (\<lambda>n. n_id n = 20) (nodes db_claimed) = Some node"
    "fetch_optional (\<lambda>x. m_id x = 30) (models db_claimed) = Some m"
    by (simp_all add: fetch_optional_def claimed_tables toy_tables_def node_def m_def)
  have clk: "sc_now (toy_settle_clock 5) = toy_now + 5" "sc_nonce (toy_settle_clock 5) = sample_nonce"
    by (simp_all add: toy_settle_clock_def)
  have env: "canonical_hash toy_settle b = Inr (toy_digest (utf8 (lit ''{}'')))"
    "append_execution_fingerprint toy_settle x y z r = Inr (\<lparr>verdict = NoAnomalyObserved, alert_count = 0, evidence_kind = []\<rparr>, r)"
    "record_settled_edge toy_settle u v r = Inr r" "telemetry_fingerprint toy_settle x y = Inr (lit ''fp'')" for b x y z r u v
    by (simp_all add: canonical_hash_def toy_settle_def)
  have "\<exists>out d'. settle_leased_job toy_settle plain_crypto [7] (toy_settle_clock 5) toy_completion toy_leased node m
      (lit ''fp'') (billing_columns toy_snapshot) 1698424 db_claimed = Inr (out, d') \<and> \<not> so_idempotent_replay out \<and> settled_tables d'"
    by (simp add: settle_leased_job_def Let_def nm job cmd lock claimed_tables toy_priced toy_posted env insert_receipt_def
        am base posted clk s settled_tables_def result_key_taken_def update_job_def update_attempts_def finalize_draining_instance_def
        unpublish_idle_def inst del: lit_simps cong: and_then_weak)
  then obtain out d' where settled: "settle_leased_job toy_settle plain_crypto [7] (toy_settle_clock 5) toy_completion toy_leased node m
      (lit ''fp'') (billing_columns toy_snapshot) 1698424 db_claimed = Inr (out, d')" "\<not> so_idempotent_replay out" "settled_tables d'" by blast
  have att: "fetch_optional (\<lambda>a. at_job_id a = 1003 \<and> at_attempt_number a = 1) (job_attempts db_claimed) = Some toy_attempt"
    "at_claim_device_key_id toy_attempt = Some 102" "at_claim_device_binding_version toy_attempt = Some DEVICE_BINDING_VERSION"
    "fetch_optional (\<lambda>j. j_id j = 1003) (jobs db_claimed) = Some toy_leased"
    by (simp_all add: fetch_optional_def claimed_tables toy_attempt_def job)
  show ?thesis
    by (simp add: complete_job_def Let_def cmd att rows job nm env clk toy_billing_row frozen_base_for_authorized_usage_def base
        settled commit_def del: lit_simps cong: and_then_weak)
qed

text \<open>Reporting the same completion again.\<close>

lemma toy_replayed:
  assumes "settled_tables d"
  shows "\<exists>out. complete_job toy_settle plain_crypto [7] (toy_settle_clock 6) toy_completion d = Inr (Inr out, d)"
proof -
  obtain s rc where t: "nodes d = nodes db_claimed" "models d = models db_claimed" "attestation_reports d = []"
    "job_attempts d = [toy_attempt\<lparr>at_status := AttemptSucceeded, at_finished_at := Some (toy_now + 5),
       at_result_idempotency_key := Some (lit ''r-1'')\<rparr>]" "receipts d = [rc]" "rc_job_id rc = 1003"
    and s: "encrypt_for_storage plain_crypto [7] sample_nonce 1003 StoredResult (utf8 (lit ''done'')) = Some s"
    and j: "jobs d = [toy_leased\<lparr>j_status := Succeeded, j_result := Some \<lparr>rs_ciphertext = s, rs_idempotency_key = lit ''r-1'',
         rs_actual_input_tokens = 1000, rs_actual_output_tokens = 200, rs_telemetry_fingerprint = lit ''fp'',
         rs_standard_storage_version = Some STORAGE_VERSION\<rparr>, j_completed_at := Some (toy_now + 5),
         j_updated_at := toy_now + 5\<rparr>]"
    using assms by (auto simp: settled_tables_def)
  have opens: "decrypt_from_storage plain_crypto [7] 1003 StoredResult s = Some (utf8 (lit ''done''))"
    by (rule encrypted_decrypts [OF plain_crypto_ok _ _ _ s])
      (simp_all add: octets_def utf8_char_def sample_nonce_def NONCE_LENGTH_def)
  define node where "node = hd (tb_nodes toy_tables)"
  define m where "m = hd (tb_models toy_tables)"
  have rows: "fetch_optional (\<lambda>n. n_id n = 20) (nodes d) = Some node" "fetch_optional (\<lambda>x. m_id x = 30) (models d) = Some m"
    "n_user_id node = 2" "n_device_key_id node = Some 102"
    by (simp_all add: t fetch_optional_def claimed_tables toy_tables_def node_def m_def)
  have cmd: "cm_job_id toy_completion = 1003" "cm_node_id toy_completion = 20" "cm_worker_user_id toy_completion = 2"
    "cm_claim_device_key_id toy_completion = 102" "cm_actual_input_tokens toy_completion = 1000"
    "cm_actual_output_tokens toy_completion = 200" "cm_result_ciphertext toy_completion = lit ''done''"
    "cm_idempotency_key toy_completion = lit ''r-1''"
    by (simp_all only: toy_completion_def CompleteJob.simps)
  have env: "telemetry_fingerprint toy_settle x y = Inr (lit ''fp'')"
    "stored_fingerprint_outcome toy_settle i r = Inr \<lparr>verdict = NoAnomalyObserved, alert_count = 0, evidence_kind = []\<rparr>" for x y i r
    by (simp_all add: toy_settle_def)
  have job: "j_leased_to_node_id toy_leased = Some 20" "j_id toy_leased = 1003" "j_attempt_count toy_leased = 1"
    "j_model_id toy_leased = 30" "j_confidentiality toy_leased = StandardMode" "at_job_id toy_attempt = 1003"
    "at_attempt_number toy_attempt = 1" "at_claim_device_key_id toy_attempt = Some 102"
    "at_claim_device_binding_version toy_attempt = Some DEVICE_BINDING_VERSION"
    by (simp_all add: toy_leased_def toy_job_def toy_attempt_def)
  have "fetch_optional P [x] = (if P x then Some x else None)" for P and x :: 'z by (simp add: fetch_optional_def)
  note one = this
  show ?thesis
    by (simp add: complete_job_def Let_def cmd j t(4) one job rows env replay_result_def result_matches_def opens load_outcome_def
        fetch_one_def t(5,6) commit_def del: lit_simps cong: and_then_weak)
qed

end
