(* ===== verification/Leases.thy ===== *)
theory Leases
  imports Lifecycle
begin

text \<open>
  Exclusivity of leases. While a lease runs, no claim takes its job away: the two reapers and the
  grant of a new lease only touch jobs whose lease is over or that were never leased. \<open>keeps j\<close> is the
  loop invariant: the job \<open>j\<close> is still a row of the table, and the keys of the table are unchanged.
\<close>

definition keeps :: "Job \<Rightarrow> 'x db \<Rightarrow> 'x db \<Rightarrow> bool" where
  "keeps j d d' \<longleftrightarrow> map j_id (jobs d') = map j_id (jobs d) \<and> (j \<in> set (jobs d) \<longrightarrow> j \<in> set (jobs d'))"

lemma keeps_refl [simp]: "keeps j d d"
  by (simp add: keeps_def)

lemma keeps_trans: "keeps j d d' \<Longrightarrow> keeps j d' d'' \<Longrightarrow> keeps j d d''"
  by (auto simp: keeps_def)

lemma keeps_same: "jobs d' = jobs d \<Longrightarrow> keeps j d d'"
  by (simp add: keeps_def)

lemma keeps_other:
  assumes "jobs d' = sql_update (\<lambda>x. j_id x = i) f (jobs d)" "\<And>x. j_id (f x) = j_id x" "j_id j \<noteq> i"
  shows "keeps j d d'"
  using assms by (auto simp: keeps_def map_sql_update in_set_sql_update intro!: bexI [of _ j])

lemma keeps_loop:
  assumes "try_fold f xs d = Inr d'" "\<And>x s s'. x \<in> set xs \<Longrightarrow> f x s = Inr s' \<Longrightarrow> keeps j s s'"
  shows "keeps j d d'"
  using assms
proof (induction xs arbitrary: d)
  case (Cons x xs)
  then obtain d1 where "f x d = Inr d1" "try_fold f xs d1 = Inr d'" by (auto simp: result_simps)
  with Cons show ?case by (meson keeps_trans list.set_intros)
qed simp

lemma lease_valid_not_terminal: "lease_valid now j \<Longrightarrow> \<not> expired_terminal now j"
  by (auto simp: expired_terminal_def lease_expired_def lease_valid_def is_some_and_def split: option.splits)

lemma reap_expired_keeps:
  assumes "reap_expired_terminal_leases now d = Inr d'" "j \<in> set (jobs d)" "distinct (map j_id (jobs d))" "\<not> expired_terminal now j"
  shows "keeps j d d'"
proof -
  obtain d1 where d1: "try_fold (reap_expired_lease now)
      (take 100 (sort_by job_order (filter (expired_terminal now) (jobs d)))) d = Inr d1"
    and d': "d' = unpublish_idle now (\<lambda>_. True) d1"
    using assms by (auto simp: reap_expired_terminal_leases_def result_simps)
  have "keeps j d d1"
  proof (rule keeps_loop [OF d1])
    fix x and s s' :: "'a db"
    assume "x \<in> set (take 100 (sort_by job_order (filter (expired_terminal now) (jobs d))))"
    then have "x \<in> set (sort_by job_order (filter (expired_terminal now) (jobs d)))" by (rule in_set_takeD)
    then have x: "x \<in> set (jobs d)" "expired_terminal now x" by auto
    then have "j_id j \<noteq> j_id x"
      using key_row_unique [OF assms(3,2) x(1)] assms(4) by auto
    moreover assume "reap_expired_lease now x s = Inr s'"
    then obtain s1 where rel: "release_reservation now (j_user_id x) (j_reserved_cost_micro x) s = Inr s1"
      and js: "jobs s' = sql_update (\<lambda>y. j_id y = j_id x)
        (\<lambda>j. j\<lparr>j_status := Failed, j_completed_at := Some now, j_updated_at := now\<rparr>) (jobs s1)"
      by (auto simp: reap_expired_lease_def result_simps frame_simps Let_def)
    ultimately show "keeps j s s'" using release_reservation_frame [OF rel]
      by (intro keeps_other [OF js [unfolded release_reservation_frame [OF rel, THEN conjunct1]]]) simp_all
  qed
  then show ?thesis by (rule keeps_trans) (simp add: d' keeps_same frame_simps)
qed

lemma ids_loop:
  assumes "try_fold f xs d = Inr d'" "\<And>x s s'. f x s = Inr s' \<Longrightarrow> map j_id (jobs s') = map j_id (jobs s)"
  shows "map j_id (jobs d') = map j_id (jobs d)"
  using try_fold_invariant [where I = "\<lambda>s. map j_id (jobs s) = map j_id (jobs d)", OF assms(1)] assms(2) by auto

lemma reap_expired_ids:
  assumes "reap_expired_terminal_leases now d = Inr d'"
  shows "map j_id (jobs d') = map j_id (jobs d)"
proof -
  obtain d1 where d1: "try_fold (reap_expired_lease now)
      (take 100 (sort_by job_order (filter (expired_terminal now) (jobs d)))) d = Inr d1"
    and d': "d' = unpublish_idle now (\<lambda>_. True) d1"
    using assms by (auto simp: reap_expired_terminal_leases_def result_simps)
  have "map j_id (jobs s') = map j_id (jobs s)" if "reap_expired_lease now x s = Inr s'" for x and s s' :: "'a db"
    using that
    by (auto simp: reap_expired_lease_def result_simps frame_simps Let_def map_sql_update dest!: release_reservation_frame)
  then show ?thesis using ids_loop [OF d1] by (simp add: d' frame_simps)
qed

lemma reap_invalid_ids:
  assumes "reap_invalid_regulated_jobs now fresh d = Inr d'"
  shows "map j_id (jobs d') = map j_id (jobs d)"
proof (rule ids_loop [OF assms [unfolded reap_invalid_regulated_jobs_def]])
  fix x and s s' :: "'a db"
  assume "reap_invalid_regulated now fresh x s = Inr s'"
  then show "map j_id (jobs s') = map j_id (jobs s)"
    by (auto simp: reap_invalid_regulated_def result_simps frame_simps Let_def map_sql_update
        dest!: release_reservation_frame insert_attempt_frame(2))
qed

lemma reap_invalid_keeps:
  assumes "reap_invalid_regulated_jobs now fresh d = Inr d'" "j \<in> set (jobs d)" "distinct (map j_id (jobs d))" "j_status j = Leased"
  shows "keeps j d d'"
proof (rule keeps_loop [OF assms(1) [unfolded reap_invalid_regulated_jobs_def]])
  fix x and s s' :: "'a db"
  assume "x \<in> set (take 100 (sort_by job_order (filter (regulated_invalid now d) (jobs d))))"
  then have "x \<in> set (sort_by job_order (filter (regulated_invalid now d) (jobs d)))" by (rule in_set_takeD)
  then have x: "x \<in> set (jobs d)" "regulated_invalid now d x" by auto
  then have "j_id j \<noteq> j_id x"
    using key_row_unique [OF assms(3,2) x(1)] assms(4) by (auto simp: regulated_invalid_def)
  moreover assume "reap_invalid_regulated now fresh x s = Inr s'"
  then obtain s1 s2 att k where rel: "release_reservation now (j_user_id x) (j_reserved_cost_micro x) s = Inr s1"
    and ins: "insert_attempt att s1 = Inr s2" and js: "jobs s' = sql_update (\<lambda>y. j_id y = j_id x)
      (\<lambda>j. j\<lparr>j_status := Failed, j_attempt_count := k, j_completed_at := Some now, j_updated_at := now\<rparr>) (jobs s2)"
    by (auto simp: reap_invalid_regulated_def result_simps frame_simps Let_def)
  moreover have "jobs s2 = jobs s" using release_reservation_frame [OF rel] insert_attempt_frame(2) [OF ins] by simp
  ultimately show "keeps j s s'" by (intro keeps_other [OF js [unfolded \<open>jobs s2 = jobs s\<close>]]) simp_all
qed

text \<open>
  A lease that ran out with attempts left is not touched by either reaper. An ordinary job is then
  claimable again; a regulated job can only be claimed by its pinned node, so when the hardware binding of
  that node is gone the job stays leased, and its reservation held, until the node reports or the consumer
  cancels.
\<close>

lemma orphaned_lease_not_reaped:
  assumes "reap_expired_terminal_leases now d = Inr d1" "reap_invalid_regulated_jobs now fresh d1 = Inr d2"
    "j \<in> set (jobs d)" "distinct (map j_id (jobs d))" "j_status j = Leased"
    "sint (j_attempt_count j) < sint (j_max_attempts j)"
  shows "j \<in> set (jobs d2)"
proof -
  have "\<not> expired_terminal now j" using assms(6) by (simp add: expired_terminal_def)
  with reap_expired_keeps [OF assms(1,3,4)] reap_expired_ids [OF assms(1)] reap_invalid_keeps [OF assms(2), of j] assms
  show ?thesis by (simp add: keeps_def)
qed

text \<open>The two reapers only turn rows into failed ones: every other row was there before.\<close>

definition only_fails :: "'x db \<Rightarrow> 'x db \<Rightarrow> bool" where
  "only_fails d d' \<longleftrightarrow> (\<forall>j \<in> set (jobs d'). j_status j \<noteq> Failed \<longrightarrow> j \<in> set (jobs d))"

lemma only_fails_trans: "only_fails d d' \<Longrightarrow> only_fails d' d'' \<Longrightarrow> only_fails d d''"
  by (auto simp: only_fails_def)

lemma only_fails_update:
  "jobs d' = sql_update P f (jobs d) \<Longrightarrow> (\<And>x. j_status (f x) = Failed) \<Longrightarrow> only_fails d d'"
  by (auto simp: only_fails_def in_set_sql_update split: if_splits)

lemma only_fails_loop:
  assumes "try_fold f xs d = Inr d'" "\<And>x s s'. f x s = Inr s' \<Longrightarrow> only_fails s s'"
  shows "only_fails d d'"
  using try_fold_invariant [where I = "only_fails d", OF assms(1)] assms(2) only_fails_trans
  by (meson only_fails_def)

lemma reap_expired_only_fails:
  assumes "reap_expired_terminal_leases now d = Inr d'"
  shows "only_fails d d'"
proof -
  obtain d1 where d1: "try_fold (reap_expired_lease now)
      (take 100 (sort_by job_order (filter (expired_terminal now) (jobs d)))) d = Inr d1"
    and d': "d' = unpublish_idle now (\<lambda>_. True) d1"
    using assms by (auto simp: reap_expired_terminal_leases_def result_simps)
  have "only_fails s s'" if r: "reap_expired_lease now x s = Inr s'" for x and s s' :: "'a db"
  proof -
    obtain s1 where rel: "release_reservation now (j_user_id x) (j_reserved_cost_micro x) s = Inr s1"
      and js: "jobs s' = sql_update (\<lambda>y. j_id y = j_id x)
        (\<lambda>j. j\<lparr>j_status := Failed, j_completed_at := Some now, j_updated_at := now\<rparr>) (jobs s1)"
      using r by (auto simp: reap_expired_lease_def result_simps frame_simps Let_def)
    show ?thesis
      by (rule only_fails_update [OF js [unfolded release_reservation_frame [OF rel, THEN conjunct1]]]) simp
  qed
  then have "only_fails d d1" by (rule only_fails_loop [OF d1])
  then show ?thesis by (simp add: d' only_fails_def frame_simps)
qed

lemma reap_invalid_only_fails:
  assumes "reap_invalid_regulated_jobs now fresh d = Inr d'"
  shows "only_fails d d'"
proof (rule only_fails_loop [OF assms [unfolded reap_invalid_regulated_jobs_def]])
  fix x and s s' :: "'a db"
  assume "reap_invalid_regulated now fresh x s = Inr s'"
  then obtain s1 s2 att k where rel: "release_reservation now (j_user_id x) (j_reserved_cost_micro x) s = Inr s1"
    and ins: "insert_attempt att s1 = Inr s2" and js: "jobs s' = sql_update (\<lambda>y. j_id y = j_id x)
      (\<lambda>j. j\<lparr>j_status := Failed, j_attempt_count := k, j_completed_at := Some now, j_updated_at := now\<rparr>) (jobs s2)"
    by (auto simp: reap_invalid_regulated_def result_simps frame_simps Let_def)
  have "jobs s2 = jobs s" using release_reservation_frame [OF rel] insert_attempt_frame(2) [OF ins] by simp
  from only_fails_update [OF js [unfolded this]] show "only_fails s s'" by simp
qed

text \<open>
  The grant: a row that was free, or leased until a time that has passed, available, with attempts left, becomes
  the next attempt of the node that asked, leased until the time of the answer.
\<close>

definition newly_leased :: "OffsetDateTime \<Rightarrow> Uuid \<Rightarrow> OffsetDateTime \<Rightarrow> Job \<Rightarrow> Job \<Rightarrow> bool" where
  "newly_leased now node expires before after \<longleftrightarrow>
     (j_status before = Queued \<or> j_status before = Retry \<or>
      j_status before = Leased \<and> (\<exists>t. j_lease_expires_at before = Some t \<and> t \<le> now)) \<and>
     j_available_at before \<le> now \<and> sint (j_attempt_count before) < sint (j_max_attempts before) \<and>
     j_id after = j_id before \<and> j_status after = Leased \<and> j_leased_to_node_id after = Some node \<and>
     j_lease_expires_at after = Some expires \<and> sint (j_attempt_count after) = sint (j_attempt_count before) + 1"

lemma next_attempt: "sint a < sint (b :: i32) \<Longrightarrow> sint (i32_saturating_add a 1) = sint a + 1"
proof -
  assume "sint a < sint b"
  then have "sint a + 1 \<le> 2147483647" "- 2147483648 \<le> sint a + 1" using i32_bounds [of a] i32_bounds [of b] by simp_all
  moreover from this have "sint (word_of_int (sint a + 1) :: i32) = sint a + 1" by (subst sint_word_of_int_fits_iff) auto
  ultimately show ?thesis by (simp add: i32_saturating_add_def)
qed

lemma grant_lease_effect:
  assumes "grant_lease cr cfg ck prin node inst job d = Inr (ans, d')" "job \<in> set (jobs d)"
    "distinct (map j_id (jobs d))" "claimable now job"
  shows "(j \<in> set (jobs d) \<and> j_status j = Leased \<and> lease_valid now j \<longrightarrow> keeps j d d') \<and>
    (\<forall>c. ans = Inr (OrdinaryClaimed c) \<longrightarrow> cl_job_id c = j_id job \<and> (\<exists>after \<in> set (jobs d').
      newly_leased now node (cl_lease_expires_at c) job after))"
proof -
  define d0 where "d0 = (if 0 < sint (j_attempt_count job)
     then update_attempts (leased_attempt (j_id job) (j_attempt_count job))
       (\<lambda>a. a\<lparr>at_status := AttemptExpired, at_finished_at := Some (tx_now ck)\<rparr>) d else d)"
  have js0: "jobs d0 = jobs d" by (simp add: d0_def frame_simps)
  consider "d' = d0" "\<forall>c. ans \<noteq> Inr (OrdinaryClaimed c)" | lease att d1 where
      "d1 = update_job (j_id job) (\<lambda>j. j\<lparr>j_status := Leased, j_leased_to_node_id := Some node,
         j_model_instance_id := Some inst, j_lease_expires_at := Some lease,
         j_attempt_count := i32_saturating_add (j_attempt_count job) 1, j_updated_at := tx_now ck\<rparr>) d0"
      "insert_attempt att d1 = Inr d'" "\<forall>c. ans = Inr (OrdinaryClaimed c) \<longrightarrow> cl_job_id c = j_id job \<and> cl_lease_expires_at c = lease"
    using assms(1) unfolding grant_lease_def Let_def d0_def [symmetric]
    by (auto simp: result_simps split: if_splits option.splits)
  then show ?thesis
  proof cases
    case 1
    with js0 show ?thesis by (simp add: keeps_same)
  next
    case 2
    let ?f = "\<lambda>j. j\<lparr>j_status := Leased, j_leased_to_node_id := Some node, j_model_instance_id := Some inst,
      j_lease_expires_at := Some lease, j_attempt_count := i32_saturating_add (j_attempt_count job) 1, j_updated_at := tx_now ck\<rparr>"
    have js: "jobs d' = sql_update (\<lambda>x. j_id x = j_id job) ?f (jobs d)"
      using insert_attempt_frame(2) [OF 2(2)] js0 by (simp add: 2(1) frame_simps)
    have "keeps j d d'" if "j \<in> set (jobs d)" "j_status j = Leased" "lease_valid now j"
    proof (rule keeps_other [OF js])
      show "j_id j \<noteq> j_id job"
        using key_row_unique [OF assms(3) that(1) assms(2)] that assms(4)
        by (auto simp: claimable_def lease_expired_def lease_valid_def is_some_and_def split: option.splits)
    qed simp
    moreover have "?f job \<in> set (jobs d')" using assms(2) by (force simp: js in_set_sql_update)
    moreover have "newly_leased now node lease job (?f job)"
      using assms(4) next_attempt [of "j_attempt_count job" "j_max_attempts job"]
      by (auto simp: newly_leased_def claimable_def lease_expired_def is_some_and_def split: option.splits)
    ultimately show ?thesis using 2(3) by force
  qed
qed

lemma claim_keeps_leases:
  assumes "claim_job cr cfg ck sel hid prin node inst d = Inr (ans, d')" "distinct (map j_id (jobs d))"
  shows "(j \<in> set (jobs d) \<and> j_status j = Leased \<and> lease_valid (tx_now ck) j \<longrightarrow> j \<in> set (jobs d')) \<and>
    (\<forall>c. ans = Inr (OrdinaryClaimed c) \<longrightarrow> (\<exists>before \<in> set (jobs d). \<exists>after \<in> set (jobs d'). j_id before = cl_job_id c \<and>
      newly_leased (tx_now ck) node (cl_lease_expires_at c) before after))"
proof -
  obtain policy d1 d2 h hw r where
    1: "reap_expired_terminal_leases (tx_now ck) d = Inr d1"
    and 2: "reap_invalid_regulated_jobs (tx_now ck) (fresh_for ck) d1 = Inr d2"
    and 3: "(let d = d2\<lparr>hidden_work := hw, risk := r\<rparr> in
       case h of Some h \<Rightarrow> commit d (HiddenWorkClaimed h)
       | None \<Rightarrow> (case claim_candidate (tx_now ck) (sel d) node inst d of
            None \<Rightarrow> commit d NoContent
          | Some job \<Rightarrow> and_then (enforce_current_policy (tx_now ck) node policy None (rq_tags (j_request job)) d)
              (\<lambda>_. grant_lease cr cfg ck prin node inst job d))) = Inr (ans, d')"
    using assms(1) unfolding claim_job_def by (elim inversion; blast)
  let ?d3 = "d2\<lparr>hidden_work := hw, risk := r\<rparr>"
  have ids: "map j_id (jobs d1) = map j_id (jobs d)" "map j_id (jobs d2) = map j_id (jobs d1)"
    using reap_expired_ids [OF 1] reap_invalid_ids [OF 2] by simp_all
  have fails: "only_fails d ?d3"
    using only_fails_trans [OF reap_expired_only_fails [OF 1] reap_invalid_only_fails [OF 2]] by (simp add: only_fails_def)
  have kept: "j \<in> set (jobs ?d3)" if "j \<in> set (jobs d)" "j_status j = Leased" "lease_valid (tx_now ck) j"
    using reap_expired_keeps [OF 1 that(1) assms(2) lease_valid_not_terminal [OF that(3)]] reap_invalid_keeps [OF 2, where j = j] that assms(2)
    by (simp add: keeps_def)
  have dist: "distinct (map j_id (jobs ?d3))" using assms(2) ids by simp
  consider "jobs d' = jobs ?d3" "\<forall>c. ans \<noteq> Inr (OrdinaryClaimed c)" | job where
      "claim_candidate (tx_now ck) (sel ?d3) node inst ?d3 = Some job" "grant_lease cr cfg ck prin node inst job ?d3 = Inr (ans, d')"
    using 3 by (auto simp: Let_def commit_eq_Inr and_then_eq_Inr split: option.splits)
  then show ?thesis
  proof cases
    case 1
    with kept show ?thesis by simp
  next
    case 2
    note job = claim_candidate_active [OF 2(1)]
    note eff = grant_lease_effect [OF 2(2) _ dist, where j = j]
    have "job \<in> set (jobs d)" using job fails by (auto simp: only_fails_def claimable_def)
    then show ?thesis using eff job kept by (auto simp: keeps_def)
  qed
qed

end
