(* ===== verification/Guarantees.thy ===== *)
theory Guarantees
  imports Sample Leases
begin

text \<open>
  What the coordinator promises, whatever sequence of calls it serves: the properties of the whole
  system, each read off the invariant \<open>money_ok\<close> of every reachable database or off the flow that
  \<open>handle_flow\<close> proves of every call.
\<close>

lemma view_held_jobs:
  "view_held u (map job_view js) = (\<Sum>j\<leftarrow>filter (\<lambda>j. j_user_id j = u \<and> job_active j) js. sint (j_reserved_cost_micro j))"
  by (induction js) (simp_all add: job_view_def)

lemma reachable_step: "reachable w d \<Longrightarrow> escrow_step\<^sup>*\<^sup>* (escrow_of d) (escrow_of (handle w c d))"
  using reachable_ok [of w d] handle_flow [of c d w] by (auto simp: money_flow_def)

definition run_calls :: "('v, 'x, 'h) world \<Rightarrow> 'x call list \<Rightarrow> 'x db \<Rightarrow> 'x db" where
  "run_calls w cs d = foldl (\<lambda>d c. handle w c d) d cs"

lemma run_calls_simps [simp]:
  "run_calls w [] d = d"
  "run_calls w (c # cs) d = run_calls w cs (handle w c d)"
  by (simp_all add: run_calls_def)

lemma reachable_run: "reachable w d \<Longrightarrow> reachable w (run_calls w cs d)"
  by (induction cs arbitrary: d) (auto intro: reachable.intros)

section \<open>The sample run is reachable\<close>

lemma reachable_sample:
  "reachable toy_world db_opened" "reachable toy_world db_created" "reachable toy_world db_claimed"
proof -
  have "reachable toy_world db_start" unfolding db_start_def by (intro reachable.intros)
  then have "reachable toy_world db_granted" using reachable.called [of toy_world db_start open_call] by (simp add: toy_granted)
  then show o: "reachable toy_world db_opened" using reachable.called [of toy_world db_granted worker_call] by (simp add: toy_opened)
  show c: "reachable toy_world db_created" using reachable.called [OF o, of create_call] by (simp add: toy_created)
  show "reachable toy_world db_claimed" using reachable.called [OF c, of claim_call] by (simp add: toy_claimed)
qed

lemma toy_job_open: "jobs db_created = [toy_job]" "job_active toy_job" "j_id toy_job = 1003" "j_user_id toy_job = 1"
  "j_reserved_cost_micro toy_job = 2547636"
  by (simp_all add: created_tables toy_job_def job_active_def toy_reserved)

section \<open>Reservations\<close>

text \<open>C2. However many jobs are created, claimed, retried, failed, cancelled, settled or reaped and in whatever
  order, what an account has reserved is the sum of the reservations of its owner's jobs that are still
  queued, waiting for a retry or leased, and it never exceeds what the account can spend.\<close>

theorem reserved_is_open_jobs:
  assumes "reachable w d" "find_account u d = Some a"
  shows "sint (reserved_micro a) =
      (\<Sum>j\<leftarrow>filter (\<lambda>j. j_user_id j = u \<and> job_active j) (jobs d). sint (j_reserved_cost_micro j)) \<and>
    0 \<le> sint (reserved_micro a) \<and> sint (reserved_micro a) \<le> sint (spendable_micro a)"
  using escrow_ok_account [OF _ assms(2)] reachable_ok [OF assms(1)]
  by (simp add: money_ok_def quota_account_check_def view_held_jobs)

theorem reserved_is_open_jobs_witness:
  "\<exists>a. find_account 1 db_created = Some a \<and> 2547636 = (\<Sum>j\<leftarrow>filter (\<lambda>j. j_user_id j = 1 \<and> job_active j) (jobs db_created).
     sint (j_reserved_cost_micro j)) \<and> sint (reserved_micro a) = 2547636"
proof -
  let ?a = "toy_account\<lparr>reserved_micro := 2547636, q_updated_at := toy_now + 3\<rparr>"
  have "find_account 1 db_created = Some ?a"
    by (simp add: find_account_def fetch_optional_def created_tables toy_account_def toy_reserved)
  with reserved_is_open_jobs [OF reachable_sample(2), of 1 ?a] show ?thesis by (auto simp: toy_job_open)
qed

section \<open>The escrow contract\<close>

text \<open>C1. The coordinator implements the abstract escrow machine: seen through \<open>escrow_of\<close>, which keeps every
  user's funds and held amount, the open jobs with their owner and reservation, and the reserve, each call
  is a sequence of its steps - opening a job against free funds, closing one and giving its reservation
  back, settling one for a charge of at most its reservation that is paid out in full to the worker and
  the reserve, granting funds, and paying out of the reserve at most what it holds.\<close>

theorem coordinator_refines_escrow:
  assumes "reachable w d"
  shows "escrow_step\<^sup>*\<^sup>* (escrow_of d) (escrow_of (handle w c d))"
  using assms by (rule reachable_step)

theorem coordinator_refines_escrow_witness:
  "escrow_step\<^sup>*\<^sup>* (escrow_of db_opened) (escrow_of (handle toy_world create_call db_opened)) \<and>
   es_open (escrow_of db_opened) 1003 = None \<and>
   es_open (escrow_of (handle toy_world create_call db_opened)) 1003 = Some (1, 2547636)"
  using coordinator_refines_escrow [OF reachable_sample(1), of create_call]
  by (simp add: toy_created escrow_of_def toy_job_open opened_tables job_view_def)

section \<open>The books\<close>

text \<open>C5. In every reachable database the books agree with the ledgers: the quota entries of an account form
  one hash chain from the genesis hash to the head the account stores, their number is the stored
  count and their amounts add up to the spendable balance; the same holds of its contribution entries
  and contribution balance, and of the reserve ledger and the reserve account. No balance can be changed
  without an entry, and no entry can be dropped, reordered or branched off.\<close>

theorem books_match_ledgers:
  assumes "reachable w d"
  shows "(case find_account u d of
      Some a \<Rightarrow> book_ok (quota_book a) (quota_entries d u) \<and> book_ok (contribution_book a) (contribution_entries d u)
    | None \<Rightarrow> quota_entries d u = [] \<and> contribution_entries d u = []) \<and>
    book_ok (reserve_book (reserve_account d)) (map fst (reserve_ledger d))"
proof -
  have ok: "money_ok d" using assms by (rule reachable_ok)
  then have "account_book_ok (quota_books d u) (quota_entries d u)"
    "account_book_ok (contribution_books d u) (contribution_entries d u)"
    "account_book_ok (reserve_books d ()) (reserve_entries d ())" by (auto simp: money_ok_def books_ok_def)
  then show ?thesis
    by (auto simp: quota_books_def contribution_books_def reserve_books_def reserve_entries_def split: option.splits)
qed

section \<open>Circulation\<close>

text \<open>C6. Money is only made and destroyed by the operator: the sum of all spendable balances and of the reserve
  changes in a call exactly by the amount of an operator's grant, by the negative amount of an
  operator's payment out of the reserve, or by the development quota of an account opened with one;
  every other call, and each of these when it is refused or repeated, leaves it as it was.\<close>

theorem circulation_only_minted:
  assumes "reachable w d"
  shows "circulation (handle w c d) - circulation d \<in> mints c"
proof -
  obtain g where "g \<in> mints c" "money_flow g d (handle w c d)" using handle_flow [of c d w] ..
  then show ?thesis using reachable_ok [OF assms] by (auto simp: money_flow_def)
qed

theorem circulation_only_minted_witness:
  "circulation (handle toy_world complete_call db_claimed) = circulation db_claimed \<and> circulation db_claimed = 1000000000"
proof -
  have "circulation db_claimed = 1000000000"
    by (simp add: circulation_def claimed_tables toy_account_def empty_account_def)
  then show ?thesis using circulation_only_minted [OF reachable_sample(3), of complete_call] by (simp add: complete_call_def)
qed

section \<open>Final states\<close>

lemma finals_along: "reachable w d \<Longrightarrow> job \<in> set (jobs d) \<Longrightarrow> \<not> job_active job \<Longrightarrow> job \<in> set (jobs (run_calls w cs d))"
proof (induction cs arbitrary: d)
  case (Cons c cs)
  have "finals_kept d (handle w c d)"
    using reachable_ok [OF Cons.prems(1)] handle_flow [of c d w] by (auto simp: money_flow_def)
  with Cons show ?case by (auto simp: finals_kept_def intro: reachable.called)
qed simp

text \<open>C9. A job that has succeeded, failed or been cancelled is final: no sequence of calls changes any of its
  columns, so it is never settled a second time, its result is never replaced and its reservation never
  released again.\<close>

theorem final_jobs_never_change:
  assumes "reachable w d" "job \<in> set (jobs d)" "j_status job \<in> {Succeeded, Failed, Cancelled}"
  shows "job \<in> set (jobs (run_calls w cs d))"
  by (rule finals_along [OF assms(1,2)]) (use assms(3) terminal_not_active in blast)

section \<open>Cancelling\<close>

lemma cancel_outcome:
  assumes ok: "escrow_ok d" and job: "job \<in> set (jobs d)" "job_active job"
  shows "\<exists>d'. cancel_timed_out_job now \<lparr>pr_user_id = j_user_id job, pr_device_key_id = key\<rparr> (j_id job) d = Inr (Inr (), d') \<and>
     quota_accounts d' = map (released now (j_user_id job) (j_reserved_cost_micro job)) (quota_accounts d) \<and>
     jobs d' = sql_update (\<lambda>j. j_id j = j_id job) (\<lambda>j. j\<lparr>j_status := Cancelled, j_lease_expires_at := None,
       j_completed_at := Some now, j_updated_at := now\<rparr>) (jobs d)"
proof -
  have "distinct (map j_id (jobs d))" using ok by (simp add: escrow_ok_def views_ok_def job_view_def comp_def)
  then have f: "fetch_optional (\<lambda>j. j_id j = j_id job \<and> j_user_id j = j_user_id job) (jobs d) = Some job"
    using job(1) by (intro fetch_optional_key [where key = j_id]) auto
  have active: "j_status job \<noteq> Succeeded" "j_status job \<noteq> Failed" "j_status job \<noteq> Cancelled"
    using job(2) by (auto simp: job_active_def)
  show ?thesis
    using release_succeeds [OF ok job, of now] active
    by (simp add: cancel_timed_out_job_def f commit_def frame_simps Let_def del: lit_simps)
qed

text \<open>C7. Cancelling always works: in every reachable database the owner of a job that is queued, waiting for a
  retry or leased can cancel it when its request times out; the job becomes cancelled, exactly its
  reservation returns to the owner's free quota, and nothing is charged.\<close>

theorem open_job_can_be_cancelled:
  assumes "reachable w d" "job \<in> set (jobs d)" "job_active job"
  shows "\<exists>d' a a'. cancel_timed_out_job now \<lparr>pr_user_id = j_user_id job, pr_device_key_id = key\<rparr> (j_id job) d = Inr (Inr (), d') \<and>
     find_account (j_user_id job) d = Some a \<and> find_account (j_user_id job) d' = Some a' \<and>
     sint (reserved_micro a') = sint (reserved_micro a) - sint (j_reserved_cost_micro job) \<and>
     spendable_micro a' = spendable_micro a \<and>
     job\<lparr>j_status := Cancelled, j_lease_expires_at := None, j_completed_at := Some now, j_updated_at := now\<rparr> \<in> set (jobs d')"
proof -
  have ok: "escrow_ok d" using reachable_ok [OF assms(1)] by (simp add: money_ok_def)
  obtain d' where d': "cancel_timed_out_job now \<lparr>pr_user_id = j_user_id job, pr_device_key_id = key\<rparr> (j_id job) d = Inr (Inr (), d')"
    "quota_accounts d' = map (released now (j_user_id job) (j_reserved_cost_micro job)) (quota_accounts d)"
    "jobs d' = sql_update (\<lambda>j. j_id j = j_id job) (\<lambda>j. j\<lparr>j_status := Cancelled, j_lease_expires_at := None,
       j_completed_at := Some now, j_updated_at := now\<rparr>) (jobs d)"
    using cancel_outcome [OF ok assms(2,3)] by blast
  obtain a where a: "find_account (j_user_id job) d = Some a"
    using active_view(3) [OF ok assms(2,3)] by blast
  have a': "find_account (j_user_id job) d' = Some (released now (j_user_id job) (j_reserved_cost_micro job) a)"
    using find_account_map [OF d'(2)] a by simp
  have u: "q_user_id a = j_user_id job" "a \<in> set (quota_accounts d)" using find_account_id [OF a] by simp_all
  have "spendable_micro (released now (j_user_id job) (j_reserved_cost_micro job) a) = spendable_micro a"
    by (simp add: released_def)
  then show ?thesis
    using d'(1) a a' sint_released [OF ok assms(2,3) u(2), of now] u(1) assms(2)
    by (auto simp: d'(3) in_set_sql_update)
qed

lemma created_cancelled:
  obtains d' where "handle toy_world (CancelTimedOut (toy_now + 4) consumer_login 1003) db_created = d'"
    "\<exists>job \<in> set (jobs d'). j_id job = 1003 \<and> j_status job = Cancelled" "reachable toy_world d'"
proof -
  have ok: "escrow_ok db_created" using reachable_ok [OF reachable_sample(2)] by (simp add: money_ok_def)
  obtain d' where c: "cancel_timed_out_job (toy_now + 4) consumer_login 1003 db_created = Inr (Inr (), d')"
    and j: "jobs d' = sql_update (\<lambda>j. j_id j = 1003) (\<lambda>j. j\<lparr>j_status := Cancelled, j_lease_expires_at := None,
       j_completed_at := Some (toy_now + 4), j_updated_at := toy_now + 4\<rparr>) (jobs db_created)"
    using cancel_outcome [OF ok, of toy_job "toy_now + 4" 101] by (auto simp: consumer_login_def toy_job_open)
  then have h: "handle toy_world (CancelTimedOut (toy_now + 4) consumer_login 1003) db_created = d'" by (simp add: run_tx_def)
  then have "reachable toy_world d'" using reachable.called [OF reachable_sample(2)] by metis
  with h j show thesis by (intro that) (simp_all add: toy_job_open)
qed

theorem open_job_can_be_cancelled_witness:
  "\<exists>d'. cancel_timed_out_job (toy_now + 4) \<lparr>pr_user_id = j_user_id toy_job, pr_device_key_id = 101\<rparr> (j_id toy_job) db_created =
     Inr (Inr (), d')"
  using open_job_can_be_cancelled [OF reachable_sample(2), of toy_job "toy_now + 4" 101] by (auto simp: toy_job_open)

theorem final_jobs_never_change_witness:
  "\<exists>job d. job \<in> set (jobs d) \<and> j_status job = Cancelled \<and> reachable toy_world d \<and>
     job \<in> set (jobs (run_calls toy_world [create_call, CancelTimedOut (toy_now + 5) consumer_login 1003] d))"
proof -
  obtain d' where d': "\<exists>job \<in> set (jobs d'). j_id job = 1003 \<and> j_status job = Cancelled" "reachable toy_world d'"
    by (rule created_cancelled)
  then obtain job where job: "job \<in> set (jobs d')" "j_status job = Cancelled" by blast
  with final_jobs_never_change [OF d'(2) job(1), of "[create_call, CancelTimedOut (toy_now + 5) consumer_login 1003]"] d'(2)
  show ?thesis by blast
qed

theorem books_match_ledgers_witness:
  "length (quota_entries db_opened 1) = 1 \<and> book_ok (quota_book toy_account) (quota_entries db_opened 1)"
proof -
  have "find_account 1 db_opened = Some toy_account"
    by (simp add: find_account_def fetch_optional_def opened_tables toy_account_def)
  moreover have "length (quota_entries db_opened 1) = 1"
    by (simp add: quota_entries_def entries_of_def opened_tables toy_unhashed_def)
  ultimately show ?thesis using books_match_ledgers [OF reachable_sample(1), of 1] by simp
qed

section \<open>Settlement\<close>

lemma settled_outcome:
  assumes "settle_leased_job env cr key ck cmd job node m fp billing base d = Inr (out, d')"
  shows "so_base_cost_micro out = base \<and> \<not> so_idempotent_replay out \<and>
    sint (so_user_deduction_micro out) = sint (so_node_quota_micro out) + sint (so_reserve_micro out) \<and>
    0 \<le> sint (so_node_quota_micro out) \<and> 0 \<le> sint (so_reserve_micro out) \<and>
    sint (so_user_deduction_micro out) = spec_deduction (sint base) (m_tier m)"
proof -
  obtain a where a: "settlement_amounts_of env (j_user_id job) (n_user_id node) (rq_idempotency_key (j_request job)) (m_tier m)
       (n_trust_level node) base (risk d) = Inr a"
    and out: "so_base_cost_micro out = base" "so_user_deduction_micro out = sa_deduction a"
      "so_node_quota_micro out = sa_node_quota a" "so_reserve_micro out = sa_reserve a" "so_idempotent_replay out = False"
    using assms by (rule settle_leased_job_inversion) blast
  have "sint (sa_deduction a) = spec_deduction (sint base) (m_tier m)"
    using a unfolding settlement_amounts_of_def Let_def
    by (elim inversion) (auto simp: map_err_eq_Inr result_simps Settlement_calculate_eq_Inr mq_ok_def micro_def)
  with settlement_amounts_of_sum [OF a] show ?thesis by (simp add: out)
qed

text \<open>C3. What a first successful completion does: the job was leased to the reporting node under a lease that
  had not expired, the reported usage is within what was authorised, the base cost is the one frozen when
  the job was created, the charge is that cost times the tier multiplier (rounded up) and at most the
  reservation, and it is split without remainder into the worker's quota and the reserve. The database
  changes exactly so: the job is no longer open, the reservation is given back, the consumer is charged,
  the worker and the reserve are paid, and no other user's money moves.\<close>

theorem settlement_pays_frozen_price:
  assumes "reachable w d" "complete_job env cr key ck cmd d = Inr (Inr out, d')" "\<not> so_idempotent_replay out"
  shows "\<exists>job b m. job \<in> set (jobs d) \<and> j_id job = cm_job_id cmd \<and> j_status job = Leased \<and> lease_valid (sc_now ck) job \<and>
     j_leased_to_node_id job = Some (cm_node_id cmd) \<and> j_billing job = Some b \<and> m \<in> set (models d) \<and> m_id m = j_model_id job \<and>
     sint (cm_actual_input_tokens cmd) \<le> sint (authorized_input_tokens b) \<and>
     sint (cm_actual_output_tokens cmd) \<le> sint (authorized_max_output_tokens b) \<and>
     sint (so_user_deduction_micro out) = spec_deduction (sint (base_cost_micro b)) (m_tier m) \<and>
     sint (so_user_deduction_micro out) \<le> sint (j_reserved_cost_micro job) \<and>
     sint (so_user_deduction_micro out) = sint (so_node_quota_micro out) + sint (so_reserve_micro out) \<and>
     escrow_of d' = settled (escrow_of d) (j_id job) (j_user_id job) (sint (j_reserved_cost_micro job))
       (sint (so_user_deduction_micro out)) (cm_worker_user_id cmd) (sint (so_node_quota_micro out))
       (sint (so_reserve_micro out))"
proof -
  have ok: "money_ok d" using assms(1) by (rule reachable_ok)
  show ?thesis
  proof (cases rule: complete_job_acknowledged [OF assms(2)])
    case (1 job fp)
    then have "so_idempotent_replay out"
      unfolding replay_result_def by (elim inversion) auto
    with assms(3) show ?thesis ..
  next
    case (2 job node m fp billing base)
    note paid = run_settle [OF 2(10,1,2) ok] and out = settled_outcome [OF 2(10)]
    have "j_billing job = Some billing"
      using 2(8) unfolding JobBillingSnapshot_from_job_row_def by (elim inversion) (auto simp: ok_or_eq_Inr)
    moreover have "base = base_cost_micro billing" "sint (cm_actual_input_tokens cmd) \<le> sint (authorized_input_tokens billing)"
      "sint (cm_actual_output_tokens cmd) \<le> sint (authorized_max_output_tokens billing)"
      using 2(9) by (auto simp: frozen_base_for_authorized_usage_def split: if_splits)
    moreover have "m \<in> set (models d) \<and> m_id m = j_model_id job" using fetch_optional_Some [OF 2(7)] by simp
    moreover have "job \<in> set (jobs d) \<and> j_id job = cm_job_id cmd" using fetch_job [OF 2(1)] by simp
    ultimately show ?thesis using paid out 2(2-4,6) by (intro exI [of _ job] exI [of _ billing] exI [of _ m]) simp
  qed
qed

theorem settlement_pays_frozen_price_witness:
  "\<exists>out d'. complete_job toy_settle plain_crypto [7] (toy_settle_clock 5) toy_completion db_claimed = Inr (Inr out, d') \<and>
     sint (so_user_deduction_micro out) \<le> 2547636 \<and>
     sint (so_user_deduction_micro out) = sint (so_node_quota_micro out) + sint (so_reserve_micro out)"
proof -
  obtain out d' where run: "complete_job toy_settle plain_crypto [7] (toy_settle_clock 5) toy_completion db_claimed = Inr (Inr out, d')"
    and "\<not> so_idempotent_replay out" using toy_settled by blast
  moreover have "j_reserved_cost_micro j = 2547636" if "j \<in> set (jobs db_claimed)" for j
    using that by (simp add: claimed_tables toy_leased_def toy_job_open)
  ultimately show ?thesis using settlement_pays_frozen_price [OF reachable_sample(3) run] by fastforce
qed

lemma settled_job_final:
  assumes "complete_job env cr key ck cmd d = Inr (Inr out, d')"
  shows "\<exists>job \<in> set (jobs d'). j_id job = cm_job_id cmd \<and> j_status job = Succeeded"
proof (cases rule: complete_job_acknowledged [OF assms])
  case (1 job fp)
  then show ?thesis using fetch_job [OF 1(1)] by blast
next
  case (2 job node m fp billing base)
  obtain hs d5 rc d6 res a where js: "jobs d' = sql_update (\<lambda>j. j_id j = cm_job_id cmd) (\<lambda>j. j\<lparr>j_status := Succeeded, j_result := res,
       j_completed_at := Some (sc_now ck), j_updated_at := sc_now ck\<rparr>) (jobs d6)"
    and rc: "insert_receipt rc d5 = Inr d6"
    and post: "post_settlement env ck (cm_job_id cmd) (j_user_id job) (n_user_id node) (j_reserved_cost_micro job) a d = Inr (hs, d5)"
    using 2(10) by (rule settle_leased_job_inversion) blast
  have "jobs d6 = jobs d" using insert_receipt_frame [OF rc] post_settlement_jobs [OF post] by simp
  then have "job\<lparr>j_status := Succeeded, j_result := res, j_completed_at := Some (sc_now ck), j_updated_at := sc_now ck\<rparr>
      \<in> set (jobs d')"
    using fetch_job [OF 2(1)] by (force simp: js in_set_sql_update)
  then show ?thesis by (rule rev_bexI) (use fetch_job [OF 2(1)] in simp)
qed

text \<open>C4. A job is settled at most once: after a completion was acknowledged, any later completion of the same
  job that is acknowledged, after whatever calls came in between, is a replay: it answers from the stored
  receipt and leaves the whole database as it is.\<close>

theorem settled_at_most_once:
  assumes "reachable w d"
    and "complete_job (wo_settle w) (wo_crypto w) (standard_data_key (wo_config w)) ck cmd d = Inr (Inr out, d1)"
    and "cm_job_id cmd' = cm_job_id cmd"
    and "complete_job env cr key ck' cmd' (run_calls w cs d1) = Inr (Inr out', d2)"
  shows "so_idempotent_replay out' \<and> d2 = run_calls w cs d1"
proof -
  have "handle w (CompleteLeased ck cmd) d = d1" using assms(2) by (simp add: run_tx_def)
  then have r1: "reachable w d1" using reachable.called [OF assms(1)] by metis
  obtain job where job: "job \<in> set (jobs d1)" "j_id job = cm_job_id cmd" "j_status job = Succeeded"
    using settled_job_final [OF assms(2)] by blast
  have later: "job \<in> set (jobs (run_calls w cs d1))"
    using r1 job(1) by (rule finals_along) (simp add: job_active_def job(3))
  have "escrow_ok (run_calls w cs d1)" using reachable_ok [OF reachable_run [OF r1]] by (simp add: money_ok_def)
  then have "distinct (map j_id (jobs (run_calls w cs d1)))"
    by (simp add: escrow_ok_def views_ok_def job_view_def comp_def)
  then have f: "fetch_optional (\<lambda>j. j_id j = cm_job_id cmd') (jobs (run_calls w cs d1)) = Some job"
    using later job(2) assms(3) by (intro fetch_optional_key [where key = j_id]) auto
  show ?thesis
  proof (cases rule: complete_job_acknowledged [OF assms(4)])
    case (1 job' fp)
    then have "so_idempotent_replay out'" unfolding replay_result_def by (elim inversion) auto
    with 1(4) show ?thesis by simp
  next
    case 2
    then show ?thesis using f job(3) by simp
  qed
qed

theorem settled_at_most_once_witness:
  "\<exists>out d1 out'. complete_job toy_settle plain_crypto [7] (toy_settle_clock 5) toy_completion db_claimed = Inr (Inr out, d1) \<and>
     \<not> so_idempotent_replay out \<and>
     complete_job toy_settle plain_crypto [7] (toy_settle_clock 6) toy_completion d1 = Inr (Inr out', d1) \<and>
     so_idempotent_replay out'"
proof -
  obtain out d1 where one: "complete_job toy_settle plain_crypto [7] (toy_settle_clock 5) toy_completion db_claimed = Inr (Inr out, d1)"
    "\<not> so_idempotent_replay out" "settled_tables d1" using toy_settled by blast
  obtain out' where two: "complete_job toy_settle plain_crypto [7] (toy_settle_clock 6) toy_completion d1 = Inr (Inr out', d1)"
    using toy_replayed [OF one(3)] ..
  have w: "wo_settle toy_world = toy_settle" "wo_crypto toy_world = plain_crypto" "standard_data_key (wo_config toy_world) = [7]"
    by (simp_all add: toy_world_def toy_config_def)
  have "so_idempotent_replay out' \<and> d1 = run_calls toy_world [] d1"
    by (rule settled_at_most_once [OF reachable_sample(3), where ck = "toy_settle_clock 5" and cmd = toy_completion and out = out])
      (use one two in \<open>simp_all add: w\<close>)
  with one two show ?thesis by blast
qed

section \<open>Rows\<close>

text \<open>C11. Every reachable database is well formed: no two accounts belong to one user, no two jobs share an
  identifier, every job's owner has an account, every reservation is positive, every account satisfies the
  constraints of its table, and the reserve is not negative.\<close>

theorem reachable_rows_well_formed:
  assumes "reachable w d"
  shows "distinct (map q_user_id (quota_accounts d)) \<and> distinct (map j_id (jobs d)) \<and>
    list_all (\<lambda>j. 0 < sint (j_reserved_cost_micro j) \<and> find_account (j_user_id j) d \<noteq> None) (jobs d) \<and>
    list_all quota_account_check (quota_accounts d) \<and> 0 \<le> sint (ra_balance_micro (reserve_account d))"
proof -
  have ok: "escrow_ok d" using reachable_ok [OF assms] by (simp add: money_ok_def)
  then have "\<forall>j \<in> set (jobs d). 0 < sint (j_reserved_cost_micro j) \<and> j_user_id j \<in> q_user_id ` set (quota_accounts d)"
    by (auto simp: escrow_ok_def views_ok_def job_view_def)
  then have "list_all (\<lambda>j. 0 < sint (j_reserved_cost_micro j) \<and> find_account (j_user_id j) d \<noteq> None) (jobs d)"
    by (fastforce simp: list_all_iff find_account_def fetch_optional_None)
  moreover have "map (fst \<circ> job_view) (jobs d) = map j_id (jobs d)" by (simp add: job_view_def)
  ultimately show ?thesis using ok
    by (simp add: escrow_ok_def views_ok_def accounts_ok_def list_all_iff comp_def job_view_def)
qed

theorem reachable_rows_well_formed_witness:
  "jobs db_created = [toy_job] \<and> find_account (j_user_id toy_job) db_created \<noteq> None"
  using reachable_rows_well_formed [OF reachable_sample(2)] by (simp add: toy_job_open(1))

section \<open>Leases\<close>

text \<open>C8. Leases are exclusive: whoever asks for work, every job whose lease is still running at the time of the claim
  stays exactly as it is, so its holder keeps it. And a claim that is answered with a job has leased a job of the
  table that was queued, waiting for a retry, or leased until a time that has passed, that was due and had attempts
  left: the same job is now leased to the node that asked, as its next attempt, until the time the answer names.\<close>

theorem running_lease_is_exclusive:
  assumes "reachable w d" "claim_job cr cfg ck sel hid prin node inst d = Inr (ans, d')"
  shows "(\<forall>job \<in> set (jobs d). j_status job = Leased \<and> (\<exists>t. j_lease_expires_at job = Some t \<and> tx_now ck < t) \<longrightarrow>
      job \<in> set (jobs d')) \<and>
    (\<forall>c. ans = Inr (OrdinaryClaimed c) \<longrightarrow> (\<exists>before \<in> set (jobs d). \<exists>after \<in> set (jobs d').
      j_id before = cl_job_id c \<and> j_id after = cl_job_id c \<and>
      (j_status before = Queued \<or> j_status before = Retry \<or>
       j_status before = Leased \<and> (\<exists>t. j_lease_expires_at before = Some t \<and> t \<le> tx_now ck)) \<and>
      j_available_at before \<le> tx_now ck \<and> sint (j_attempt_count before) < sint (j_max_attempts before) \<and>
      j_status after = Leased \<and> j_leased_to_node_id after = Some node \<and>
      j_lease_expires_at after = Some (cl_lease_expires_at c) \<and>
      sint (j_attempt_count after) = sint (j_attempt_count before) + 1))"
proof -
  have "distinct (map j_id (jobs d))"
    using reachable_ok [OF assms(1)] by (simp add: money_ok_def escrow_ok_def views_ok_def job_view_def comp_def)
  note claim = claim_keeps_leases [OF assms(2) this]
  have valid: "lease_valid (tx_now ck) job" if "\<exists>t. j_lease_expires_at job = Some t \<and> tx_now ck < t" for job
    using that by (auto simp: lease_valid_def is_some_and_def)
  show ?thesis
  proof (intro conjI allI impI)
    show "\<forall>job \<in> set (jobs d). j_status job = Leased \<and> (\<exists>t. j_lease_expires_at job = Some t \<and> tx_now ck < t) \<longrightarrow> job \<in> set (jobs d')"
      using claim valid by blast
    fix c assume "ans = Inr (OrdinaryClaimed c)"
    with claim obtain before after where ba: "before \<in> set (jobs d)" "after \<in> set (jobs d')" "j_id before = cl_job_id c"
      and new: "newly_leased (tx_now ck) node (cl_lease_expires_at c) before after" by blast
    show "\<exists>before \<in> set (jobs d). \<exists>after \<in> set (jobs d').
      j_id before = cl_job_id c \<and> j_id after = cl_job_id c \<and>
      (j_status before = Queued \<or> j_status before = Retry \<or>
       j_status before = Leased \<and> (\<exists>t. j_lease_expires_at before = Some t \<and> t \<le> tx_now ck)) \<and>
      j_available_at before \<le> tx_now ck \<and> sint (j_attempt_count before) < sint (j_max_attempts before) \<and>
      j_status after = Leased \<and> j_leased_to_node_id after = Some node \<and>
      j_lease_expires_at after = Some (cl_lease_expires_at c) \<and>
      sint (j_attempt_count after) = sint (j_attempt_count before) + 1"
      using new ba(3) unfolding newly_leased_def by (intro bexI [OF _ ba(1)] bexI [OF _ ba(2)]) simp
  qed
qed

lemma toy_idle_claim:
  "\<exists>ans d'. claim_job plain_crypto toy_config (toy_clock 5) (\<lambda>_ _. None) (\<lambda>h r. Inr (None, h, r)) worker_login 20 40 db_claimed =
     Inr (ans :: unit ClaimAnswer api, d')"
proof -
  have rest: "hidden_work db_claimed = []" "node_metrics db_claimed = []" "node_policies db_claimed = tb_policies toy_tables"
    by (simp_all add: db_claimed_def created_tables)
  have idle: "unpublish_idle (toy_now + 5) (\<lambda>_. True) db_claimed = db_claimed"
    by (simp add: unpublish_idle_def claimed_tables toy_tables_def sql_update_def db_claimed_def created_tables)
  have reap: "reap_expired_terminal_leases (toy_now + 5) db_claimed = Inr db_claimed"
    "reap_invalid_regulated_jobs (toy_now + 5) f db_claimed = Inr db_claimed" for f
    by (simp_all add: reap_expired_terminal_leases_def claimed_tables expired_terminal_def toy_leased_def toy_job_def idle
        reap_invalid_regulated_jobs_def regulated_invalid_def lease_expired_def toy_expiry_def)
  have one: "evaluate_policy \<lparr>NodePolicy.reject_tags = btree_set [], max_concurrent = 4, gpu_temp_limit_c = None,
       vram_reserve_mib = 0, resume_temp_hysteresis_c = 5\<rparr>
     \<lparr>task_tags = btree_set [], current_concurrent = 1, gpu_temp_c = None, available_vram_mib = None,
       paused_for_temperature = False\<rparr> = Inr (Accept False)"
    by (simp add: evaluate_policy_def NodePolicy_validate_def btree_set_def normalize_tags_def temperature_step_def
        vram_step_def decided_def word_le_nat_alt)
  have pol: "enforce_current_policy (toy_now + 5) 20 \<lparr>p_node_id = 20, p_reject_tags = [], p_max_concurrent = 4,
      p_gpu_temp_limit_c = None, p_vram_reserve_mib = 0\<rparr> None [] db_claimed = Inr ()"
    by (simp add: enforce_current_policy_def Let_def accounting_policy_def u32_try_from_i32_def u64_try_from_i64_def
        active_leases_def latest_metric_def claimed_tables rows_affected_def toy_leased_def toy_job_def u32_try_from_nat_def one rest
        lease_valid_def toy_expiry_def)
  show ?thesis
    by (simp add: claim_job_def claimed_tables rest toy_tables_def fetch_optional_def require_node_device_binding_def
        worker_login_def toy_clock_def reap pol claim_candidate_def commit_def del: lit_simps cong: and_then_weak)
qed

theorem running_lease_is_exclusive_witness:
  "(\<exists>ans d'. claim_job plain_crypto toy_config (toy_clock 5) (\<lambda>_ _. None) (\<lambda>h r. Inr (None, h, r)) worker_login 20 40 db_claimed =
      Inr (ans :: unit ClaimAnswer api, d') \<and> toy_leased \<in> set (jobs d')) \<and>
   (\<exists>c d'. claim_job plain_crypto toy_config (toy_clock 4) (\<lambda>_ _. Some (20, 40)) (\<lambda>h r. Inr (None, h, r)) worker_login 20 40
      db_created = Inr (Inr (OrdinaryClaimed c :: unit ClaimAnswer), d') \<and>
      j_status toy_job = Queued \<and> cl_job_id c = j_id toy_job \<and>
      list_ex (\<lambda>j. j_id j = j_id toy_job \<and> j_status j = Leased \<and> j_leased_to_node_id j = Some 20) (jobs d'))"
proof
  obtain ans and d' where claim: "claim_job plain_crypto toy_config (toy_clock 5) (\<lambda>_ _. None) (\<lambda>h r. Inr (None, h, r)) worker_login 20 40
      db_claimed = Inr (ans :: unit ClaimAnswer api, d')" using toy_idle_claim by blast
  have "toy_leased \<in> set (jobs db_claimed)" "j_status toy_leased = Leased"
    "\<exists>t. j_lease_expires_at toy_leased = Some t \<and> tx_now (toy_clock 5) < t"
    by (simp_all add: claimed_tables toy_leased_def toy_clock_def toy_expiry_def)
  with running_lease_is_exclusive [OF reachable_sample(3) claim] claim
  show "\<exists>ans d'. claim_job plain_crypto toy_config (toy_clock 5) (\<lambda>_ _. None) (\<lambda>h r. Inr (None, h, r)) worker_login 20 40 db_claimed =
      Inr (ans :: unit ClaimAnswer api, d') \<and> toy_leased \<in> set (jobs d')" by blast
next
  obtain c where claim: "claim_job plain_crypto toy_config (toy_clock 4) (\<lambda>_ _. Some (20, 40)) (\<lambda>h r. Inr (None, h, r)) worker_login 20 40
      db_created = Inr (Inr (OrdinaryClaimed c :: unit ClaimAnswer), db_claimed)" using toy_claim by blast
  have q: "j_status toy_job = Queued" by (simp add: toy_job_def)
  from running_lease_is_exclusive [OF reachable_sample(2) claim] obtain after where
    "cl_job_id c = j_id toy_job" "after \<in> set (jobs db_claimed)" "j_id after = j_id toy_job" "j_status after = Leased"
    "j_leased_to_node_id after = Some 20" unfolding toy_job_open(1) by auto
  with claim q show "\<exists>c d'. claim_job plain_crypto toy_config (toy_clock 4) (\<lambda>_ _. Some (20, 40)) (\<lambda>h r. Inr (None, h, r)) worker_login 20 40
      db_created = Inr (Inr (OrdinaryClaimed c :: unit ClaimAnswer), d') \<and>
      j_status toy_job = Queued \<and> cl_job_id c = j_id toy_job \<and>
      list_ex (\<lambda>j. j_id j = j_id toy_job \<and> j_status j = Leased \<and> j_leased_to_node_id j = Some 20) (jobs d')"
    by (auto simp: list_ex_iff)
qed

section \<open>Every priced job pays\<close>

lemma quote_base_at_least:
  assumes "quote_server_reference_upper_bound p t = Inr q"
  shows "3 \<le> micro (quote_base_cost q)"
proof -
  have t: "0 < sint t" and signs: "profile_signs p" and base: "micro (quote_base_cost q) = spec_base_cost p (sint t)"
    using assms by (auto simp: quote_eq_Inr profile_validate_iff)
  have "0 < ceil_div (sint t * sint (gpu_time_us_per_1k_tokens p)) 1000"
    using t signs by (intro ceil_div_pos) (auto simp: profile_signs_def)
  then have time: "0 < spec_gpu_time p (sint t)" using signs by (auto simp: spec_gpu_time_def profile_signs_def)
  then have "0 < spec_vram p (sint t)" using signs by (auto simp: spec_vram_def profile_signs_def)
  then have "0 < spec_vram_cost p (sint t)" using signs
    unfolding spec_vram_cost_def by (intro ceil_div_pos) (auto simp: profile_signs_def)
  moreover have "0 < spec_gpu_cost p (sint t)" using time signs
    unfolding spec_gpu_cost_def by (intro ceil_div_pos) (auto simp: profile_signs_def)
  moreover have "0 < spec_token_cost p (sint t)" using t signs
    unfolding spec_token_cost_def by (intro ceil_div_pos) (auto simp: profile_signs_def)
  ultimately show ?thesis by (simp add: base spec_base_cost_def)
qed

lemma shares_positive:
  assumes "3 \<le> base"
  shows "3 \<le> spec_deduction base tier" "0 < spec_share (spec_deduction base tier) 800 trust"
    "spec_share (spec_deduction base tier) 800 trust < spec_deduction base tier"
proof -
  have "\<not> spec_deduction base tier \<le> 2"
    using assms by (cases tier) (simp_all add: spec_deduction_def ceil_div_least tier_milli_def)
  then show d: "3 \<le> spec_deduction base tier" by simp
  then show "0 < spec_share (spec_deduction base tier) 800 trust"
    "spec_share (spec_deduction base tier) 800 trust < spec_deduction base tier"
    by (cases trust; simp add: spec_share_def trust_milli_def pos_imp_zdiv_pos_iff div_less_iff_less_mult; fail)+
qed

text \<open>C10. A settlement never runs into the ledger's ban on zero entries: whatever billing profile froze the price of
  a job, whatever the model's tier and the node's trust, the charge of a job with a valid frozen snapshot is
  at least three micro-quota, the node is paid at least one and the reserve receives at least one.\<close>

theorem priced_job_pays_node:
  assumes "JobBillingSnapshot_from_job_row job = Inr b"
    and "settlement_amounts_of env consumer worker key tier trust (base_cost_micro b) r = Inr a"
  shows "3 \<le> sint (sa_deduction a) \<and> 0 < sint (sa_node_quota a) \<and> 0 < sint (sa_reserve a)"
proof -
  obtain q t where eq: "base_cost_micro b = as_i64 (quote_base_cost q)" and t: "quote_server_reference_upper_bound (bl_profile b) t = Inr q"
    using assms(1) unfolding JobBillingSnapshot_from_job_row_def validate_frozen_quote_def maximum_reservation_quote_def
    by (elim inversion) (force simp: map_err_eq_Inr result_simps quote_matches_columns_def split: if_splits)
  have "3 \<le> sint (base_cost_micro b)"
    using quote_base_at_least [OF t] by (simp add: eq micro_def)
  obtain m s where "MicroQuota_new (base_cost_micro b) = Inr m" "Settlement_calculate m tier (settlement_trust_class trust) = Inr s"
    and a: "sa_deduction a = as_i64 (user_deduction s)" "sa_node_quota a = as_i64 (node_spendable_quota s)"
      "sa_reserve a = as_i64 (reserve_inflow s)"
    using assms(2) unfolding settlement_amounts_of_def Let_def by (elim inversion) (auto simp: map_err_eq_Inr)
  moreover from this have "mq_ok m" "micro m = sint (base_cost_micro b)" by (auto simp: result_simps mq_ok_def micro_def)
  ultimately show ?thesis
    using shares_positive [OF \<open>3 \<le> sint (base_cost_micro b)\<close>, of tier] by (simp add: Settlement_calculate_eq_Inr micro_def)
qed

theorem priced_job_pays_node_witness:
  "3 \<le> sint (sa_deduction toy_amounts) \<and> 0 < sint (sa_node_quota toy_amounts) \<and> 0 < sint (sa_reserve toy_amounts)"
proof -
  have "sint (as_i64 (quote_base_cost toy_quote_of)) = sint (1698424 :: i64)" unfolding toy_billing(3) by simp
  then have "base_cost_micro (billing_columns toy_snapshot) = 1698424"
    by (simp only: signed_word_eqI billing_columns_def toy_snapshot_def BillingSnapshot.simps JobBillingSnapshot.simps)
  from priced_job_pays_node [OF toy_billing_row, unfolded this, OF toy_priced] show ?thesis .
qed

end
