(* ===== verification/Stream.thy ===== *)
theory Stream
  imports Create
begin

text \<open>
  Streamed jobs of \<open>routes/jobs.rs\<close>: \<open>append_job_stream_event\<close> with its replay and content checks,
  \<open>read_job_stream_authenticated\<close>, and the checks of \<open>job_result\<close> in front of the settlement
  (\<open>validate_job_result\<close>, \<open>validate_standard_result\<close>, \<open>validate_reported_usage\<close>). The append-only table
  \<open>job_stream_events\<close> of migration 0035 stands beside the rest of the database, which these handlers only
  read. The methods of \<open>serde_json::Value\<close> the code calls, and the two response types it parses, are
  parameters. The transcript of an attempt is the list of the decrypted data events; appending an event
  adds its text to the end, and reading from a cursor gives the next piece of it.
\<close>

section \<open>The table\<close>

record StreamEvent =
  se_job_id :: Uuid
  se_attempt_number :: i32
  se_sequence_number :: i32
  se_idempotency_key :: rstring
  se_event_kind :: JobStreamEventKind
  se_event_ciphertext :: "rstring option"
  se_storage_version :: "i16 option"
  se_plaintext_bytes :: i32

definition base64url_char :: "nat \<Rightarrow> bool" where
  "base64url_char c \<longleftrightarrow> 65 \<le> c \<and> c \<le> 90 \<or> 97 \<le> c \<and> c \<le> 122 \<or> 48 \<le> c \<and> c \<le> 57 \<or> c = 95 \<or> c = 45"

definition stream_event_check :: "StreamEvent \<Rightarrow> bool" where
  "stream_event_check e \<longleftrightarrow>
     0 < sint (se_attempt_number e) \<and> 0 \<le> sint (se_sequence_number e) \<and> sint (se_sequence_number e) < 65536 \<and>
     1 \<le> length (se_idempotency_key e) \<and> length (se_idempotency_key e) \<le> 200 \<and>
     0 \<le> sint (se_plaintext_bytes e) \<and> sint (se_plaintext_bytes e) \<le> 65536 \<and>
     (case se_event_kind e of
        Data \<Rightarrow> is_some_and (se_event_ciphertext e) (\<lambda>c. prefix ENVELOPE_PREFIX c \<and>
            drop (length ENVELOPE_PREFIX) c \<noteq> [] \<and> list_all base64url_char (drop (length ENVELOPE_PREFIX) c)) \<and>
          se_storage_version e = Some 1 \<and> 0 < sint (se_plaintext_bytes e)
      | UpstreamDone \<Rightarrow> se_event_ciphertext e = None \<and> se_storage_version e = None \<and> se_plaintext_bytes e = 0)"

definition insert_stream_event :: "StreamEvent \<Rightarrow> StreamEvent list \<Rightarrow> StreamEvent list api" where
  "insert_stream_event e es =
     (if \<not> stream_event_check e \<or>
         list_ex (\<lambda>x. se_job_id x = se_job_id e \<and>
           (se_attempt_number x = se_attempt_number e \<and> se_sequence_number x = se_sequence_number e \<or>
            se_idempotency_key x = se_idempotency_key e)) es
      then Inl InternalError
      else Inr (es @ [e]))"

definition events_of :: "Uuid \<Rightarrow> i32 \<Rightarrow> StreamEvent list \<Rightarrow> StreamEvent list" where
  "events_of job_id attempt es = filter (\<lambda>e. se_job_id e = job_id \<and> se_attempt_number e = attempt) es"

section \<open>The content of an event\<close>

text \<open>The methods of \<open>serde_json::Value\<close>; \<open>jv_object\<close> is \<open>as_object\<close> followed by \<open>get\<close>.\<close>

record 'v json_value =
  jv_object :: "'v \<Rightarrow> (rstring \<Rightarrow> 'v option) option"
  jv_array :: "'v \<Rightarrow> 'v list option"
  jv_str :: "'v \<Rightarrow> rstring option"
  jv_i64 :: "'v \<Rightarrow> i64 option"
  jv_u64 :: "'v \<Rightarrow> u64 option"
  jv_is_null :: "'v \<Rightarrow> bool"
  jv_is_string :: "'v \<Rightarrow> bool"

text \<open>\<open>Value::get\<close> with a string: \<open>None\<close> on anything but an object.\<close>

definition jv_get :: "'v json_value \<Rightarrow> 'v \<Rightarrow> rstring \<Rightarrow> 'v option" where
  "jv_get jv v k = Option.bind (jv_object jv v) (\<lambda>get. get k)"

definition null_or_string :: "'v json_value \<Rightarrow> 'v option \<Rightarrow> bool" where
  "null_or_string jv m = (case m of None \<Rightarrow> True | Some v \<Rightarrow> jv_is_null jv v \<or> jv_is_string jv v)"

abbreviation invalid_stream_event :: ApiError where
  "invalid_stream_event \<equiv> BadRequest ''invalid_stream_event''"

definition check_choice :: "'v json_value \<Rightarrow> rstring \<Rightarrow> u64 \<Rightarrow> 'v \<Rightarrow> unit api" where
  "check_choice jv payload_endpoint expected_choices v =
     and_then (ok_or (jv_object jv v) invalid_stream_event) (\<lambda>choice.
     and_then (ok_or (Option.bind (Option.bind (choice (lit ''index'')) (jv_u64 jv))
        (\<lambda>i. if i < expected_choices then Some i else None)) invalid_stream_event) (\<lambda>_.
     if \<not> null_or_string jv (choice (lit ''finish_reason'')) then Inl invalid_stream_event
     else if payload_endpoint = OPENAI_CHAT_COMPLETIONS then
       and_then (ok_or (Option.bind (choice (lit ''delta'')) (jv_object jv)) invalid_stream_event) (\<lambda>delta.
         if list_all (\<lambda>field. null_or_string jv (delta field)) (map lit [''content'', ''reasoning_content'', ''role''])
         then Inr () else Inl invalid_stream_event)
     else if payload_endpoint = OPENAI_COMPLETIONS then
       (if is_some_and (choice (lit ''text'')) (jv_is_string jv) then Inr () else Inl invalid_stream_event)
     else Inl InternalError))"

definition check_usage :: "'v json_value \<Rightarrow> 'v \<Rightarrow> unit api" where
  "check_usage jv v =
     and_then (ok_or (jv_object jv v) invalid_stream_event) (\<lambda>usage.
     and_then (ok_or (Option.bind (usage (lit ''prompt_tokens'')) (jv_u64 jv)) invalid_stream_event) (\<lambda>prompt.
     and_then (ok_or (Option.bind (usage (lit ''completion_tokens'')) (jv_u64 jv)) invalid_stream_event) (\<lambda>completion.
     and_then (ok_or (Option.bind (usage (lit ''total_tokens'')) (jv_u64 jv)) invalid_stream_event) (\<lambda>total.
       if unat prompt + unat completion = unat total then Inr () else Inl invalid_stream_event))))"

fun try_all :: "('a \<Rightarrow> unit api) \<Rightarrow> 'a list \<Rightarrow> unit api" where
  "try_all f [] = Inr ()"
| "try_all f (x # xs) = and_then (f x) (\<lambda>_. try_all f xs)"

definition validate_standard_stream_data ::
    "'v serde_json \<Rightarrow> 'v json_value \<Rightarrow> 'v StandardJobPayload \<Rightarrow> rstring \<Rightarrow> rstring \<Rightarrow> unit api" where
  "validate_standard_stream_data js jv payload authorized_model data =
     and_then (ok_or (value_from_str js data) invalid_stream_event) (\<lambda>v.
     and_then (ok_or (jv_object jv v) invalid_stream_event) (\<lambda>object.
     and_then (if endpoint payload = OPENAI_CHAT_COMPLETIONS then Inr (lit ''chat.completion.chunk'')
               else if endpoint payload = OPENAI_COMPLETIONS then Inr (lit ''text_completion'')
               else Inl InternalError) (\<lambda>expected_object.
     if Option.bind (object (lit ''object'')) (jv_str jv) \<noteq> Some expected_object \<or>
        Option.bind (object (lit ''model'')) (jv_str jv) \<noteq> Some authorized_model \<or>
        \<not> is_some_and (Option.bind (object (lit ''id'')) (jv_str jv)) (\<lambda>s. s \<noteq> [] \<and> str_len s \<le> 256) \<or>
        Option.bind (object (lit ''created'')) (jv_i64 jv) = None
     then Inl invalid_stream_event
     else
     let expected_choices = unwrap_or (Option.bind (jv_get jv (request payload) (lit ''n'')) (jv_u64 jv)) 1 in
     and_then (ok_or (Option.bind (object (lit ''choices'')) (jv_array jv)) invalid_stream_event) (\<lambda>choices.
     if length choices > unat expected_choices then Inl invalid_stream_event
     else
     and_then (try_all (check_choice jv (endpoint payload) expected_choices) choices) (\<lambda>_.
       case object (lit ''usage'') of None \<Rightarrow> Inr () | Some usage \<Rightarrow> check_usage jv usage)))))"

section \<open>Appending\<close>

definition decode_stored_standard_payload ::
    "'v wire_env \<Rightarrow> crypto \<Rightarrow> bytes \<Rightarrow> Job \<Rightarrow> 'v StandardJobPayload api" where
  "decode_stored_standard_payload w cr key job =
     (if rq_standard_payload_storage_version (j_request job) \<noteq> Some STORAGE_VERSION then Inl InternalError
      else
      and_then (ok_or (decrypt_from_storage cr key (j_id job) Payload (rq_encrypted_payload (j_request job)))
        InternalError) (\<lambda>wire_bytes.
      and_then (ok_or (from_utf8 wire_bytes) InternalError) (\<lambda>wire_text.
      and_then (decode_standard_payload w (rq_payload_encoding (j_request job)) wire_text) (\<lambda>decoded.
        ok_or (payload_from_slice w decoded) (BadRequest ''invalid_standard_payload'')))))"

definition validate_stream_event_replay ::
    "crypto \<Rightarrow> bytes \<Rightarrow> Uuid \<Rightarrow> JobStreamEventRequest \<Rightarrow> StreamEvent \<Rightarrow> unit api" where
  "validate_stream_event_replay cr key job_id req existing =
     (if se_attempt_number existing \<noteq> ev_attempt req \<or> se_sequence_number existing \<noteq> ev_sequence req \<or>
         se_idempotency_key existing \<noteq> ev_idempotency_key req \<or> se_event_kind existing \<noteq> ev_kind req
      then Inl (Conflict ''idempotency_binding_mismatch'')
      else case ev_kind req of
        Data \<Rightarrow>
          if se_storage_version existing \<noteq> Some STORAGE_VERSION then Inl InternalError
          else
          and_then (ok_or (se_event_ciphertext existing) InternalError) (\<lambda>ciphertext.
          and_then (ok_or (decrypt_from_storage cr key job_id (StreamEvent (ev_attempt req) (ev_sequence req)) ciphertext)
            InternalError) (\<lambda>plaintext.
          and_then (ok_or (event_data req) InternalError) (\<lambda>supplied.
          if plaintext \<noteq> utf8 supplied then Inl (Conflict ''idempotency_binding_mismatch'')
          else
          and_then (ok_or (i32_try_from (str_len supplied)) InternalError) (\<lambda>n.
            if se_plaintext_bytes existing \<noteq> n then Inl (Conflict ''idempotency_binding_mismatch'') else Inr ()))))
      | UpstreamDone \<Rightarrow>
          if se_event_ciphertext existing \<noteq> None \<or> se_storage_version existing \<noteq> None \<or>
             se_plaintext_bytes existing \<noteq> 0
          then Inl InternalError else Inr ())"

record JobStreamEventResponse =
  sr_job_id :: Uuid
  sr_attempt :: i32
  sr_sequence :: i32
  sr_idempotent_replay :: bool

definition streamed_bytes :: "StreamEvent list \<Rightarrow> int" where
  "streamed_bytes es = sum_list (map (sint \<circ> se_plaintext_bytes) es)"

text \<open>The event to store: the two branches of the \<open>match\<close> on the kind.\<close>

definition stream_event_row ::
    "'v wire_env \<Rightarrow> 'v json_value \<Rightarrow> crypto \<Rightarrow> bytes \<Rightarrow> bytes \<Rightarrow> Uuid \<Rightarrow> JobStreamEventRequest \<Rightarrow>
     'v StandardJobPayload \<Rightarrow> StandardJobLimits \<Rightarrow> StreamEvent list \<Rightarrow> StreamEvent api" where
  "stream_event_row w jv cr key nonce job_id req payload limits earlier =
     (let row = \<lparr>se_job_id = job_id, se_attempt_number = ev_attempt req, se_sequence_number = ev_sequence req,
          se_idempotency_key = ev_idempotency_key req, se_event_kind = ev_kind req, se_event_ciphertext = None,
          se_storage_version = None, se_plaintext_bytes = 0\<rparr> in
      case ev_kind req of
        Data \<Rightarrow>
          and_then (ok_or (event_data req) InternalError) (\<lambda>data.
          and_then (validate_standard_stream_data (wire_json w) jv payload (lim_model limits) data) (\<lambda>_.
          and_then (ok_or (i32_try_from (str_len data)) InternalError) (\<lambda>byte_count.
          if \<not> is_some_and (s_checked_add (word_of_int (streamed_bytes earlier)) (s_from byte_count) :: i64 option)
               (\<lambda>t. sint t \<le> sint MAX_JOB_STREAM_TOTAL_BYTES)
          then Inl (BadRequest ''stream_too_large'')
          else
          and_then (ok_or (encrypt_for_storage cr key nonce job_id (StreamEvent (ev_attempt req) (ev_sequence req))
            (utf8 data)) InternalError) (\<lambda>stored.
            Inr (row\<lparr>se_event_ciphertext := Some stored, se_storage_version := Some STORAGE_VERSION,
              se_plaintext_bytes := byte_count\<rparr>)))))
      | UpstreamDone \<Rightarrow> if earlier = [] then Inl invalid_stream_event else Inr row)"

text \<open>Behind the checks of the lease: the replay of an event that is already there, or the next row.\<close>

definition record_stream_event ::
    "'v wire_env \<Rightarrow> 'v json_value \<Rightarrow> crypto \<Rightarrow> bytes \<Rightarrow> bytes \<Rightarrow> Uuid \<Rightarrow> JobStreamEventRequest \<Rightarrow>
     'v StandardJobPayload \<Rightarrow> StandardJobLimits \<Rightarrow> StreamEvent list \<Rightarrow> (JobStreamEventResponse \<times> StreamEvent list) api" where
  "record_stream_event w jv cr key nonce job_id req payload limits es =
     (let response = \<lparr>sr_job_id = job_id, sr_attempt = ev_attempt req, sr_sequence = ev_sequence req,
           sr_idempotent_replay = False\<rparr>;
         earlier = events_of job_id (ev_attempt req) es in
     case fetch_optional (\<lambda>e. se_job_id e = job_id \<and>
         (se_attempt_number e = ev_attempt req \<and> se_sequence_number e = ev_sequence req \<or>
          se_idempotency_key e = ev_idempotency_key req)) es of
       Some existing \<Rightarrow>
         and_then (validate_stream_event_replay cr key job_id req existing) (\<lambda>_.
           Inr (response\<lparr>sr_idempotent_replay := True\<rparr>, es))
     | None \<Rightarrow>
         if int (length earlier) \<noteq> sint (ev_sequence req) \<or> int (length earlier) \<ge> sint MAX_JOB_STREAM_EVENTS
         then Inl (Conflict ''stream_sequence_mismatch'')
         else if list_ex (\<lambda>e. se_event_kind e = UpstreamDone) earlier then Inl (Conflict ''stream_already_done'')
         else
         and_then (stream_event_row w jv cr key nonce job_id req payload limits earlier) (\<lambda>row.
         and_then (insert_stream_event row es) (\<lambda>es. Inr (response, es))))"

text \<open>The checks of the lease: whose it is, that it runs, and that the job asked for a stream.\<close>

definition authorize_stream_event ::
    "'v wire_env \<Rightarrow> crypto \<Rightarrow> bytes \<Rightarrow> OffsetDateTime \<Rightarrow> Principal \<Rightarrow> Uuid \<Rightarrow> JobStreamEventRequest \<Rightarrow> 'x db \<Rightarrow>
     ('v StandardJobPayload \<times> StandardJobLimits) api" where
  "authorize_stream_event w cr key now prin job_id req d =
     and_then (verify_node_owner prin (ev_node_id req) d) (\<lambda>_.
     and_then (map_err (\<lambda>_. invalid_stream_event) (JobStreamEventRequest_validate (wire_json w) req)) (\<lambda>_.
     and_then (ok_or (fetch_optional (\<lambda>j. j_id j = job_id) (jobs d)) NotFound) (\<lambda>job.
     and_then (ok_or (fetch_optional (\<lambda>m. m_id m = j_model_id job) (models d)) NotFound) (\<lambda>m.
     and_then (ok_or (fetch_optional (\<lambda>n. Some (n_id n) = j_leased_to_node_id job) (nodes d)) NotFound) (\<lambda>node.
     and_then (ok_or (fetch_optional (\<lambda>a. at_job_id a = job_id \<and> at_attempt_number a = j_attempt_count job)
        (job_attempts d)) NotFound) (\<lambda>ja.
     if n_user_id node \<noteq> pr_user_id prin \<or> j_leased_to_node_id job \<noteq> Some (ev_node_id req) \<or>
        \<not> exact_claim_device_binding prin (Some (n_user_id node)) (at_claim_device_key_id ja)
          (at_claim_device_binding_version ja)
     then Inl Forbidden
     else if j_status job \<noteq> Leased \<or> \<not> is_some_and (j_lease_expires_at job) (\<lambda>t. now < t) \<or>
        j_attempt_count job \<noteq> ev_attempt req
     then Inl (Conflict ''stream_lease_invalid'')
     else if j_confidentiality job \<noteq> StandardMode then Inl (BadRequest ''stream_not_supported'')
     else
     and_then (decode_stored_standard_payload w cr key job) (\<lambda>payload.
     and_then (map_err (\<lambda>_. BadRequest ''invalid_standard_payload'') (validated_limits (wire_json w) payload)) (\<lambda>limits.
     if \<not> lim_stream limits \<or> j_max_attempts job \<noteq> 1 then Inl (BadRequest ''stream_not_requested'')
     else
     Inr (payload, limits)))))))))"

definition append_job_stream_event ::
    "'v wire_env \<Rightarrow> 'v json_value \<Rightarrow> crypto \<Rightarrow> bytes \<Rightarrow> bytes \<Rightarrow> OffsetDateTime \<Rightarrow> Principal \<Rightarrow> Uuid \<Rightarrow>
     JobStreamEventRequest \<Rightarrow> 'x db \<Rightarrow> StreamEvent list \<Rightarrow> (JobStreamEventResponse \<times> StreamEvent list) api" where
  "append_job_stream_event w jv cr key nonce now prin job_id req d es =
     and_then (authorize_stream_event w cr key now prin job_id req d) (\<lambda>(payload, limits).
       record_stream_event w jv cr key nonce job_id req payload limits es)"

section \<open>Reading\<close>

record JobStreamEvent =
  js_sequence :: i32
  js_event_data :: rstring

record JobStreamReadResponse =
  rd_job_id :: Uuid
  rd_status :: JobStatus
  rd_attempt :: i32
  rd_events :: "JobStreamEvent list"
  rd_next_sequence :: i32
  rd_has_more :: bool
  rd_upstream_done :: bool
  rd_error_class :: "JobErrorClass option"
  rd_error_message :: "rstring option"

definition read_event ::
    "'v wire_env \<Rightarrow> 'v json_value \<Rightarrow> crypto \<Rightarrow> bytes \<Rightarrow> Uuid \<Rightarrow> i32 \<Rightarrow> 'v StandardJobPayload \<Rightarrow>
     StandardJobLimits \<Rightarrow> StreamEvent \<Rightarrow> JobStreamEvent api" where
  "read_event w jv cr key job_id attempt payload limits row =
     (if se_storage_version row \<noteq> Some STORAGE_VERSION \<or> se_event_ciphertext row = None then Inl InternalError
      else
      and_then (ok_or (se_event_ciphertext row) InternalError) (\<lambda>ciphertext.
      and_then (ok_or (decrypt_from_storage cr key job_id (StreamEvent attempt (se_sequence_number row)) ciphertext)
        InternalError) (\<lambda>plaintext.
      and_then (ok_or (i32_try_from (length plaintext)) InternalError) (\<lambda>n.
      if n \<noteq> se_plaintext_bytes row then Inl InternalError
      else
      and_then (ok_or (from_utf8 plaintext) InternalError) (\<lambda>data.
      and_then (validate_standard_stream_data (wire_json w) jv payload (lim_model limits) data) (\<lambda>_.
        Inr \<lparr>js_sequence = se_sequence_number row, js_event_data = data\<rparr>))))))"

text \<open>The loop over the rows, with the two variables it updates as its result.\<close>

fun read_rows :: "(StreamEvent \<Rightarrow> JobStreamEvent api) \<Rightarrow> i32 \<Rightarrow> StreamEvent list \<Rightarrow> (JobStreamEvent list \<times> i32) api" where
  "read_rows read next_sequence [] = Inr ([], next_sequence)"
| "read_rows read next_sequence (row # rows) =
     and_then (read row) (\<lambda>event.
     and_then (ok_or (s_checked_add (se_sequence_number row) 1) InternalError) (\<lambda>next.
     and_then (read_rows read next rows) (\<lambda>(events, n). Inr (event # events, n))))"

definition latest_attempt :: "Uuid \<Rightarrow> 'x db \<Rightarrow> JobAttempt option" where
  "latest_attempt job_id d =
     (case sort_key (\<lambda>a. - sint (at_attempt_number a)) (filter (\<lambda>a. at_job_id a = job_id) (job_attempts d)) of
        [] \<Rightarrow> None | a # _ \<Rightarrow> Some a)"

definition stream_page :: "Uuid \<Rightarrow> i32 \<Rightarrow> i32 \<Rightarrow> i32 \<Rightarrow> StreamEvent list \<Rightarrow> StreamEvent list" where
  "stream_page job_id attempt from_sequence limit es =
     take (nat (sint limit)) (sort_key (\<lambda>e. sint (se_sequence_number e))
       (filter (\<lambda>e. se_event_kind e = Data \<and> sint from_sequence \<le> sint (se_sequence_number e))
         (events_of job_id attempt es)))"

definition read_job_stream_authenticated ::
    "'v wire_env \<Rightarrow> 'v json_value \<Rightarrow> crypto \<Rightarrow> bytes \<Rightarrow> Principal \<Rightarrow> Uuid \<Rightarrow> i32 \<Rightarrow> i32 \<Rightarrow>
     'x db \<Rightarrow> StreamEvent list \<Rightarrow> JobStreamReadResponse api" where
  "read_job_stream_authenticated w jv cr key prin job_id from_sequence limit d es =
     and_then (ok_or (fetch_optional (\<lambda>j. j_id j = job_id) (jobs d)) NotFound) (\<lambda>job.
     and_then (ok_or (fetch_optional (\<lambda>m. m_id m = j_model_id job) (models d)) NotFound) (\<lambda>m.
     if j_user_id job \<noteq> pr_user_id prin then Inl Forbidden
     else if j_confidentiality job \<noteq> StandardMode then Inl (BadRequest ''stream_not_supported'')
     else
     and_then (decode_stored_standard_payload w cr key job) (\<lambda>payload.
     and_then (map_err (\<lambda>_. BadRequest ''invalid_standard_payload'') (validated_limits (wire_json w) payload)) (\<lambda>limits.
     if \<not> lim_stream limits \<or> j_max_attempts job \<noteq> 1 then Inl (BadRequest ''stream_not_requested'')
     else
     let attempt = j_attempt_count job; started = (0 < sint attempt); rows_of_attempt = events_of job_id attempt es in
     and_then (read_rows (read_event w jv cr key job_id attempt payload limits) from_sequence
        (if started then stream_page job_id attempt from_sequence limit es else [])) (\<lambda>(events, next_sequence).
     let has_more = (started \<and> list_ex (\<lambda>e. se_event_kind e = Data \<and>
           sint next_sequence \<le> sint (se_sequence_number e)) rows_of_attempt);
         upstream_done = (started \<and> list_ex (\<lambda>e. se_event_kind e = UpstreamDone) rows_of_attempt) in
     if j_status job = Succeeded \<and> \<not> upstream_done then Inl InternalError
     else
       Inr \<lparr>rd_job_id = job_id, rd_status = j_status job, rd_attempt = attempt, rd_events = events,
         rd_next_sequence = next_sequence, rd_has_more = has_more, rd_upstream_done = upstream_done,
         rd_error_class = stable_job_error_class (Option.bind (latest_attempt job_id d) at_error_class),
         rd_error_message = Option.bind (latest_attempt job_id d) at_error_message\<rparr>)))))"

definition get_job_stream ::
    "'v wire_env \<Rightarrow> 'v json_value \<Rightarrow> crypto \<Rightarrow> bytes \<Rightarrow> Principal \<Rightarrow> Uuid \<Rightarrow> i32 option \<Rightarrow> i32 option \<Rightarrow>
     'x db \<Rightarrow> StreamEvent list \<Rightarrow> JobStreamReadResponse api" where
  "get_job_stream w jv cr key prin job_id from_query limit_query d es =
     (let from_sequence = unwrap_or from_query 0; limit = unwrap_or limit_query 8 in
      if \<not> (0 \<le> sint from_sequence \<and> sint from_sequence \<le> sint MAX_JOB_STREAM_EVENTS)
      then Inl (BadRequest ''invalid_stream_cursor'')
      else if \<not> (1 \<le> sint limit \<and> sint limit \<le> 32) then Inl (BadRequest ''invalid_stream_cursor'')
      else read_job_stream_authenticated w jv cr key prin job_id from_sequence limit d es)"

end
