(* ===== verification/Submit.thy ===== *)
theory Submit
  imports Stream Settle
begin

text \<open>
  \<open>job_result\<close> of \<open>routes/jobs.rs\<close>: a result is checked against the stored payload
  (\<open>validate_job_result\<close>, \<open>validate_standard_result\<close>, \<open>validate_reported_usage\<close>) before \<open>complete_job\<close> settles
  it. The result of a streamed job is only settled when its transcript is complete. Parsing of the two
  response types is a parameter, and so is the answer for a hidden evaluation.
\<close>

section \<open>The response of the model\<close>

datatype FinishReason = Stop | LengthReached | ContentFilter | ToolCalls

record Usage =
  us_prompt_tokens :: u32
  us_completion_tokens :: u32
  us_total_tokens :: u32

record ChatChoice =
  ch_index :: u32
  ch_message :: ChatMessage
  ch_finish_reason :: "FinishReason option"

record ChatCompletionsResponse =
  cr_id :: rstring
  cr_object :: rstring
  cr_created :: i64
  cr_model :: rstring
  cr_choices :: "ChatChoice list"
  cr_usage :: Usage
  cr_system_fingerprint :: "rstring option"

record CompletionChoice =
  cc_text :: rstring
  cc_index :: u32
  cc_finish_reason :: "FinishReason option"

record CompletionsResponse =
  ct_id :: rstring
  ct_object :: rstring
  ct_created :: i64
  ct_model :: rstring
  ct_choices :: "CompletionChoice list"
  ct_usage :: Usage

record responses =
  chat_response_from_slice :: "bytes \<Rightarrow> ChatCompletionsResponse option"
  completions_response_from_slice :: "bytes \<Rightarrow> CompletionsResponse option"

section \<open>Validation\<close>

definition u32_checked_add :: "u32 \<Rightarrow> u32 \<Rightarrow> u32 option" where
  "u32_checked_add a b = (if unat a + unat b < 2 ^ 32 then Some (a + b) else None)"

definition validate_reported_usage :: "Usage \<Rightarrow> JobResultRequest \<Rightarrow> unit api" where
  "validate_reported_usage usage req =
     and_then (ok_or (u32_checked_add (us_prompt_tokens usage) (us_completion_tokens usage))
       (BadRequest ''invalid_job_result'')) (\<lambda>expected_total.
     and_then (ok_or (i32_try_from (unat (us_prompt_tokens usage))) (BadRequest ''invalid_job_result'')) (\<lambda>prompt_tokens.
     and_then (ok_or (i32_try_from (unat (us_completion_tokens usage))) (BadRequest ''invalid_job_result''))
       (\<lambda>completion_tokens.
     if us_total_tokens usage \<noteq> expected_total \<or> actual_input_tokens req \<noteq> prompt_tokens \<or>
        actual_output_tokens req \<noteq> completion_tokens
     then Inl (BadRequest ''usage_binding_mismatch'') else Inr ())))"

definition nonblank_text :: "MessageContent \<Rightarrow> bool" where
  "nonblank_text c = (case c of Text v \<Rightarrow> trim v \<noteq> [] | Parts _ \<Rightarrow> False)"

definition validate_standard_result ::
    "'v wire_env \<Rightarrow> responses \<Rightarrow> crypto \<Rightarrow> bytes \<Rightarrow> Job \<Rightarrow> JobResultRequest \<Rightarrow> bool api" where
  "validate_standard_result w rs cr key job req =
     (if rq_payload_encoding (j_request job) = RegulatedAeadV1 then Inl InternalError
      else
      and_then (decode_stored_standard_payload w cr key job) (\<lambda>payload.
      and_then (map_err (\<lambda>_. BadRequest ''invalid_standard_payload'') (validated_limits (wire_json w) payload)) (\<lambda>limits.
      and_then (ok_or (base64_standard w (result_ciphertext req)) (BadRequest ''invalid_job_result'')) (\<lambda>result_bytes.
      if length result_bytes > 900000 then Inl (BadRequest ''invalid_job_result'')
      else
      and_then
        (if endpoint payload = OPENAI_CHAT_COMPLETIONS then
           and_then (ok_or (chat_response_from_slice rs result_bytes) (BadRequest ''invalid_job_result'')) (\<lambda>response.
           case cr_choices response of
             [] \<Rightarrow> Inl (BadRequest ''invalid_job_result'')
           | choice # _ \<Rightarrow>
             if cr_model response \<noteq> lim_model limits then Inl (BadRequest ''model_binding_mismatch'')
             else if \<not> nonblank_text (content (ch_message choice)) then Inl (BadRequest ''invalid_job_result'')
             else validate_reported_usage (cr_usage response) req)
         else if endpoint payload = OPENAI_COMPLETIONS then
           and_then (ok_or (completions_response_from_slice rs result_bytes) (BadRequest ''invalid_job_result''))
             (\<lambda>response.
             if ct_choices response = [] then Inl (BadRequest ''invalid_job_result'')
             else if ct_model response \<noteq> lim_model limits then Inl (BadRequest ''model_binding_mismatch'')
             else validate_reported_usage (ct_usage response) req)
         else Inl InternalError)
        (\<lambda>_. Inr (lim_stream limits))))))"

text \<open>\<open>COALESCE(MIN(..),-1)\<close> and \<open>COALESCE(MAX(..),-1)\<close>.\<close>

fun min_or_none :: "int list \<Rightarrow> int" where
  "min_or_none [] = - 1"
| "min_or_none (x # xs) = fold min xs x"

fun max_or_none :: "int list \<Rightarrow> int" where
  "max_or_none [] = - 1"
| "max_or_none (x # xs) = fold max xs x"

definition transcript_complete :: "StreamEvent list \<Rightarrow> bool" where
  "transcript_complete rows \<longleftrightarrow>
     (let event_count = int (length rows);
          sequences = map (\<lambda>e. sint (se_sequence_number e)) rows;
          done_rows = filter (\<lambda>e. se_event_kind e = UpstreamDone) rows in
      \<not> (event_count < 2 \<or> min_or_none sequences \<noteq> 0 \<or> max_or_none sequences \<noteq> event_count - 1 \<or>
         length done_rows \<noteq> 1 \<or>
         max_or_none (map (\<lambda>e. sint (se_sequence_number e)) done_rows) \<noteq> max_or_none sequences))"

definition validate_job_result ::
    "'v wire_env \<Rightarrow> responses \<Rightarrow> crypto \<Rightarrow> bytes \<Rightarrow> Uuid \<Rightarrow> JobResultRequest \<Rightarrow> 'x db \<Rightarrow> StreamEvent list \<Rightarrow> unit api" where
  "validate_job_result w rs cr key job_id req d es =
     and_then (ok_or (fetch_optional (\<lambda>j. j_id j = job_id) (jobs d)) NotFound) (\<lambda>job.
     case j_confidentiality job of
       StandardMode \<Rightarrow>
         and_then (validate_standard_result w rs cr key job req) (\<lambda>stream.
         if stream then
           if j_max_attempts job \<noteq> 1 then Inl InternalError
           else if \<not> transcript_complete (events_of job_id (j_attempt_count job) es)
           then Inl (Conflict ''stream_incomplete'') else Inr ()
         else Inr ())
     | Regulated \<Rightarrow> Inr ())"

section \<open>Submission\<close>

datatype WorkItemKind = Ordinary | Hidden | Missing

definition work_item_kind :: "Uuid \<Rightarrow> 'x db \<Rightarrow> WorkItemKind api" where
  "work_item_kind job_id d =
     (case (list_ex (\<lambda>j. j_id j = job_id) (jobs d), list_ex (\<lambda>h. hw_id h = job_id) (hidden_work d)) of
        (True, False) \<Rightarrow> Inr Ordinary
      | (False, True) \<Rightarrow> Inr Hidden
      | (False, False) \<Rightarrow> Inr Missing
      | (True, True) \<Rightarrow> Inl InternalError)"

record JobResultResponse =
  rr_job_id :: Uuid
  rr_status :: JobStatus
  rr_idempotent_replay :: bool

definition job_result ::
    "'v wire_env \<Rightarrow> responses \<Rightarrow> 'x settle_env \<Rightarrow> crypto \<Rightarrow> config \<Rightarrow> settle_clock \<Rightarrow> Principal \<Rightarrow> Uuid \<Rightarrow>
     (JobResultRequest \<Rightarrow> 'x db \<Rightarrow> (JobResultResponse api \<times> 'x db) api) \<Rightarrow> JobResultRequest \<Rightarrow>
     StreamEvent list \<Rightarrow> 'x db \<Rightarrow> (JobResultResponse api \<times> 'x db) api" where
  "job_result w rs env cr cfg ck prin job_id hidden_result req es d =
     and_then (verify_node_owner prin (res_node_id req) d) (\<lambda>_.
     and_then (map_err (\<lambda>_. BadRequest ''invalid_job_result'') (JobResultRequest_validate req)) (\<lambda>_.
     and_then (work_item_kind job_id d) (\<lambda>kind.
     if kind = Hidden then hidden_result req d
     else
     and_then (validate_job_result w rs cr (standard_data_key cfg) job_id req d es) (\<lambda>_.
     and_then (complete_job env cr (standard_data_key cfg) ck
       \<lparr>cm_job_id = job_id, cm_node_id = res_node_id req, cm_worker_user_id = pr_user_id prin,
        cm_claim_device_key_id = pr_device_key_id prin, cm_idempotency_key = res_idempotency_key req,
        cm_result_ciphertext = result_ciphertext req, cm_actual_input_tokens = actual_input_tokens req,
        cm_actual_output_tokens = actual_output_tokens req, cm_execution_telemetry = execution_telemetry req\<rparr> d)
       (\<lambda>(answer, d).
         Inr (and_then answer (\<lambda>outcome. Inr \<lparr>rr_job_id = job_id, rr_status = Succeeded,
           rr_idempotent_replay = so_idempotent_replay outcome\<rparr>), d))))))"

end
