(* ===== verification/Transcript.thy ===== *)
theory Transcript
  imports Submit Lifecycle
begin

text \<open>
  The transcript of a streamed attempt. \<open>stream_reachable\<close> are the event tables that any sequence of
  appended events produces, over databases \<open>ds\<close> in which the request columns of a job never change. In such
  a table the rows of an attempt are numbered from zero without a gap, only the last one can be the end
  marker, and every data row decrypts to a text that was checked against the payload of its job, so that a
  reader gets exactly what was appended.
\<close>

section \<open>Decoding UTF-8\<close>

lemma utf8_code_char:
  assumes "is_scalar c"
  shows "utf8_char c = hd (utf8_char c) # tl (utf8_char c)" "length (tl (utf8_char c)) = utf8_more (hd (utf8_char c))"
    "utf8_code (hd (utf8_char c)) (tl (utf8_char c)) = c"
proof -
  have c: "c < 1114112" using assms by (auto simp: is_scalar_def)
  show "utf8_char c = hd (utf8_char c) # tl (utf8_char c)" by simp
  consider "c < 128" | "\<not> c < 128" "c < 2048" | "\<not> c < 2048" "c < 65536" | "\<not> c < 65536" by linarith
  then have "length (tl (utf8_char c)) = utf8_more (hd (utf8_char c)) \<and>
    utf8_code (hd (utf8_char c)) (tl (utf8_char c)) = c"
  proof cases
    case 1
    then show ?thesis by (simp add: utf8_char_def utf8_more_def utf8_code_def)
  next
    case 2
    then have "c div 64 < 32" "c = c div 64 * 64 + c mod 64" by (auto simp: div_less_iff_less_mult)
    with 2 show ?thesis by (simp add: utf8_char_def utf8_more_def utf8_code_def)
  next
    case 3
    have "c = (c div 4096 * 64 + c div 64 mod 64) * 64 + c mod 64"
      using div_mult2_eq [of c 64 64] by simp
    moreover have "c div 4096 < 16" using 3 by (auto simp: div_less_iff_less_mult)
    ultimately show ?thesis using 3 by (simp add: utf8_char_def utf8_more_def utf8_code_def)
  next
    case 4
    have "c = ((c div 262144 * 64 + c div 4096 mod 64) * 64 + c div 64 mod 64) * 64 + c mod 64"
      using div_mult2_eq [of c 64 64] div_mult2_eq [of c 64 4096] div_mult2_eq [of "c div 64" 64 64] by simp
    moreover have "c div 262144 < 8" using c by (auto simp: div_less_iff_less_mult)
    ultimately show ?thesis using 4 by (simp add: utf8_char_def utf8_more_def utf8_code_def)
  qed
  then show "length (tl (utf8_char c)) = utf8_more (hd (utf8_char c))"
    "utf8_code (hd (utf8_char c)) (tl (utf8_char c)) = c" by simp_all
qed

lemma from_utf8_char:
  assumes "is_scalar c"
  shows "from_utf8 (utf8_char c @ r) = map_option (\<lambda>s. c # s) (from_utf8 r)"
proof -
  obtain b t where u: "utf8_char c = b # t" by (cases "utf8_char c") auto
  from utf8_code_char [OF assms] have "length t = utf8_more b" "utf8_code b t = c" by (simp_all add: u)
  with u assms show ?thesis by (simp del: from_utf8.simps add: from_utf8.simps(2))
qed

lemma from_utf8_utf8: "list_all is_scalar s \<Longrightarrow> from_utf8 (utf8 s) = Some s"
  by (induction s) (simp_all del: from_utf8.simps(2) add: from_utf8_char)

lemma octets_utf8: "list_all is_scalar s \<Longrightarrow> octets (utf8 s)"
proof (induction s)
  case (Cons c s)
  have "octets (utf8_char c)"
    using Cons.prems by (auto simp: octets_def utf8_char_def is_scalar_def div_less_iff_less_mult intro: less_trans [OF mod_less_divisor])
  with Cons show ?case by (simp add: octets_def)
qed (simp add: octets_def)

section \<open>What an append does\<close>

definition stable_requests :: "'x db set \<Rightarrow> bool" where
  "stable_requests ds \<longleftrightarrow> (\<forall>d \<in> ds. \<forall>d' \<in> ds. \<forall>j \<in> set (jobs d). \<forall>j' \<in> set (jobs d'). j_id j = j_id j' \<longrightarrow> j_request j = j_request j')"

inductive stream_reachable ::
    "'v wire_env \<Rightarrow> 'v json_value \<Rightarrow> crypto \<Rightarrow> bytes \<Rightarrow> 'x db set \<Rightarrow> StreamEvent list \<Rightarrow> bool" for w jv cr key ds where
  empty_table: "stream_reachable w jv cr key ds []"
| appended: "stream_reachable w jv cr key ds es \<Longrightarrow> d \<in> ds \<Longrightarrow> octets nonce \<Longrightarrow> length nonce = NONCE_LENGTH \<Longrightarrow>
    (\<forall>s. event_data req = Some s \<longrightarrow> list_all is_scalar s) \<Longrightarrow>
    append_job_stream_event w jv cr key nonce now prin job_id req d es = Inr (r, es') \<Longrightarrow>
    stream_reachable w jv cr key ds es'"

text \<open>The authorization of a job: its payload, as the handlers decode it.\<close>

definition streams :: "'v wire_env \<Rightarrow> crypto \<Rightarrow> bytes \<Rightarrow> Job \<Rightarrow> 'v StandardJobPayload \<Rightarrow> StandardJobLimits \<Rightarrow> bool" where
  "streams w cr key job payload limits \<longleftrightarrow> decode_stored_standard_payload w cr key job = Inr payload \<and>
     validated_limits (wire_json w) payload = Inr limits \<and> lim_stream limits"

definition event_text :: "crypto \<Rightarrow> bytes \<Rightarrow> StreamEvent \<Rightarrow> rstring option" where
  "event_text cr key e = Option.bind (se_event_ciphertext e) (\<lambda>c.
     Option.bind (decrypt_from_storage cr key (se_job_id e) (StreamEvent (se_attempt_number e) (se_sequence_number e)) c)
       from_utf8)"

definition data_events :: "Uuid \<Rightarrow> i32 \<Rightarrow> StreamEvent list \<Rightarrow> StreamEvent list" where
  "data_events job_id attempt es = filter (\<lambda>e. se_event_kind e = Data) (events_of job_id attempt es)"

definition transcript :: "crypto \<Rightarrow> bytes \<Rightarrow> Uuid \<Rightarrow> i32 \<Rightarrow> StreamEvent list \<Rightarrow> rstring option list" where
  "transcript cr key job_id attempt es = map (event_text cr key) (data_events job_id attempt es)"

definition row_holds ::
    "'v wire_env \<Rightarrow> 'v json_value \<Rightarrow> crypto \<Rightarrow> bytes \<Rightarrow> 'x db set \<Rightarrow> StreamEvent \<Rightarrow> rstring \<Rightarrow> bool" where
  "row_holds w jv cr key ds e s \<longleftrightarrow>
     (\<exists>d \<in> ds. \<exists>job \<in> set (jobs d). \<exists>payload limits stored. j_id job = se_job_id e \<and> streams w cr key job payload limits \<and>
        list_all is_scalar s \<and> validate_standard_stream_data (wire_json w) jv payload (lim_model limits) s = Inr () \<and>
        se_event_ciphertext e = Some stored \<and> se_storage_version e = Some STORAGE_VERSION \<and>
        decrypt_from_storage cr key (se_job_id e) (StreamEvent (se_attempt_number e) (se_sequence_number e)) stored =
          Some (utf8 s) \<and> i32_try_from (str_len s) = Some (se_plaintext_bytes e))"

lemma row_holds_text: "row_holds w jv cr key ds e s \<Longrightarrow> event_text cr key e = Some s"
  by (auto simp: row_holds_def event_text_def from_utf8_utf8)

lemma authorized:
  assumes "authorize_stream_event w cr key now prin job_id req d = Inr (payload, limits)"
  obtains job where "job \<in> set (jobs d)" "j_id job = job_id" "streams w cr key job payload limits"
    "j_status job = Leased" "is_some_and (j_lease_expires_at job) (\<lambda>t. now < t)" "j_attempt_count job = ev_attempt req"
    "j_leased_to_node_id job = Some (ev_node_id req)"
proof -
  obtain job where "fetch_optional (\<lambda>j. j_id j = job_id) (jobs d) = Some job"
    "decode_stored_standard_payload w cr key job = Inr payload" "validated_limits (wire_json w) payload = Inr limits"
    "lim_stream limits" "j_status job = Leased" "is_some_and (j_lease_expires_at job) (\<lambda>t. now < t)"
    "j_attempt_count job = ev_attempt req" "j_leased_to_node_id job = Some (ev_node_id req)"
    using assms unfolding authorize_stream_event_def
    by (elim inversion) (simp add: result_simps)
  then show thesis by (intro that [of job]) (auto simp: streams_def dest: fetch_optional_Some)
qed

lemma append_eq_Inr:
  "append_job_stream_event w jv cr key nonce now prin job_id req d es = Inr y \<longleftrightarrow>
     (\<exists>payload limits. authorize_stream_event w cr key now prin job_id req d = Inr (payload, limits) \<and>
        record_stream_event w jv cr key nonce job_id req payload limits es = Inr y)"
  by (auto simp: append_job_stream_event_def result_simps)

lemma record_fresh:
  assumes "record_stream_event w jv cr key nonce job_id req payload limits es = Inr (r, es')" "\<not> sr_idempotent_replay r"
  obtains e where "es' = es @ [e]" "stream_event_check e"
    "stream_event_row w jv cr key nonce job_id req payload limits (events_of job_id (ev_attempt req) es) = Inr e"
    "int (length (events_of job_id (ev_attempt req) es)) = sint (ev_sequence req)"
    "list_all (\<lambda>e. se_event_kind e = Data) (events_of job_id (ev_attempt req) es)"
proof -
  have kinds: "\<not> list_ex (\<lambda>e. se_event_kind e = UpstreamDone) xs \<Longrightarrow> list_all (\<lambda>e. se_event_kind e = Data) xs" for xs :: "StreamEvent list"
    by (induction xs) (auto intro: JobStreamEventKind.exhaust)
  show thesis
    using assms unfolding record_stream_event_def Let_def
    by (auto simp: result_simps insert_stream_event_def kinds split: option.splits if_splits intro!: that)
qed

lemma record_replay:
  assumes "record_stream_event w jv cr key nonce job_id req payload limits es = Inr (r, es')" "sr_idempotent_replay r"
  shows "es' = es"
  using assms by (auto simp: record_stream_event_def Let_def result_simps split: option.splits if_splits)

text \<open>The row a request is stored as.\<close>

lemma row_of_request:
  assumes "stream_event_row w jv cr key nonce job_id req payload limits earlier = Inr e"
  shows "se_job_id e = job_id" "se_attempt_number e = ev_attempt req" "se_sequence_number e = ev_sequence req"
    "se_event_kind e = ev_kind req" "se_idempotency_key e = ev_idempotency_key req"
    "ev_kind req = UpstreamDone \<Longrightarrow> earlier \<noteq> []"
  using assms by (auto simp: stream_event_row_def Let_def result_simps split: JobStreamEventKind.splits if_splits)

lemma data_row_holds:
  assumes "stream_event_row w jv cr key nonce job_id req payload limits earlier = Inr e" "ev_kind req = Data"
    "crypto_ok cr" "octets nonce" "length nonce = NONCE_LENGTH" "\<forall>s. event_data req = Some s \<longrightarrow> list_all is_scalar s"
    "d \<in> ds" "job \<in> set (jobs d)" "j_id job = job_id" "streams w cr key job payload limits"
  obtains s where "event_data req = Some s" "row_holds w jv cr key ds e s"
proof -
  obtain s stored n where s: "event_data req = Some s"
    and v: "validate_standard_stream_data (wire_json w) jv payload (lim_model limits) s = Inr ()"
    and n: "i32_try_from (str_len s) = Some n"
    and st: "encrypt_for_storage cr key nonce job_id (StreamEvent (ev_attempt req) (ev_sequence req)) (utf8 s) = Some stored"
    and e: "se_event_ciphertext e = Some stored" "se_storage_version e = Some STORAGE_VERSION" "se_plaintext_bytes e = n"
    using assms(1,2) by (auto simp: stream_event_row_def Let_def result_simps split: if_splits)
  have "list_all is_scalar s" using assms(6) s by simp
  moreover have "decrypt_from_storage cr key job_id (StreamEvent (ev_attempt req) (ev_sequence req)) stored = Some (utf8 s)"
    by (rule encrypted_decrypts [OF assms(3) octets_utf8 assms(4,5) st]) (rule calculation)
  ultimately have "row_holds w jv cr key ds e s"
    using assms(7-10) v n e row_of_request [OF assms(1)] unfolding row_holds_def
    by (intro bexI [of _ d] bexI [of _ job] exI [of _ payload] exI [of _ limits] exI [of _ stored]) simp_all
  with s show thesis by (rule that)
qed

section \<open>The invariant of the table\<close>

definition numbered :: "StreamEvent list \<Rightarrow> bool" where
  "numbered rows \<longleftrightarrow> map (\<lambda>e. sint (se_sequence_number e)) rows = map int [0..<length rows]"

definition ends_once :: "StreamEvent list \<Rightarrow> bool" where
  "ends_once rows \<longleftrightarrow> list_all (\<lambda>e. se_event_kind e = Data) (butlast rows) \<and>
     (rows \<noteq> [] \<longrightarrow> se_event_kind (hd rows) = Data)"

definition rows_ok ::
    "'v wire_env \<Rightarrow> 'v json_value \<Rightarrow> crypto \<Rightarrow> bytes \<Rightarrow> 'x db set \<Rightarrow> StreamEvent list \<Rightarrow> bool" where
  "rows_ok w jv cr key ds rows \<longleftrightarrow> numbered rows \<and> ends_once rows \<and> list_all stream_event_check rows \<and>
     streamed_bytes rows \<le> sint MAX_JOB_STREAM_TOTAL_BYTES \<and>
     (\<forall>e \<in> set rows. se_event_kind e = Data \<longrightarrow> (\<exists>s. row_holds w jv cr key ds e s))"

lemma numbered_snoc: "numbered (rows @ [e]) \<longleftrightarrow> numbered rows \<and> sint (se_sequence_number e) = int (length rows)"
  by (simp add: numbered_def)

lemma ends_once_snoc:
  "list_all (\<lambda>e. se_event_kind e = Data) rows \<Longrightarrow> (rows = [] \<longrightarrow> se_event_kind e = Data) \<Longrightarrow> ends_once (rows @ [e])"
  by (cases rows) (auto simp: ends_once_def)

lemma events_of_snoc:
  "events_of j a (es @ [e]) = events_of j a es @ (if se_job_id e = j \<and> se_attempt_number e = a then [e] else [])"
  by (simp add: events_of_def)

lemma streamed_bytes_simps [simp]:
  "streamed_bytes [] = 0" "streamed_bytes (xs @ ys) = streamed_bytes xs + streamed_bytes ys"
  "streamed_bytes (e # xs) = sint (se_plaintext_bytes e) + streamed_bytes xs"
  by (simp_all add: streamed_bytes_def)

lemma streamed_bytes_nonneg: "list_all stream_event_check rows \<Longrightarrow> 0 \<le> streamed_bytes rows"
  by (induction rows) (auto simp: stream_event_check_def)

lemma row_bytes:
  assumes "stream_event_row w jv cr key nonce job_id req payload limits earlier = Inr e"
    "list_all stream_event_check earlier" "streamed_bytes earlier \<le> sint MAX_JOB_STREAM_TOTAL_BYTES"
  shows "streamed_bytes earlier + sint (se_plaintext_bytes e) \<le> sint MAX_JOB_STREAM_TOTAL_BYTES"
proof (cases "ev_kind req")
  case UpstreamDone
  with assms show ?thesis by (auto simp: stream_event_row_def Let_def result_simps split: if_splits)
next
  case Data
  have m: "sint MAX_JOB_STREAM_TOTAL_BYTES = 665600" by (simp add: MAX_JOB_STREAM_TOTAL_BYTES_def)
  have b: "0 \<le> streamed_bytes earlier" "streamed_bytes earlier \<le> 665600"
    using streamed_bytes_nonneg [OF assms(2)] assms(3) by (simp_all add: m)
  then have w: "sint (word_of_int (streamed_bytes earlier) :: i64) = streamed_bytes earlier"
    using sint_word_of_int_fits_iff [of "streamed_bytes earlier", where 'a = 64] by simp
  have f: "sint (s_from (se_plaintext_bytes e) :: i64) = sint (se_plaintext_bytes e)"
    by simp
  have "is_some_and (s_checked_add (word_of_int (streamed_bytes earlier)) (s_from (se_plaintext_bytes e)) :: i64 option)
      (\<lambda>t. sint t \<le> sint MAX_JOB_STREAM_TOTAL_BYTES)"
    using assms(1) Data by (auto simp: stream_event_row_def Let_def result_simps split: if_splits)
  then obtain t where t: "s_checked_add (word_of_int (streamed_bytes earlier)) (s_from (se_plaintext_bytes e)) = Some (t :: i64)"
    "sint t \<le> sint MAX_JOB_STREAM_TOTAL_BYTES"
    by (auto simp: is_some_and_def split: option.splits)
  then have "sint t = streamed_bytes earlier + sint (se_plaintext_bytes e)"
    by (simp add: s_checked_add_Some w f)
  with t show ?thesis by simp
qed

lemma stored_row_extends:
  assumes ok: "rows_ok w jv cr key ds rows"
    and row: "stream_event_row w jv cr key nonce job_id req payload limits rows = Inr e" "stream_event_check e"
    and number: "int (length rows) = sint (ev_sequence req)"
    and data: "list_all (\<lambda>e. se_event_kind e = Data) rows"
    and holds: "se_event_kind e = Data \<Longrightarrow> \<exists>s. row_holds w jv cr key ds e s"
  shows "rows_ok w jv cr key ds (rows @ [e])"
proof -
  note r = row_of_request [OF row(1)]
  have checks: "list_all stream_event_check rows" "streamed_bytes rows \<le> sint MAX_JOB_STREAM_TOTAL_BYTES"
    using ok by (simp_all add: rows_ok_def)
  have "rows = [] \<longrightarrow> se_event_kind e = Data" using r(4,6) by (cases "ev_kind req") auto
  with data have "ends_once (rows @ [e])" by (rule ends_once_snoc)
  moreover have "numbered (rows @ [e])" using ok number r(3) by (simp add: rows_ok_def numbered_snoc)
  ultimately show ?thesis using ok row(2) row_bytes [OF row(1) checks] holds by (auto simp: rows_ok_def)
qed

lemma reachable_rows_ok:
  assumes "stream_reachable w jv cr key ds es" "crypto_ok cr"
  shows "rows_ok w jv cr key ds (events_of j a es)"
  using assms(1)
proof (induction arbitrary: j a)
  case empty_table
  show ?case by (simp add: events_of_def rows_ok_def numbered_def ends_once_def MAX_JOB_STREAM_TOTAL_BYTES_def)
next
  case (appended es d nonce req now prin job_id r es')
  show ?case
  proof (cases "sr_idempotent_replay r")
    case True
    from appended.hyps(6) obtain payload limits where "record_stream_event w jv cr key nonce job_id req payload limits es = Inr (r, es')"
      by (auto simp: append_eq_Inr)
    from record_replay [OF this True] appended.IH show ?thesis by simp
  next
    case False
    from appended.hyps(6) obtain payload limits where auth: "authorize_stream_event w cr key now prin job_id req d = Inr (payload, limits)"
      and rec: "record_stream_event w jv cr key nonce job_id req payload limits es = Inr (r, es')"
      by (auto simp: append_eq_Inr)
    from auth obtain job where job: "job \<in> set (jobs d)" "j_id job = job_id" "streams w cr key job payload limits"
      by (rule authorized)
    from rec False obtain e where es': "es' = es @ [e]" and chk: "stream_event_check e"
      and row: "stream_event_row w jv cr key nonce job_id req payload limits (events_of job_id (ev_attempt req) es) = Inr e"
      and seq: "int (length (events_of job_id (ev_attempt req) es)) = sint (ev_sequence req)"
      and dat: "list_all (\<lambda>e. se_event_kind e = Data) (events_of job_id (ev_attempt req) es)"
      by (rule record_fresh)
    note key = row_of_request [OF row]
    have holds: "\<exists>s. row_holds w jv cr key ds e s" if "se_event_kind e = Data"
      using data_row_holds [OF row _ assms(2) appended.hyps(3-5,2) job] that key(4) by metis
    show ?thesis
    proof (cases "j = job_id \<and> a = ev_attempt req")
      case True
      then show ?thesis
        using stored_row_extends [OF appended.IH row chk seq dat holds] key by (simp add: es' events_of_snoc)
    next
      case False
      with key have "events_of j a es' = events_of j a es" by (auto simp: es' events_of_snoc)
      with appended.IH show ?thesis by simp
    qed
  qed
qed

lemma row_holds_data: "rows_ok w jv cr key ds rows \<Longrightarrow> e \<in> set rows \<Longrightarrow> se_event_kind e = Data \<Longrightarrow>
    \<exists>s. row_holds w jv cr key ds e s"
  by (auto simp: rows_ok_def)

lemma data_prefix:
  assumes "ends_once rows"
  shows "\<exists>k. filter (\<lambda>e. se_event_kind e = Data) rows = take k rows \<and> k \<le> length rows"
proof (cases rows rule: rev_exhaust)
  case (snoc xs e)
  with assms have "filter (\<lambda>e. se_event_kind e = Data) xs = xs"
    by (simp add: ends_once_def list_all_iff filter_id_conv)
  with snoc show ?thesis
    by (intro exI [of _ "if se_event_kind e = Data then length rows else length xs"]) simp
qed simp

lemma numbered_take:
  assumes "numbered rows"
  shows "numbered (take k rows)"
proof -
  have "map (\<lambda>e. sint (se_sequence_number e)) (take k rows) = take k (map int [0..<length rows])"
    using assms by (simp add: numbered_def take_map [symmetric])
  then show ?thesis by (simp add: numbered_def take_map min_def)
qed

lemma numbered_from: "numbered rows \<Longrightarrow> filter (\<lambda>e. int n \<le> sint (se_sequence_number e)) rows = drop n rows"
proof (induction rows rule: rev_induct)
  case (snoc e rows)
  then show ?case by (auto simp: numbered_snoc)
qed simp

lemma numbered_drop: "numbered rows \<Longrightarrow> map (\<lambda>e. sint (se_sequence_number e)) (drop n rows) = map int [n..<length rows]"
  by (simp add: numbered_def drop_map [symmetric]) (simp add: drop_map)

lemma numbered_sorted: "numbered rows \<Longrightarrow> sort_key (\<lambda>e. sint (se_sequence_number e)) (drop n rows) = drop n rows"
  by (intro sort_key_id_if_sorted) (simp add: numbered_drop sorted_map)

lemma transcripts_length:
  assumes "stream_reachable w jv cr key ds es" "crypto_ok cr"
  shows "length (events_of j a es) \<le> 65536"
proof (cases "events_of j a es" rule: rev_exhaust)
  case (snoc xs e)
  with reachable_rows_ok [OF assms, of j a] show ?thesis by (simp add: rows_ok_def numbered_snoc stream_event_check_def)
qed simp

text \<open>C14. An event table that any sequence of appended events has produced holds proper transcripts: the rows of an
  attempt, in the order they were stored, are numbered 0, 1, 2, ... without a gap; an end marker can only be
  the last of at least two rows; their texts together stay within 650 KiB; and every data row decrypts to
  a text.\<close>

theorem transcripts_contiguous:
  assumes "stream_reachable w jv cr key ds es" "crypto_ok cr"
  shows "map (\<lambda>e. sint (se_sequence_number e)) (events_of j a es) = map int [0..<length (events_of j a es)] \<and>
    length (events_of j a es) \<le> 65536 \<and>
    (\<exists>k. data_events j a es = take k (events_of j a es) \<and> length (events_of j a es) \<le> Suc k \<and> (k = 0 \<longrightarrow> events_of j a es = [])) \<and>
    streamed_bytes (events_of j a es) \<le> 650 * 1024 \<and> None \<notin> set (transcript cr key j a es)"
proof -
  let ?rows = "events_of j a es"
  note ok = reachable_rows_ok [OF assms, of j a]
  then have num: "numbered ?rows" and ends: "ends_once ?rows" and chk: "list_all stream_event_check ?rows"
    by (simp_all add: rows_ok_def)
  have "\<exists>k. data_events j a es = take k ?rows \<and> length ?rows \<le> Suc k \<and> (k = 0 \<longrightarrow> ?rows = [])"
  proof (cases ?rows rule: rev_exhaust)
    case (snoc xs e)
    with ends have xs: "filter (\<lambda>e. se_event_kind e = Data) xs = xs"
      by (simp add: ends_once_def list_all_iff filter_id_conv)
    have "xs = [] \<Longrightarrow> se_event_kind e = Data" using ends snoc by (simp add: ends_once_def)
    with snoc xs show ?thesis
      by (intro exI [of _ "if se_event_kind e = Data then Suc (length xs) else length xs"]) (auto simp: data_events_def)
  qed (simp add: data_events_def)
  moreover have "None \<notin> set (transcript cr key j a es)"
    using row_holds_data [OF ok] by (fastforce simp: transcript_def data_events_def dest: row_holds_text)
  ultimately show ?thesis using ok num transcripts_length [OF assms] by (simp add: rows_ok_def numbered_def MAX_JOB_STREAM_TOTAL_BYTES_def)
qed

text \<open>C12. Appending extends the transcript: an accepted data event that is not a replay adds exactly its text at the end
  of the transcript of its own attempt, an end marker or a replay adds nothing, every other attempt of every
  other job is left as it is, and no stored row is changed or removed.\<close>

theorem append_extends_transcript:
  assumes "append_job_stream_event w jv cr key nonce now prin job_id req d es = Inr (r, es')"
    and "crypto_ok cr" "octets nonce" "length nonce = NONCE_LENGTH"
    and "\<forall>s. event_data req = Some s \<longrightarrow> list_all is_scalar s"
  shows "prefix es es' \<and> transcript cr key j a es' = transcript cr key j a es @
    (if j = job_id \<and> a = ev_attempt req \<and> ev_kind req = Data \<and> \<not> sr_idempotent_replay r then [event_data req] else [])"
proof -
  from assms(1) obtain payload limits where auth: "authorize_stream_event w cr key now prin job_id req d = Inr (payload, limits)"
    and rec: "record_stream_event w jv cr key nonce job_id req payload limits es = Inr (r, es')"
    by (auto simp: append_eq_Inr)
  from auth obtain job where job: "job \<in> set (jobs d)" "j_id job = job_id" "streams w cr key job payload limits"
    by (rule authorized)
  show ?thesis
  proof (cases "sr_idempotent_replay r")
    case True
    with record_replay [OF rec] show ?thesis by simp
  next
    case False
    with rec obtain e where es': "es' = es @ [e]"
      and row: "stream_event_row w jv cr key nonce job_id req payload limits (events_of job_id (ev_attempt req) es) = Inr e"
      by (rule record_fresh)
    note key = row_of_request [OF row]
    have "event_text cr key e = event_data req" if "ev_kind req = Data"
      using data_row_holds [OF row that assms(2-5) _ job, of "{d}"] row_holds_text by (metis singletonI)
    with key False show ?thesis
      by (auto simp: es' transcript_def data_events_def events_of_snoc)
  qed
qed

section \<open>Repeating an append\<close>

lemma find_snoc: "find P xs = None \<Longrightarrow> P x \<Longrightarrow> find P (xs @ [x]) = Some x"
  by (induction xs) (auto split: if_splits)

lemma stored_row_replays:
  assumes "stream_event_row w jv cr key nonce job_id req payload limits earlier = Inr e"
    "crypto_ok cr" "octets nonce" "length nonce = NONCE_LENGTH" "\<forall>s. event_data req = Some s \<longrightarrow> list_all is_scalar s"
  shows "validate_stream_event_replay cr key job_id req e = Inr ()"
proof (cases "ev_kind req")
  case UpstreamDone
  with assms(1) show ?thesis
    by (auto simp: stream_event_row_def validate_stream_event_replay_def Let_def result_simps split: if_splits)
next
  case Data
  then obtain s stored n where s: "event_data req = Some s" and n: "i32_try_from (str_len s) = Some n"
    and st: "encrypt_for_storage cr key nonce job_id (StreamEvent (ev_attempt req) (ev_sequence req)) (utf8 s) = Some stored"
    and e: "se_event_ciphertext e = Some stored" "se_storage_version e = Some STORAGE_VERSION" "se_plaintext_bytes e = n"
    using assms(1) by (auto simp: stream_event_row_def Let_def result_simps split: if_splits)
  have "decrypt_from_storage cr key job_id (StreamEvent (ev_attempt req) (ev_sequence req)) stored = Some (utf8 s)"
    using encrypted_decrypts [OF assms(2) octets_utf8 assms(3,4) st] assms(5) s by simp
  with Data s n e row_of_request [OF assms(1)] show ?thesis
    by (simp add: validate_stream_event_replay_def)
qed

text \<open>C15. Appending is idempotent: when an event has been accepted, sending the same request again, with whatever
  encryption nonce, is answered as a replay and leaves the table as it is.\<close>

theorem append_replays:
  assumes "append_job_stream_event w jv cr key nonce now prin job_id req d es = Inr (r, es')"
    and "crypto_ok cr" "octets nonce" "length nonce = NONCE_LENGTH"
    and "\<forall>s. event_data req = Some s \<longrightarrow> list_all is_scalar s"
  shows "append_job_stream_event w jv cr key nonce' now prin job_id req d es' = Inr (r\<lparr>sr_idempotent_replay := True\<rparr>, es')"
proof -
  from assms(1) obtain payload limits where auth: "authorize_stream_event w cr key now prin job_id req d = Inr (payload, limits)"
    and rec: "record_stream_event w jv cr key nonce job_id req payload limits es = Inr (r, es')"
    by (auto simp: append_eq_Inr)
  have "record_stream_event w jv cr key nonce' job_id req payload limits es' = Inr (r\<lparr>sr_idempotent_replay := True\<rparr>, es')"
  proof (cases "sr_idempotent_replay r")
    case True
    with rec record_replay [OF rec] show ?thesis
      by (auto simp: record_stream_event_def Let_def result_simps split: option.splits if_splits)
  next
    case False
    with rec obtain e where es': "es' = es @ [e]"
      and row: "stream_event_row w jv cr key nonce job_id req payload limits (events_of job_id (ev_attempt req) es) = Inr e"
      by (rule record_fresh)
    let ?P = "\<lambda>e. se_job_id e = job_id \<and> (se_attempt_number e = ev_attempt req \<and> se_sequence_number e = ev_sequence req \<or>
      se_idempotency_key e = ev_idempotency_key req)"
    have "find ?P es = None"
      using rec False by (auto simp: record_stream_event_def fetch_optional_def Let_def result_simps split: option.splits)
    then have "fetch_optional ?P es' = Some e"
      unfolding es' fetch_optional_def by (rule find_snoc) (simp add: row_of_request [OF row])
    moreover have "r = \<lparr>sr_job_id = job_id, sr_attempt = ev_attempt req, sr_sequence = ev_sequence req,
        sr_idempotent_replay = False\<rparr>"
      using rec False by (auto simp: record_stream_event_def Let_def result_simps split: option.splits if_splits)
    ultimately show ?thesis
      using stored_row_replays [OF row assms(2-5)] by (simp add: record_stream_event_def)
  qed
  with auth show ?thesis by (auto simp: append_eq_Inr)
qed

section \<open>Reading it back\<close>

lemma decode_stored_cong:
  assumes "j_id j = j_id j'" "j_request j = j_request j'"
  shows "decode_stored_standard_payload w cr key j = decode_stored_standard_payload w cr key j'"
  using assms by (simp add: decode_stored_standard_payload_def)

lemma row_holds_read:
  assumes h: "row_holds w jv cr key ds e s" and st: "stable_requests ds" and d: "d \<in> ds"
    and job: "job \<in> set (jobs d)" "j_id job = se_job_id e" "streams w cr key job payload limits"
  shows "read_event w jv cr key (se_job_id e) (se_attempt_number e) payload limits e =
    Inr \<lparr>js_sequence = se_sequence_number e, js_event_data = s\<rparr>"
proof -
  obtain d0 job0 payload0 limits0 stored where 0: "d0 \<in> ds" "job0 \<in> set (jobs d0)" "j_id job0 = se_job_id e"
      "streams w cr key job0 payload0 limits0"
    and v: "validate_standard_stream_data (wire_json w) jv payload0 (lim_model limits0) s = Inr ()"
    and s: "list_all is_scalar s" "se_event_ciphertext e = Some stored" "se_storage_version e = Some STORAGE_VERSION"
      "decrypt_from_storage cr key (se_job_id e) (StreamEvent (se_attempt_number e) (se_sequence_number e)) stored = Some (utf8 s)"
      "i32_try_from (str_len s) = Some (se_plaintext_bytes e)"
    using h unfolding row_holds_def by blast
  have "j_request job0 = j_request job"
    using st 0(1-3) d job(1,2) unfolding stable_requests_def by metis
  then have "payload0 = payload \<and> limits0 = limits"
    using 0(3,4) job(2,3) decode_stored_cong [of job0 job w cr key] by (auto simp: streams_def)
  with v s show ?thesis by (simp add: read_event_def from_utf8_utf8 str_len_def [symmetric])
qed

lemma read_rows_all:
  assumes "\<And>e. e \<in> set rows \<Longrightarrow> read e = Inr (ev e)"
    and "map (\<lambda>e. sint (se_sequence_number e)) rows = map int [n..<n + length rows]"
    and "n + length rows < 2 ^ 31" "sint next = int n"
  shows "\<exists>next'. read_rows read next rows = Inr (map ev rows, next') \<and> sint next' = int (n + length rows)"
  using assms
proof (induction rows arbitrary: n "next")
  case (Cons e rows)
  have "[n..<n + length (e # rows)] = n # [Suc n..<Suc n + length rows]"
    by (simp add: upt_conv_Cons del: upt_Suc)
  with Cons.prems(2) have e: "sint (se_sequence_number e) = int n"
      "map (\<lambda>e. sint (se_sequence_number e)) rows = map int [Suc n..<Suc n + length rows]"
    by (simp_all del: upt_Suc)
  define m :: i32 where "m = word_of_int (int (Suc n))"
  have m: "sint m = int (Suc n)"
    using Cons.prems(3) sint_word_of_int_fits_iff [of "int (Suc n)", where 'a = 32] by (simp add: m_def)
  have "s_checked_add (se_sequence_number e) 1 = Some m"
    by (simp add: s_checked_add_Some m e(1))
  moreover obtain next' where "read_rows read m rows = Inr (map ev rows, next')" "sint next' = int (Suc n + length rows)"
    using Cons.IH [OF Cons.prems(1) e(2) _ m] Cons.prems(3) by auto
  ultimately show ?case using Cons.prems(1) [of e] by (intro exI [of _ next']) simp
qed simp

text \<open>C13. Reading gives back what was appended: for the consumer of a streamed job, over any table that appends have
  produced, a read from a cursor succeeds and returns the texts of the transcript from the cursor on, at most
  \<open>limit\<close> of them, numbered as they were appended; the next cursor is behind the last one, and more is
  announced exactly when the transcript goes on.\<close>

theorem read_returns_transcript:
  assumes "stream_reachable w jv cr key ds es" "crypto_ok cr" "stable_requests ds" "d \<in> ds"
    and job: "fetch_optional (\<lambda>j. j_id j = job_id) (jobs d) = Some job" "streams w cr key job payload limits"
      "j_user_id job = pr_user_id prin" "j_confidentiality job = StandardMode" "j_max_attempts job = 1"
      "0 < sint (j_attempt_count job)"
      "j_status job = Succeeded \<longrightarrow> list_ex (\<lambda>e. se_event_kind e = UpstreamDone) (events_of job_id (j_attempt_count job) es)"
    and "fetch_optional (\<lambda>m. m_id m = j_model_id job) (models d) = Some m"
    and bounds: "0 \<le> sint from_sequence" "sint from_sequence \<le> 65536" "0 \<le> sint limit"
  shows "\<exists>r. read_job_stream_authenticated w jv cr key prin job_id from_sequence limit d es = Inr r \<and>
    map (Some \<circ> js_event_data) (rd_events r) =
      take (nat (sint limit)) (drop (nat (sint from_sequence)) (transcript cr key job_id (j_attempt_count job) es)) \<and>
    map (sint \<circ> js_sequence) (rd_events r) =
      map int [nat (sint from_sequence)..<nat (sint from_sequence) + length (rd_events r)] \<and>
    sint (rd_next_sequence r) = sint from_sequence + int (length (rd_events r)) \<and>
    (rd_has_more r \<longleftrightarrow> sint (rd_next_sequence r) < int (length (transcript cr key job_id (j_attempt_count job) es)))"
proof -
  let ?a = "j_attempt_count job"
  define rows where "rows = data_events job_id ?a es"
  define n where "n = nat (sint from_sequence)"
  have n: "sint from_sequence = int n" "n \<le> 65536" using bounds by (simp_all add: n_def)
  note ok = reachable_rows_ok [OF assms(1,2), of job_id ?a]
  have num: "numbered rows" and len: "length rows \<le> 65536"
    using ok data_prefix [of "events_of job_id ?a es"] transcripts_length [OF assms(1,2), of job_id ?a] numbered_take
    by (fastforce simp: rows_ok_def rows_def data_events_def)+
  define page where "page = take (nat (sint limit)) (drop n rows)"
  have cut: "filter (\<lambda>e. se_event_kind e = Data \<and> int k \<le> sint (se_sequence_number e)) (events_of job_id ?a es) = drop k rows" for k
    using numbered_from [OF num, of k] by (simp add: rows_def data_events_def conj_commute)
  have page: "stream_page job_id ?a from_sequence limit es = page"
    using numbered_sorted [OF num, of n] by (simp add: stream_page_def n cut page_def)
  have ev: "\<exists>s. event_text cr key e = Some s \<and> read_event w jv cr key job_id ?a payload limits e =
      Inr \<lparr>js_sequence = se_sequence_number e, js_event_data = s\<rparr>" if "e \<in> set rows" for e
  proof -
    have e: "e \<in> set (events_of job_id ?a es)" "se_event_kind e = Data" "se_job_id e = job_id" "se_attempt_number e = ?a"
      using that by (auto simp: rows_def data_events_def events_of_def)
    from row_holds_data [OF ok e(1,2)] obtain s where "row_holds w jv cr key ds e s" ..
    then show ?thesis
      using row_holds_read [OF _ assms(3,4), of w jv cr key e s job payload limits] row_holds_text fetch_optional_Some [OF job(1)] job(2) e
      by auto
  qed
  let ?ev = "\<lambda>e. \<lparr>js_sequence = se_sequence_number e, js_event_data = the (event_text cr key e)\<rparr>"
  have sub: "set page \<subseteq> set rows" by (auto simp: page_def dest: in_set_takeD in_set_dropD)
  have seqs: "map (\<lambda>e. sint (se_sequence_number e)) page = map int [n..<n + length page]"
  proof -
    have "map (\<lambda>e. sint (se_sequence_number e)) page = take (nat (sint limit)) (map int [n..<length rows])"
      using numbered_drop [OF num, of n] by (simp add: page_def take_map [symmetric])
    moreover have "take k [n..<length rows] = [n..<n + min (length rows - n) k]" for k
      by (cases "n \<le> length rows") (simp_all add: min_def take_upt)
    ultimately show ?thesis by (simp add: take_map page_def)
  qed
  have "\<exists>next'. read_rows (read_event w jv cr key job_id ?a payload limits) from_sequence page = Inr (map ?ev page, next') \<and>
      sint next' = int (n + length page)"
  proof (rule read_rows_all [OF _ seqs])
    show "read_event w jv cr key job_id ?a payload limits e = Inr (?ev e)" if "e \<in> set page" for e
      using ev [OF subsetD [OF sub that]] by (elim exE conjE) simp
    show "n + length page < 2 ^ 31" using n len by (simp add: page_def)
  qed (rule n)
  then obtain next' where rd: "read_rows (read_event w jv cr key job_id ?a payload limits) from_sequence page = Inr (map ?ev page, next')"
    and nx: "sint next' = int (n + length page)" by blast
  have more: "list_ex (\<lambda>e. se_event_kind e = Data \<and> sint next' \<le> sint (se_sequence_number e)) (events_of job_id ?a es) \<longleftrightarrow>
      n + length page < length rows"
  proof -
    have "list_ex (\<lambda>e. se_event_kind e = Data \<and> sint next' \<le> sint (se_sequence_number e)) (events_of job_id ?a es) \<longleftrightarrow>
        drop (n + length page) rows \<noteq> []"
      unfolding nx cut [symmetric] by (simp add: list_ex_iff filter_empty_conv)
    then show ?thesis by auto
  qed
  have texts: "map (Some \<circ> js_event_data) (map ?ev page) = map (event_text cr key) page"
    unfolding map_map
  proof (rule map_cong [OF refl])
    fix e
    assume "e \<in> set page"
    from ev [OF subsetD [OF sub this]] show "(Some \<circ> js_event_data \<circ> ?ev) e = event_text cr key e"
      by (elim exE conjE) simp
  qed
  obtain r where r: "read_job_stream_authenticated w jv cr key prin job_id from_sequence limit d es = Inr r"
    "rd_events r = map ?ev page" "rd_next_sequence r = next'"
    "rd_has_more r \<longleftrightarrow> n + length page < length rows"
    using assms(12) job rd more page by (simp add: read_job_stream_authenticated_def streams_def Let_def)
  show ?thesis
    using r texts seqs nx n
    by (intro exI [of _ r]) (simp add: transcript_def rows_def [symmetric] page_def take_map drop_map comp_def n_def [symmetric], arith)
qed

section \<open>What a submitted result must be\<close>

lemma u32_checked_add_Some: "u32_checked_add a b = Some c \<longleftrightarrow> unat c = unat a + unat b"
proof -
  have "unat (a + b) = unat a + unat b" if "unat a + unat b < 2 ^ 32" using that by (simp add: unat_word_ariths)
  moreover have "unat c < 2 ^ 32" using unsigned_less [of c, where 'a = nat] by simp
  ultimately show ?thesis by (auto simp: u32_checked_add_def word_unat_eq_iff)
qed

lemma validate_reported_usage_iff:
  "validate_reported_usage usage req = Inr () \<longleftrightarrow>
     sint (actual_input_tokens req) = int (unat (us_prompt_tokens usage)) \<and>
     sint (actual_output_tokens req) = int (unat (us_completion_tokens usage)) \<and>
     unat (us_total_tokens usage) = unat (us_prompt_tokens usage) + unat (us_completion_tokens usage)"
  (is "_ \<longleftrightarrow> ?r")
proof -
  have bound: "unat u \<le> 2147483647" if "sint (x :: i32) = uint u" for x and u :: u32
  proof -
    have "int (unat u) = uint u" "sint x < 2147483648" using sint_lt [of x] by simp_all
    with that show ?thesis by linarith
  qed
  have "validate_reported_usage usage req = Inr () \<longleftrightarrow>
      (\<exists>t p q. unat t = unat (us_prompt_tokens usage) + unat (us_completion_tokens usage) \<and>
        (unat (us_prompt_tokens usage) \<le> 2147483647 \<and> sint p = int (unat (us_prompt_tokens usage))) \<and>
        (unat (us_completion_tokens usage) \<le> 2147483647 \<and> sint q = int (unat (us_completion_tokens usage))) \<and>
        us_total_tokens usage = t \<and> actual_input_tokens req = p \<and> actual_output_tokens req = q)"
    unfolding validate_reported_usage_def
    by (simp only: and_then_eq_Inr ok_or_eq_Inr u32_checked_add_Some i32_try_from_Some) (auto split: if_splits)
  then show ?thesis
    using bound [of "actual_input_tokens req" "us_prompt_tokens usage"]
      bound [of "actual_output_tokens req" "us_completion_tokens usage"] by simp metis
qed

text \<open>The usage and the model that the submitted response states.\<close>

definition states_usage :: "'v wire_env \<Rightarrow> responses \<Rightarrow> 'v StandardJobPayload \<Rightarrow> JobResultRequest \<Rightarrow> rstring \<Rightarrow> Usage \<Rightarrow> bool" where
  "states_usage w rs payload req model usage \<longleftrightarrow>
     (\<exists>b. base64_standard w (result_ciphertext req) = Some b \<and> length b \<le> 900000 \<and>
        (if endpoint payload = OPENAI_CHAT_COMPLETIONS
         then \<exists>x. chat_response_from_slice rs b = Some x \<and> cr_model x = model \<and> cr_usage x = usage \<and>
           (\<exists>c cs. cr_choices x = c # cs \<and> nonblank_text (content (ch_message c)))
         else \<exists>x. completions_response_from_slice rs b = Some x \<and> ct_model x = model \<and> ct_usage x = usage \<and>
           ct_choices x \<noteq> []))"

lemma standard_result_checked:
  assumes "validate_standard_result w rs cr key job req = Inr stream"
  obtains payload limits usage where "decode_stored_standard_payload w cr key job = Inr payload"
    "validated_limits (wire_json w) payload = Inr limits" "stream = lim_stream limits"
    "states_usage w rs payload req (lim_model limits) usage" "validate_reported_usage usage req = Inr ()"
proof -
  obtain payload limits b where p: "decode_stored_standard_payload w cr key job = Inr payload"
    and l: "validated_limits (wire_json w) payload = Inr limits" "stream = lim_stream limits"
    and b: "base64_standard w (result_ciphertext req) = Some b" "length b \<le> 900000"
    and v: "(if endpoint payload = OPENAI_CHAT_COMPLETIONS then
           and_then (ok_or (chat_response_from_slice rs b) (BadRequest ''invalid_job_result'')) (\<lambda>response.
           case cr_choices response of
             [] \<Rightarrow> Inl (BadRequest ''invalid_job_result'')
           | choice # _ \<Rightarrow>
             if cr_model response \<noteq> lim_model limits then Inl (BadRequest ''model_binding_mismatch'')
             else if \<not> nonblank_text (content (ch_message choice)) then Inl (BadRequest ''invalid_job_result'')
             else validate_reported_usage (cr_usage response) req)
         else if endpoint payload = OPENAI_COMPLETIONS then
           and_then (ok_or (completions_response_from_slice rs b) (BadRequest ''invalid_job_result''))
             (\<lambda>response.
             if ct_choices response = [] then Inl (BadRequest ''invalid_job_result'')
             else if ct_model response \<noteq> lim_model limits then Inl (BadRequest ''model_binding_mismatch'')
             else validate_reported_usage (ct_usage response) req)
         else Inl InternalError) = Inr ()"
    using assms unfolding validate_standard_result_def
    by (elim inversion) (simp add: result_simps not_less)
  show thesis
  proof (cases "endpoint payload = OPENAI_CHAT_COMPLETIONS")
    case True
    with v obtain x where x: "chat_response_from_slice rs b = Some x"
      and c: "(case cr_choices x of [] \<Rightarrow> Inl (BadRequest ''invalid_job_result'')
         | choice # _ \<Rightarrow>
           if cr_model x \<noteq> lim_model limits then Inl (BadRequest ''model_binding_mismatch'')
           else if \<not> nonblank_text (content (ch_message choice)) then Inl (BadRequest ''invalid_job_result'')
           else validate_reported_usage (cr_usage x) req) = Inr ()"
      by (simp only: simp_thms if_True and_then_eq_Inr ok_or_eq_Inr) blast
    from c obtain ch cs where "cr_choices x = ch # cs" "cr_model x = lim_model limits"
      "nonblank_text (content (ch_message ch))" "validate_reported_usage (cr_usage x) req = Inr ()"
      by (cases "cr_choices x") (auto split: if_splits)
    note this x
    with True b show thesis by (intro that [OF p l, of "cr_usage x"]) (simp_all add: states_usage_def)
  next
    case False
    with v obtain x where "completions_response_from_slice rs b = Some x" "ct_choices x \<noteq> []" "ct_model x = lim_model limits"
      "validate_reported_usage (ct_usage x) req = Inr ()"
      by (auto simp: result_simps split: if_splits)
    with False b show thesis by (intro that [OF p l, of "ct_usage x"]) (auto simp: states_usage_def)
  qed
qed

lemma complete_transcript_ends:
  assumes "rows_ok w jv cr key ds rows" "transcript_complete rows"
  shows "\<exists>xs e. rows = xs @ [e] \<and> xs \<noteq> [] \<and> se_event_kind e = UpstreamDone \<and> list_all (\<lambda>e. se_event_kind e = Data) xs"
proof (cases rows rule: rev_exhaust)
  case (snoc xs e)
  with assms have xs: "list_all (\<lambda>e. se_event_kind e = Data) xs" by (simp add: rows_ok_def ends_once_def)
  then have "filter (\<lambda>e. se_event_kind e = UpstreamDone) xs = []" by (auto simp: list_all_iff filter_empty_conv)
  with assms(2) snoc have "xs \<noteq> []" "se_event_kind e = UpstreamDone"
    by (auto simp: transcript_complete_def Let_def split: if_splits)
  with xs snoc show ?thesis by blast
qed (use assms(2) in \<open>simp add: transcript_complete_def\<close>)

text \<open>C16. Only a checked result is settled: when a result for a standard job is accepted, the response that the worker
  submitted parses, names the model the payload asked for and is not empty, the tokens handed to the settlement
  are exactly the usage it states and add up to its total, and the settlement succeeded on them. When the job
  streams, its transcript was complete before: at least one text and, as the last row, the end marker.\<close>

theorem only_checked_results_settle:
  assumes "job_result w rs env cr cfg ck prin job_id hidden_result req es d = Inr (Inr answer, d')"
    and "fetch_optional (\<lambda>j. j_id j = job_id) (jobs d) = Some job" "j_confidentiality job = StandardMode"
    and "stream_reachable w jv cr (standard_data_key cfg) ds es" "crypto_ok cr"
    and "\<not> list_ex (\<lambda>h. hw_id h = job_id) (hidden_work d)"
  shows "\<exists>payload limits usage out cmd. decode_stored_standard_payload w cr (standard_data_key cfg) job = Inr payload \<and>
    validated_limits (wire_json w) payload = Inr limits \<and> states_usage w rs payload req (lim_model limits) usage \<and>
    sint (cm_actual_input_tokens cmd) = int (unat (us_prompt_tokens usage)) \<and>
    sint (cm_actual_output_tokens cmd) = int (unat (us_completion_tokens usage)) \<and>
    unat (us_total_tokens usage) = unat (us_prompt_tokens usage) + unat (us_completion_tokens usage) \<and>
    cm_job_id cmd = job_id \<and> complete_job env cr (standard_data_key cfg) ck cmd d = Inr (Inr out, d') \<and>
    (\<not> lim_stream limits \<or> (\<exists>xs e. events_of job_id (j_attempt_count job) es = xs @ [e] \<and> xs \<noteq> [] \<and>
       se_event_kind e = UpstreamDone \<and> list_all (\<lambda>e. se_event_kind e = Data) xs))"
proof -
  have ordinary: "work_item_kind job_id d = Inr Ordinary"
  proof -
    have "list_ex (\<lambda>j. j_id j = job_id) (jobs d)" using fetch_optional_Some [OF assms(2)] by (auto simp: list_ex_iff)
    with assms(6) show ?thesis by (simp add: work_item_kind_def)
  qed
  define cmd where "cmd = \<lparr>cm_job_id = job_id, cm_node_id = res_node_id req, cm_worker_user_id = pr_user_id prin,
        cm_claim_device_key_id = pr_device_key_id prin, cm_idempotency_key = res_idempotency_key req,
        cm_result_ciphertext = result_ciphertext req, cm_actual_input_tokens = actual_input_tokens req,
        cm_actual_output_tokens = actual_output_tokens req, cm_execution_telemetry = execution_telemetry req\<rparr>"
  obtain out where v: "validate_job_result w rs cr (standard_data_key cfg) job_id req d es = Inr ()"
    and out: "complete_job env cr (standard_data_key cfg) ck cmd d = Inr (Inr out, d')"
    using assms(1) ordinary unfolding job_result_def cmd_def by (auto simp: result_simps)
  from v assms(2,3) obtain stream where r: "validate_standard_result w rs cr (standard_data_key cfg) job req = Inr stream"
    and t: "stream \<Longrightarrow> transcript_complete (events_of job_id (j_attempt_count job) es)"
    by (auto simp: validate_job_result_def result_simps split: if_splits)
  from r obtain payload limits usage where "decode_stored_standard_payload w cr (standard_data_key cfg) job = Inr payload"
    "validated_limits (wire_json w) payload = Inr limits" "stream = lim_stream limits"
    "states_usage w rs payload req (lim_model limits) usage" "validate_reported_usage usage req = Inr ()"
    by (rule standard_result_checked)
  moreover have "\<not> stream \<or> (\<exists>xs e. events_of job_id (j_attempt_count job) es = xs @ [e] \<and> xs \<noteq> [] \<and>
       se_event_kind e = UpstreamDone \<and> list_all (\<lambda>e. se_event_kind e = Data) xs)"
    using t complete_transcript_ends [OF reachable_rows_ok [OF assms(4,5), of job_id "j_attempt_count job"]] by blast
  ultimately show ?thesis using out
    by (intro exI [of _ payload] exI [of _ limits] exI [of _ usage] exI [of _ out] exI [of _ cmd])
      (simp add: validate_reported_usage_iff cmd_def)
qed

end
