(* ===== verification/StreamSample.thy ===== *)
theory StreamSample
  imports Transcript Sample
begin

text \<open>
  A concrete stream: the network of \<open>Sample\<close> with one leased job that asked for a stream, one event
  appended to it, and the submission of a result. The witnesses of the properties of \<open>Transcript\<close> apply them here.
\<close>

section \<open>A submitted result\<close>

definition toy_response :: ChatCompletionsResponse where
  "toy_response = \<lparr>cr_id = [], cr_object = [], cr_created = 0, cr_model = lit ''auto'',
     cr_choices = [\<lparr>ch_index = 0, ch_message = \<lparr>role = Assistant, content = Text (lit ''hi''), msg_name = None, tool_call_id = None\<rparr>,
       ch_finish_reason = Some Stop\<rparr>],
     cr_usage = \<lparr>us_prompt_tokens = 1000, us_completion_tokens = 200, us_total_tokens = 1200\<rparr>, cr_system_fingerprint = None\<rparr>"

definition toy_responses :: responses where
  "toy_responses = \<lparr>chat_response_from_slice = (\<lambda>_. Some toy_response), completions_response_from_slice = (\<lambda>_. None)\<rparr>"

definition toy_result :: JobResultRequest where
  "toy_result = \<lparr>res_node_id = 20, res_idempotency_key = lit ''r-1'', result_ciphertext = lit ''done'',
     actual_input_tokens = 1000, actual_output_tokens = 200,
     execution_telemetry = \<lparr>ttft_ms = None, tps_milli = None, peak_vram_mib = None, vram_sample_count = 0\<rparr>\<rparr>"

lemma toy_result_ok: "JobResultRequest_validate toy_result = Inr ()"
proof -
  have "identifier_ok 200 (lit ''r-1'')" "identifier_ok 900000 (lit ''done'')"
    by (simp_all add: identifier_ok_def trim_def is_whitespace_def utf8_char_def any_control_def is_control_def)
  then show ?thesis
    by (simp add: result.validate_ok result_ok_def toy_result_def telemetry_ok_def del: lit_simps)
qed

lemma toy_payload_read: "decode_stored_standard_payload toy_wire plain_crypto [7] toy_leased = Inr sample_payload"
proof -
  have "rq_standard_payload_storage_version (j_request toy_leased) = Some STORAGE_VERSION"
    "rq_encrypted_payload (j_request toy_leased) = toy_stored" "j_id toy_leased = 1003"
    "rq_payload_encoding (j_request toy_leased) = Base64"
    by (simp_all add: toy_leased_def toy_job_def)
  then show ?thesis
    by (simp add: decode_stored_standard_payload_def toy_decrypted toy_text decode_standard_payload_def toy_wire_def
        del: lit_simps cong: and_then_weak)
qed

lemma toy_result_standard:
  "validate_standard_result toy_wire toy_responses plain_crypto [7] toy_leased toy_result = Inr False"
proof -
  have enc: "rq_payload_encoding (j_request toy_leased) = Base64" by (simp add: toy_leased_def toy_job_def)
  have usage: "validate_reported_usage (cr_usage toy_response) toy_result = Inr ()"
    by (simp add: validate_reported_usage_iff toy_response_def toy_result_def del: lit_simps)
  have nonblank: "nonblank_text (Text (lit ''hi''))" by code_simp
  obtain c where c: "cr_choices toy_response = [c]" "content (ch_message c) = Text (lit ''hi'')" "cr_model toy_response = lit ''auto''"
    by (simp add: toy_response_def del: lit_simps)
  have w: "base64_standard toy_wire x = Some [123, 125]" "wire_json toy_wire = sample_json" "endpoint sample_payload = OPENAI_CHAT_COMPLETIONS"
    "chat_response_from_slice toy_responses y = Some toy_response" for x y
    by (simp_all add: toy_wire_def sample_payload_def toy_responses_def)
  show ?thesis
    by (simp add: validate_standard_result_def toy_payload_read enc sample_limits w c nonblank usage del: lit_simps cong: and_then_weak)
qed

theorem only_checked_results_settle_witness:
  "\<exists>answer d' usage. job_result toy_wire toy_responses toy_settle plain_crypto toy_config (toy_settle_clock 5) worker_login 1003
      (\<lambda>_ _. Inl NotFound) toy_result [] db_claimed = Inr (Inr answer, d') \<and>
    validate_reported_usage usage toy_result = Inr () \<and> unat (us_total_tokens usage) = 1200"
proof -
  obtain out d' where run: "complete_job toy_settle plain_crypto [7] (toy_settle_clock 5) toy_completion db_claimed = Inr (Inr out, d')"
    using toy_settled by blast
  have job: "fetch_optional (\<lambda>j. j_id j = 1003) (jobs db_claimed) = Some toy_leased" "j_confidentiality toy_leased = StandardMode"
    by (simp_all add: fetch_optional_def claimed_tables toy_leased_def toy_job_def)
  have hidden: "\<not> list_ex (\<lambda>h. hw_id h = 1003) (hidden_work db_claimed)"
    by (simp add: db_claimed_def created_tables)
  have kind: "work_item_kind 1003 db_claimed = Inr Ordinary"
    using hidden by (simp add: work_item_kind_def claimed_tables toy_leased_def toy_job_def)
  have owner: "verify_node_owner worker_login 20 db_claimed = Inr ()"
    by (simp add: verify_node_owner_def fetch_optional_def claimed_tables toy_tables_def require_node_device_binding_def worker_login_def)
  have valid: "validate_job_result toy_wire toy_responses plain_crypto [7] 1003 toy_result db_claimed [] = Inr ()"
    by (simp add: validate_job_result_def job toy_result_standard cong: and_then_weak)
  have cmd: "\<lparr>cm_job_id = 1003, cm_node_id = res_node_id toy_result, cm_worker_user_id = pr_user_id worker_login,
        cm_claim_device_key_id = pr_device_key_id worker_login, cm_idempotency_key = res_idempotency_key toy_result,
        cm_result_ciphertext = result_ciphertext toy_result, cm_actual_input_tokens = actual_input_tokens toy_result,
        cm_actual_output_tokens = actual_output_tokens toy_result,
        cm_execution_telemetry = execution_telemetry toy_result\<rparr> = toy_completion"
    by (simp add: toy_result_def toy_completion_def worker_login_def del: lit_simps)
  have json: "wire_json toy_wire = sample_json" by (simp add: toy_wire_def)
  have node: "res_node_id toy_result = 20" and key: "standard_data_key toy_config = [7]"
    by (simp_all add: toy_result_def toy_config_def)
  obtain answer where all: "job_result toy_wire toy_responses toy_settle plain_crypto toy_config (toy_settle_clock 5) worker_login 1003
      (\<lambda>_ _. Inl NotFound) toy_result [] db_claimed = Inr (Inr answer, d')"
    by (simp add: job_result_def cmd owner [folded node] toy_result_ok kind key valid run cong: and_then_weak)
  have "\<exists>(limits :: StandardJobLimits) usage. states_usage toy_wire toy_responses sample_payload toy_result (lim_model limits) usage"
    using only_checked_results_settle [OF all job stream_reachable.empty_table plain_crypto_ok hidden, unfolded key]
    by (auto simp: toy_payload_read json)
  then obtain limits :: StandardJobLimits and usage where "states_usage toy_wire toy_responses sample_payload toy_result (lim_model limits) usage"
    by blast
  then have "usage = cr_usage toy_response"
    by (auto simp: states_usage_def toy_responses_def sample_payload_def)
  with all show ?thesis
    by (intro exI [of _ answer] exI [of _ d'] exI [of _ usage])
      (simp add: validate_reported_usage_iff toy_response_def toy_result_def del: lit_simps)
qed

section \<open>A stream\<close>

text \<open>Base64 with the alphabet of URLs, which the column of stored events insists on.\<close>

definition url_digit :: "nat \<Rightarrow> nat" where
  "url_digit v = (if v < 26 then 65 + v else if v < 52 then 71 + v else if v < 62 then v - 4 else if v = 62 then 45 else 95)"

definition url_value :: "nat \<Rightarrow> nat" where
  "url_value c = (if c = 45 then 62 else if c = 95 then 63 else if c < 58 then c + 4 else if c < 91 then c - 65 else c - 71)"

lemma url_digit: "v < 64 \<Longrightarrow> url_value (url_digit v) = v" "base64url_char (url_digit v) \<longleftrightarrow> v < 62 \<or> 62 \<le> v" "url_digit v < 128"
  by (auto simp: url_digit_def url_value_def base64url_char_def)

lemma six_bit_bounds: "b < 16 \<Longrightarrow> a mod 4 * 16 + b < (64 :: nat)" "d < 4 \<Longrightarrow> b mod 16 * 4 + d < (64 :: nat)"
proof -
  have "a mod 4 < 4" "b mod 16 < 16" by simp_all
  then show "b < 16 \<Longrightarrow> a mod 4 * 16 + b < 64" "d < 4 \<Longrightarrow> b mod 16 * 4 + d < 64" by linarith+
qed

lemma six_bits_below: "octets b \<Longrightarrow> list_all (\<lambda>v. v < 64) (six_bits b)"
  using six_bit_bounds(1) [of 0] six_bit_bounds(2) [of 0]
  by (induction b rule: six_bits.induct) (simp_all add: octets_def less_mult_imp_div_less six_bit_bounds)

definition url_encode :: "bytes \<Rightarrow> rstring" where
  "url_encode b = map url_digit (six_bits b)"

definition url_decode :: "rstring \<Rightarrow> bytes option" where
  "url_decode s = Some (eight_bits (map url_value s))"

lemma url_encode:
  assumes "octets b"
  shows "url_decode (url_encode b) = Some b" "is_ascii_str (url_encode b)" "length (url_encode b) = (4 * length b + 2) div 3"
    "list_all base64url_char (url_encode b)"
proof -
  have "map (url_value \<circ> url_digit) (six_bits b) = six_bits b"
    using six_bits_below [OF assms] by (intro map_idI) (simp add: list_all_iff url_digit)
  then show "url_decode (url_encode b) = Some b"
    by (simp add: url_decode_def url_encode_def six_bits_inverse [OF assms])
  show "is_ascii_str (url_encode b)" "list_all base64url_char (url_encode b)"
    "length (url_encode b) = (4 * length b + 2) div 3"
    by (auto simp: url_encode_def is_ascii_str_def list_all_iff url_digit length_six_bits)
qed

definition stream_crypto :: crypto where
  "stream_crypto = plain_crypto\<lparr>b64_encode := url_encode, b64_decode := url_decode\<rparr>"

lemma stream_crypto_ok: "crypto_ok stream_crypto"
  using plain_crypto_ok by (simp add: crypto_ok_def stream_crypto_def url_encode)

lemma stream_seals:
  assumes "p \<noteq> []" "length p \<le> 1000" "octets p"
  obtains c where "encrypt_for_storage stream_crypto [7] sample_nonce job dir p = Some (ENVELOPE_PREFIX @ c)"
    "c \<noteq> []" "list_all base64url_char c"
    "decrypt_from_storage stream_crypto [7] job dir (ENVELOPE_PREFIX @ c) = Some p"
proof -
  let ?b = "sample_nonce @ p @ plain_tag (storage_aad stream_crypto job dir)"
  have n: "octets sample_nonce" "length sample_nonce = NONCE_LENGTH"
    by (simp_all add: sample_nonce_def octets_def NONCE_LENGTH_def)
  have b: "octets ?b" using assms(3) n octets_be_bytes by (simp add: octets_def plain_tag_def)
  have e: "encrypt_for_storage stream_crypto [7] sample_nonce job dir p = Some (ENVELOPE_PREFIX @ url_encode ?b)"
    using assms(1,2) by (simp add: encrypt_Some derive_subkey_def stream_crypto_def plain_crypto_def MAX_STORED_VALUE_BYTES_def)
  moreover have "url_encode ?b \<noteq> []" using url_encode(3) [OF b] n by (auto simp: NONCE_LENGTH_def simp flip: length_greater_0_conv)
  ultimately show thesis
    using url_encode(4) [OF b] encrypted_decrypts [OF stream_crypto_ok assms(3) n e] by (rule that)
qed

definition stream_json :: "rstring serde_json" where
  "stream_json = \<lparr>object_keys = (\<lambda>_. Some [lit ''model'', lit ''messages'']), to_vec = (\<lambda>_. Some (replicate 10 32)),
     chat_from_slice = (\<lambda>_. Some (sample_chat\<lparr>chat_stream := True\<rparr>)), completions_from_slice = (\<lambda>_. None),
     value_from_str = Some\<rparr>"

definition stream_payload :: "rstring StandardJobPayload" where
  "stream_payload = \<lparr>endpoint = OPENAI_CHAT_COMPLETIONS, request = lit ''{}''\<rparr>"

definition stream_wire :: "rstring wire_env" where
  "stream_wire = \<lparr>wire_json = stream_json, payload_from_slice = (\<lambda>_. Some stream_payload),
     base64_standard = (\<lambda>_. Some [123, 125]), base64_url = (\<lambda>_. None), request_to_vec = (\<lambda>_. Some [123, 125]),
     envelope_to_string = (\<lambda>_. None)\<rparr>"

definition stream_limits :: StandardJobLimits where
  "stream_limits = \<lparr>lim_model = lit ''auto'', minimum_input_tokens = 1034, maximum_output_tokens = 512, lim_stream = True\<rparr>"

text \<open>The reader of JSON finds the same chunk in every text.\<close>

definition stream_values :: "rstring json_value" where
  "stream_values = \<lparr>jv_object = (\<lambda>_. Some (\<lambda>k. if k = lit ''object'' then Some (lit ''chat.completion.chunk'')
       else if k = lit ''model'' then Some (lit ''auto'') else if k = lit ''id'' then Some (lit ''c1'')
       else if k = lit ''created'' \<or> k = lit ''choices'' then Some [] else None)),
     jv_array = (\<lambda>_. Some []), jv_str = Some, jv_i64 = (\<lambda>_. Some 0), jv_u64 = (\<lambda>_. None),
     jv_is_null = (\<lambda>_. False), jv_is_string = (\<lambda>_. True)\<rparr>"

lemma stream_limits: "validated_limits stream_json stream_payload = Inr stream_limits"
proof -
  have "validate_standard_request_fields stream_json r chat_fields = Inr ()" for r
    by (simp add: validate_standard_request_fields_def stream_json_def chat_fields_def)
  moreover have "ChatCompletionsRequest_validate (sample_chat\<lparr>chat_stream := True\<rparr>) = Inr ()"
    using sample_chat_ok by (simp add: chat.validate_ok chat_ok_def sampling_ok_def)
  ultimately have c: "chat_limits stream_json r = Inr (lit ''auto'', True, 256, 2)" for r
    by (simp add: chat_limits_def stream_json_def sample_chat_def opt_or_def unwrap_or_def
        DEFAULT_NETWORK_MAX_OUTPUT_TOKENS_def del: lit_simps)
  have o: "output_token_limit 256 2 = Some 512" by (simp add: output_token_limit_Some)
  have i: "conservative_input_token_authorization stream_json r = Inr 1034" for r
    by (simp add: input_authorization_iff stream_json_def)
  have "validate_identifier ''model'' (lit ''auto'') 128 = Inr ()"
    by (simp add: validate_identifier_iff auto_identifier del: lit_simps)
  with c o i show ?thesis by (simp add: validated_limits_def stream_payload_def stream_limits_def del: lit_simps)
qed

lemma stream_chunk_ok:
  "validate_standard_stream_data stream_json stream_values stream_payload (lit ''auto'') data = Inr ()"
proof -
  have keys: "lit ''model'' \<noteq> lit ''object''" "lit ''id'' \<noteq> lit ''object''" "lit ''id'' \<noteq> lit ''model''"
    "lit ''created'' \<noteq> lit ''object''" "lit ''created'' \<noteq> lit ''model''" "lit ''created'' \<noteq> lit ''id''"
    "lit ''choices'' \<noteq> lit ''object''" "lit ''choices'' \<noteq> lit ''model''" "lit ''choices'' \<noteq> lit ''id''"
    "lit ''usage'' \<noteq> lit ''object''" "lit ''usage'' \<noteq> lit ''model''" "lit ''usage'' \<noteq> lit ''id''"
    "lit ''usage'' \<noteq> lit ''created''" "lit ''usage'' \<noteq> lit ''choices''" "lit ''c1'' \<noteq> []" "str_len (lit ''c1'') \<le> 256"
    by (code_simp)+
  show ?thesis
    by (simp add: validate_standard_stream_data_def stream_values_def stream_json_def stream_payload_def keys is_some_and_def Let_def
        del: lit_simps cong: and_then_weak)
qed

text \<open>The job that asked for a stream, leased to the worker's node, and the first event.\<close>

definition stream_stored :: rstring where
  "stream_stored = the (encrypt_for_storage stream_crypto [7] sample_nonce 1003 Payload (utf8 (lit ''e30'')))"

definition stream_job :: Job where
  "stream_job = toy_leased\<lparr>j_max_attempts := 1, j_request := (j_request toy_job)\<lparr>rq_encrypted_payload := stream_stored\<rparr>\<rparr>"

definition db_stream :: "unit db" where
  "db_stream = db_claimed\<lparr>jobs := [stream_job]\<rparr>"

definition stream_request :: JobStreamEventRequest where
  "stream_request = \<lparr>ev_node_id = 20, ev_attempt = 1, ev_sequence = 0, ev_idempotency_key = lit ''e-0'', ev_kind = Data,
     event_data = Some (lit ''{}'')\<rparr>"

lemma stream_job_fields:
  "j_id stream_job = 1003" "j_model_id stream_job = 30" "j_leased_to_node_id stream_job = Some 20" "j_status stream_job = Leased"
  "j_lease_expires_at stream_job = Some toy_expiry" "j_attempt_count stream_job = 1" "j_confidentiality stream_job = StandardMode"
  "j_max_attempts stream_job = 1" "j_user_id stream_job = 1" "rq_encrypted_payload (j_request stream_job) = stream_stored"
  "rq_standard_payload_storage_version (j_request stream_job) = Some STORAGE_VERSION"
  "rq_payload_encoding (j_request stream_job) = Base64"
  by (simp_all add: stream_job_def toy_leased_def toy_job_def)

lemma stream_tables: "jobs db_stream = [stream_job]" "models db_stream = tb_models toy_tables" "nodes db_stream = tb_nodes toy_tables"
  "job_attempts db_stream = [toy_attempt]"
  by (simp_all add: db_stream_def claimed_tables)

lemma stream_payload_read: "decode_stored_standard_payload stream_wire stream_crypto [7] stream_job = Inr stream_payload"
proof -
  have p: "utf8 (lit ''e30'') \<noteq> []" "length (utf8 (lit ''e30'')) \<le> 1000" "octets (utf8 (lit ''e30''))"
    by (simp_all add: octets_def utf8_char_def)
  obtain c where "encrypt_for_storage stream_crypto [7] sample_nonce 1003 Payload (utf8 (lit ''e30'')) = Some (ENVELOPE_PREFIX @ c)"
    "decrypt_from_storage stream_crypto [7] 1003 Payload (ENVELOPE_PREFIX @ c) = Some (utf8 (lit ''e30''))"
    by (rule stream_seals [OF p])
  then have "decrypt_from_storage stream_crypto [7] 1003 Payload stream_stored = Some (utf8 (lit ''e30''))"
    by (simp add: stream_stored_def del: lit_simps)
  then show ?thesis
    by (simp add: decode_stored_standard_payload_def stream_job_fields toy_text decode_standard_payload_def stream_wire_def
        del: lit_simps cong: and_then_weak)
qed

lemma stream_streams: "streams stream_wire stream_crypto [7] stream_job stream_payload stream_limits"
  by (simp add: streams_def stream_payload_read stream_limits stream_wire_def [THEN arg_cong, of wire_json] stream_limits_def)

lemma stream_request_ok: "JobStreamEventRequest_validate stream_json stream_request = Inr ()"
proof -
  have "identifier_ok 200 (lit ''e-0'')" "str_len (lit ''{}'') \<le> 65536" "lit ''{}'' \<noteq> []"
    by (simp_all add: identifier_ok_def trim_def is_whitespace_def utf8_char_def any_control_def is_control_def str_len_def)
  then show ?thesis
    by (simp add: stream_event.validate_ok stream_event_ok_def stream_request_def stream_json_def del: lit_simps)
qed

lemma stream_authorized:
  "authorize_stream_event stream_wire stream_crypto [7] (toy_now + 5) worker_login 1003 stream_request db_stream =
     Inr (stream_payload, stream_limits)"
proof -
  have ids: "ev_node_id stream_request = 20" "ev_attempt stream_request = 1" "wire_json stream_wire = stream_json" "lim_stream stream_limits"
    by (simp_all add: stream_request_def stream_wire_def stream_limits_def)
  have bind: "at_job_id toy_attempt = 1003" "at_attempt_number toy_attempt = 1" "at_claim_device_key_id toy_attempt = Some 102"
    "at_claim_device_binding_version toy_attempt = Some DEVICE_BINDING_VERSION"
    by (simp_all add: toy_attempt_def)
  show ?thesis
    by (simp add: authorize_stream_event_def verify_node_owner_def fetch_optional_def stream_tables toy_tables_def
        require_node_device_binding_def exact_claim_device_binding_def worker_login_def stream_job_fields bind ids
        stream_request_ok stream_payload_read stream_limits toy_expiry_def cong: and_then_weak)
qed

lemma stream_appended:
  "\<exists>r e. append_job_stream_event stream_wire stream_values stream_crypto [7] sample_nonce (toy_now + 5) worker_login 1003
     stream_request db_stream [] = Inr (r, [e]) \<and> \<not> sr_idempotent_replay r"
proof -
  have p: "utf8 (lit ''{}'') \<noteq> []" "length (utf8 (lit ''{}'')) \<le> 1000" "octets (utf8 (lit ''{}''))" "i32_try_from (str_len (lit ''{}'')) = Some 2"
    by (simp_all add: octets_def utf8_char_def str_len_def i32_try_from_Some)
  obtain c where c: "encrypt_for_storage stream_crypto [7] sample_nonce 1003 (StreamEvent 1 0) (utf8 (lit ''{}'')) = Some (ENVELOPE_PREFIX @ c)"
    "c \<noteq> []" "list_all base64url_char c"
    by (rule stream_seals [OF p(1-3)])
  have rq: "ev_attempt stream_request = 1" "ev_sequence stream_request = 0" "ev_kind stream_request = Data"
    "event_data stream_request = Some (lit ''{}'')" "ev_idempotency_key stream_request = lit ''e-0''" "length (lit ''e-0'') = 3"
    by (simp_all add: stream_request_def)
  have m: "lim_model stream_limits = lit ''auto''" "wire_json stream_wire = stream_json"
    by (simp_all add: stream_limits_def stream_wire_def)
  show ?thesis
    by (simp add: append_job_stream_event_def stream_authorized record_stream_event_def fetch_optional_def events_of_def Let_def
        stream_event_row_def rq m stream_chunk_ok p(4) streamed_bytes_def s_checked_add_def is_some_and_def c
        MAX_JOB_STREAM_TOTAL_BYTES_def MAX_JOB_STREAM_EVENTS_def insert_stream_event_def stream_event_check_def STORAGE_VERSION_def
        del: lit_simps cong: and_then_weak)
qed

lemma stream_arguments:
  "octets sample_nonce" "length sample_nonce = NONCE_LENGTH" "\<forall>s. event_data stream_request = Some s \<longrightarrow> list_all is_scalar s"
  by (simp_all add: octets_def sample_nonce_def NONCE_LENGTH_def stream_request_def is_scalar_def)

lemma stream_run:
  obtains r es where "append_job_stream_event stream_wire stream_values stream_crypto [7] sample_nonce (toy_now + 5) worker_login 1003
      stream_request db_stream [] = Inr (r, es)" "\<not> sr_idempotent_replay r" "length es = 1"
    "stream_reachable stream_wire stream_values stream_crypto [7] {db_stream} es"
proof -
  obtain r e where a: "append_job_stream_event stream_wire stream_values stream_crypto [7] sample_nonce (toy_now + 5) worker_login 1003
      stream_request db_stream [] = Inr (r, [e])" "\<not> sr_idempotent_replay r"
    using stream_appended by blast
  show thesis
    by (rule that [OF a]) (simp, rule stream_reachable.appended [OF stream_reachable.empty_table _ stream_arguments a(1)], simp)
qed

theorem append_extends_transcript_witness:
  "\<exists>r es. append_job_stream_event stream_wire stream_values stream_crypto [7] sample_nonce (toy_now + 5) worker_login 1003
     stream_request db_stream [] = Inr (r, es) \<and> transcript stream_crypto [7] 1003 1 es = [Some (lit ''{}'')]"
proof -
  obtain r es where a: "append_job_stream_event stream_wire stream_values stream_crypto [7] sample_nonce (toy_now + 5) worker_login 1003
      stream_request db_stream [] = Inr (r, es)" and fresh: "\<not> sr_idempotent_replay r"
    by (rule stream_run)
  have "transcript stream_crypto [7] 1003 1 [] = []" by (simp add: transcript_def data_events_def events_of_def)
  with append_extends_transcript [OF a stream_crypto_ok stream_arguments, of 1003 1] fresh
  have "transcript stream_crypto [7] 1003 1 es = [Some (lit ''{}'')]"
    by (simp add: stream_request_def del: lit_simps)
  with a show ?thesis by blast
qed

theorem append_replays_witness:
  "\<exists>r es. append_job_stream_event stream_wire stream_values stream_crypto [7] sample_nonce (toy_now + 5) worker_login 1003
      stream_request db_stream [] = Inr (r, es) \<and> es \<noteq> [] \<and>
    append_job_stream_event stream_wire stream_values stream_crypto [7] [] (toy_now + 5) worker_login 1003
      stream_request db_stream es = Inr (r\<lparr>sr_idempotent_replay := True\<rparr>, es)"
proof -
  obtain r es where a: "append_job_stream_event stream_wire stream_values stream_crypto [7] sample_nonce (toy_now + 5) worker_login 1003
      stream_request db_stream [] = Inr (r, es)" and "length es = 1"
    by (rule stream_run)
  with append_replays [OF a stream_crypto_ok stream_arguments, of "[]"] show ?thesis by (intro exI conjI) auto
qed

theorem transcripts_contiguous_witness:
  "\<exists>es. length es = 1 \<and> map (\<lambda>e. sint (se_sequence_number e)) (events_of 1003 1 es) = map int [0..<length (events_of 1003 1 es)] \<and>
     None \<notin> set (transcript stream_crypto [7] 1003 1 es)"
proof -
  obtain es where n: "length es = 1" and "stream_reachable stream_wire stream_values stream_crypto [7] {db_stream} es"
    by (rule stream_run)
  from transcripts_contiguous [OF this(2) stream_crypto_ok, of 1003 1] n show ?thesis by blast
qed

theorem read_returns_transcript_witness:
  "\<exists>es r. length es = 1 \<and> read_job_stream_authenticated stream_wire stream_values stream_crypto [7] consumer_login 1003 0 8 db_stream es =
     Inr r \<and> map (Some \<circ> js_event_data) (rd_events r) = take 8 (transcript stream_crypto [7] 1003 1 es)"
proof -
  obtain es where n: "length es = 1" and reach: "stream_reachable stream_wire stream_values stream_crypto [7] {db_stream} es"
    by (rule stream_run)
  have stable: "stable_requests {db_stream}" by (simp add: stable_requests_def stream_tables)
  have job: "fetch_optional (\<lambda>j. j_id j = 1003) (jobs db_stream) = Some stream_job" "pr_user_id consumer_login = 1"
    "\<exists>m. fetch_optional (\<lambda>m. m_id m = j_model_id stream_job) (models db_stream) = Some m"
    by (simp_all add: fetch_optional_def stream_tables stream_job_fields consumer_login_def toy_tables_def)
  then obtain m where m: "fetch_optional (\<lambda>m. m_id m = j_model_id stream_job) (models db_stream) = Some m" by blast
  have num: "nat (sint (8 :: i32)) = 8" "nat (sint (0 :: i32)) = 0" by simp_all
  have "\<exists>r. read_job_stream_authenticated stream_wire stream_values stream_crypto [7] consumer_login 1003 0 8 db_stream es = Inr r \<and>
      map (Some \<circ> js_event_data) (rd_events r) = take (nat (sint (8 :: i32))) (drop (nat (sint (0 :: i32))) (transcript stream_crypto [7] 1003 1 es))"
    using read_returns_transcript [OF reach stream_crypto_ok stable _ job(1) stream_streams _ _ _ _ _ m,
        of consumer_login 0 8] job(2)
    by (simp add: stream_job_fields) blast
  with n show ?thesis unfolding num by auto
qed

end
