(* ===== verification/Honor.thy ===== *)
theory Honor
  imports Operator
begin

text \<open>
  The honor statistics of \<open>routes/nodes_models.rs\<close>: the rank of a node among the contributing nodes, the
  anonymous network leaderboard, contribution milestones and the streak of days without a failure. The
  groups a query aggregates over are lists in the order of the query; a \<open>BTreeMap\<close> is an association list
  with distinct keys. The ranking keeps the 64-bit arithmetic of the code and the percentile is a
  double. The loop that counts days saturates at the last day, so it is a partial function.
\<close>

section \<open>The leaderboard\<close>

definition CONTRIBUTION_RANK_PRIVACY_THRESHOLD :: i64 where
  "CONTRIBUTION_RANK_PRIVACY_THRESHOLD = 5"

definition NETWORK_HONOR_COUNT_GRANULARITY :: i64 where
  "NETWORK_HONOR_COUNT_GRANULARITY = 5"

definition CONTRIBUTION_MILESTONE_BASE_MICRO :: i64 where
  "CONTRIBUTION_MILESTONE_BASE_MICRO = 1000000"

definition HONOR_AGGREGATION_VERSION :: rstring where
  "HONOR_AGGREGATION_VERSION = lit ''node-honor-v2''"

definition NETWORK_HONOR_AGGREGATION_VERSION :: rstring where
  "NETWORK_HONOR_AGGREGATION_VERSION = lit ''network-honor-v1''"

datatype NetworkHonorLabel =
  Top1Percent | Top5Percent | Top10Percent | Top25Percent | Top50Percent | Contributor | ZeroFailure100Days

datatype NetworkHonorTiePolicy = MidrankSharedBand

record NetworkHonorLeaderboardEntry =
  he_label :: NetworkHonorLabel
  qualifying_nodes_lower_bound :: u64

record NetworkHonorLeaderboard =
  lb_aggregation_version :: rstring
  lb_privacy_threshold :: u64
  lb_cohort_nodes :: u64
  lb_count_granularity :: u64
  suppressed :: bool
  tie_policy :: NetworkHonorTiePolicy
  lb_entries :: "NetworkHonorLeaderboardEntry list"

definition i64_saturating_add :: "i64 \<Rightarrow> i64 \<Rightarrow> i64" where
  "i64_saturating_add a b =
     word_of_int (max (- 9223372036854775808) (min 9223372036854775807 (sint a + sint b)))"

text \<open>The loop over the groups of equal contribution, with its two counters; the products are in \<open>i128\<close>.\<close>

fun rank_groups :: "i64 \<Rightarrow> i64 \<Rightarrow> i64 list \<Rightarrow> i64 \<Rightarrow> i64 \<Rightarrow> i64 api" where
  "rank_groups cohort_nodes top_percent [] lower_nodes qualifying_nodes =
     (if lower_nodes \<noteq> cohort_nodes then Inl InternalError else Inr qualifying_nodes)"
| "rank_groups cohort_nodes top_percent (tied_nodes # groups) lower_nodes qualifying_nodes =
     (if sint tied_nodes \<le> 0 \<or> sint (i64_saturating_add lower_nodes tied_nodes) > sint cohort_nodes
      then Inl InternalError
      else
      and_then (ok_or (Option.bind (Option.bind (s_checked_mul lower_nodes 2) (\<lambda>v. s_checked_add v tied_nodes))
        (\<lambda>v. s_checked_sub v 1)) InternalError) (\<lambda>numerator.
      and_then (ok_or (Option.bind (s_checked_sub cohort_nodes 1) (\<lambda>v. s_checked_mul v 2)) InternalError) (\<lambda>denominator.
      and_then
        (if sint (s_from numerator * 100 :: i128) \<ge> sint (s_from denominator * s_from (100 - top_percent) :: i128)
         then ok_or (s_checked_add qualifying_nodes tied_nodes) InternalError else Inr qualifying_nodes) (\<lambda>qualifying.
      and_then (ok_or (s_checked_add lower_nodes tied_nodes) InternalError) (\<lambda>lower.
        rank_groups cohort_nodes top_percent groups lower qualifying)))))"

definition top_ranked_nodes :: "i64 \<Rightarrow> i64 list \<Rightarrow> i64 \<Rightarrow> i64 api" where
  "top_ranked_nodes cohort_nodes contribution_tie_groups top_percent =
     (if sint cohort_nodes < sint CONTRIBUTION_RANK_PRIVACY_THRESHOLD \<or>
         \<not> (1 \<le> sint top_percent \<and> sint top_percent \<le> 100)
      then Inl InternalError
      else rank_groups cohort_nodes top_percent contribution_tie_groups 0 0)"

definition push_quantized_honor_entry ::
    "NetworkHonorLeaderboardEntry list \<Rightarrow> NetworkHonorLabel \<Rightarrow> i64 \<Rightarrow> NetworkHonorLeaderboardEntry list api" where
  "push_quantized_honor_entry entries label exact_nodes =
     (if sint exact_nodes < 0 then Inl InternalError
      else
        let lower_bound = s_div exact_nodes NETWORK_HONOR_COUNT_GRANULARITY * NETWORK_HONOR_COUNT_GRANULARITY in
        if sint lower_bound \<ge> sint CONTRIBUTION_RANK_PRIVACY_THRESHOLD then
          and_then (ok_or (u64_try_from_i64 lower_bound) InternalError) (\<lambda>bound.
            Inr (entries @ [\<lparr>he_label = label, qualifying_nodes_lower_bound = bound\<rparr>]))
        else Inr entries)"

definition honor_bands :: "(NetworkHonorLabel \<times> i64) list" where
  "honor_bands = [(Top1Percent, 1), (Top5Percent, 5), (Top10Percent, 10), (Top25Percent, 25), (Top50Percent, 50)]"

definition try_sum :: "i64 list \<Rightarrow> i64 option" where
  "try_sum counts = fold (\<lambda>count total. Option.bind total (\<lambda>total. s_checked_add total count)) counts (Some 0)"

definition network_honor_leaderboard :: "i64 \<Rightarrow> i64 list \<Rightarrow> i64 \<Rightarrow> NetworkHonorLeaderboard api" where
  "network_honor_leaderboard cohort_nodes contribution_tie_groups zero_failure_100_days_nodes =
     (if sint cohort_nodes < 0 \<or> sint zero_failure_100_days_nodes < 0 \<or>
         sint zero_failure_100_days_nodes > sint cohort_nodes \<or>
         list_ex (\<lambda>count. sint count \<le> 0) contribution_tie_groups \<or>
         try_sum contribution_tie_groups \<noteq> Some cohort_nodes
      then Inl InternalError
      else
      and_then (ok_or (u64_try_from_i64 CONTRIBUTION_RANK_PRIVACY_THRESHOLD) InternalError) (\<lambda>privacy_threshold.
      and_then (ok_or (u64_try_from_i64 NETWORK_HONOR_COUNT_GRANULARITY) InternalError) (\<lambda>count_granularity.
      if sint cohort_nodes < sint CONTRIBUTION_RANK_PRIVACY_THRESHOLD then
        Inr \<lparr>lb_aggregation_version = NETWORK_HONOR_AGGREGATION_VERSION, lb_privacy_threshold = privacy_threshold,
          lb_cohort_nodes = 0, lb_count_granularity = count_granularity, suppressed = True,
          tie_policy = MidrankSharedBand, lb_entries = []\<rparr>
      else
      and_then (try_fold (\<lambda>(label, top_percent) entries.
          and_then (top_ranked_nodes cohort_nodes contribution_tie_groups top_percent)
            (push_quantized_honor_entry entries label)) honor_bands []) (\<lambda>entries.
      and_then (push_quantized_honor_entry entries Contributor cohort_nodes) (\<lambda>entries.
      and_then (push_quantized_honor_entry entries ZeroFailure100Days zero_failure_100_days_nodes) (\<lambda>entries.
      and_then (ok_or (u64_try_from_i64 cohort_nodes) InternalError) (\<lambda>cohort.
        Inr \<lparr>lb_aggregation_version = NETWORK_HONOR_AGGREGATION_VERSION, lb_privacy_threshold = privacy_threshold,
          lb_cohort_nodes = cohort, lb_count_granularity = count_granularity, suppressed = False,
          tie_policy = MidrankSharedBand, lb_entries = entries\<rparr>)))))))"

section \<open>The statistics of one node\<close>

definition f_of_int :: "i64 \<Rightarrow> f64" where
  "f_of_int v = of_exact (of_int (sint v))"

definition contribution_midrank_percentile :: "i64 \<Rightarrow> i64 \<Rightarrow> i64 \<Rightarrow> bool \<Rightarrow> f64 option api" where
  "contribution_midrank_percentile cohort_nodes lower_nodes tied_nodes target_present =
     (if sint cohort_nodes < 0 \<or> sint lower_nodes < 0 \<or> sint tied_nodes < 0 then Inl InternalError
      else if \<not> target_present \<or> sint cohort_nodes < sint CONTRIBUTION_RANK_PRIVACY_THRESHOLD then Inr None
      else if tied_nodes = 0 \<or> sint (i64_saturating_add lower_nodes tied_nodes) > sint cohort_nodes
      then Inl InternalError
      else if cohort_nodes = 1 then Inr (Some (f_lit (1 / 2)))
      else
        let numerator = f_add (f_of_int lower_nodes) (f_div (f_of_int (i64_saturating_sub tied_nodes 1)) (f_lit 2))
        in Inr (Some (f_div numerator (f_of_int (i64_saturating_sub cohort_nodes 1)))))"

text \<open>
  The two loops of this part: the search for the milestone, which leaves with \<open>?\<close> when the next one does not
  fit, and the count of days. The outer option of their results is \<open>None\<close> where the loop does not end.
\<close>

partial_function (option) milestone_search :: "i64 \<Rightarrow> i64 \<Rightarrow> i64 \<Rightarrow> (i64 \<times> i64) option option" where
  "milestone_search contributed previous milestone =
     (if sint milestone \<le> sint contributed then
        (case s_checked_mul milestone 10 of
           None \<Rightarrow> Some None
         | Some next \<Rightarrow> milestone_search contributed milestone next)
      else Some (Some (previous, milestone)))"

definition contribution_milestones :: "i64 \<Rightarrow> (i64 \<times> i64) option option" where
  "contribution_milestones contributed =
     (if sint contributed < 0 then Some None
      else milestone_search contributed 0 CONTRIBUTION_MILESTONE_BASE_MICRO)"

definition u64_saturating_add :: "u64 \<Rightarrow> u64 \<Rightarrow> u64" where
  "u64_saturating_add a b = of_nat (min 18446744073709551615 (unat a + unat b))"

partial_function (option) streak_from :: "(i32 \<times> i64) list \<Rightarrow> i32 \<Rightarrow> u64 \<Rightarrow> u64 option" where
  "streak_from daily_failures days_ago streak =
     (if is_some_and (map_of daily_failures days_ago) (\<lambda>failures. failures = 0)
      then streak_from daily_failures (i32_saturating_add days_ago 1) (u64_saturating_add streak 1)
      else Some streak)"

definition zero_failure_streak :: "(i32 \<times> i64) list \<Rightarrow> u64 option option" where
  "zero_failure_streak daily_failures =
     (if daily_failures = [] then Some None
      else map_option Some (streak_from daily_failures (if map_of daily_failures 0 \<noteq> None then 0 else 1) 0))"

section \<open>Aggregation\<close>

text \<open>A step that may fail inside a computation that may not end.\<close>

definition and_run :: "'e + 'a \<Rightarrow> ('a \<Rightarrow> ('e + 'b) option) \<Rightarrow> ('e + 'b) option" where
  "and_run m f = (case m of Inl e \<Rightarrow> Some (Inl e) | Inr x \<Rightarrow> f x)"

text \<open>The join of receipts with their jobs, as pairs of the node and an amount of the receipt.\<close>

definition node_receipts :: "(Receipt \<Rightarrow> i64) \<Rightarrow> 'x db \<Rightarrow> (Uuid \<times> i64) list" where
  "node_receipts amount d = concat (map (\<lambda>r. concat (map (\<lambda>j.
     if j_id j = rc_job_id r then (case j_leased_to_node_id j of None \<Rightarrow> [] | Some n \<Rightarrow> [(n, amount r)]) else [])
     (jobs d))) (receipts d))"

definition contributions :: "'x db \<Rightarrow> (Uuid \<times> i64) list" where
  "contributions d = node_receipts rc_contribution_micro d"

definition contributed_by :: "(Uuid \<times> i64) list \<Rightarrow> Uuid \<Rightarrow> i64 list" where
  "contributed_by pairs n = map snd (filter (\<lambda>p. fst p = n) pairs)"

text \<open>\<open>per_node\<close>: one row for every node with a positive sum, cast to \<open>bigint\<close>.\<close>

definition per_node :: "'x db \<Rightarrow> (Uuid \<times> i64) list api" where
  "per_node d =
     try_filter_map (\<lambda>n. let vs = contributed_by (contributions d) n in
       if sum_list (map sint vs) > 0 then and_then (sum_bigint vs) (\<lambda>v. Inr (Some (n, v))) else Inr None)
       (remdups (map fst (contributions d)))"

definition count_bigint :: "('r \<Rightarrow> bool) \<Rightarrow> 'r list \<Rightarrow> i64" where
  "count_bigint P rows = of_nat (rows_affected P rows)"

definition tie_groups :: "(Uuid \<times> i64) list \<Rightarrow> i64 list" where
  "tie_groups rows =
     map (\<lambda>c. count_bigint (\<lambda>p. snd p = c) rows) (sort_key sint (remdups (map snd rows)))"

definition utc_day :: "OffsetDateTime \<Rightarrow> int" where
  "utc_day t = t div 86400000000000"

definition failed_attempt :: "JobAttempt \<Rightarrow> bool" where
  "failed_attempt a \<longleftrightarrow> at_status a \<in> {AttemptFailed, AttemptExpired}"

text \<open>The failures of each day with a finished attempt, by the number of days ago.\<close>

definition daily_failures :: "OffsetDateTime \<Rightarrow> JobAttempt list \<Rightarrow> (i32 \<times> i64) list" where
  "daily_failures now attempts =
     (let finished = filter (\<lambda>a. is_some_and (at_finished_at a) (\<lambda>t. t \<le> now)) attempts;
          day = (\<lambda>a. utc_day now - utc_day (the (at_finished_at a)));
          rows = map (\<lambda>ago. (word_of_int ago :: i32, count_bigint (\<lambda>a. day a = ago \<and> failed_attempt a) finished))
            (sort (remdups (map day finished))) in
      filter (\<lambda>(days_ago, failures). 0 \<le> sint days_ago \<and> 0 \<le> sint failures) rows)"

text \<open>The nodes of the cohort are the nodes that contributed; an entry appears with its first attempt.\<close>

definition network_zero_failure_100_days_nodes :: "OffsetDateTime \<Rightarrow> 'x db \<Rightarrow> i64 api option" where
  "network_zero_failure_100_days_nodes now d =
     (let cohort = remdups (map fst (filter (\<lambda>p. 0 < sint (snd p)) (contributions d)));
          recent = (\<lambda>n. filter (\<lambda>a. at_node_id a = n \<and>
            is_some_and (at_finished_at a) (\<lambda>t. now - 101 * 86400000000000 \<le> t)) (job_attempts d));
          streaks = map (\<lambda>n. zero_failure_streak (daily_failures now (recent n)))
            (filter (\<lambda>n. daily_failures now (recent n) \<noteq> []) cohort) in
      if list_ex (\<lambda>s. s = None) streaks then None
      else Some (Inr (count_bigint (\<lambda>s. is_some_and (the s) (\<lambda>days. 100 \<le> unat days)) streaks)))"

record NodeHonorStats =
  aggregation_version :: rstring
  contribution_rank_percentile :: "f64 option"
  contribution_rank_cohort_nodes :: u64
  contribution_rank_privacy_threshold :: u64
  previous_contribution_milestone_micro :: "i64 option"
  next_contribution_milestone_micro :: "i64 option"
  zero_failure_streak_days :: "u64 option"
  network_leaderboard :: NetworkHonorLeaderboard

definition node_honor_stats :: "OffsetDateTime \<Rightarrow> Uuid \<Rightarrow> i64 \<Rightarrow> 'x db \<Rightarrow> NodeHonorStats api option" where
  "node_honor_stats now node_id contribution_earned_micro d =
     (if sint contribution_earned_micro < 0 then Some (Inl InternalError)
      else
      and_run (per_node d) (\<lambda>rows.
      let cohort_nodes = count_bigint (\<lambda>_. True) rows;
          lower_nodes = count_bigint (\<lambda>p. sint (snd p) < sint contribution_earned_micro) rows;
          tied_nodes = count_bigint (\<lambda>p. snd p = contribution_earned_micro) rows;
          target_present = list_ex (\<lambda>p. fst p = node_id) rows in
      and_run (contribution_midrank_percentile cohort_nodes lower_nodes tied_nodes target_present) (\<lambda>percentile.
      let daily = daily_failures now (filter (\<lambda>a. at_node_id a = node_id) (job_attempts d)) in
      Option.bind (if sint cohort_nodes \<ge> sint CONTRIBUTION_RANK_PRIVACY_THRESHOLD
        then network_zero_failure_100_days_nodes now d else Some (Inr 0)) (\<lambda>zero_failure_100_days_nodes.
      and_run (and_then zero_failure_100_days_nodes (network_honor_leaderboard cohort_nodes (tie_groups rows))) (\<lambda>leaderboard.
      and_run (ok_or (u64_try_from_i64 (if sint cohort_nodes \<ge> sint CONTRIBUTION_RANK_PRIVACY_THRESHOLD
        then cohort_nodes else 0)) InternalError) (\<lambda>cohort.
      and_run (ok_or (u64_try_from_i64 CONTRIBUTION_RANK_PRIVACY_THRESHOLD) InternalError) (\<lambda>privacy_threshold.
      Option.bind (contribution_milestones contribution_earned_micro) (\<lambda>milestones.
      Option.bind (zero_failure_streak daily) (\<lambda>streak.
        Some (Inr \<lparr>aggregation_version = HONOR_AGGREGATION_VERSION, contribution_rank_percentile = percentile,
          contribution_rank_cohort_nodes = cohort, contribution_rank_privacy_threshold = privacy_threshold,
          previous_contribution_milestone_micro = map_option fst milestones,
          next_contribution_milestone_micro = map_option snd milestones, zero_failure_streak_days = streak,
          network_leaderboard = leaderboard\<rparr>))))))))))"

section \<open>The ranking\<close>

lemma sint_saturating_add:
  "sint (i64_saturating_add a b) = max (- 9223372036854775808) (min 9223372036854775807 (sint a + sint b))"
  by (simp add: i64_saturating_add_def sint_word_of_int_fits_iff max_def min_def)

text \<open>The \<open>i128\<close> comparison is the comparison of the exact products.\<close>

lemma i128_product:
  fixes a b :: i64
  shows "sint (s_from a * s_from b :: i128) = sint a * sint b"
proof -
  have "\<bar>sint a\<bar> \<le> 2 ^ 63" "\<bar>sint b\<bar> \<le> 2 ^ 63" using i64_bounds [of a] i64_bounds [of b] by auto
  then have "\<bar>sint a * sint b\<bar> \<le> 2 ^ 63 * 2 ^ 63" unfolding abs_mult by (intro mult_mono) auto
  then have "sint (word_of_int (sint a * sint b) :: i128) = sint a * sint b"
    by (subst sint_word_of_int_fits_iff) (auto simp: abs_le_iff)
  moreover have "(s_from a * s_from b :: i128) = word_of_int (sint (s_from a :: i128) * sint (s_from b :: i128))"
    by (simp del: sint_i128_from_i64)
  ultimately show ?thesis by (simp only: sint_i128_from_i64)
qed

text \<open>The exact condition of a band: the node's mid-rank is among the best \<open>p\<close> per cent.\<close>

definition in_band :: "int \<Rightarrow> int \<Rightarrow> int \<Rightarrow> int \<Rightarrow> bool" where
  "in_band cohort p lower tied \<longleftrightarrow> 2 * (cohort - 1) * (100 - p) \<le> (2 * lower + tied - 1) * 100"

lemma rank_groups_step:
  assumes "0 < sint t" "0 \<le> sint l" "sint l + sint t \<le> sint n" "sint n \<le> 2 ^ 61" "0 \<le> sint q" "sint q \<le> sint l"
    "1 \<le> sint p" "sint p \<le> 100"
  shows "\<exists>q' l'. sint q' = sint q + (if in_band (sint n) (sint p) (sint l) (sint t) then sint t else 0) \<and> sint l' = sint l + sint t \<and>
    rank_groups n p (t # groups) l q = rank_groups n p groups l' q'"
proof -
  have ex: "\<exists>c :: i64. sint c = v" if "- (2 ^ 63) \<le> v" "v < 2 ^ 63" for v
    using that by (subst ex_sint_eq) simp
  obtain l2 l3 num n1 den l' q' :: i64 where w: "sint l2 = sint l * 2" "sint l3 = sint l * 2 + sint t" "sint num = sint l * 2 + sint t - 1"
    "sint n1 = sint n - 1" "sint den = (sint n - 1) * 2" "sint l' = sint l + sint t" "sint q' = sint q + sint t"
    using ex [of "sint l * 2"] ex [of "sint l * 2 + sint t"] ex [of "sint l * 2 + sint t - 1"] ex [of "sint n - 1"]
      ex [of "(sint n - 1) * 2"] ex [of "sint l + sint t"] ex [of "sint q + sint t"] assms by auto
  have eqs: "s_checked_mul l 2 = Some l2" "s_checked_add l2 t = Some l3" "s_checked_sub l3 1 = Some num"
    "s_checked_sub n 1 = Some n1" "s_checked_mul n1 2 = Some den" "s_checked_add l t = Some l'" "s_checked_add q t = Some q'"
    by (simp_all add: s_checked_mul_Some s_checked_add_Some s_checked_sub_Some w)
  have sat: "\<not> sint (i64_saturating_add l t) > sint n" using assms by (simp add: sint_saturating_add)
  have h: "sint (100 - p) = 100 - sint p"
    using assms(7,8) s_checked_sub_Some [of 100 p "100 - p"] by (simp add: sint_word_ariths(2) signed_take_bit_int_eq_self)
  have cmp: "sint (s_from den * s_from (100 - p) :: i128) \<le> sint (s_from num * 100 :: i128) \<longleftrightarrow>
      in_band (sint n) (sint p) (sint l) (sint t)"
  proof -
    have "(s_from (100 :: i64) :: i128) = 100" by (simp add: s_from_def)
    with i128_product [of num 100] have "sint (s_from num * 100 :: i128) = sint num * 100" by simp
    then show ?thesis by (simp add: i128_product h w in_band_def algebra_simps) linarith
  qed
  show ?thesis
    using assms(1) w by (intro exI [of _ "if in_band (sint n) (sint p) (sint l) (sint t) then q' else q"] exI [of _ l'])
      (simp add: eqs sat cmp)
qed

text \<open>The number of rows below and level with a contribution, and the nodes of a band.\<close>

definition below :: "(Uuid \<times> i64) list \<Rightarrow> i64 \<Rightarrow> nat" where
  "below rows c = length (filter (\<lambda>r. sint (snd r) < sint c) rows)"

definition level :: "(Uuid \<times> i64) list \<Rightarrow> i64 \<Rightarrow> nat" where
  "level rows c = length (filter (\<lambda>r. snd r = c) rows)"

definition band_nodes :: "(Uuid \<times> i64) list \<Rightarrow> int \<Rightarrow> nat" where
  "band_nodes rows p =
     length (filter (\<lambda>r. in_band (int (length rows)) p (int (below rows (snd r))) (int (level rows (snd r)))) rows)"

lemma count_bigint_eq: "length rows < 2 ^ 63 \<Longrightarrow> sint (count_bigint P rows) = int (length (filter P rows))"
proof -
  assume "length rows < 2 ^ 63"
  then have "int (length (filter P rows)) < 2 ^ 63" using length_filter_le [of P rows] by (intro le_less_trans [of "int (length (filter P rows))" "int (length rows)"]) simp_all
  then have "sint (word_of_int (int (length (filter P rows))) :: i64) = int (length (filter P rows))"
    by (subst sint_word_of_int_fits_iff) auto
  then show ?thesis by (simp add: count_bigint_def rows_affected_def)
qed

text \<open>Rows of distinct contributions are counted one after another, in ascending order.\<close>

definition among :: "i64 list \<Rightarrow> (Uuid \<times> i64) list \<Rightarrow> (Uuid \<times> i64) list" where
  "among cs rows = filter (\<lambda>r. snd r \<in> set cs) rows"

lemma length_among_Cons:
  "c \<notin> set cs \<Longrightarrow> length (filter Q (among (c # cs) rows)) =
     length (filter Q (filter (\<lambda>r. snd r = c) rows)) + length (filter Q (among cs rows))"
  by (induction rows) (auto simp: among_def)

lemma rank_groups_counts:
  fixes n p :: i64
  assumes "sint n = int (length rows)" "length rows \<le> 2 ^ 61" "1 \<le> sint p" "sint p \<le> 100"
    and "sorted_wrt (\<lambda>a b. sint a < sint b) cs" "\<forall>c \<in> set cs. 0 < level rows c"
    and "\<forall>r \<in> set rows. snd r \<in> set cs \<or> (\<forall>c \<in> set cs. sint (snd r) < sint c)"
    and "sint l = int (length rows) - int (length (among cs rows))" "0 \<le> sint q" "sint q \<le> sint l"
  shows "\<exists>q'. rank_groups n p (map (\<lambda>c. count_bigint (\<lambda>r. snd r = c) rows) cs) l q = Inr q' \<and>
    sint q' = sint q + int (length (filter (\<lambda>r. in_band (int (length rows)) (sint p) (int (below rows (snd r)))
      (int (level rows (snd r)))) (among cs rows)))"
  using assms(5-)
proof (induction cs arbitrary: l q)
  case Nil
  then have "l = n" using assms(1) by (intro word_eq_sintI) (simp add: among_def)
  then show ?case by (simp add: among_def)
next
  case (Cons c cs)
  let ?Q = "\<lambda>r. in_band (int (length rows)) (sint p) (int (below rows (snd r))) (int (level rows (snd r)))"
  have less: "\<forall>x \<in> set cs. sint c < sint x" and c: "c \<notin> set cs" using Cons.prems(1) by auto
  have t: "sint (count_bigint (\<lambda>r. snd r = c) rows) = int (level rows c)"
    using assms(2) by (simp add: count_bigint_eq level_def)
  have two: "length (among (c # cs) rows) = level rows c + length (among cs rows)"
    using length_among_Cons [OF c, of "\<lambda>_. True" rows] by (simp add: level_def)
  have "length (among (c # cs) rows) \<le> length rows" by (simp add: among_def)
  have rest: "filter (\<lambda>r. \<not> snd r \<in> set (c # cs)) rows = filter (\<lambda>r. sint (snd r) < sint c) rows"
    using Cons.prems(3) less by (intro filter_cong) (fastforce simp: less_le)+
  have low: "sint l = int (below rows c)"
  proof -
    have "length rows = length (among (c # cs) rows) + length (filter (\<lambda>r. \<not> snd r \<in> set (c # cs)) rows)"
      unfolding among_def by (rule sum_length_filter_compl [symmetric])
    then show ?thesis using Cons.prems(4) rest by (simp add: below_def)
  qed
  have "\<exists>q' l'. sint q' = sint q + (if in_band (sint n) (sint p) (sint l) (int (level rows c)) then int (level rows c) else 0) \<and>
      sint l' = sint l + int (level rows c) \<and>
      rank_groups n p (map (\<lambda>c. count_bigint (\<lambda>r. snd r = c) rows) (c # cs)) l q =
        rank_groups n p (map (\<lambda>c. count_bigint (\<lambda>r. snd r = c) rows) cs) l' q'"
    unfolding list.map
  proof (rule rank_groups_step [of "count_bigint (\<lambda>r. snd r = c) rows", unfolded t])
    show "0 < int (level rows c)" "0 \<le> sint l" using Cons.prems(2) low by simp_all
    show "sint l + int (level rows c) \<le> sint n"
      using Cons.prems(4) two by (simp add: assms(1))
    have "int (length rows) \<le> int (2 ^ 61)" using assms(2) by (subst of_nat_le_iff)
    then show "sint n \<le> 2 ^ 61" by (simp add: assms(1))
  qed (use Cons.prems assms(3,4) in simp_all)
  then obtain q1 l1 where s: "sint q1 = sint q + (if in_band (int (length rows)) (sint p) (int (below rows c)) (int (level rows c))
        then int (level rows c) else 0)" "sint l1 = sint l + int (level rows c)"
    "rank_groups n p (map (\<lambda>c. count_bigint (\<lambda>r. snd r = c) rows) (c # cs)) l q =
        rank_groups n p (map (\<lambda>c. count_bigint (\<lambda>r. snd r = c) rows) cs) l1 q1"
    unfolding assms(1) low by blast
  have same: "int (length (filter ?Q (filter (\<lambda>r. snd r = c) rows))) =
      (if in_band (int (length rows)) (sint p) (int (below rows c)) (int (level rows c)) then int (level rows c) else 0)"
  proof -
    have "filter ?Q (filter (\<lambda>r. snd r = c) rows) = (if in_band (int (length rows)) (sint p) (int (below rows c)) (int (level rows c))
        then filter (\<lambda>r. snd r = c) rows else [])"
      by (auto simp: filter_empty_conv intro: filter_cong)
    then show ?thesis by (simp add: level_def)
  qed
  have "\<forall>r \<in> set rows. snd r \<in> set cs \<or> (\<forall>x \<in> set cs. sint (snd r) < sint x)"
    using Cons.prems(3) less by fastforce
  then have "\<exists>q'. rank_groups n p (map (\<lambda>c. count_bigint (\<lambda>r. snd r = c) rows) cs) l1 q1 = Inr q' \<and>
      sint q' = sint q1 + int (length (filter ?Q (among cs rows)))"
    using Cons.prems s(1,2) two by (intro Cons.IH) auto
  then obtain q2 where q2: "rank_groups n p (map (\<lambda>c. count_bigint (\<lambda>r. snd r = c) rows) cs) l1 q1 = Inr q2"
    "sint q2 = sint q1 + int (length (filter ?Q (among cs rows)))" by blast
  have "sint q2 = sint q + int (length (filter ?Q (among (c # cs) rows)))"
    unfolding q2(2) s(1) length_among_Cons [OF c] of_nat_add same by (rule add.assoc)
  with q2(1) s(3) show ?case by (intro exI [of _ q2] conjI) (simp_all only:)
qed

lemma strictly_ascending: "sorted_wrt (\<lambda>a b. sint a < sint b) (sort_key sint (remdups cs))" for cs :: "i64 list"
proof -
  let ?s = "sort_key sint (remdups cs)"
  have "sorted (map sint ?s)" "distinct (map sint ?s)"
    by (simp_all add: distinct_map inj_on_def sint_inject)
  then have "sorted_wrt (<) (map sint ?s)" by (simp add: strict_sorted_iff)
  then show ?thesis by (simp add: sorted_wrt_map)
qed

lemma top_ranked_of_rows:
  assumes "sint n = int (length rows)" "5 \<le> length rows" "length rows \<le> 2 ^ 61" "1 \<le> sint p" "sint p \<le> 100"
  shows "\<exists>q. top_ranked_nodes n (tie_groups rows) p = Inr q \<and> sint q = int (band_nodes rows (sint p))"
proof -
  let ?cs = "sort_key sint (remdups (map snd rows))"
  have all: "among ?cs rows = rows" unfolding among_def by (rule filter_True) simp
  have "\<exists>q. rank_groups n p (map (\<lambda>c. count_bigint (\<lambda>r. snd r = c) rows) ?cs) 0 0 = Inr q \<and>
      sint q = sint (0 :: i64) + int (length (filter (\<lambda>r. in_band (int (length rows)) (sint p) (int (below rows (snd r)))
        (int (level rows (snd r)))) (among ?cs rows)))"
    by (rule rank_groups_counts [OF assms(1,3-5) strictly_ascending])
      (auto simp: all level_def filter_empty_conv)
  then show ?thesis
    using assms by (simp add: top_ranked_nodes_def tie_groups_def CONTRIBUTION_RANK_PRIVACY_THRESHOLD_def all band_nodes_def)
qed

lemma u64_of_sint: "sint v = int m \<Longrightarrow> u64_try_from_i64 v = Some (of_nat m)"
  by (simp add: u64_try_from_i64_def)

lemma sint_numeral_5: "sint (5 :: i64) = 5"
  by simp

text \<open>What the leaderboard publishes of a number of nodes: nothing below five, otherwise the multiple of five below.\<close>

definition honor_entry :: "NetworkHonorLabel \<Rightarrow> nat \<Rightarrow> NetworkHonorLeaderboardEntry list" where
  "honor_entry label n = (if 5 \<le> n then [\<lparr>he_label = label, qualifying_nodes_lower_bound = of_nat (n div 5 * 5)\<rparr>] else [])"

lemma push_quantized:
  assumes "sint x = int n"
  shows "push_quantized_honor_entry entries label x = Inr (entries @ honor_entry label n)"
proof -
  have n: "int n < 2 ^ 63" using i64_bounds [of x] assms by simp
  have d: "sint (s_div x 5) = int (n div 5)"
  proof -
    have "int n sdiv 5 = int (n div 5)" by (cases "n = 0") (simp_all add: signed_divide_int_def zdiv_int)
    moreover have "sint (word_of_int (int (n div 5)) :: i64) = int (n div 5)"
      using n by (subst sint_word_of_int_fits_iff) auto
    ultimately show ?thesis by (simp add: s_div_def assms)
  qed
  have b: "sint (s_div x 5 * 5) = int (n div 5 * 5)"
  proof -
    have "sint (word_of_int (int (n div 5 * 5)) :: i64) = int (n div 5 * 5)"
      using n by (subst sint_word_of_int_fits_iff) auto
    moreover have "s_div x 5 * 5 = word_of_int (int (n div 5 * 5))"
      using of_int_sint_same [OF d] by simp
    ultimately show ?thesis by simp
  qed
  have iff: "5 \<le> int (n div 5 * 5) \<longleftrightarrow> 5 \<le> n" by presburger
  show ?thesis
    unfolding push_quantized_honor_entry_def Let_def NETWORK_HONOR_COUNT_GRANULARITY_def
      CONTRIBUTION_RANK_PRIVACY_THRESHOLD_def b u64_of_sint [OF b] honor_entry_def
    by (simp only: assms iff ok_or_def option.case and_then_simps sint_numeral_5) simp
qed

lemma fold_checked_sum:
  fixes counts :: "i64 list"
  assumes "\<forall>c \<in> set counts. 0 \<le> sint c" "0 \<le> sint a" "sint a + sum_list (map sint counts) < 2 ^ 63"
  shows "\<exists>t. fold (\<lambda>count total. Option.bind total (\<lambda>total. s_checked_add total count)) counts (Some a) = Some t \<and>
    sint t = sint a + sum_list (map sint counts)"
  using assms
proof (induction counts arbitrary: a)
  case (Cons c counts)
  have "0 \<le> sum_list (map sint counts)" using Cons.prems(1) by (intro sum_list_nonneg) auto
  then have "\<exists>b :: i64. sint b = sint a + sint c" using Cons.prems by (subst ex_sint_eq) auto
  then obtain b where b: "s_checked_add a c = Some b" "sint b = sint a + sint c" by (auto simp: s_checked_add_Some)
  from Cons.IH [of b] Cons.prems b show ?case by (auto simp: add.assoc)
qed simp

lemma sum_levels:
  assumes "distinct cs" "length rows < 2 ^ 63"
  shows "sum_list (map sint (map (\<lambda>c. count_bigint (\<lambda>r. snd r = c) rows) cs)) = int (length (among cs rows))"
  using assms
proof (induction cs)
  case (Cons c cs)
  then show ?case using length_among_Cons [of c cs "\<lambda>_. True" rows] by (simp add: count_bigint_eq)
qed (simp add: among_def)

lemma tie_groups_sum:
  assumes "sint n = int (length rows)"
  shows "try_sum (tie_groups rows) = Some n" "\<not> list_ex (\<lambda>count. sint count \<le> 0) (tie_groups rows)"
proof -
  let ?cs = "sort_key sint (remdups (map snd rows))"
  have len: "length rows < 2 ^ 63" using i64_bounds [of n] assms by simp
  have all: "among ?cs rows = rows" unfolding among_def by (rule filter_True) simp
  have sum: "sum_list (map sint (tie_groups rows)) = int (length rows)"
    unfolding tie_groups_def using sum_levels [of ?cs rows] len by (simp only: all distinct_sort distinct_remdups)
  have pos: "0 < sint g" if "g \<in> set (tie_groups rows)" for g
  proof -
    from that obtain r where "r \<in> set rows" "g = count_bigint (\<lambda>s. snd s = snd r) rows"
      unfolding tie_groups_def set_map set_sort set_remdups by blast
    then have "r \<in> set (filter (\<lambda>s. snd s = snd r) rows)" "sint g = int (length (filter (\<lambda>s. snd s = snd r) rows))"
      using len by (simp_all add: count_bigint_eq)
    then show ?thesis by (cases "filter (\<lambda>s. snd s = snd r) rows") auto
  qed
  then show "\<not> list_ex (\<lambda>count. sint count \<le> 0) (tie_groups rows)" by (force simp: list_ex_iff)
  have "\<exists>t. try_sum (tie_groups rows) = Some t \<and> sint t = sint (0 :: i64) + sum_list (map sint (tie_groups rows))"
    unfolding try_sum_def using pos len by (intro fold_checked_sum) (auto simp: sum less_imp_le simp del: sum_list_replicate)
  then obtain t where "try_sum (tie_groups rows) = Some t" "sint t = sint n" by (auto simp: sum assms)
  then show "try_sum (tie_groups rows) = Some n" by (simp add: sint_inject)
qed

text \<open>The entries a leaderboard should have: the bands over exact mid-ranks, all contributors, and the reliable nodes.\<close>

definition honor_entries :: "(Uuid \<times> i64) list \<Rightarrow> nat \<Rightarrow> NetworkHonorLeaderboardEntry list" where
  "honor_entries rows reliable =
     honor_entry Top1Percent (band_nodes rows 1) @ honor_entry Top5Percent (band_nodes rows 5) @
     honor_entry Top10Percent (band_nodes rows 10) @ honor_entry Top25Percent (band_nodes rows 25) @
     honor_entry Top50Percent (band_nodes rows 50) @ honor_entry Contributor (length rows) @
     honor_entry ZeroFailure100Days reliable"

lemma leaderboard_entries:
  assumes "sint n = int (length rows)" "length rows \<le> 2 ^ 61" "sint z = int reliable" "reliable \<le> length rows"
  shows "network_honor_leaderboard n (tie_groups rows) z =
    Inr \<lparr>lb_aggregation_version = NETWORK_HONOR_AGGREGATION_VERSION, lb_privacy_threshold = 5,
      lb_cohort_nodes = (if length rows < 5 then 0 else of_nat (length rows)), lb_count_granularity = 5,
      suppressed = (length rows < 5), tie_policy = MidrankSharedBand,
      lb_entries = (if length rows < 5 then [] else honor_entries rows reliable)\<rparr>"
proof -
  have guard: "\<not> (sint n < 0 \<or> sint z < 0 \<or> sint z > sint n \<or> list_ex (\<lambda>count. sint count \<le> 0) (tie_groups rows) \<or>
      try_sum (tie_groups rows) \<noteq> Some n)"
    using assms tie_groups_sum [OF assms(1)] by simp
  have five: "u64_try_from_i64 CONTRIBUTION_RANK_PRIVACY_THRESHOLD = Some 5"
    "u64_try_from_i64 NETWORK_HONOR_COUNT_GRANULARITY = Some 5" "sint CONTRIBUTION_RANK_PRIVACY_THRESHOLD = 5"
    by (simp_all add: u64_try_from_i64_def CONTRIBUTION_RANK_PRIVACY_THRESHOLD_def NETWORK_HONOR_COUNT_GRANULARITY_def)
  show ?thesis
  proof (cases "length rows < 5")
    case True
    then show ?thesis
      using guard by (simp add: network_honor_leaderboard_def five assms(1))
  next
    case False
    have band: "and_then (top_ranked_nodes n (tie_groups rows) p) (push_quantized_honor_entry entries label) =
        Inr (entries @ honor_entry label (band_nodes rows (sint p)))" if "1 \<le> sint p" "sint p \<le> 100" for p label entries
      using top_ranked_of_rows [OF assms(1) _ assms(2) that] False push_quantized by auto
    have nums: "sint (1 :: i64) = 1" "sint (5 :: i64) = 5" "sint (10 :: i64) = 10" "sint (25 :: i64) = 25" "sint (50 :: i64) = 50"
      by simp_all
    show ?thesis
      using False guard
      by (simp add: network_honor_leaderboard_def five assms(1) honor_bands_def band nums honor_entries_def
          push_quantized [OF assms(1)] push_quantized [OF assms(3)] u64_of_sint [OF assms(1)])
  qed
qed

section \<open>The rank of one node\<close>

definition exact_midrank :: "nat \<Rightarrow> nat \<Rightarrow> nat \<Rightarrow> rat" where
  "exact_midrank cohort lower tied = of_int (2 * int lower + int tied - 1) / of_int (2 * (int cohort - 1))"

lemma f_of_int_exact:
  assumes "\<bar>sint v\<bar> \<le> 2 ^ 53"
  shows "is_finite (f_of_int v)" "fval (f_of_int v) = of_int (sint v)" "f64_ok (f_of_int v)"
proof -
  have "\<bar>of_int (sint v) :: rat\<bar> \<le> of_int (2 ^ 53)"
    using assms by (metis of_int_abs of_int_le_iff)
  also have "\<dots> \<le> max_finite" by (simp add: max_finite_def)
  finally show "is_finite (f_of_int v)" "fval (f_of_int v) = of_int (sint v)" "f64_ok (f_of_int v)"
    using fround_of_int [OF assms] by (simp_all add: f_of_int_def of_exact_fin)
qed

lemma half_int_exact:
  assumes "\<bar>m\<bar> \<le> 2 ^ 53"
  shows "fround (of_int m / 2) = of_int m / 2" "\<bar>of_int m / 2 :: rat\<bar> \<le> max_finite"
proof -
  show "fround (of_int m / 2) = of_int m / 2"
    using fround_dyadic [OF assms, of "- 1"] by (simp add: power_int_minus field_simps)
  have "\<bar>of_int m :: rat\<bar> \<le> of_int (2 ^ 53)" using assms by (metis of_int_abs of_int_le_iff)
  then have "\<bar>of_int m / 2 :: rat\<bar> \<le> of_int (2 ^ 53)" by simp
  also have "\<dots> \<le> max_finite" by (simp add: max_finite_def)
  finally show "\<bar>of_int m / 2 :: rat\<bar> \<le> max_finite" .
qed

lemma percentile_rounds:
  fixes n l t :: i64
  assumes "sint n = int cohort" "sint l = int lower" "sint t = int tied" "5 \<le> cohort" "cohort \<le> 2 ^ 52"
    and "0 < tied" "lower + tied \<le> cohort"
  shows "\<exists>x. contribution_midrank_percentile n l t True = Inr (Some x) \<and> rounds_to x (exact_midrank cohort lower tied)"
proof -
  have ranges: "int cohort \<le> 2 ^ 52" "int lower + int tied \<le> int cohort" "0 < int tied"
    using assms(5-7) by (simp_all flip: of_nat_add of_nat_le_iff)
  have sub: "sint (i64_saturating_sub t 1) = int tied - 1" "sint (i64_saturating_sub n 1) = int cohort - 1"
    using ranges assms(1,3,4) by (simp_all add: sint_saturating_sub)
  have add: "\<not> sint (i64_saturating_add l t) > sint n" using ranges assms(1-3) by (simp add: sint_saturating_add)
  have fl: "is_finite (f_of_int l)" "fval (f_of_int l) = of_int (int lower)" "f64_ok (f_of_int l)"
    using f_of_int_exact [of l] ranges assms(2) by simp_all
  have ft: "is_finite (f_of_int (i64_saturating_sub t 1))" "fval (f_of_int (i64_saturating_sub t 1)) = of_int (int tied - 1)"
    using f_of_int_exact [of "i64_saturating_sub t 1"] ranges sub by simp_all
  have fn: "is_finite (f_of_int (i64_saturating_sub n 1))" "fval (f_of_int (i64_saturating_sub n 1)) = of_int (int cohort - 1)"
    using f_of_int_exact [of "i64_saturating_sub n 1"] ranges sub assms(4) by simp_all
  have two: "is_finite (f_lit 2)" "fval (f_lit 2) = 2"
    using f_of_nat_exact [of 2] by (simp_all add: f_lit_def f_of_nat_def)
  let ?h = "f_div (f_of_int (i64_saturating_sub t 1)) (f_lit 2)"
  have h: "is_finite ?h" "fval ?h = of_int (int tied - 1) / 2" "f64_ok ?h"
    using f_div_rounds [OF ft(1) two(1)] half_int_exact [of "int tied - 1"] ranges
    by (simp_all add: ft two rounds_to_def)
  let ?num = "f_add (f_of_int l) ?h"
  have e: "fval (f_of_int l) + fval ?h = of_int (2 * int lower + int tied - 1) / 2"
    by (simp add: fl h field_simps)
  have num: "is_finite ?num" "fval ?num = of_int (2 * int lower + int tied - 1) / 2"
    using f_add_rounds [OF fl(1) h(1) fl(3) h(3)] half_int_exact [of "2 * int lower + int tied - 1"] ranges
    unfolding e by (simp_all add: rounds_to_def)
  have q: "fval ?num / fval (f_of_int (i64_saturating_sub n 1)) = exact_midrank cohort lower tied"
    by (simp add: num fn exact_midrank_def)
  have "0 \<le> exact_midrank cohort lower tied" "exact_midrank cohort lower tied \<le> 1"
    using ranges assms(4) unfolding exact_midrank_def
    by (auto intro!: divide_nonneg_nonneg simp: divide_le_eq_1 simp del: of_int_diff of_int_add of_int_mult)
  then have "rounds_to (f_div ?num (f_of_int (i64_saturating_sub n 1))) (exact_midrank cohort lower tied)"
    using f_div_rounds [OF num(1) fn(1)] unit_abs_le assms(4) unfolding q by (simp add: fn)
  moreover have "\<not> (sint n < 0 \<or> sint l < 0 \<or> sint t < 0)" "\<not> sint n < sint CONTRIBUTION_RANK_PRIVACY_THRESHOLD"
    "t \<noteq> 0" "n \<noteq> 1"
    using assms by (auto simp: CONTRIBUTION_RANK_PRIVACY_THRESHOLD_def)
  ultimately show ?thesis using add by (simp add: contribution_midrank_percentile_def Let_def)
qed

text \<open>The bands of the leaderboard and the percentile agree.\<close>

lemma in_band_midrank:
  assumes "1 < cohort"
  shows "in_band (int cohort) p (int lower) (int tied) \<longleftrightarrow> 1 - of_int p / 100 \<le> exact_midrank cohort lower tied"
proof -
  let ?d = "2 * (int cohort - 1)"
  have "0 < (of_int ?d :: rat)" using assms by simp
  then have "1 - of_int p / 100 \<le> exact_midrank cohort lower tied \<longleftrightarrow>
      (1 - of_int p / 100) * of_int ?d \<le> (of_int (2 * int lower + int tied - 1) :: rat)"
    unfolding exact_midrank_def by (rule pos_le_divide_eq)
  also have "\<dots> \<longleftrightarrow> (of_int (?d * (100 - p)) :: rat) \<le> of_int ((2 * int lower + int tied - 1) * 100)"
    by (simp add: field_simps)
  finally show ?thesis unfolding in_band_def of_int_le_iff by simp
qed

section \<open>The loops end\<close>

lemma i64_of_int: "0 \<le> v \<Longrightarrow> v < 2 ^ 63 \<Longrightarrow> \<exists>c :: i64. sint c = v"
  by (subst ex_sint_eq) auto

lemma milestone_found:
  assumes "sint m = 10 ^ k" "k \<le> 18" "sint p \<le> sint c"
  shows "\<exists>r. milestone_search c p m = Some r \<and>
    (case r of None \<Rightarrow> 10 ^ 18 \<le> sint c
     | Some (p', m') \<Rightarrow> sint p' \<le> sint c \<and> sint c < sint m' \<and> (\<exists>j \<ge> k. sint m' = 10 ^ j) \<and>
         (sint m' = 10 * sint p' \<and> 10 ^ k \<le> sint p' \<or> p' = p \<and> m' = m))"
  using assms
proof (induction "18 - k" arbitrary: k m p)
  case 0
  then have m: "sint m = 10 ^ 18" by simp
  then have "s_checked_mul m 10 = None" unfolding s_checked_mul_None by simp
  with m 0 show ?case
    by (subst milestone_search.simps) (auto intro!: exI [of _ 18])
next
  case (Suc x)
  show ?case
  proof (cases "sint m \<le> sint c")
    case True
    have "Suc k \<le> 18" using Suc.hyps(2) by simp
    then have "(10 :: int) ^ Suc k \<le> 10 ^ 18" by (intro power_increasing) auto
    also have "(10 :: int) ^ 18 < 2 ^ 63" by simp
    finally obtain next' :: i64 where n: "sint next' = 10 ^ Suc k"
      using i64_of_int [of "10 ^ Suc k"] by (meson zero_le_numeral zero_le_power)
    then have c: "s_checked_mul m 10 = Some next'" using Suc.prems(1) by (simp add: s_checked_mul_Some)
    have "\<exists>r. milestone_search c m next' = Some r \<and>
      (case r of None \<Rightarrow> 10 ^ 18 \<le> sint c
       | Some (p', m') \<Rightarrow> sint p' \<le> sint c \<and> sint c < sint m' \<and> (\<exists>j \<ge> Suc k. sint m' = 10 ^ j) \<and>
         (sint m' = 10 * sint p' \<and> 10 ^ Suc k \<le> sint p' \<or> p' = m \<and> m' = next'))"
      using Suc.hyps \<open>Suc k \<le> 18\<close> n True by (intro Suc.hyps(1) [of "Suc k"]) auto
    then obtain r where r: "milestone_search c m next' = Some r"
      "case r of None \<Rightarrow> 10 ^ 18 \<le> sint c
       | Some (p', m') \<Rightarrow> sint p' \<le> sint c \<and> sint c < sint m' \<and> (\<exists>j \<ge> Suc k. sint m' = 10 ^ j) \<and>
         (sint m' = 10 * sint p' \<and> 10 ^ Suc k \<le> sint p' \<or> p' = m \<and> m' = next')" by blast
    have "milestone_search c p m = Some r" using True c r(1) by (subst milestone_search.simps) simp
    with r(2) Suc.prems(1) n show ?thesis
      by (intro exI [of _ r]) (auto split: option.splits intro: exI [of _ "Suc k"] dest: Suc_leD)
  next
    case False
    with Suc.prems show ?thesis by (subst milestone_search.simps) auto
  qed
qed

lemma milestones_found:
  assumes "0 \<le> sint c"
  shows "\<exists>r. contribution_milestones c = Some r \<and>
    (case r of None \<Rightarrow> 10 ^ 18 \<le> sint c
     | Some (p, m) \<Rightarrow> sint p \<le> sint c \<and> sint c < sint m \<and> (\<exists>j \<ge> 6. sint m = 10 ^ j) \<and>
         (sint m = 10 * sint p \<and> 10 ^ 6 \<le> sint p \<or> p = 0 \<and> sint m = 10 ^ 6))"
proof -
  have "sint CONTRIBUTION_MILESTONE_BASE_MICRO = 10 ^ 6" by (simp add: CONTRIBUTION_MILESTONE_BASE_MICRO_def)
  from milestone_found [OF this, of 0 c] assms obtain r where
    "milestone_search c 0 CONTRIBUTION_MILESTONE_BASE_MICRO = Some r"
    "case r of None \<Rightarrow> 10 ^ 18 \<le> sint c
     | Some (p', m') \<Rightarrow> sint p' \<le> sint c \<and> sint c < sint m' \<and> (\<exists>j \<ge> 6. sint m' = 10 ^ j) \<and>
         (sint m' = 10 * sint p' \<and> 10 ^ 6 \<le> sint p' \<or> p' = 0 \<and> m' = CONTRIBUTION_MILESTONE_BASE_MICRO)" by auto
  with assms show ?thesis
    by (intro exI [of _ r]) (auto simp: contribution_milestones_def CONTRIBUTION_MILESTONE_BASE_MICRO_def split: option.splits)
qed

lemma streak_from_eq:
  assumes "\<forall>k < n. map_of m (word_of_int (d + int k)) = Some 0" "map_of m (word_of_int (d + int n)) \<noteq> Some 0"
    and "0 \<le> d" "d + int n \<le> 2147483647" "u + n < 2 ^ 64"
  shows "streak_from m (word_of_int d) (of_nat u) = Some (of_nat (u + n))"
  using assms
proof (induction n arbitrary: d u)
  case 0
  then show ?case by (subst streak_from.simps) (auto simp: is_some_and_def split: option.splits)
next
  case (Suc n)
  have d: "i32_saturating_add (word_of_int d) 1 = word_of_int (d + 1)"
  proof -
    have "sint (word_of_int d :: i32) = d" using Suc.prems by (subst sint_word_of_int_fits_iff) auto
    then show ?thesis using Suc.prems by (simp add: i32_saturating_add_def)
  qed
  have u: "u64_saturating_add (of_nat u) 1 = of_nat (Suc u)"
  proof -
    have "unat (of_nat u :: u64) = u" using Suc.prems(5) by (simp add: unsigned_of_nat take_bit_nat_eq_self)
    then show ?thesis using Suc.prems(5) by (simp add: u64_saturating_add_def)
  qed
  have "streak_from m (word_of_int (d + 1)) (of_nat (Suc u)) = Some (of_nat (Suc u + n))"
  proof (rule Suc.IH)
    show "\<forall>k < n. map_of m (word_of_int (d + 1 + int k)) = Some 0"
      using Suc.prems(1) by (metis Suc_less_eq add.assoc add.commute of_nat_Suc)
    show "map_of m (word_of_int (d + 1 + int n)) \<noteq> Some 0"
      using Suc.prems(2) by (simp add: algebra_simps)
  qed (use Suc.prems in auto)
  moreover have "map_of m (word_of_int d) = Some 0" using Suc.prems(1) by fastforce
  ultimately show ?case by (subst streak_from.simps) (simp add: is_some_and_def d u)
qed

text \<open>The streak: how many days in a row, from today or yesterday on, had attempts and no failure.\<close>

definition clean_days :: "(i32 \<times> i64) list \<Rightarrow> int \<Rightarrow> nat \<Rightarrow> bool" where
  "clean_days m d n \<longleftrightarrow> (\<forall>k < n. map_of m (word_of_int (d + int k)) = Some 0) \<and> map_of m (word_of_int (d + int n)) \<noteq> Some 0"

lemma streak_found:
  assumes "\<forall>p \<in> set m. sint (fst p) < 2147483647"
  shows "m = [] \<and> zero_failure_streak m = Some None \<or>
    (\<exists>n. m \<noteq> [] \<and> zero_failure_streak m = Some (Some (of_nat n)) \<and>
       n \<le> nat (2147483647 - (if map_of m 0 \<noteq> None then 0 else 1)) \<and> clean_days m (if map_of m 0 \<noteq> None then 0 else 1) n)"
proof (cases "m = []")
  case False
  define d :: int where "d = (if map_of m 0 \<noteq> None then 0 else 1)"
  have d: "0 \<le> d" "d \<le> 1" by (simp_all add: d_def)
  define bad where "bad n \<longleftrightarrow> map_of m (word_of_int (d + int n)) \<noteq> Some 0" for n
  have last: "bad (nat (2147483647 - d))"
  proof -
    have "sint (word_of_int 2147483647 :: i32) = 2147483647" by simp
    then have "map_of m (word_of_int 2147483647) \<noteq> Some 0" using assms map_of_SomeD by fastforce
    then show ?thesis using d by (simp add: bad_def)
  qed
  define n where "n = (LEAST n. bad n)"
  have n: "bad n" "\<forall>k < n. \<not> bad k" "n \<le> nat (2147483647 - d)"
    using last unfolding n_def by (auto intro: LeastI Least_le dest: not_less_Least)
  then have "streak_from m (word_of_int d) (of_nat 0) = Some (of_nat (0 + n))"
    using d by (intro streak_from_eq) (auto simp: bad_def)
  moreover have "clean_days m d n" using n by (auto simp: clean_days_def bad_def)
  ultimately show ?thesis using False n(3) d by (intro disjI2 exI [of _ n]) (auto simp: zero_failure_streak_def d_def)
qed (simp add: zero_failure_streak_def)

section \<open>Days without a failure\<close>

text \<open>Attempts that finished \<open>k\<close> days ago, a day with such attempts and no failure among them, and the day a streak
  is counted from: today when something finished today, and yesterday otherwise.\<close>

definition finished_on :: "OffsetDateTime \<Rightarrow> int \<Rightarrow> JobAttempt \<Rightarrow> bool" where
  "finished_on now k a \<longleftrightarrow> (\<exists>t. at_finished_at a = Some t \<and> t \<le> now \<and> utc_day now - utc_day t = k)"

definition clean_day :: "OffsetDateTime \<Rightarrow> JobAttempt list \<Rightarrow> int \<Rightarrow> bool" where
  "clean_day now as k \<longleftrightarrow>
     (\<exists>a \<in> set as. finished_on now k a) \<and> (\<forall>a \<in> set as. finished_on now k a \<longrightarrow> at_status a \<notin> {AttemptFailed, AttemptExpired})"

definition streak_start :: "OffsetDateTime \<Rightarrow> JobAttempt list \<Rightarrow> int" where
  "streak_start now as = (if \<exists>a \<in> set as. finished_on now 0 a then 0 else 1)"

definition streak_of :: "OffsetDateTime \<Rightarrow> JobAttempt list \<Rightarrow> nat \<Rightarrow> bool" where
  "streak_of now as n \<longleftrightarrow>
     (\<forall>k < n. clean_day now as (streak_start now as + int k)) \<and> \<not> clean_day now as (streak_start now as + int n)"

definition times_ok :: "OffsetDateTime \<Rightarrow> JobAttempt list \<Rightarrow> bool" where
  "times_ok now as \<longleftrightarrow>
     (\<forall>a \<in> set as. \<forall>t. at_finished_at a = Some t \<longrightarrow> 0 \<le> t) \<and> utc_day now < 2147483647 \<and> length as \<le> 2 ^ 52"

lemma times_ok_filter: "times_ok now as \<Longrightarrow> times_ok now (filter P as)"
  by (auto simp: times_ok_def intro: le_trans [OF length_filter_le])

lemma times_ok_length:
  assumes "times_ok now as"
  shows "length (filter P as) < 2 ^ 63"
proof -
  have "length (filter P as) \<le> 2 ^ 52" using times_ok_filter [OF assms, of P] by (simp add: times_ok_def)
  then show ?thesis by (rule le_less_trans) simp
qed

lemma finished_on_range:
  assumes "times_ok now as" "a \<in> set as" "finished_on now k a"
  shows "0 \<le> k" "k < 2147483647"
proof -
  obtain t where t: "at_finished_at a = Some t" "t \<le> now" "k = utc_day now - utc_day t"
    using assms(3) by (auto simp: finished_on_def)
  then have "0 \<le> utc_day t" "utc_day t \<le> utc_day now" "utc_day now < 2147483647"
    using assms(1,2) by (auto simp: times_ok_def utc_day_def zdiv_mono1 pos_imp_zdiv_nonneg_iff)
  with t(3) show "0 \<le> k" "k < 2147483647" by simp_all
qed

lemma map_of_days:
  assumes "\<forall>x \<in> set xs. 0 \<le> x \<and> x < 2147483648" "0 \<le> k" "k < 2147483648"
  shows "map_of (map (\<lambda>x. (word_of_int x :: i32, c x)) xs) (word_of_int k) = (if k \<in> set xs then Some (c k) else None)"
  using assms
proof (induction xs)
  case (Cons x xs)
  have "sint (word_of_int y :: i32) = y" if "0 \<le> y" "y < 2147483648" for y
    using that by (subst sint_word_of_int_fits_iff) auto
  then have "(word_of_int k :: i32) = word_of_int x \<longleftrightarrow> k = x" using Cons.prems by (metis list.set_intros(1))
  with Cons show ?case by auto
qed simp

lemma daily_failures_rows:
  assumes "times_ok now as"
  shows "daily_failures now as =
    map (\<lambda>k. (word_of_int k, of_nat (length (filter (\<lambda>a. finished_on now k a \<and> failed_attempt a) as))))
      (sort (remdups (map (\<lambda>a. utc_day now - utc_day (the (at_finished_at a)))
        (filter (\<lambda>a. is_some_and (at_finished_at a) (\<lambda>t. t \<le> now)) as))))"
proof -
  let ?fin = "filter (\<lambda>a. is_some_and (at_finished_at a) (\<lambda>t. t \<le> now)) as"
  let ?day = "\<lambda>a. utc_day now - utc_day (the (at_finished_at a))"
  have eq: "filter (\<lambda>a. ?day a = k \<and> failed_attempt a) ?fin = filter (\<lambda>a. finished_on now k a \<and> failed_attempt a) as" for k
    unfolding filter_filter by (rule filter_cong) (auto simp: finished_on_def is_some_and_def split: option.splits)
  have fits: "length ?fin < 2 ^ 63" by (rule times_ok_length [OF assms])
  have cnt: "count_bigint (\<lambda>a. ?day a = k \<and> failed_attempt a) ?fin =
      of_nat (length (filter (\<lambda>a. finished_on now k a \<and> failed_attempt a) as))" for k
    unfolding count_bigint_def rows_affected_def eq ..
  have nn: "0 \<le> sint (of_nat (length (filter (\<lambda>a. finished_on now k a \<and> failed_attempt a) as)) :: i64)" for k
    unfolding cnt [symmetric] by (simp add: count_bigint_eq [OF fits])
  have days: "0 \<le> k \<and> k < 2147483648" if k: "k \<in> set (map ?day ?fin)" for k
  proof -
    obtain a where a: "a \<in> set as" "finished_on now k a"
      using k by (auto simp: finished_on_def is_some_and_def split: option.splits)
    from finished_on_range [OF assms this] show ?thesis by simp
  qed
  have w: "0 \<le> sint (word_of_int k :: i32)" if "k \<in> set (map ?day ?fin)" for k
  proof -
    have "sint (word_of_int k :: i32) = k" using days [OF that] by (subst sint_word_of_int_fits_iff) auto
    then show ?thesis using days [OF that] by simp
  qed
  show ?thesis
    unfolding daily_failures_def Let_def cnt
    by (subst filter_True) (use w nn in auto)
qed

lemma of_nat_zero_i64: "sint (of_nat n :: i64) = int n \<Longrightarrow> (of_nat n :: i64) = 0 \<longleftrightarrow> n = 0"
proof
  assume h: "sint (of_nat n :: i64) = int n" and z: "(of_nat n :: i64) = 0"
  show "n = 0" using h unfolding z by simp
qed simp

lemma daily_failures_lookup:
  assumes "times_ok now as" "0 \<le> k" "k < 2147483648"
  shows "map_of (daily_failures now as) (word_of_int k) = Some 0 \<longleftrightarrow> clean_day now as k"
    and "map_of (daily_failures now as) (word_of_int k) \<noteq> None \<longleftrightarrow> (\<exists>a \<in> set as. finished_on now k a)"
proof -
  let ?xs = "sort (remdups (map (\<lambda>a. utc_day now - utc_day (the (at_finished_at a)))
        (filter (\<lambda>a. is_some_and (at_finished_at a) (\<lambda>t. t \<le> now)) as)))"
  let ?n = "length (filter (\<lambda>a. finished_on now k a \<and> failed_attempt a) as)"
  have mem: "j \<in> set ?xs \<longleftrightarrow> (\<exists>a \<in> set as. finished_on now j a)" for j
    by (force simp: finished_on_def is_some_and_def split: option.splits)
  have "\<forall>x \<in> set ?xs. 0 \<le> x \<and> x < 2147483648"
    using finished_on_range [OF assms(1)] by (fastforce simp: mem simp del: set_sort)
  from map_of_days [OF this assms(2,3)] have lookup: "map_of (daily_failures now as) (word_of_int k) =
      (if \<exists>a \<in> set as. finished_on now k a then Some (of_nat ?n) else None)"
    unfolding daily_failures_rows [OF assms(1)] mem .
  then show "map_of (daily_failures now as) (word_of_int k) \<noteq> None \<longleftrightarrow> (\<exists>a \<in> set as. finished_on now k a)" by simp
  have "length as < 2 ^ 63" using times_ok_length [OF assms(1), of "\<lambda>_. True"] by simp
  from count_bigint_eq [OF this, of "\<lambda>a. finished_on now k a \<and> failed_attempt a"]
  have "sint (of_nat ?n :: i64) = int ?n" by (simp add: count_bigint_def rows_affected_def)
  then have "(of_nat ?n :: i64) = 0 \<longleftrightarrow> ?n = 0" by (rule of_nat_zero_i64)
  then show "map_of (daily_failures now as) (word_of_int k) = Some 0 \<longleftrightarrow> clean_day now as k"
    unfolding lookup clean_day_def by (auto simp: filter_empty_conv failed_attempt_def)
qed

lemma daily_failures_days:
  assumes "p \<in> set (daily_failures now as)" "\<forall>a \<in> set as. \<forall>t. at_finished_at a = Some t \<longrightarrow> 0 \<le> t" "utc_day now < 2147483647"
  shows "sint (fst p) < 2147483647"
proof -
  obtain a t where a: "a \<in> set as" "at_finished_at a = Some t" "t \<le> now" "fst p = word_of_int (utc_day now - utc_day t)"
    using assms(1) by (auto simp: daily_failures_def Let_def is_some_and_def split: option.splits)
  with assms(2) have "0 \<le> utc_day t" "utc_day t \<le> utc_day now" by (auto simp: utc_day_def zdiv_mono1 pos_imp_zdiv_nonneg_iff)
  with assms(3) have "sint (word_of_int (utc_day now - utc_day t) :: i32) = utc_day now - utc_day t"
    by (subst sint_word_of_int_fits_iff) auto
  with a \<open>0 \<le> utc_day t\<close> assms(3) show ?thesis by simp
qed

lemma streak_exact:
  assumes "times_ok now as"
  shows "if \<exists>a \<in> set as. \<exists>k. finished_on now k a
    then \<exists>n. zero_failure_streak (daily_failures now as) = Some (Some (of_nat n)) \<and> n < 2 ^ 31 \<and> streak_of now as n
    else daily_failures now as = [] \<and> zero_failure_streak (daily_failures now as) = Some None"
proof -
  let ?m = "daily_failures now as"
  have fin: "(\<exists>k. finished_on now k a) \<longleftrightarrow> is_some_and (at_finished_at a) (\<lambda>t. t \<le> now)" for a
    by (auto simp: finished_on_def is_some_and_def split: option.splits)
  have nil: "?m = [] \<longleftrightarrow> \<not> (\<exists>a \<in> set as. \<exists>k. finished_on now k a)"
    unfolding daily_failures_rows [OF assms] fin by (auto simp flip: set_empty)
  have "\<forall>p \<in> set ?m. sint (fst p) < 2147483647"
    using assms daily_failures_days by (fastforce simp: times_ok_def)
  from streak_found [OF this] consider "?m = []" "zero_failure_streak ?m = Some None"
    | n where "?m \<noteq> []" "zero_failure_streak ?m = Some (Some (of_nat n))"
      "n \<le> nat (2147483647 - (if map_of ?m 0 \<noteq> None then 0 else 1))" "clean_days ?m (if map_of ?m 0 \<noteq> None then 0 else 1) n"
    by blast
  then show ?thesis
  proof cases
    case 2
    have start: "(if map_of ?m 0 \<noteq> None then 0 else 1) = streak_start now as"
      using daily_failures_lookup(2) [OF assms, of 0] by (simp add: streak_start_def)
    have range: "0 \<le> streak_start now as" "streak_start now as \<le> 1" by (simp_all add: streak_start_def)
    have n: "int n \<le> 2147483647 - streak_start now as" using 2(3) range unfolding start by simp
    have eq: "map_of ?m (word_of_int (streak_start now as + int k)) = Some 0 \<longleftrightarrow> clean_day now as (streak_start now as + int k)"
      if "k \<le> n" for k by (rule daily_failures_lookup(1) [OF assms]) (use n range that in auto)
    have "streak_of now as n"
      using 2(4) eq unfolding start clean_days_def streak_of_def by (meson less_imp_le order_refl)
    moreover have "n < 2 ^ 31" using n range by simp
    ultimately show ?thesis using 2(1,2) nil by auto
  qed (use nil in auto)
qed

text \<open>A node is reliable when each of the 100 days up to today, or yesterday, is clean.\<close>

definition attempts_of :: "'x db \<Rightarrow> Uuid \<Rightarrow> JobAttempt list" where
  "attempts_of d n = filter (\<lambda>a. at_node_id a = n) (job_attempts d)"

definition reliable :: "OffsetDateTime \<Rightarrow> JobAttempt list \<Rightarrow> bool" where
  "reliable now as \<longleftrightarrow> (\<forall>k < 100. clean_day now as (streak_start now as + int k))"

lemma streak_reliable: "streak_of now as n \<Longrightarrow> 100 \<le> n \<longleftrightarrow> reliable now as"
  unfolding streak_of_def reliable_def by (meson less_le_trans not_le)

lemma window_is_enough:
  assumes "k \<le> 100"
  shows "finished_on now k a \<longleftrightarrow> finished_on now k a \<and> is_some_and (at_finished_at a) (\<lambda>t. now - 101 * 86400000000000 \<le> t)"
proof -
  have "now - 101 * 86400000000000 \<le> t" if "utc_day now - utc_day t = k" for t
    using that assms mult_div_mod_eq [of 86400000000000 now] mult_div_mod_eq [of 86400000000000 t]
      pos_mod_bound [of 86400000000000 now] pos_mod_sign [of 86400000000000 t] unfolding utc_day_def by linarith
  then show ?thesis by (auto simp: finished_on_def)
qed

lemma reliable_in_window:
  "reliable now (filter (\<lambda>a. P a \<and> is_some_and (at_finished_at a) (\<lambda>t. now - 101 * 86400000000000 \<le> t)) as) \<longleftrightarrow>
   reliable now (filter P as)"
proof -
  let ?w = "filter (\<lambda>a. P a \<and> is_some_and (at_finished_at a) (\<lambda>t. now - 101 * 86400000000000 \<le> t)) as"
  have s: "streak_start now ?w = streak_start now (filter P as)"
    using window_is_enough [of 0 now] by (auto simp: streak_start_def)
  have "clean_day now ?w (streak_start now (filter P as) + int k) = clean_day now (filter P as) (streak_start now (filter P as) + int k)"
    if "k < 100" for k
  proof -
    have "streak_start now (filter P as) + int k \<le> 100" using that by (simp add: streak_start_def)
    from window_is_enough [OF this, of now] show ?thesis unfolding clean_day_def by auto
  qed
  then show ?thesis unfolding reliable_def s by blast
qed

lemma streak_at_least_100:
  assumes "times_ok now as"
  shows "daily_failures now as \<noteq> [] \<and> is_some_and (the (zero_failure_streak (daily_failures now as))) (\<lambda>days. 100 \<le> unat days)
    \<longleftrightarrow> reliable now as"
proof (cases "\<exists>a \<in> set as. \<exists>k. finished_on now k a")
  case True
  with streak_exact [OF assms] obtain n where n: "zero_failure_streak (daily_failures now as) = Some (Some (of_nat n))"
    "n < 2 ^ 31" "streak_of now as n" by auto
  then have "unat (of_nat n :: u64) = n" by (simp add: unsigned_of_nat take_bit_nat_eq_self)
  moreover have "daily_failures now as \<noteq> []" using n(1) by (auto simp: zero_failure_streak_def)
  ultimately show ?thesis using streak_reliable [OF n(3)] by (simp add: n(1) is_some_and_def)
next
  case False
  with streak_exact [OF assms] have "daily_failures now as = []" by auto
  moreover have "\<not> reliable now as" using False unfolding reliable_def clean_day_def by (meson zero_less_numeral)
  ultimately show ?thesis by simp
qed

section \<open>The statistics are always computed\<close>

definition earned :: "'x db \<Rightarrow> Uuid \<Rightarrow> int" where
  "earned d n = sum_list (map sint (contributed_by (contributions d) n))"

definition contributors :: "'x db \<Rightarrow> (Uuid \<times> i64) list" where
  "contributors d = map (\<lambda>n. (n, word_of_int (earned d n))) (filter (\<lambda>n. 0 < earned d n) (remdups (map fst (contributions d))))"

text \<open>What the tables must hold: contributions are not negative and their sum fits, and times are plausible.\<close>

definition honor_tables_ok :: "OffsetDateTime \<Rightarrow> 'x db \<Rightarrow> bool" where
  "honor_tables_ok now d \<longleftrightarrow>
     (\<forall>p \<in> set (contributions d). 0 \<le> sint (snd p)) \<and> sum_list (map (sint \<circ> snd) (contributions d)) < 2 ^ 63 \<and>
     length (contributions d) \<le> 2 ^ 52 \<and> length (job_attempts d) \<le> 2 ^ 52 \<and> utc_day now < 2147483647 \<and>
     (\<forall>a \<in> set (job_attempts d). \<forall>t. at_finished_at a = Some t \<longrightarrow> 0 \<le> t)"

lemma sum_list_filter_le:
  fixes f :: "'r \<Rightarrow> int"
  shows "\<forall>x \<in> set xs. 0 \<le> f x \<Longrightarrow> 0 \<le> sum_list (map f (filter P xs)) \<and> sum_list (map f (filter P xs)) \<le> sum_list (map f xs)"
  by (induction xs) auto

lemma earned_bounds:
  assumes "honor_tables_ok now d"
  shows "0 \<le> earned d n" "earned d n < 2 ^ 63" "sint (word_of_int (earned d n) :: i64) = earned d n"
    "sum_bigint (contributed_by (contributions d) n) = Inr (word_of_int (earned d n))"
proof -
  have "earned d n = sum_list (map (sint \<circ> snd) (filter (\<lambda>p. fst p = n) (contributions d)))"
    by (simp add: earned_def contributed_by_def comp_def)
  moreover have "0 \<le> sum_list (map (sint \<circ> snd) (filter (\<lambda>p. fst p = n) (contributions d))) \<and>
      sum_list (map (sint \<circ> snd) (filter (\<lambda>p. fst p = n) (contributions d))) \<le> sum_list (map (sint \<circ> snd) (contributions d))"
    using assms by (intro sum_list_filter_le) (auto simp: honor_tables_ok_def)
  ultimately show b: "0 \<le> earned d n" "earned d n < 2 ^ 63" using assms by (auto simp: honor_tables_ok_def)
  then show "sint (word_of_int (earned d n) :: i64) = earned d n" by (subst sint_word_of_int_fits_iff) auto
  show "sum_bigint (contributed_by (contributions d) n) = Inr (word_of_int (earned d n))"
    using b unfolding sum_bigint_def earned_def [symmetric] Let_def by simp
qed

lemma try_filter_map_total:
  "(\<And>x. x \<in> set xs \<Longrightarrow> f x = Inr (if P x then Some (g x) else None)) \<Longrightarrow> try_filter_map f xs = Inr (map g (filter P xs))"
  by (induction xs) simp_all

lemma per_node_contributors:
  assumes "honor_tables_ok now d"
  shows "per_node d = Inr (contributors d)"
  unfolding per_node_def contributors_def
  by (rule try_filter_map_total) (simp add: earned_bounds(4) [OF assms] flip: earned_def)

lemma contributors_facts:
  assumes "honor_tables_ok now d"
  shows "distinct (map fst (contributors d))" "length (contributors d) \<le> 2 ^ 52"
    "(n, v) \<in> set (contributors d) \<longleftrightarrow> 0 < earned d n \<and> v = word_of_int (earned d n)"
    "set (map fst (filter (\<lambda>p. 0 < sint (snd p)) (contributions d))) = fst ` set (contributors d)"
proof -
  have fst: "map fst (contributors d) = filter (\<lambda>n. 0 < earned d n) (remdups (map fst (contributions d)))"
    by (simp add: contributors_def comp_def)
  then show "distinct (map fst (contributors d))" by simp
  have "length (contributors d) \<le> length (remdups (map fst (contributions d)))" by (simp add: contributors_def)
  also have "\<dots> \<le> length (contributions d)" using length_remdups_leq [of "map fst (contributions d)"] by simp
  finally show "length (contributors d) \<le> 2 ^ 52" using assms by (simp add: honor_tables_ok_def)
  have pos: "0 < earned d n \<longleftrightarrow> (\<exists>p \<in> set (contributions d). fst p = n \<and> 0 < sint (snd p))" for n
  proof -
    have nn: "\<forall>x \<in> set (contributed_by (contributions d) n). 0 \<le> sint x"
      using assms by (auto simp: contributed_by_def honor_tables_ok_def)
    have "0 < sum_list (map sint xs) \<longleftrightarrow> (\<exists>x \<in> set xs. 0 < sint x)" if "\<forall>x \<in> set xs. 0 \<le> sint x" for xs :: "i64 list"
      using that
    proof (induction xs)
      case (Cons x xs)
      then have "0 \<le> sum_list (map sint xs)" by (intro sum_list_nonneg) auto
      with Cons show ?case by (auto simp: less_le)
    qed simp
    from this [OF nn] have "0 < earned d n \<longleftrightarrow> (\<exists>x \<in> set (contributed_by (contributions d) n). 0 < sint x)"
      by (simp add: earned_def)
    also have "\<dots> \<longleftrightarrow> (\<exists>p \<in> set (contributions d). fst p = n \<and> 0 < sint (snd p))"
      unfolding contributed_by_def set_map set_filter by blast
    finally show ?thesis .
  qed
  then have mem: "0 < earned d n \<Longrightarrow> n \<in> fst ` set (contributions d)" for n by force
  then show "(n, v) \<in> set (contributors d) \<longleftrightarrow> 0 < earned d n \<and> v = word_of_int (earned d n)"
    by (auto simp: contributors_def)
  have "fst ` set (contributors d) = {n. 0 < earned d n}"
    using mem unfolding set_map [symmetric] fst by auto
  then show "set (map fst (filter (\<lambda>p. 0 < sint (snd p)) (contributions d))) = fst ` set (contributors d)"
    using pos by auto
qed

lemma tables_times: "honor_tables_ok now d \<Longrightarrow> times_ok now (filter P (job_attempts d))"
  by (rule times_ok_filter) (simp add: honor_tables_ok_def times_ok_def)

text \<open>The contributors that are reliable.\<close>

definition reliable_contributors :: "OffsetDateTime \<Rightarrow> 'x db \<Rightarrow> Uuid set" where
  "reliable_contributors now d = {n. 0 < earned d n \<and> reliable now (attempts_of d n)}"

lemma reliable_nodes_counted:
  assumes "honor_tables_ok now d"
  shows "\<exists>z. network_zero_failure_100_days_nodes now d = Some (Inr z) \<and> sint z = int (card (reliable_contributors now d))"
    and "card (reliable_contributors now d) \<le> length (contributors d)"
proof -
  let ?cohort = "remdups (map fst (filter (\<lambda>p. 0 < sint (snd p)) (contributions d)))"
  let ?m = "\<lambda>n. daily_failures now (filter (\<lambda>a. at_node_id a = n \<and>
      is_some_and (at_finished_at a) (\<lambda>t. now - 101 * 86400000000000 \<le> t)) (job_attempts d))"
  let ?P = "\<lambda>s. is_some_and (the s) (\<lambda>days :: u64. 100 \<le> unat days)"
  let ?s = "map (\<lambda>n. zero_failure_streak (?m n)) (filter (\<lambda>n. ?m n \<noteq> []) ?cohort)"
  note times = tables_times [OF assms]
  have "zero_failure_streak (?m n) \<noteq> None" for n
    using streak_exact [OF times, of "\<lambda>a. at_node_id a = n \<and>
      is_some_and (at_finished_at a) (\<lambda>t. now - 101 * 86400000000000 \<le> t)"] by (auto split: if_splits)
  then have ends: "\<not> list_ex (\<lambda>s. s = None) ?s" unfolding list_ex_iff set_map by blast
  have reliable: "?m n \<noteq> [] \<and> ?P (zero_failure_streak (?m n)) \<longleftrightarrow> reliable now (attempts_of d n)" for n
    unfolding streak_at_least_100 [OF times] reliable_in_window attempts_of_def ..
  have "fst ` set (contributors d) = {n. 0 < earned d n}"
    using contributors_facts(3) [OF assms] by (auto simp: image_iff) force
  then have cohort: "set ?cohort = {n. 0 < earned d n}"
    using contributors_facts(4) [OF assms] by (simp only: set_remdups)
  have "length (filter ?P ?s) = length (filter (\<lambda>n. reliable now (attempts_of d n)) ?cohort)"
    unfolding filter_map length_map filter_filter comp_def reliable ..
  also have "\<dots> = card (set (filter (\<lambda>n. reliable now (attempts_of d n)) ?cohort))"
    by (rule distinct_card [symmetric]) simp
  also have "set (filter (\<lambda>n. reliable now (attempts_of d n)) ?cohort) = reliable_contributors now d"
    unfolding set_filter cohort reliable_contributors_def by auto
  finally have count: "length (filter ?P ?s) = card (reliable_contributors now d)" .
  have "length ?cohort = length (contributors d)"
    using contributors_facts(1,4) [OF assms] distinct_card [of ?cohort] distinct_card [of "map fst (contributors d)"] by simp
  then have len: "length ?s \<le> length (contributors d)" by (simp add: le_trans [OF length_filter_le])
  then show "card (reliable_contributors now d) \<le> length (contributors d)"
    unfolding count [symmetric] by (rule le_trans [OF length_filter_le])
  have "length ?s \<le> 2 ^ 52" using len contributors_facts(2) [OF assms] by (rule order_trans)
  then have "sint (count_bigint ?P ?s) = int (length (filter ?P ?s))"
    by (intro count_bigint_eq) (rule le_less_trans, assumption, simp)
  then show "\<exists>z. network_zero_failure_100_days_nodes now d = Some (Inr z) \<and> sint z = int (card (reliable_contributors now d))"
    using ends unfolding network_zero_failure_100_days_nodes_def Let_def count by (simp del: length_map)
qed

lemma streak_of_node:
  assumes "honor_tables_ok now d"
  shows "\<exists>s. zero_failure_streak (daily_failures now (attempts_of d node)) = Some s \<and>
    (if \<exists>a \<in> set (attempts_of d node). \<exists>k. finished_on now k a
     then \<exists>u. s = Some u \<and> streak_of now (attempts_of d node) (unat u) else s = None)"
proof -
  have "times_ok now (attempts_of d node)" unfolding attempts_of_def by (rule tables_times [OF assms])
  from streak_exact [OF this] show ?thesis
    by (auto simp: unsigned_of_nat take_bit_nat_eq_self split: if_splits)
qed

lemma milestones_exact:
  assumes "0 \<le> sint c"
  shows "\<exists>r. contribution_milestones c = Some r \<and> (if 10 ^ 18 \<le> sint c then r = None
    else \<exists>p m. r = Some (p, m) \<and> sint p \<le> sint c \<and> sint c < sint m \<and> (\<exists>j \<ge> 6. sint m = 10 ^ j) \<and>
      sint p = (if sint m = 10 ^ 6 then 0 else sint m div 10))"
proof -
  obtain r where r: "contribution_milestones c = Some r"
    "case r of None \<Rightarrow> 10 ^ 18 \<le> sint c
     | Some (p, m) \<Rightarrow> sint p \<le> sint c \<and> sint c < sint m \<and> (\<exists>j \<ge> 6. sint m = 10 ^ j) \<and>
         (sint m = 10 * sint p \<and> 10 ^ 6 \<le> sint p \<or> p = 0 \<and> sint m = 10 ^ 6)" using milestones_found [OF assms] by blast
  show ?thesis
  proof (cases r)
    case (Some pm)
    obtain p m where pm: "pm = (p, m)" by (cases pm)
    with r(2) Some obtain j where m: "sint p \<le> sint c" "sint c < sint m" "6 \<le> j" "sint m = 10 ^ j"
      "sint m = 10 * sint p \<and> 10 ^ 6 \<le> sint p \<or> p = 0 \<and> sint m = 10 ^ 6" by auto
    have "j \<le> 18"
    proof (rule ccontr)
      assume "\<not> j \<le> 18"
      then have "(10 :: int) ^ 19 \<le> 10 ^ j" by (intro power_increasing) auto
      with m(4) i64_bounds [of m] show False by simp
    qed
    then have "(10 :: int) ^ j \<le> 10 ^ 18" by (intro power_increasing) auto
    then have "\<not> 10 ^ 18 \<le> sint c" using m(2,4) by simp
    moreover have "sint p = (if sint m = 10 ^ 6 then 0 else sint m div 10)" using m(5) by auto
    ultimately show ?thesis using r(1) m(1-4) Some pm by auto
  qed (use r in auto)
qed

lemma below_level_le: "below rows v + level rows v \<le> length rows"
  by (induction rows) (auto simp: below_def level_def)

lemma percentile_of_node:
  assumes ok: "honor_tables_ok now d" and n: "sint n = int (length (contributors d))"
    and l: "sint l = int (below (contributors d) (word_of_int (earned d node)))"
    and t: "sint t = int (level (contributors d) (word_of_int (earned d node)))"
  shows "\<exists>x. contribution_midrank_percentile n l t (list_ex (\<lambda>p. fst p = node) (contributors d)) = Inr x \<and>
    (if length (contributors d) < 5 \<or> earned d node = 0 then x = None
     else \<exists>y. x = Some y \<and> rounds_to y (exact_midrank (length (contributors d))
       (below (contributors d) (word_of_int (earned d node))) (level (contributors d) (word_of_int (earned d node)))))"
proof -
  have present: "list_ex (\<lambda>p. fst p = node) (contributors d) \<longleftrightarrow> earned d node \<noteq> 0"
    using contributors_facts(3) [OF ok, of node] earned_bounds(1) [OF ok, of node] by (auto simp: list_ex_iff less_le) force+
  show ?thesis
  proof (cases "length (contributors d) < 5 \<or> earned d node = 0")
    case True
    then show ?thesis
      using n l t present by (auto simp: contribution_midrank_percentile_def CONTRIBUTION_RANK_PRIVACY_THRESHOLD_def)
  next
    case False
    then have "(node, word_of_int (earned d node)) \<in> set (contributors d)"
      using contributors_facts(3) [OF ok] earned_bounds(1) [OF ok, of node] by (simp add: less_le)
    then have "0 < level (contributors d) (word_of_int (earned d node))"
      by (auto simp: level_def filter_empty_conv intro!: bexI [of _ "(node, word_of_int (earned d node))"])
    with percentile_rounds [OF n l t _ contributors_facts(2) [OF ok] _ below_level_le] False present show ?thesis
      by auto
  qed
qed

lemma threshold_five: "sint CONTRIBUTION_RANK_PRIVACY_THRESHOLD = 5" "\<exists>p. u64_try_from_i64 CONTRIBUTION_RANK_PRIVACY_THRESHOLD = Some p"
  by (simp_all add: CONTRIBUTION_RANK_PRIVACY_THRESHOLD_def u64_try_from_i64_def)

lemma clean_nodes_asked:
  assumes "honor_tables_ok now d" "sint n = int (length (contributors d))"
  obtains z k where "(if sint n \<ge> sint CONTRIBUTION_RANK_PRIVACY_THRESHOLD
      then network_zero_failure_100_days_nodes now d else Some (Inr 0)) = Some (Inr z)" "sint z = int k" "k \<le> length (contributors d)"
    "5 \<le> length (contributors d) \<Longrightarrow> k = card (reliable_contributors now d)"
proof (cases "5 \<le> length (contributors d)")
  case True
  obtain z where "network_zero_failure_100_days_nodes now d = Some (Inr z)" "sint z = int (card (reliable_contributors now d))"
    using reliable_nodes_counted(1) [OF assms(1)] by blast
  with True show thesis
    using that [of z "card (reliable_contributors now d)"] reliable_nodes_counted(2) [OF assms(1)] by (simp add: assms(2) threshold_five)
qed (use that [of 0 0] in \<open>simp add: assms(2) threshold_five\<close>)

lemma published_cohort:
  assumes "sint n = int m"
  shows "u64_try_from_i64 (if sint n \<ge> sint CONTRIBUTION_RANK_PRIVACY_THRESHOLD then n else 0) = Some (if m < 5 then 0 else of_nat m)"
proof (cases "m < 5")
  case False
  then show ?thesis by (simp add: assms threshold_five u64_of_sint [OF assms])
qed (simp add: assms threshold_five u64_try_from_i64_def)

text \<open>C23. On any one state of the tables the honor statistics of a node are computed, the two loops end and every
  published number is exact. Below five contributing nodes the leaderboard is suppressed: no entry, both cohort sizes
  zero, no percentile. From five on, the cohort sizes are the number of contributors; the entries count, in steps of
  five and none below five, the nodes whose exact mid-rank lies in each band, all contributors, and the contributors
  with 100 clean days; a contributor's own percentile is its exact mid-rank, correctly rounded. The milestones are
  the powers of ten around what the node earned (none beyond 10^18), and the streak is the number of clean days
  counted back from today, or from yesterday when nothing finished today.\<close>

theorem honor_always_computed:
  assumes "honor_tables_ok now d"
  shows "\<exists>st. node_honor_stats now node (word_of_int (earned d node)) d = Some (Inr st) \<and>
    (if length (contributors d) < 5
     then suppressed (network_leaderboard st) \<and> lb_entries (network_leaderboard st) = [] \<and>
       lb_cohort_nodes (network_leaderboard st) = 0 \<and> contribution_rank_cohort_nodes st = 0
     else \<not> suppressed (network_leaderboard st) \<and>
       lb_entries (network_leaderboard st) = honor_entries (contributors d) (card (reliable_contributors now d)) \<and>
       unat (lb_cohort_nodes (network_leaderboard st)) = length (contributors d) \<and>
       unat (contribution_rank_cohort_nodes st) = length (contributors d)) \<and>
    (if length (contributors d) < 5 \<or> earned d node = 0 then contribution_rank_percentile st = None
     else \<exists>x. contribution_rank_percentile st = Some x \<and> rounds_to x (exact_midrank (length (contributors d))
       (below (contributors d) (word_of_int (earned d node))) (level (contributors d) (word_of_int (earned d node))))) \<and>
    (if 10 ^ 18 \<le> earned d node
     then previous_contribution_milestone_micro st = None \<and> next_contribution_milestone_micro st = None
     else \<exists>p m. previous_contribution_milestone_micro st = Some p \<and> next_contribution_milestone_micro st = Some m \<and>
       sint p \<le> earned d node \<and> earned d node < sint m \<and> (\<exists>j \<ge> 6. sint m = 10 ^ j) \<and>
       sint p = (if sint m = 10 ^ 6 then 0 else sint m div 10)) \<and>
    (if \<exists>a \<in> set (attempts_of d node). \<exists>k. finished_on now k a
     then \<exists>s. zero_failure_streak_days st = Some s \<and> streak_of now (attempts_of d node) (unat s)
     else zero_failure_streak_days st = None)"
proof -
  let ?rows = "contributors d" and ?v = "word_of_int (earned d node) :: i64"
  have fits: "length ?rows < 2 ^ 63" by (rule le_less_trans [OF contributors_facts(2) [OF assms]]) simp
  note count = count_bigint_eq [OF fits]
  have n: "sint (count_bigint (\<lambda>_. True) ?rows) = int (length ?rows)" by (simp add: count)
  have l: "sint (count_bigint (\<lambda>p. sint (snd p) < sint ?v) ?rows) = int (below ?rows ?v)" by (simp add: count below_def)
  have t: "sint (count_bigint (\<lambda>p. snd p = ?v) ?rows) = int (level ?rows ?v)" by (simp add: count level_def)
  from percentile_of_node [OF assms n l t] obtain x where
    x: "contribution_midrank_percentile (count_bigint (\<lambda>_. True) ?rows) (count_bigint (\<lambda>p. sint (snd p) < sint ?v) ?rows)
      (count_bigint (\<lambda>p. snd p = ?v) ?rows) (list_ex (\<lambda>p. fst p = node) ?rows) = Inr x"
    "if length ?rows < 5 \<or> earned d node = 0 then x = None else \<exists>y. x = Some y \<and> rounds_to y (exact_midrank (length ?rows)
       (below ?rows ?v) (level ?rows ?v))" by blast
  from clean_nodes_asked [OF assms n] obtain z k where
    z: "(if sint (count_bigint (\<lambda>_. True) ?rows) \<ge> sint CONTRIBUTION_RANK_PRIVACY_THRESHOLD
      then network_zero_failure_100_days_nodes now d else Some (Inr 0)) = Some (Inr z)" "sint z = int k" "k \<le> length ?rows"
    "5 \<le> length ?rows \<Longrightarrow> k = card (reliable_contributors now d)" by blast
  have "length ?rows \<le> 2 ^ 61" by (rule le_trans [OF contributors_facts(2) [OF assms]]) simp
  note lb = leaderboard_entries [OF n this z(2,3)]
  note c = published_cohort [OF n]
  have cu: "unat (of_nat (length ?rows) :: u64) = length ?rows"
    using fits by (simp add: unsigned_of_nat take_bit_nat_eq_self)
  obtain p where p: "u64_try_from_i64 CONTRIBUTION_RANK_PRIVACY_THRESHOLD = Some p"
    using threshold_five(2) ..
  obtain s where s: "zero_failure_streak (daily_failures now (filter (\<lambda>a. at_node_id a = node) (job_attempts d))) = Some s"
    "if \<exists>a \<in> set (attempts_of d node). \<exists>k. finished_on now k a
     then \<exists>u. s = Some u \<and> streak_of now (attempts_of d node) (unat u) else s = None"
    using streak_of_node [OF assms] unfolding attempts_of_def by blast
  have v: "sint ?v = earned d node" "0 \<le> sint ?v" using earned_bounds [OF assms, of node] by simp_all
  obtain m where m: "contribution_milestones ?v = Some m" and ms: "if 10 ^ 18 \<le> earned d node then m = None
      else \<exists>p q. m = Some (p, q) \<and> sint p \<le> earned d node \<and> earned d node < sint q \<and> (\<exists>j \<ge> 6. sint q = 10 ^ j) \<and>
       sint p = (if sint q = 10 ^ 6 then 0 else sint q div 10)"
    using milestones_exact [OF v(2)] unfolding v(1) by blast
  have "\<not> sint ?v < 0" using v(2) by simp
  then have stats: "node_honor_stats now node ?v d = Some (Inr \<lparr>aggregation_version = HONOR_AGGREGATION_VERSION,
      contribution_rank_percentile = x,
      contribution_rank_cohort_nodes = (if length ?rows < 5 then 0 else of_nat (length ?rows)),
      contribution_rank_privacy_threshold = p, previous_contribution_milestone_micro = map_option fst m,
      next_contribution_milestone_micro = map_option snd m, zero_failure_streak_days = s,
      network_leaderboard = \<lparr>lb_aggregation_version = NETWORK_HONOR_AGGREGATION_VERSION, lb_privacy_threshold = 5,
        lb_cohort_nodes = (if length ?rows < 5 then 0 else of_nat (length ?rows)), lb_count_granularity = 5,
        suppressed = (length ?rows < 5), tie_policy = MidrankSharedBand,
        lb_entries = (if length ?rows < 5 then [] else honor_entries ?rows k)\<rparr>\<rparr>)"
    unfolding node_honor_stats_def per_node_contributors [OF assms]
    by (simp only: and_run_def Let_def x(1) z(1) lb c p s(1) m if_False sum.case Option.bind.simps and_then_simps ok_or_def option.case)
  show ?thesis
  proof (rule exI, rule conjI [OF stats], intro conjI, goal_cases)
    case 1
    then show ?case using z(4) cu by simp
  next
    case 2
    then show ?case using x(2) by (simp only: NodeHonorStats.simps)
  next
    case 3
    then show ?case using ms by (auto split: if_splits)
  next
    case 4
    then show ?case using s(2) by (simp only: NodeHonorStats.simps)
  qed
qed

end
