(* ===== verification/Registry.thy ===== *)
theory Registry
  imports Honor Coordinator
begin

text \<open>
  Registration of nodes and models: \<open>register_node\<close>, \<open>node_heartbeat\<close>, \<open>node_stats\<close>, \<open>publish_model\<close>,
  \<open>unpublish_model\<close> and \<open>list_models\<close> of \<open>routes/nodes_models.rs\<close>. The registry holds the rows these handlers
  write with all their columns; \<open>registered\<close> forgets the columns the job lifecycle does not read and puts
  the rows into the database, so that a call of one of these handlers is an \<open>Elsewhere\<close> call there.
  The JSON text of a hardware profile, the collation of names and the test-only billing fixture are parameters.
\<close>

section \<open>Rows\<close>

record NodeRow = Node +
  n_alias :: rstring
  n_pause_reason :: "rstring option"
  n_created_at :: OffsetDateTime
  n_updated_at :: OffsetDateTime
  n_verified_uptime_seconds :: i64
  n_verified_heartbeat_count :: i64
  n_last_verified_heartbeat_at :: "OffsetDateTime option"

record MetricRow = NodeMetric +
  nm_ttft_ms :: i64

record HeartbeatRow =
  hr_id :: Uuid
  hr_node_id :: Uuid
  hr_status :: NodeStatus
  hr_accepting_jobs :: bool
  hr_received_at :: OffsetDateTime

record ModelEntry = ModelRow +
  m_owner_user_id :: Uuid
  m_format :: rstring
  m_updated_at :: OffsetDateTime

record InstanceRow = ModelInstance +
  mi_alias :: rstring
  mi_published_at :: OffsetDateTime

record CanaryState =
  cs_model_instance_id :: Uuid
  cs_consecutive_failures :: i32
  cs_recovery_passes :: i32
  cs_quarantined :: bool
  cs_quarantined_at :: "OffsetDateTime option"
  cs_recovered_at :: "OffsetDateTime option"
  cs_updated_at :: OffsetDateTime

record registry =
  rg_nodes :: "NodeRow list"
  rg_policies :: "NodePolicyRow list"
  rg_metrics :: "MetricRow list"
  rg_heartbeats :: "HeartbeatRow list"
  rg_models :: "ModelEntry list"
  rg_instances :: "InstanceRow list"
  rg_canary :: "CanaryState list"
  rg_profiles :: "BillingProfileRow list"

definition registered :: "registry \<Rightarrow> 'x db \<Rightarrow> 'x db" where
  "registered rg d =
     d\<lparr>nodes := map Node.truncate (rg_nodes rg), node_policies := rg_policies rg,
       node_metrics := map NodeMetric.truncate (rg_metrics rg), models := map ModelRow.truncate (rg_models rg),
       model_instances := map ModelInstance.truncate (rg_instances rg), billing_profiles := rg_profiles rg,
       canary_quarantined := map cs_model_instance_id (filter cs_quarantined (rg_canary rg))\<rparr>"

section \<open>Registration of a node\<close>

definition software_trust_level :: "'v HardwareProfile \<Rightarrow> TrustLevel" where
  "software_trust_level profile =
     (let has = (\<lambda>mechanism. mechanism \<in> set (sandbox_mechanisms profile));
          os = to_ascii_lowercase (trim (operating_system profile)) in
      if os = lit ''macos'' then (if has Seatbelt \<or> has AppSandbox then TrustLevel.StandardLimited else TrustLevel.Unverified)
      else if os = lit ''linux'' then
        (if has Namespaces \<and> has SeccompBpf \<and> has Landlock then TrustLevel.Standard
         else if has Namespaces \<and> has SeccompBpf then TrustLevel.StandardLimited else TrustLevel.Unverified)
      else if os = lit ''windows'' then
        (if has JobObjects \<or> has AppContainer \<or> has HyperV then TrustLevel.Experimental else TrustLevel.Unverified)
      else TrustLevel.Unverified)"

definition i64_try_from :: "nat \<Rightarrow> i64 option" where
  "i64_try_from n = (if n \<le> 9223372036854775807 then Some (word_of_int (int n)) else None)"

definition sql_policy_values :: "NodePolicyDto \<Rightarrow> (i32 \<times> i32 option \<times> i64) api" where
  "sql_policy_values policy =
     and_then (ok_or (i32_try_from (unat (dto_max_concurrent policy))) (BadRequest ''invalid_node_policy'')) (\<lambda>max_concurrent.
     let gpu_temp_limit_c = map_option (\<lambda>l. word_of_int (int (unat l)) :: i32) (dto_gpu_temp_limit_c policy) in
     and_then (ok_or (i64_try_from (unat (dto_vram_reserve_mib policy))) (BadRequest ''invalid_node_policy'')) (\<lambda>vram_reserve_mib.
       Inr (max_concurrent, gpu_temp_limit_c, vram_reserve_mib)))"

text \<open>The \<open>CHECK\<close> constraints of \<open>node_policies\<close>.\<close>

definition policy_row_check :: "NodePolicyRow \<Rightarrow> bool" where
  "policy_row_check p \<longleftrightarrow>
     0 < sint (p_max_concurrent p) \<and> sint (p_max_concurrent p) \<le> 1024 \<and>
     \<not> is_some_and (p_gpu_temp_limit_c p) (\<lambda>l. \<not> (30 \<le> sint l \<and> sint l \<le> 120)) \<and> 0 \<le> sint (p_vram_reserve_mib p)"

text \<open>The hardware attestation that keeps a node's level when it registers again.\<close>

definition trust_kept :: "OffsetDateTime \<Rightarrow> AttestationReport list \<Rightarrow> NodeRow \<Rightarrow> bool" where
  "trust_kept now reports existing \<longleftrightarrow>
     n_trust_level existing = TrustLevel.Enhanced \<and> is_some_and (n_trust_expires_at existing) (\<lambda>t. now < t) \<and>
     list_ex (\<lambda>report. n_attestation_report_id existing = Some (ar_id report) \<and> ar_node_id report = n_id existing \<and>
       ar_status report = Verified \<and> now < ar_expires_at report \<and>
       is_some_and (ar_collateral_expires_at report) (\<lambda>t. now < t) \<and> ar_signature_verified report \<and>
       ar_certificate_chain_verified report \<and> ar_tcb_current report \<and> ar_collateral_current report) reports"

definition reregistered ::
    "OffsetDateTime \<Rightarrow> AttestationReport list \<Rightarrow> rstring \<Rightarrow> TrustLevel \<Rightarrow> Principal \<Rightarrow> NodeRow \<Rightarrow> NodeRow" where
  "reregistered now reports profile software_trust prin existing =
     (let kept = trust_kept now reports existing in
      existing\<lparr>n_hardware_profile := profile,
        n_device_key_id := (case n_device_key_id existing of None \<Rightarrow> Some (pr_device_key_id prin) | Some k \<Rightarrow> Some k),
        n_trust_level := (if kept then n_trust_level existing else software_trust),
        n_attestation_report_id := (if kept then n_attestation_report_id existing else None),
        n_trust_expires_at := (if kept then n_trust_expires_at existing else None),
        n_status := Offline, n_pause_reason := Some (lit ''awaiting_first_heartbeat''),
        n_last_seen_at := None, n_updated_at := now\<rparr>)"

text \<open>\<open>INSERT ... ON CONFLICT (user_id,alias) DO UPDATE ... RETURNING\<close>; no row where the device is another one.\<close>

definition upsert_node ::
    "OffsetDateTime \<Rightarrow> AttestationReport list \<Rightarrow> Uuid \<Rightarrow> rstring \<Rightarrow> rstring \<Rightarrow> TrustLevel \<Rightarrow> Principal \<Rightarrow> NodeRow list \<Rightarrow>
     ((Uuid \<times> TrustLevel) option \<times> NodeRow list) api" where
  "upsert_node now reports fresh alias profile software_trust prin rows =
     (case fetch_optional (\<lambda>n. n_user_id n = pr_user_id prin \<and> n_alias n = alias) rows of
        None \<Rightarrow>
          if list_ex (\<lambda>n. n_id n = fresh) rows then Inl InternalError
          else Inr (Some (fresh, software_trust), rows @ [\<lparr>n_id = fresh, n_user_id = pr_user_id prin,
            n_device_key_id = Some (pr_device_key_id prin), n_status = Offline, n_last_seen_at = None,
            n_trust_level = software_trust, n_trust_expires_at = None, n_attestation_report_id = None,
            n_hardware_profile = profile, n_alias = alias, n_pause_reason = Some (lit ''awaiting_first_heartbeat''),
            n_created_at = now, n_updated_at = now, n_verified_uptime_seconds = 0, n_verified_heartbeat_count = 0,
            n_last_verified_heartbeat_at = None\<rparr>])
      | Some existing \<Rightarrow>
          if n_device_key_id existing = None \<or> n_device_key_id existing = Some (pr_device_key_id prin) then
            let row = reregistered now reports profile software_trust prin existing in
            Inr (Some (n_id row, n_trust_level row), sql_update (\<lambda>n. n_id n = n_id existing)
              (reregistered now reports profile software_trust prin) rows)
          else Inr (None, rows))"

definition upsert_policy :: "NodePolicyRow \<Rightarrow> NodePolicyRow list \<Rightarrow> NodePolicyRow list api" where
  "upsert_policy p rows =
     (if \<not> policy_row_check p then Inl InternalError
      else if list_ex (\<lambda>r. p_node_id r = p_node_id p) rows
      then Inr (sql_update (\<lambda>r. p_node_id r = p_node_id p) (\<lambda>_. p) rows)
      else Inr (rows @ [p]))"

record RegisterNodeResponse =
  rn_node_id :: Uuid
  rn_status :: NodeStatus
  rn_trust_level :: TrustLevel

definition register_node ::
    "('v HardwareProfile \<Rightarrow> rstring option) \<Rightarrow> OffsetDateTime \<Rightarrow> Uuid \<Rightarrow> AttestationReport list \<Rightarrow> Principal \<Rightarrow>
     'v RegisterNodeRequest \<Rightarrow> registry \<Rightarrow> (RegisterNodeResponse api \<times> registry) api" where
  "register_node to_value now fresh reports prin req rg =
     and_then (map_err (\<lambda>_. BadRequest ''invalid_protocol_payload'') (RegisterNodeRequest_validate req)) (\<lambda>_.
     and_then (sql_policy_values \<lparr>dto_reject_tags = reg_reject_tags req, dto_max_concurrent = reg_max_concurrent req,
         dto_gpu_temp_limit_c = reg_gpu_temp_limit_c req, dto_vram_reserve_mib = reg_vram_reserve_mib req\<rparr>)
       (\<lambda>(max_concurrent, gpu_temp_limit_c, vram_reserve_mib).
     let software_trust = software_trust_level (hardware_profile req) in
     and_then (ok_or (to_value (hardware_profile req)) InternalError) (\<lambda>profile.
     and_then (upsert_node now reports fresh (trim (reg_alias req)) profile software_trust prin (rg_nodes rg))
       (\<lambda>(returned, node_rows).
     and_then (ok_or returned (Conflict ''node_device_binding_mismatch'')) (\<lambda>(node_id, stored_trust).
     and_then (upsert_policy \<lparr>p_node_id = node_id, p_reject_tags = reg_reject_tags req, p_max_concurrent = max_concurrent,
         p_gpu_temp_limit_c = gpu_temp_limit_c, p_vram_reserve_mib = vram_reserve_mib\<rparr> (rg_policies rg)) (\<lambda>policy_rows.
       commit (rg\<lparr>rg_nodes := node_rows, rg_policies := policy_rows\<rparr>)
         \<lparr>rn_node_id = node_id, rn_status = Offline, rn_trust_level = stored_trust\<rparr>))))))"

section \<open>Heartbeats\<close>

definition i32_saturating_sub :: "i32 \<Rightarrow> i32 \<Rightarrow> i32" where
  "i32_saturating_sub a b = word_of_int (max (- 2147483648) (min 2147483647 (sint a - sint b)))"

definition temperature_requires_pause :: "bool \<Rightarrow> i32 option \<Rightarrow> i32 option \<Rightarrow> bool" where
  "temperature_requires_pause was_temperature_paused gpu_limit reported =
     (case gpu_limit of
        None \<Rightarrow> False
      | Some gpu_limit \<Rightarrow>
          let resume_temperature = i32_saturating_sub gpu_limit 5 in
          case reported of
            None \<Rightarrow> True
          | Some temperature \<Rightarrow>
              if was_temperature_paused then sint temperature > sint resume_temperature
              else sint temperature \<ge> sint gpu_limit)"

definition pause_reason_of :: "bool \<Rightarrow> i32 \<Rightarrow> i32 option \<Rightarrow> i64 \<Rightarrow> HeartbeatRequest \<Rightarrow> rstring option" where
  "pause_reason_of was_temperature_paused most_concurrent gpu_limit vram_reserve req =
     (if sint (hb_current_concurrent req) \<ge> sint most_concurrent then Some (lit ''max_concurrent'')
      else if is_some_and (opt_zip (hb_vram_used_mib req) (hb_vram_total_mib req))
        (\<lambda>(in_use, total). sint (i64_saturating_sub total in_use) < sint vram_reserve)
      then Some (lit ''vram_reserve'')
      else if temperature_requires_pause was_temperature_paused gpu_limit (hb_gpu_temp_c req)
      then Some (lit ''gpu_temperature_limit'')
      else None)"

text \<open>
  The seconds a heartbeat adds: the distance to the last one if that is at most 90 seconds away. The cast of the
  numeric \<open>EXTRACT(EPOCH ..)\<close> to \<open>bigint\<close> rounds to the nearest integer, halves upwards.
\<close>

definition uptime_seconds :: "OffsetDateTime \<Rightarrow> OffsetDateTime option \<Rightarrow> int" where
  "uptime_seconds now last_heartbeat =
     (case last_heartbeat of
        None \<Rightarrow> 0
      | Some t \<Rightarrow> if t \<le> now \<and> now - 90 * 1000000000 \<le> t then max ((now - t + 500000000) div 1000000000) 0 else 0)"

definition heartbeat_row :: "OffsetDateTime \<Rightarrow> NodeStatus \<Rightarrow> rstring option \<Rightarrow> NodeRow \<Rightarrow> NodeRow option" where
  "heartbeat_row now status pause_reason n =
     Option.bind (s_checked_add (n_verified_uptime_seconds n) (word_of_int (uptime_seconds now (n_last_verified_heartbeat_at n)))) (\<lambda>uptime.
     Option.bind (s_checked_add (n_verified_heartbeat_count n) 1) (\<lambda>heartbeat_count.
       Some (n\<lparr>n_status := status, n_pause_reason := pause_reason, n_verified_uptime_seconds := uptime,
         n_verified_heartbeat_count := heartbeat_count, n_last_verified_heartbeat_at := Some now,
         n_last_seen_at := Some now, n_updated_at := now\<rparr>)))"

definition node_row_check :: "NodeRow \<Rightarrow> bool" where
  "node_row_check n \<longleftrightarrow>
     0 \<le> sint (n_verified_uptime_seconds n) \<and> 0 \<le> sint (n_verified_heartbeat_count n) \<and> n_device_key_id n \<noteq> None"

definition metric_row_check :: "MetricRow \<Rightarrow> bool" where
  "metric_row_check m \<longleftrightarrow>
     0 \<le> sint (nm_tps_milli m) \<and> 0 \<le> sint (nm_ttft_ms m) \<and> 0 \<le> sint (nm_current_concurrent m) \<and>
     0 \<le> sint (nm_error_rate_ppm m) \<and> sint (nm_error_rate_ppm m) \<le> 1000000 \<and>
     \<not> is_some_and (nm_coordinator_rtt_ms m) (\<lambda>v. \<not> (1 \<le> sint v \<and> sint v \<le> 60000))"

record HeartbeatAnswer =
  ha_node_id :: Uuid
  ha_status :: NodeStatus
  ha_accepting_jobs :: bool
  ha_pause_reason :: "rstring option"
  ha_policy_updated :: bool

definition node_heartbeat ::
    "OffsetDateTime \<Rightarrow> Uuid \<Rightarrow> Uuid \<Rightarrow> Principal \<Rightarrow> Uuid \<Rightarrow> HeartbeatRequest \<Rightarrow> registry \<Rightarrow>
     (HeartbeatAnswer api \<times> registry) api" where
  "node_heartbeat now metric_id heartbeat_id prin node_id req rg =
     and_then (map_err (\<lambda>_. BadRequest ''invalid_protocol_payload'') (HeartbeatRequest_validate req)) (\<lambda>_.
     and_then (ok_or (fetch_optional (\<lambda>n. n_id n = node_id) (rg_nodes rg)) NotFound) (\<lambda>row.
     and_then (ok_or (fetch_optional (\<lambda>p. p_node_id p = node_id) (rg_policies rg)) NotFound) (\<lambda>old_policy.
     and_then (require_node_device_binding prin (n_user_id row) (n_device_key_id row)) (\<lambda>_.
     and_then
       (case hb_policy req of
          Some policy \<Rightarrow>
            and_then (sql_policy_values policy) (\<lambda>(max_concurrent, gpu_temp_limit_c, vram_reserve_mib).
            and_then (checked_update policy_row_check (\<lambda>p. p_node_id p = node_id) (\<lambda>p. Some (p\<lparr>p_reject_tags := dto_reject_tags policy,
                p_max_concurrent := max_concurrent, p_gpu_temp_limit_c := gpu_temp_limit_c,
                p_vram_reserve_mib := vram_reserve_mib\<rparr>)) (rg_policies rg)) (\<lambda>policy_rows.
              Inr ((max_concurrent, gpu_temp_limit_c, vram_reserve_mib), policy_rows)))
        | None \<Rightarrow> Inr ((p_max_concurrent old_policy, p_gpu_temp_limit_c old_policy, p_vram_reserve_mib old_policy), rg_policies rg))
       (\<lambda>((max_concurrent, gpu_limit, vram_reserve), policy_rows).
     let was_temperature_paused = (n_status row = Paused \<and> n_pause_reason row = Some (lit ''gpu_temperature_limit''));
         pause_reason = pause_reason_of was_temperature_paused max_concurrent gpu_limit vram_reserve req;
         status = (if hb_draining req then DrainingNode else if pause_reason \<noteq> None then Paused else Online);
         accepting_jobs = (status = Online);
         metric = \<lparr>nm_id = metric_id, nm_node_id = node_id, nm_measured_at = now, nm_tps_milli = hb_tps_milli req,
           nm_current_concurrent = hb_current_concurrent req, nm_gpu_temp_c = hb_gpu_temp_c req,
           nm_vram_used_mib = hb_vram_used_mib req, nm_vram_total_mib = hb_vram_total_mib req,
           nm_error_rate_ppm = hb_error_rate_ppm req, nm_coordinator_rtt_ms = hb_coordinator_rtt_ms req,
           nm_ttft_ms = hb_ttft_ms req\<rparr> in
     if \<not> metric_row_check metric \<or> list_ex (\<lambda>m. nm_id m = metric_id) (rg_metrics rg) then Inl InternalError
     else if list_ex (\<lambda>h. hr_id h = heartbeat_id) (rg_heartbeats rg) then Inl InternalError
     else
     and_then (checked_update node_row_check (\<lambda>n. n_id n = node_id) (heartbeat_row now status pause_reason) (rg_nodes rg)) (\<lambda>node_rows.
       commit (rg\<lparr>rg_nodes := node_rows, rg_policies := policy_rows, rg_metrics := rg_metrics rg @ [metric],
           rg_heartbeats := rg_heartbeats rg @ [\<lparr>hr_id = heartbeat_id, hr_node_id = node_id, hr_status = status,
             hr_accepting_jobs = accepting_jobs, hr_received_at = now\<rparr>]\<rparr>)
         \<lparr>ha_node_id = node_id, ha_status = status, ha_accepting_jobs = accepting_jobs, ha_pause_reason = pause_reason,
          ha_policy_updated = (hb_policy req \<noteq> None)\<rparr>))))))"

section \<open>Models\<close>

record PublishRequest =
  pm_node_id :: Uuid
  pm_name :: rstring
  pm_alias :: rstring
  pm_format :: rstring
  pm_weights_hash :: rstring
  pm_size_bytes :: i64
  pm_context_length :: i32
  pm_benchmark_normalized :: i32
  pm_glicko_normalized :: i32
  pm_evaluation_samples :: i32
  pm_base_cost_per_1k_micro :: i64
  pm_tags :: "rstring list"

definition validate_alias :: "rstring \<Rightarrow> unit api" where
  "validate_alias alias =
     (if \<not> (1 \<le> length (trim alias) \<and> length (trim alias) \<le> 64) then Inl (BadRequest ''invalid_alias'') else Inr ())"

definition validate_tag_list :: "rstring list \<Rightarrow> unit api" where
  "validate_tag_list tags =
     (if length tags > 32 \<or> list_ex (\<lambda>tag. tag = [] \<or> str_len tag > 64 \<or> \<not> is_ascii_str tag) tags
      then Inl (BadRequest ''invalid_tags'') else Inr ())"

definition is_ascii_hexdigit :: "nat \<Rightarrow> bool" where
  "is_ascii_hexdigit b \<longleftrightarrow> 48 \<le> b \<and> b \<le> 57 \<or> 65 \<le> b \<and> b \<le> 70 \<or> 97 \<le> b \<and> b \<le> 102"

definition validate_publish :: "PublishRequest \<Rightarrow> unit api" where
  "validate_publish req =
     and_then (validate_alias (pm_name req)) (\<lambda>_.
     and_then (validate_alias (pm_alias req)) (\<lambda>_.
     and_then (validate_tag_list (pm_tags req)) (\<lambda>_.
     if to_ascii_lowercase (pm_format req) \<notin> {lit ''gguf'', lit ''safetensors''} then Inl (BadRequest ''unsafe_model_format'')
     else if length (utf8 (pm_weights_hash req)) \<noteq> 64 \<or> \<not> list_all is_ascii_hexdigit (utf8 (pm_weights_hash req))
     then Inl (BadRequest ''invalid_model_hash'')
     else if sint (pm_size_bytes req) \<le> 0 \<or> sint (pm_context_length req) \<le> 0 then Inl (BadRequest ''invalid_model_metadata'')
     else if pm_benchmark_normalized req \<noteq> 0 \<or> pm_glicko_normalized req \<noteq> 0 \<or> pm_evaluation_samples req \<noteq> 0
     then Inl (BadRequest ''client_quality_forbidden'')
     else if \<not> approved_base_cost_per_1k_micro (pm_base_cost_per_1k_micro req)
     then Inl (BadRequest ''client_base_cost_forbidden'')
     else Inr ())))"

text \<open>The upsert of the model, with the defaults of migrations 0001 and 0008 for a new row.\<close>

definition upsert_model ::
    "OffsetDateTime \<Rightarrow> Uuid \<Rightarrow> Principal \<Rightarrow> PublishRequest \<Rightarrow> ModelEntry list \<Rightarrow> (ModelEntry \<times> ModelEntry list) api" where
  "upsert_model now fresh prin req rows =
     (let name = trim (pm_name req); weights_hash = to_ascii_lowercase (pm_weights_hash req);
          touch = (\<lambda>m. if m_owner_user_id m = pr_user_id prin then m\<lparr>m_enabled := True, m_updated_at := now\<rparr> else m) in
      case fetch_optional (\<lambda>m. m_name m = name \<and> m_weights_hash m = weights_hash) rows of
        Some existing \<Rightarrow> Inr (touch existing, sql_update (\<lambda>m. m_id m = m_id existing) touch rows)
      | None \<Rightarrow>
          if list_ex (\<lambda>m. m_id m = fresh) rows then Inl InternalError
          else
            let row = \<lparr>m_id = fresh, m_name = name, m_weights_hash = weights_hash, m_size_bytes = pm_size_bytes req,
              m_context_length = pm_context_length req, m_benchmark_normalized = 0, m_glicko_normalized = 500000,
              m_evaluation_samples = 0, m_tier = Medium, m_base_cost_per_1k_micro = V1_BASE_COST_PER_1K_MICRO,
              m_enabled = True, m_owner_user_id = pr_user_id prin, m_format = to_ascii_lowercase (pm_format req),
              m_updated_at = now\<rparr> in
            Inr (row, rows @ [row]))"

definition upsert_instance ::
    "OffsetDateTime \<Rightarrow> Uuid \<Rightarrow> Uuid \<Rightarrow> PublishRequest \<Rightarrow> InstanceRow list \<Rightarrow> (Uuid option \<times> InstanceRow list) api" where
  "upsert_instance now fresh model_id req rows =
     (case fetch_optional (\<lambda>mi. mi_node_id mi = pm_node_id req \<and> mi_alias mi = trim (pm_alias req)) rows of
        Some existing \<Rightarrow>
          if mi_model_id existing = model_id then
            Inr (Some (mi_id existing), sql_update (\<lambda>mi. mi_id mi = mi_id existing) (\<lambda>mi. mi\<lparr>mi_tags := pm_tags req,
              mi_status := Published, mi_published_at := now, mi_unpublished_at := None\<rparr>) rows)
          else Inr (None, rows)
      | None \<Rightarrow>
          if list_ex (\<lambda>mi. mi_id mi = fresh) rows then Inl InternalError
          else Inr (Some fresh, rows @ [\<lparr>mi_id = fresh, mi_model_id = model_id, mi_node_id = pm_node_id req,
            mi_tags = pm_tags req, mi_status = Published, mi_unpublished_at = None, mi_alias = trim (pm_alias req),
            mi_published_at = now\<rparr>]))"

record PublishAnswer =
  pa_model_id :: Uuid
  pa_model_instance_id :: Uuid
  pa_tier :: PerformanceTier
  pa_status :: InstanceStatus

text \<open>In the test environment a billing profile is seeded for the model.\<close>

definition publish_model ::
    "(Uuid \<Rightarrow> BillingProfileRow list \<Rightarrow> BillingProfileRow list api) option \<Rightarrow> OffsetDateTime \<Rightarrow> Uuid \<Rightarrow> Uuid \<Rightarrow>
     Principal \<Rightarrow> PublishRequest \<Rightarrow> registry \<Rightarrow> (PublishAnswer api \<times> registry) api" where
  "publish_model seed_test_billing_profile now fresh_model fresh_instance prin req rg =
     and_then (validate_publish req) (\<lambda>_.
     and_then (ok_or (fetch_optional (\<lambda>n. n_id n = pm_node_id req) (rg_nodes rg)) NotFound) (\<lambda>node.
     and_then (require_node_device_binding prin (n_user_id node) (n_device_key_id node)) (\<lambda>_.
     and_then (upsert_model now fresh_model prin req (rg_models rg)) (\<lambda>(stored_model, model_rows).
     if m_base_cost_per_1k_micro stored_model \<noteq> V1_BASE_COST_PER_1K_MICRO then Inl InternalError
     else
     and_then (case seed_test_billing_profile of None \<Rightarrow> Inr (rg_profiles rg) | Some seeding \<Rightarrow> seeding (m_id stored_model) (rg_profiles rg))
       (\<lambda>profiles.
     and_then (upsert_instance now fresh_instance (m_id stored_model) req (rg_instances rg)) (\<lambda>(stored_instance_id, instance_rows).
     and_then (ok_or stored_instance_id (Conflict ''model_alias_exists'')) (\<lambda>stored_instance_id.
       commit (rg\<lparr>rg_models := model_rows, rg_profiles := profiles, rg_instances := instance_rows\<rparr>)
         \<lparr>pa_model_id = m_id stored_model, pa_model_instance_id = stored_instance_id, pa_tier = m_tier stored_model,
          pa_status = Published\<rparr>)))))))"

record UnpublishAnswer =
  ua_model_instance_id :: Uuid
  ua_status :: InstanceStatus
  ua_active_jobs :: nat

text \<open>Jobs and hidden evaluation work that run on the instance.\<close>

definition active_jobs :: "Uuid \<Rightarrow> 'x db \<Rightarrow> nat" where
  "active_jobs instance_id d =
     rows_affected (\<lambda>j. j_model_instance_id j = Some instance_id \<and> j_status j = Leased) (jobs d) +
     rows_affected (\<lambda>h. hw_model_instance_id h = instance_id \<and> hw_leased h) (hidden_work d)"

definition unpublish_model ::
    "OffsetDateTime \<Rightarrow> Principal \<Rightarrow> Uuid \<Rightarrow> 'x db \<Rightarrow> registry \<Rightarrow> (UnpublishAnswer api \<times> registry) api" where
  "unpublish_model now prin instance_id d rg =
     and_then (ok_or (fetch_optional (\<lambda>mi. mi_id mi = instance_id) (rg_instances rg)) NotFound) (\<lambda>mi.
     and_then (ok_or (fetch_optional (\<lambda>n. n_id n = mi_node_id mi) (rg_nodes rg)) NotFound) (\<lambda>node.
     and_then (require_node_device_binding prin (n_user_id node) (n_device_key_id node)) (\<lambda>_.
     let active = active_jobs instance_id d; status = (if active = 0 then Unpublished else Draining) in
       commit (rg\<lparr>rg_instances := sql_update (\<lambda>mi. mi_id mi = instance_id) (\<lambda>mi. mi\<lparr>mi_status := status,
           mi_unpublished_at := (if status = Unpublished then Some now else None)\<rparr>) (rg_instances rg)\<rparr>)
         \<lparr>ua_model_instance_id = instance_id, ua_status = status, ua_active_jobs = active\<rparr>)))"

section \<open>Listing\<close>

record ListedModel =
  lm_instance :: InstanceRow
  lm_model :: ModelEntry
  lm_node :: NodeRow

definition quarantined :: "registry \<Rightarrow> Uuid \<Rightarrow> bool" where
  "quarantined rg instance_id \<longleftrightarrow> list_ex (\<lambda>c. cs_model_instance_id c = instance_id \<and> cs_quarantined c) (rg_canary rg)"

definition clamp :: "int \<Rightarrow> int \<Rightarrow> int \<Rightarrow> int" where
  "clamp v low high = max low (min high v)"

text \<open>The query of \<open>list_models\<close>; \<open>text_le\<close> is the collation of the database.\<close>

definition listed_models ::
    "(rstring \<Rightarrow> rstring \<Rightarrow> bool) \<Rightarrow> rstring option \<Rightarrow> i64 option \<Rightarrow> registry \<Rightarrow> ListedModel list" where
  "listed_models text_le name limit rg =
     take (nat (clamp (case limit of None \<Rightarrow> 100 | Some l \<Rightarrow> sint l) 1 200))
       (sort_by (\<lambda>a b. if m_name (lm_model a) = m_name (lm_model b)
           then mi_published_at (lm_instance a) \<le> mi_published_at (lm_instance b)
           else text_le (m_name (lm_model a)) (m_name (lm_model b)))
         (concat (map (\<lambda>mi.
           case (fetch_optional (\<lambda>m. m_id m = mi_model_id mi) (rg_models rg), fetch_optional (\<lambda>n. n_id n = mi_node_id mi) (rg_nodes rg)) of
             (Some m, Some n) \<Rightarrow>
               if mi_status mi = Published \<and> m_enabled m \<and> \<not> quarantined rg (mi_id mi) \<and> (name = None \<or> name = Some (m_name m))
               then [\<lparr>lm_instance = mi, lm_model = m, lm_node = n\<rparr>] else []
           | _ \<Rightarrow> []) (rg_instances rg))))"

text \<open>The identifiers offered to OpenAI clients: every name in three speeds.\<close>

definition openai_models :: "ListedModel list \<Rightarrow> (rstring \<times> SpeedClass) list" where
  "openai_models listed =
     concat (map (\<lambda>name. [(name @ lit ''-fast'', Fast), (name, StandardSpeed), (name @ lit ''-slow'', Slow)])
       (btree_set (map (\<lambda>model. m_name (lm_model model)) listed)))"

definition list_models ::
    "(rstring \<Rightarrow> rstring \<Rightarrow> bool) \<Rightarrow> rstring option \<Rightarrow> i64 option \<Rightarrow> registry \<Rightarrow>
     (rstring \<times> SpeedClass) list \<times> ListedModel list" where
  "list_models text_le name limit rg =
     (let listed = listed_models text_le name limit rg in (openai_models listed, listed))"

section \<open>The statistics page of a node\<close>

record InstanceCanaryRisk =
  cr_model_instance_id :: Uuid
  cr_alias :: rstring
  cr_quarantined :: bool
  cr_consecutive_failures :: u32
  cr_recovery_passes :: u32
  cr_quarantine_failure_threshold :: u32
  cr_recovery_pass_threshold :: u32
  cr_quarantined_at :: "OffsetDateTime option"
  cr_recovered_at :: "OffsetDateTime option"
  cr_updated_at :: OffsetDateTime

definition instance_canary_risk :: "registry \<Rightarrow> InstanceRow \<Rightarrow> InstanceCanaryRisk api" where
  "instance_canary_risk rg mi =
     (let risk = fetch_optional (\<lambda>c. cs_model_instance_id c = mi_id mi) (rg_canary rg) in
      and_then (ok_or (u32_try_from_i32 (case risk of None \<Rightarrow> 0 | Some c \<Rightarrow> cs_consecutive_failures c)) InternalError) (\<lambda>failures.
      and_then (ok_or (u32_try_from_i32 (case risk of None \<Rightarrow> 0 | Some c \<Rightarrow> cs_recovery_passes c)) InternalError) (\<lambda>passes.
        Inr \<lparr>cr_model_instance_id = mi_id mi, cr_alias = mi_alias mi,
          cr_quarantined = (case risk of None \<Rightarrow> False | Some c \<Rightarrow> cs_quarantined c), cr_consecutive_failures = failures,
          cr_recovery_passes = passes, cr_quarantine_failure_threshold = 3, cr_recovery_pass_threshold = 2,
          cr_quarantined_at = Option.bind risk cs_quarantined_at, cr_recovered_at = Option.bind risk cs_recovered_at,
          cr_updated_at = (case risk of None \<Rightarrow> mi_published_at mi | Some c \<Rightarrow> cs_updated_at c)\<rparr>)))"

fun tier_rank :: "PerformanceTier \<Rightarrow> nat" where
  "tier_rank High = 3" | "tier_rank Medium = 2" | "tier_rank Low = 1"

definition published_tier :: "registry \<Rightarrow> Uuid \<Rightarrow> PerformanceTier option" where
  "published_tier rg node_id =
     (case sort_by (\<lambda>(mi, m) (mi', m'). tier_rank (m_tier m') < tier_rank (m_tier m) \<or>
           tier_rank (m_tier m') = tier_rank (m_tier m) \<and> mi_published_at mi' \<le> mi_published_at mi)
         (concat (map (\<lambda>mi. case fetch_optional (\<lambda>m. m_id m = mi_model_id mi) (rg_models rg) of
             None \<Rightarrow> []
           | Some m \<Rightarrow> if mi_node_id mi = node_id \<and> mi_status mi = Published \<and> \<not> quarantined rg (mi_id mi) then [(mi, m)] else [])
           (rg_instances rg)))
      of [] \<Rightarrow> None | (mi, m) # _ \<Rightarrow> Some (m_tier m))"

record NodeStats =
  ns_node_id :: Uuid
  ns_alias :: rstring
  ns_status :: NodeStatus
  ns_trust_level :: TrustLevel
  ns_requests :: i64
  ns_succeeded :: i64
  ns_failed :: i64
  ns_uptime_seconds :: "i64 option"
  ns_tier :: "PerformanceTier option"
  ns_spendable_earned_micro :: i64
  ns_contribution_earned_micro :: i64
  ns_created_at :: OffsetDateTime
  ns_last_seen_at :: "OffsetDateTime option"
  ns_metrics :: "MetricRow option"
  ns_honor :: NodeHonorStats
  ns_instance_canary_risk :: "InstanceCanaryRisk list"

definition node_stats :: "OffsetDateTime \<Rightarrow> Principal \<Rightarrow> Uuid \<Rightarrow> 'x db \<Rightarrow> registry \<Rightarrow> NodeStats api option" where
  "node_stats now prin node_id d rg =
     and_run (ok_or (fetch_optional (\<lambda>n. n_id n = node_id) (rg_nodes rg)) NotFound) (\<lambda>n.
     and_run (sum_bigint (contributed_by (node_receipts rc_node_quota_micro d) node_id)) (\<lambda>spendable.
     and_run (sum_bigint (contributed_by (contributions d) node_id)) (\<lambda>contribution.
     if n_user_id n \<noteq> pr_user_id prin then Some (Inl Forbidden)
     else
     let own = filter (\<lambda>a. at_node_id a = node_id) (job_attempts d);
         latest = (case sort_by (\<lambda>a b. nm_measured_at b < nm_measured_at a \<or>
               nm_measured_at b = nm_measured_at a \<and> unat (nm_id b) \<le> unat (nm_id a))
             (filter (\<lambda>m. nm_node_id m = node_id) (rg_metrics rg)) of [] \<Rightarrow> None | m # _ \<Rightarrow> Some m) in
     Option.bind (node_honor_stats now node_id contribution d) (\<lambda>honor.
     and_run honor (\<lambda>honor.
     and_run (try_filter_map (\<lambda>mi. and_then (instance_canary_risk rg mi) (\<lambda>r. Inr (Some r)))
       (sort_by (\<lambda>a b. mi_published_at a < mi_published_at b \<or>
           mi_published_at a = mi_published_at b \<and> unat (mi_id a) \<le> unat (mi_id b))
         (filter (\<lambda>mi. mi_node_id mi = node_id \<and> mi_status mi \<noteq> Unpublished) (rg_instances rg)))) (\<lambda>risks.
       Some (Inr \<lparr>ns_node_id = node_id, ns_alias = n_alias n, ns_status = n_status n, ns_trust_level = n_trust_level n,
         ns_requests = of_nat (length (remdups (map at_job_id (filter (\<lambda>a. at_status a \<in> {AttemptSucceeded, AttemptFailed, AttemptExpired}) own)))),
         ns_succeeded = count_bigint (\<lambda>a. at_status a = AttemptSucceeded) own,
         ns_failed = count_bigint (\<lambda>a. at_status a \<in> {AttemptFailed, AttemptExpired}) own,
         ns_uptime_seconds = (if 0 < sint (n_verified_heartbeat_count n) then Some (n_verified_uptime_seconds n) else None),
         ns_tier = published_tier rg node_id, ns_spendable_earned_micro = spendable,
         ns_contribution_earned_micro = contribution, ns_created_at = n_created_at n, ns_last_seen_at = n_last_seen_at n,
         ns_metrics = latest, ns_honor = honor, ns_instance_canary_risk = risks\<rparr>)))))))"

end
