(* ===== verification/Fleet.thy ===== *)
theory Fleet
  imports Registry
begin

text \<open>
  What the registry guarantees over any run of its calls: who owns a node and which device it is bound to never
  changes, only a verified hardware report keeps a node at the highest trust level, the uptime a node collects
  is bounded by the time that passed, publishing never rewrites a model, and a node the heartbeat lets accept jobs passes
  the policy check of the claim.
\<close>

section \<open>Runs of the registry\<close>

text \<open>One successful call at a time \<open>now\<close>, and runs of calls at times that do not go back.\<close>

inductive registry_step ::
    "('v HardwareProfile \<Rightarrow> rstring option) \<Rightarrow> 'x db set \<Rightarrow> OffsetDateTime \<Rightarrow> registry \<Rightarrow> registry \<Rightarrow> bool" for to_value ds where
  registers: "register_node to_value now fresh reports prin req rg = Inr (Inr a, rg') \<Longrightarrow> registry_step to_value ds now rg rg'"
| beats: "node_heartbeat now metric_id heartbeat_id prin node_id hb rg = Inr (Inr b, rg') \<Longrightarrow> registry_step to_value ds now rg rg'"
| publishes: "publish_model seeding now fresh fresh' prin pm rg = Inr (Inr p, rg') \<Longrightarrow> registry_step to_value ds now rg rg'"
| unpublishes: "d \<in> ds \<Longrightarrow> unpublish_model now prin i d rg = Inr (Inr u, rg') \<Longrightarrow> registry_step to_value ds now rg rg'"

inductive registry_run ::
    "('v HardwareProfile \<Rightarrow> rstring option) \<Rightarrow> 'x db set \<Rightarrow> OffsetDateTime \<Rightarrow> registry \<Rightarrow> OffsetDateTime \<Rightarrow> registry \<Rightarrow> bool"
  for to_value ds t rg where
  starts: "registry_run to_value ds t rg t rg"
| continues: "registry_run to_value ds t rg t' rg' \<Longrightarrow> t' \<le> now \<Longrightarrow> registry_step to_value ds now rg' rg'' \<Longrightarrow> registry_run to_value ds t rg now rg''"

text \<open>What the nodes of the registry turn into: a row of its own for every row, and possibly one more.\<close>

definition nodes_follow :: "(NodeRow \<Rightarrow> NodeRow \<Rightarrow> bool) \<Rightarrow> NodeRow list \<Rightarrow> NodeRow list \<Rightarrow> bool" where
  "nodes_follow R rows rows' \<longleftrightarrow> (\<exists>olds news. rows' = olds @ news \<and> list_all2 R rows olds)"

lemma nodes_follow_refl: "(\<And>n. R n n) \<Longrightarrow> nodes_follow R rows rows"
  unfolding nodes_follow_def by (intro exI [of _ rows] exI [of _ "[]"]) (simp add: list_all2_refl)

lemma nodes_follow_snoc: "(\<And>n. R n n) \<Longrightarrow> nodes_follow R rows (rows @ [n])"
  unfolding nodes_follow_def by (intro exI [of _ rows] exI [of _ "[n]"]) (simp add: list_all2_refl)

lemma nodes_follow_update: "(\<And>n. R n n) \<Longrightarrow> (\<And>n. P n \<Longrightarrow> R n (f n)) \<Longrightarrow> nodes_follow R rows (sql_update P f rows)"
  unfolding nodes_follow_def sql_update_def
  by (intro exI [of _ "map (\<lambda>r. if P r then f r else r) rows"] exI [of _ "[]"]) (simp add: list_all2_map2 list_all2_refl)

lemma nodes_follow_trans:
  assumes "nodes_follow R xs ys" "nodes_follow S ys zs" "\<And>a b c. R a b \<Longrightarrow> S b c \<Longrightarrow> T a c"
  shows "nodes_follow T xs zs"
proof -
  from assms(1) obtain ys1 ys2 where ys: "ys = ys1 @ ys2" "list_all2 R xs ys1" by (auto simp: nodes_follow_def)
  from assms(2) obtain zs1 zs2 where "zs = zs1 @ zs2" "list_all2 S ys zs1" by (auto simp: nodes_follow_def)
  moreover obtain zs3 zs4 where "zs1 = zs3 @ zs4" "list_all2 S ys1 zs3"
    using \<open>list_all2 S ys zs1\<close> ys(1) by (auto simp: list_all2_append1)
  ultimately show ?thesis
    unfolding nodes_follow_def using list_all2_trans [of R S T, OF _ ys(2)] assms(3)
    by (intro exI [of _ zs3] exI [of _ "zs4 @ zs2"]) (auto intro: list_all2_trans [OF assms(3) ys(2)])
qed

text \<open>One step, seen from a node: registering it again, or a heartbeat.\<close>

definition node_step :: "OffsetDateTime \<Rightarrow> NodeRow \<Rightarrow> NodeRow \<Rightarrow> bool" where
  "node_step now n n' \<longleftrightarrow> n' = n \<or>
     (\<exists>reports profile trust prin. n' = reregistered now reports profile trust prin n) \<or>
     (\<exists>status pause_reason. heartbeat_row now status pause_reason n = Some n')"

lemma checked_update_follows:
  assumes "checked_update chk P f rows = Inr rows'" "\<And>n. R n n" "\<And>n n'. f n = Some n' \<Longrightarrow> R n n'"
  shows "nodes_follow R rows rows'"
  using assms unfolding checked_update_eq nodes_follow_def
  by (intro exI [of _ rows'] exI [of _ "[]"]) (auto elim!: list_all2_mono split: if_splits)

lemma node_step_intros:
  "node_step now n n" "node_step now n (reregistered now reports profile trust prin n)"
  "heartbeat_row now status pause_reason n = Some n' \<Longrightarrow> node_step now n n'"
  by (auto simp: node_step_def)

lemma upsert_follows:
  "upsert_node now reports fresh name profile trust prin rows = Inr (x, rows') \<Longrightarrow> nodes_follow (node_step now) rows rows'"
  by (auto simp: upsert_node_def Let_def split: option.splits if_splits
      intro!: nodes_follow_refl nodes_follow_snoc nodes_follow_update intro: node_step_intros)

lemma step_nodes: "registry_step to_value ds now rg rg' \<Longrightarrow> nodes_follow (node_step now) (rg_nodes rg) (rg_nodes rg')"
proof (induction rule: registry_step.induct)
  case (registers now fresh reports prin req rg a rg')
  then obtain name profile trust x where
    "upsert_node now reports fresh name profile trust prin (rg_nodes rg) = Inr (x, rg_nodes rg')"
    by (auto simp: register_node_def Let_def result_simps)
  then show ?case by (rule upsert_follows)
next
  case (beats now metric_id heartbeat_id prin node_id hb rg b rg')
  then obtain status pause_reason where
    "checked_update node_row_check (\<lambda>n. n_id n = node_id) (heartbeat_row now status pause_reason) (rg_nodes rg) = Inr (rg_nodes rg')"
    by (auto simp: node_heartbeat_def Let_def result_simps split: if_splits)
  then show ?case by (rule checked_update_follows) (auto intro: node_step_intros)
next
  case (publishes seeding now fresh fresh' prin pm rg p rg')
  then have "rg_nodes rg' = rg_nodes rg"
    by (auto simp: publish_model_def Let_def result_simps split: if_splits)
  then show ?case by (simp add: nodes_follow_refl node_step_intros)
next
  case (unpublishes d now prin i rg u rg')
  then have "rg_nodes rg' = rg_nodes rg" by (auto simp: unpublish_model_def Let_def result_simps)
  then show ?case by (simp add: nodes_follow_refl node_step_intros)
qed

lemma run_follows:
  assumes "registry_run to_value ds t rg t' rg'" "\<And>n. R t n n"
    and "\<And>t' now n n' n''. R t' n n' \<Longrightarrow> t \<le> t' \<Longrightarrow> t' \<le> now \<Longrightarrow> node_step now n' n'' \<Longrightarrow> R now n n''"
  shows "nodes_follow (R t') (rg_nodes rg) (rg_nodes rg')"
proof -
  have "t \<le> t' \<and> nodes_follow (R t') (rg_nodes rg) (rg_nodes rg')"
    using assms(1)
  proof (induction rule: registry_run.induct)
    case starts
    then show ?case using assms(2) by (simp add: nodes_follow_refl)
  next
    case (continues t' rg' now rg'')
    then show ?case
      using nodes_follow_trans [OF _ step_nodes [OF continues.hyps(3)]] assms(3) by fastforce
  qed
  then show ?thesis ..
qed

section \<open>Identity\<close>

definition same_identity :: "NodeRow \<Rightarrow> NodeRow \<Rightarrow> bool" where
  "same_identity n n' \<longleftrightarrow>
     n_id n' = n_id n \<and> n_user_id n' = n_user_id n \<and> n_alias n' = n_alias n \<and> n_created_at n' = n_created_at n \<and>
     (n_device_key_id n' = n_device_key_id n \<or> n_device_key_id n = None)"

lemma heartbeat_row_eq:
  "heartbeat_row now status pause_reason n = Some n' \<longleftrightarrow>
     (\<exists>u c. sint u = sint (n_verified_uptime_seconds n) + sint (word_of_int (uptime_seconds now (n_last_verified_heartbeat_at n)) :: i64) \<and>
        sint c = sint (n_verified_heartbeat_count n) + 1 \<and>
        n' = n\<lparr>n_status := status, n_pause_reason := pause_reason, n_verified_uptime_seconds := u,
         n_verified_heartbeat_count := c, n_last_verified_heartbeat_at := Some now,
         n_last_seen_at := Some now, n_updated_at := now\<rparr>)"
  by (auto simp: heartbeat_row_def bind_eq_Some_conv s_checked_add_Some)

lemma step_identity: "node_step now n n' \<Longrightarrow> same_identity n n'"
  by (auto simp: node_step_def same_identity_def reregistered_def Let_def heartbeat_row_eq split: option.splits)

lemma same_identity_trans: "same_identity a b \<Longrightarrow> same_identity b c \<Longrightarrow> same_identity a c"
  by (auto simp: same_identity_def)

text \<open>C17. Who a node belongs to is settled once: over any run of registrations, heartbeats, publications and
  withdrawals every node keeps its identifier, owner, name and creation time, and a device key that has been bound
  to it is never replaced; rows are only added behind the ones that are there.\<close>

theorem node_identity_permanent:
  assumes "registry_run to_value ds t rg t' rg'"
  shows "nodes_follow same_identity (rg_nodes rg) (rg_nodes rg')"
  by (rule run_follows [OF assms, of "\<lambda>_. same_identity"])
    (auto simp: same_identity_def [of n n for n] intro: same_identity_trans step_identity)

section \<open>Uptime\<close>

lemma uptime_seconds_bounds: "0 \<le> uptime_seconds now l" "uptime_seconds now l \<le> 90"
  by (auto simp: uptime_seconds_def split: option.splits)

lemma uptime_seconds_twice:
  assumes "l \<le> now"
  shows "1000000000 * uptime_seconds now (Some l) \<le> 2 * (now - l)"
proof -
  have "1000000000 * ((now - l + 500000000) div 1000000000) \<le> 2 * (now - l)"
  proof (cases "now - l < 500000000")
    case True
    with assms have "(now - l + 500000000) div 1000000000 = 0" by (intro div_pos_pos_trivial) simp_all
    with assms show ?thesis by simp
  next
    case False
    have "1000000000 * ((now - l + 500000000) div 1000000000) \<le> now - l + 500000000"
      using mult_div_mod_eq [of 1000000000 "now - l + 500000000"] pos_mod_sign [of 1000000000 "now - l + 500000000"] by linarith
    with False show ?thesis by simp
  qed
  with assms show ?thesis by (auto simp: uptime_seconds_def)
qed

definition counted_from :: "OffsetDateTime \<Rightarrow> NodeRow \<Rightarrow> OffsetDateTime" where
  "counted_from t n = (case n_last_verified_heartbeat_at n of None \<Rightarrow> t | Some l \<Rightarrow> l)"

definition uptime_bounded :: "OffsetDateTime \<Rightarrow> OffsetDateTime \<Rightarrow> NodeRow \<Rightarrow> NodeRow \<Rightarrow> bool" where
  "uptime_bounded t t' n n' \<longleftrightarrow>
     (let gained = sint (n_verified_uptime_seconds n') - sint (n_verified_uptime_seconds n) in
      0 \<le> gained \<and> (n_last_verified_heartbeat_at n' = None \<longrightarrow> gained = 0) \<and>
      (counted_from t n \<le> t \<longrightarrow> counted_from t n \<le> counted_from t' n' \<and> counted_from t' n' \<le> t' \<and>
         1000000000 * gained \<le> 2 * (counted_from t' n' - counted_from t n)))"

lemma uptime_step:
  assumes "uptime_bounded t t' n n'" "t \<le> t'" "t' \<le> now" "node_step now n' n''"
  shows "uptime_bounded t now n n''"
proof -
  let ?s = "uptime_seconds now (n_last_verified_heartbeat_at n')"
  have w: "sint (word_of_int ?s :: i64) = ?s"
    using uptime_seconds_bounds [of now "n_last_verified_heartbeat_at n'"] by (subst sint_word_of_int_fits_iff) auto
  consider "n'' = n'" | reports profile trust prin where "n'' = reregistered now reports profile trust prin n'"
    | status pause_reason where "heartbeat_row now status pause_reason n' = Some n''"
    using assms(4) by (auto simp: node_step_def)
  then show ?thesis
  proof cases
    case 3
    then have n'': "sint (n_verified_uptime_seconds n'') = sint (n_verified_uptime_seconds n') + ?s"
      "n_last_verified_heartbeat_at n'' = Some now"
      by (auto simp: heartbeat_row_eq w)
    show ?thesis
    proof (cases "n_last_verified_heartbeat_at n'")
      case None
      then have "?s = 0" by (simp add: uptime_seconds_def)
      with assms n'' None show ?thesis by (auto simp: uptime_bounded_def Let_def counted_from_def)
    next
      case (Some l)
      then have s: "0 \<le> ?s" "l \<le> now \<longrightarrow> 1000000000 * ?s \<le> 2 * (now - l)"
        using uptime_seconds_bounds(1) uptime_seconds_twice by auto
      from assms n'' Some s show ?thesis
        by (auto simp: uptime_bounded_def Let_def counted_from_def)
    qed
  qed (use assms in \<open>auto simp: uptime_bounded_def Let_def counted_from_def reregistered_def split: option.splits\<close>)
qed

text \<open>C20. Uptime follows the clock: over any run of calls at times that do not go back, no node loses verified uptime,
  and what it gains is at most twice the time that passed since its last heartbeat before the run (rounding each
  distance to whole seconds can count half a second as one, so the factor cannot be smaller).\<close>

theorem uptime_follows_clock:
  assumes "registry_run to_value ds t rg t' rg'"
  shows "nodes_follow (uptime_bounded t t') (rg_nodes rg) (rg_nodes rg')"
  by (rule run_follows [OF assms, of "uptime_bounded t"])
    (auto intro: uptime_step simp: uptime_bounded_def [of t t n n for n])

section \<open>Trust\<close>

lemma software_never_enhanced: "software_trust_level h \<noteq> TrustLevel.Enhanced"
  by (simp add: software_trust_level_def Let_def)

lemma register_inversion:
  assumes "register_node to_value now fresh reports prin req rg = Inr (Inr a, rg')"
  obtains profile where "upsert_node now reports fresh (trim (reg_alias req)) profile (software_trust_level (hardware_profile req)) prin
      (rg_nodes rg) = Inr (Some (rn_node_id a, rn_trust_level a), rg_nodes rg')" "rn_status a = Offline"
  using assms by (auto simp: register_node_def Let_def result_simps)

lemma trust_kept_iff:
  "trust_kept now reports n \<longleftrightarrow> n_trust_level n = TrustLevel.Enhanced \<and> (\<exists>t > now. n_trust_expires_at n = Some t) \<and>
     (\<exists>report \<in> set reports. n_attestation_report_id n = Some (ar_id report) \<and> ar_node_id report = n_id n \<and>
        ar_status report = Verified \<and> ar_signature_verified report \<and> ar_certificate_chain_verified report \<and>
        ar_tcb_current report \<and> ar_collateral_current report \<and> now < ar_expires_at report \<and>
        (\<exists>t > now. ar_collateral_expires_at report = Some t))"
  by (auto simp: trust_kept_def list_ex_iff is_some_and_iff)

lemma upsert_new:
  assumes "upsert_node now reports fresh name profile trust prin rows = Inr (Some (i, l), rows')"
    "fetch_optional (\<lambda>n. n_user_id n = pr_user_id prin \<and> n_alias n = name) rows = None"
  obtains row where "rows' = rows @ [row]" "n_id row = i" "l = trust" "n_user_id row = pr_user_id prin"
    "n_device_key_id row = Some (pr_device_key_id prin)" "n_status row = Offline" "n_trust_level row = trust"
proof -
  have "\<exists>row. rows' = rows @ [row] \<and> n_id row = i \<and> l = trust \<and> n_user_id row = pr_user_id prin \<and>
    n_device_key_id row = Some (pr_device_key_id prin) \<and> n_status row = Offline \<and> n_trust_level row = trust"
    using assms by (auto simp: upsert_node_def split: if_splits)
  then show thesis using that by blast
qed

lemma upsert_old:
  assumes "upsert_node now reports fresh name profile trust prin rows = Inr (Some (i, l), rows')"
    "fetch_optional (\<lambda>n. n_user_id n = pr_user_id prin \<and> n_alias n = name) rows = Some existing"
  shows "n_device_key_id existing = None \<or> n_device_key_id existing = Some (pr_device_key_id prin)"
    "n_id (reregistered now reports profile trust prin existing) = i"
    "n_trust_level (reregistered now reports profile trust prin existing) = l"
    "reregistered now reports profile trust prin existing \<in> set rows'"
  using assms fetch_optional_Some [OF assms(2)]
  by (auto simp: upsert_node_def Let_def in_set_sql_update split: if_splits)

text \<open>C18. Registration never promotes a node: after a registration the node belongs to the caller, is bound to the
  caller's device and is offline, and its trust level is the one its own sandbox report earns, which is never the
  highest, unless a hardware report of the node that is verified, complete and not expired already gave it the
  highest level.\<close>

theorem registration_never_promotes:
  assumes "register_node to_value now fresh reports prin req rg = Inr (Inr a, rg')"
  shows "\<exists>n' \<in> set (rg_nodes rg'). n_id n' = rn_node_id a \<and> n_user_id n' = pr_user_id prin \<and>
    n_device_key_id n' = Some (pr_device_key_id prin) \<and> n_status n' = Offline \<and> n_trust_level n' = rn_trust_level a \<and>
    (rn_trust_level a = software_trust_level (hardware_profile req) \<and> rn_trust_level a \<noteq> TrustLevel.Enhanced \<or>
     rn_trust_level a = TrustLevel.Enhanced \<and>
     (\<exists>n \<in> set (rg_nodes rg). n_id n = n_id n' \<and> n_user_id n = pr_user_id prin \<and> n_trust_level n = TrustLevel.Enhanced \<and>
        (\<exists>t > now. n_trust_expires_at n = Some t) \<and>
        (\<exists>report \<in> set reports. n_attestation_report_id n = Some (ar_id report) \<and> ar_node_id report = n_id n \<and>
           ar_status report = Verified \<and> ar_signature_verified report \<and> ar_certificate_chain_verified report \<and>
           ar_tcb_current report \<and> ar_collateral_current report \<and> now < ar_expires_at report \<and>
           (\<exists>t > now. ar_collateral_expires_at report = Some t))))"
proof -
  let ?trust = "software_trust_level (hardware_profile req)"
  obtain profile where u: "upsert_node now reports fresh (trim (reg_alias req)) profile ?trust prin (rg_nodes rg) =
      Inr (Some (rn_node_id a, rn_trust_level a), rg_nodes rg')"
    using assms by (rule register_inversion)
  show ?thesis
  proof (cases "fetch_optional (\<lambda>n. n_user_id n = pr_user_id prin \<and> n_alias n = trim (reg_alias req)) (rg_nodes rg)")
    case None
    with u obtain row where "rg_nodes rg' = rg_nodes rg @ [row]" "n_id row = rn_node_id a" "rn_trust_level a = ?trust"
      "n_user_id row = pr_user_id prin" "n_device_key_id row = Some (pr_device_key_id prin)" "n_status row = Offline"
      "n_trust_level row = ?trust"
      by (rule upsert_new)
    then show ?thesis using software_never_enhanced [of "hardware_profile req"] by (intro bexI [of _ row]) auto
  next
    case (Some existing)
    let ?new = "reregistered now reports profile ?trust prin existing"
    have old: "existing \<in> set (rg_nodes rg)" "n_user_id existing = pr_user_id prin"
      using fetch_optional_Some [OF Some] by simp_all
    from upsert_old [OF u Some] have new: "n_device_key_id existing = None \<or> n_device_key_id existing = Some (pr_device_key_id prin)"
      "n_id ?new = rn_node_id a" "n_trust_level ?new = rn_trust_level a" "?new \<in> set (rg_nodes rg')"
      by simp_all
    have row: "n_user_id ?new = pr_user_id prin" "n_device_key_id ?new = Some (pr_device_key_id prin)" "n_status ?new = Offline"
      "n_id ?new = n_id existing" "n_trust_level ?new = (if trust_kept now reports existing then TrustLevel.Enhanced else ?trust)"
      using old(2) new(1) by (auto simp: reregistered_def Let_def trust_kept_def)
    show ?thesis
      unfolding trust_kept_iff [symmetric]
      using new row old software_never_enhanced [of "hardware_profile req"]
      by (intro bexI [of _ ?new]) (auto split: if_splits)
  qed
qed

section \<open>Heartbeats and the claim\<close>

lemma newest_first:
  "\<forall>x \<in> set xs. f x < f m \<Longrightarrow> \<exists>ys. sort_by (\<lambda>a b. f b \<le> (f a :: int)) (xs @ [m]) = m # ys"
  by (induction xs) auto

lemma f64_from_i32_value:
  "is_finite (f64_from_i32 v)" "fval (f64_from_i32 v) = of_int (sint v)"
proof -
  have b: "\<bar>sint v\<bar> \<le> 2 ^ 53" using i32_bounds [of v] by auto
  then have "\<bar>of_int (sint v) :: rat\<bar> \<le> of_int (2 ^ 53)" by (metis of_int_abs of_int_le_iff)
  also have "\<dots> \<le> max_finite" by (simp add: max_finite_def)
  finally show "is_finite (f64_from_i32 v)" "fval (f64_from_i32 v) = of_int (sint v)"
    using fround_of_int [OF b] by (simp_all add: f64_from_i32_def of_exact_fin)
qed

lemma uint_of_int: "0 \<le> k \<Longrightarrow> k < 2 ^ LENGTH('a) \<Longrightarrow> uint (word_of_int k :: 'a::len word) = k"
  by (simp add: uint_word_of_int_eq take_bit_int_eq_self)

lemma unsigned_reading:
  fixes v :: i32 and x :: i64
  shows "0 \<le> sint v \<Longrightarrow> int (unat v) = sint v"
    "0 \<le> sint x \<Longrightarrow> int (unat (word_of_int (sint x) :: u64)) = sint x"
    "0 \<le> sint v \<Longrightarrow> sint v < 65536 \<Longrightarrow> int (unat (word_of_int (sint v) :: u16)) = sint v"
  using i64_bounds [of x] i32_bounds [of v]
  by (simp_all add: uint_sint [of v] take_bit_int_eq_self uint_of_int del: of_int_sint of_int_sint_same)

lemma accounting_policy_of_row:
  assumes "policy_row_check p" "\<forall>t \<in> set (p_reject_tags p). valid_tag t"
  obtains pol where "accounting_policy p = Inr pol" "NodePolicy_validate pol = Inr ()"
    "set (reject_tags pol) = set (p_reject_tags p)" "int (unat (max_concurrent pol)) = sint (p_max_concurrent p)"
    "int (unat (vram_reserve_mib pol)) = sint (p_vram_reserve_mib p)"
    "case p_gpu_temp_limit_c p of None \<Rightarrow> gpu_temp_limit_c pol = None
      | Some l \<Rightarrow> \<exists>k. gpu_temp_limit_c pol = Some k \<and> int (unat k) = sint l"
proof -
  define mc where "mc = p_max_concurrent p"
  define temp where "temp = map_option (\<lambda>l. word_of_int (sint l) :: u16) (p_gpu_temp_limit_c p)"
  define vram :: u64 where "vram = word_of_int (sint (p_vram_reserve_mib p))"
  have range: "0 < sint mc" "0 \<le> sint (p_vram_reserve_mib p)" "\<And>l. p_gpu_temp_limit_c p = Some l \<Longrightarrow> 30 \<le> sint l \<and> sint l \<le> 120"
    using assms(1) by (auto simp: policy_row_check_def mc_def)
  let ?pol = "\<lparr>NodePolicy.reject_tags = btree_set (p_reject_tags p), max_concurrent = mc, gpu_temp_limit_c = temp,
         vram_reserve_mib = vram, resume_temp_hysteresis_c = 5\<rparr>"
  have limit: "case p_gpu_temp_limit_c p of None \<Rightarrow> temp = None | Some l \<Rightarrow> \<exists>k. temp = Some k \<and> int (unat k) = sint l"
    using range(3) unsigned_reading(3) by (auto simp: temp_def split: option.splits)
  have "accounting_policy p = Inr ?pol"
    using range by (auto simp: accounting_policy_def u32_try_from_i32_def u64_try_from_i64_def u16_try_from_i32_def
        mc_def temp_def vram_def split: option.splits)
  moreover have "NodePolicy_validate ?pol = Inr ()"
  proof -
    have "mc \<noteq> 0" using range(1) by auto
    moreover have "k \<noteq> 0 \<and> \<not> k \<le> 5" if "temp = Some k" for k
    proof -
      have "30 \<le> uint k" using that limit range(3) by (auto split: option.splits)
      moreover have "int (unat k) = uint k" by simp
      ultimately have "30 \<le> unat k" by linarith
      then show ?thesis by (auto simp: word_le_nat_alt)
    qed
    ultimately show ?thesis using assms(2) by (auto simp: NodePolicy_validate_def list_ex_iff split: option.splits)
  qed
  moreover have "int (unat mc) = sint (p_max_concurrent p)" "int (unat vram) = sint (p_vram_reserve_mib p)"
    using range(1,2) unsigned_reading(1) [of mc] unsigned_reading(2) [of "p_vram_reserve_mib p"] by (simp_all add: mc_def vram_def)
  ultimately show thesis using limit by (intro that [of ?pol]) (simp_all split: option.splits)
qed

lemma checked_update_keeps:
  "checked_update chk P f rows = Inr rows' \<Longrightarrow> list_all chk rows \<Longrightarrow> list_all chk rows'"
  by (induction rows arbitrary: rows') (auto simp: result_simps split: if_splits)

lemma heartbeat_metric:
  assumes "node_heartbeat now metric_id heartbeat_id prin node_id hb rg = Inr (Inr b, rg')"
  shows "\<exists>metric. rg_metrics rg' = rg_metrics rg @ [metric] \<and> nm_node_id metric = node_id \<and> nm_measured_at metric = now \<and>
    nm_gpu_temp_c metric = hb_gpu_temp_c hb \<and> nm_vram_used_mib metric = hb_vram_used_mib hb \<and>
    nm_vram_total_mib metric = hb_vram_total_mib hb"
  using assms by (auto simp: node_heartbeat_def Let_def result_simps split: if_splits)

lemma heartbeat_inversion:
  assumes "node_heartbeat now metric_id heartbeat_id prin node_id hb rg = Inr (Inr b, rg')" "ha_accepting_jobs b"
    and "fetch_optional (\<lambda>p. p_node_id p = node_id) (rg_policies rg') = Some p" "list_all policy_row_check (rg_policies rg)"
  obtains metric was where "policy_row_check p" "rg_metrics rg' = rg_metrics rg @ [metric]" "nm_node_id metric = node_id"
    "nm_measured_at metric = now" "nm_gpu_temp_c metric = hb_gpu_temp_c hb" "nm_vram_used_mib metric = hb_vram_used_mib hb"
    "nm_vram_total_mib metric = hb_vram_total_mib hb" "heartbeat_ok hb"
    "pause_reason_of was (p_max_concurrent p) (p_gpu_temp_limit_c p) (p_vram_reserve_mib p) hb = None"
proof -
  obtain row where row: "fetch_optional (\<lambda>n. n_id n = node_id) (rg_nodes rg) = Some row"
    using assms(1) by (auto simp: node_heartbeat_def Let_def result_simps)
  let ?was = "n_status row = Paused \<and> n_pause_reason row = Some (lit ''gpu_temperature_limit'')"
  have valid: "heartbeat_ok hb"
    using assms(1) by (auto simp: node_heartbeat_def Let_def result_simps heartbeat.validate_ok)
  from heartbeat_metric [OF assms(1)] obtain metric where metric: "rg_metrics rg' = rg_metrics rg @ [metric]"
    "nm_node_id metric = node_id" "nm_measured_at metric = now" "nm_gpu_temp_c metric = hb_gpu_temp_c hb"
    "nm_vram_used_mib metric = hb_vram_used_mib hb" "nm_vram_total_mib metric = hb_vram_total_mib hb" by blast
  have old: "policy_row_check q" if "fetch_optional (\<lambda>p. p_node_id p = node_id) (rg_policies rg) = Some q" for q
    using fetch_optional_Some [OF that] assms(4) by (simp add: list_all_iff)
  show thesis
  proof (cases "hb_policy hb")
    case None
    then have "rg_policies rg' = rg_policies rg"
      using assms(1) by (auto simp: node_heartbeat_def Let_def result_simps split: if_splits)
    then have p: "fetch_optional (\<lambda>p. p_node_id p = node_id) (rg_policies rg) = Some p" using assms(3) by simp
    have "pause_reason_of ?was (p_max_concurrent p) (p_gpu_temp_limit_c p) (p_vram_reserve_mib p) hb = None"
      using assms(1,2) row None p by (auto simp: node_heartbeat_def Let_def result_simps split: if_splits)
    with metric valid old [OF p] show thesis by (intro that [of metric ?was]) simp_all
  next
    case (Some policy)
    then obtain mc gpu vram policies where u:
      "checked_update policy_row_check (\<lambda>p. p_node_id p = node_id) (\<lambda>p. Some (p\<lparr>p_reject_tags := dto_reject_tags policy,
          p_max_concurrent := mc, p_gpu_temp_limit_c := gpu, p_vram_reserve_mib := vram\<rparr>)) (rg_policies rg) = Inr policies"
      "rg_policies rg' = policies" "pause_reason_of ?was mc gpu vram hb = None"
      using assms(1,2) row by (auto simp: node_heartbeat_def Let_def result_simps split: if_splits)
    have "fetch_optional (\<lambda>p. p_node_id p = node_id) policies = Some p" using assms(3) by (simp only: u(2))
    moreover from this have kept: "policy_row_check p"
      using checked_update_keeps [OF u(1) assms(4)] by (auto simp: list_all_iff dest: fetch_optional_Some)
    ultimately have fetched: "Some p = (case fetch_optional (\<lambda>p. p_node_id p = node_id) (rg_policies rg) of None \<Rightarrow> None
      | Some q \<Rightarrow> if p_node_id q = node_id then Some (q\<lparr>p_reject_tags := dto_reject_tags policy, p_max_concurrent := mc,
          p_gpu_temp_limit_c := gpu, p_vram_reserve_mib := vram\<rparr>) else Some q)"
      by (subst fetch_checked_update [OF u(1), where key = p_node_id and k = node_id, symmetric]) auto
    have p: "p_max_concurrent p = mc" "p_gpu_temp_limit_c p = gpu" "p_vram_reserve_mib p = vram" "policy_row_check p"
      using fetched kept fetch_optional_Some [of "\<lambda>p. p_node_id p = node_id" "rg_policies rg"]
      by (auto split: option.splits if_splits)
    show thesis
      using metric valid u(3) p by (intro that [of metric ?was]) simp_all
  qed
qed

lemma truncated:
  "nm_node_id (NodeMetric.truncate m) = nm_node_id m" "nm_measured_at (NodeMetric.truncate m) = nm_measured_at m"
  "nm_gpu_temp_c (NodeMetric.truncate m) = nm_gpu_temp_c m" "nm_vram_used_mib (NodeMetric.truncate m) = nm_vram_used_mib m"
  "nm_vram_total_mib (NodeMetric.truncate m) = nm_vram_total_mib m"
  by (simp_all add: NodeMetric.truncate_def)

lemma latest_metric_registered:
  assumes "rg_metrics rg' = rg_metrics rg @ [metric]" "nm_node_id metric = node_id" "nm_measured_at metric = now"
    and "\<forall>m \<in> set (rg_metrics rg). nm_node_id m = node_id \<longrightarrow> nm_measured_at m < now"
  shows "latest_metric node_id (registered rg' d) = Some (NodeMetric.truncate metric)"
proof -
  let ?old = "map NodeMetric.truncate (filter (\<lambda>m. nm_node_id m = node_id) (rg_metrics rg))"
  have "\<forall>m \<in> set ?old. nm_measured_at m < nm_measured_at (NodeMetric.truncate metric)"
    using assms(3,4) by (simp add: truncated)
  then obtain ys where "sort_by (\<lambda>a b. nm_measured_at b \<le> nm_measured_at a) (?old @ [NodeMetric.truncate metric])
      = NodeMetric.truncate metric # ys"
    by (rule newest_first [of ?old nm_measured_at, THEN exE])
  then show ?thesis
    using assms(1,2) by (simp add: latest_metric_def registered_def filter_map o_def truncated)
qed

lemma not_paused:
  assumes "pause_reason_of was mc gpu vram hb = None" "heartbeat_ok hb" "\<And>l. gpu = Some l \<Longrightarrow> 30 \<le> sint l"
  shows "sint (hb_current_concurrent hb) < sint mc"
    "\<And>l. gpu = Some l \<Longrightarrow> \<exists>t. hb_gpu_temp_c hb = Some t \<and> 0 \<le> sint t \<and> sint t < sint l"
    "\<And>in_use total. hb_vram_used_mib hb = Some in_use \<Longrightarrow> hb_vram_total_mib hb = Some total \<Longrightarrow>
       0 \<le> sint (i64_saturating_sub total in_use) \<and> sint vram \<le> sint (i64_saturating_sub total in_use)"
proof -
  show "sint (hb_current_concurrent hb) < sint mc" using assms(1) by (auto simp: pause_reason_of_def split: if_splits)
  show "\<exists>t. hb_gpu_temp_c hb = Some t \<and> 0 \<le> sint t \<and> sint t < sint l" if "gpu = Some l" for l
  proof -
    have "- 2147483648 \<le> sint l - 5" "sint l - 5 \<le> 2147483647" using assms(3) [OF that] i32_bounds [of l] by auto
    then have "sint (i32_saturating_sub l 5) = sint l - 5"
      by (simp add: i32_saturating_sub_def sint_word_of_int_fits_iff del: of_int_diff)
    with that assms show ?thesis
      by (auto simp: pause_reason_of_def temperature_requires_pause_def Let_def heartbeat_ok_def split: if_splits option.splits)
  qed
  show "0 \<le> sint (i64_saturating_sub total in_use) \<and> sint vram \<le> sint (i64_saturating_sub total in_use)"
    if "hb_vram_used_mib hb = Some in_use" "hb_vram_total_mib hb = Some total" for in_use total
    using that assms(1,2)
    by (auto simp: pause_reason_of_def heartbeat_ok_def opt_zip_def sint_saturating_sub not_less split: if_splits)
qed

text \<open>C19. A node the heartbeat lets accept jobs can claim them: directly after an answer that says so, the check of the
  node's policy that a claim makes passes for every task whose tags the policy does not reject, as long as the node has
  a lease left, provided that the node reports its video memory if its policy reserves some (the heartbeat does not ask
  for it, the claim does) and that every reject tag is neither blank nor has a control character in it (registration
  accepts them, the claim fails on them).\<close>

theorem online_node_passes_policy:
  assumes "node_heartbeat now metric_id heartbeat_id prin node_id hb rg = Inr (Inr b, rg')" "ha_accepting_jobs b"
    and "list_all policy_row_check (rg_policies rg)"
    and "\<forall>m \<in> set (rg_metrics rg). nm_node_id m = node_id \<longrightarrow> nm_measured_at m < now"
    and "fetch_optional (\<lambda>p. p_node_id p = node_id) (rg_policies rg') = Some p"
    and "\<forall>t \<in> set (p_reject_tags p). valid_tag t \<and> (\<forall>t' \<in> set tags. normalize_tag t \<noteq> normalize_tag t')"
    and "sint (p_vram_reserve_mib p) = 0 \<or> hb_vram_used_mib hb \<noteq> None \<and> hb_vram_total_mib hb \<noteq> None"
    and "int (active_leases later node_id excluded (registered rg' d)) < sint (p_max_concurrent p)"
  shows "enforce_current_policy later node_id p excluded tags (registered rg' d) = Inr ()"
proof -
  let ?d = "registered rg' d"
  obtain metric was where p: "policy_row_check p" and metric: "rg_metrics rg' = rg_metrics rg @ [metric]" "nm_node_id metric = node_id"
    "nm_measured_at metric = now" "nm_gpu_temp_c metric = hb_gpu_temp_c hb" "nm_vram_used_mib metric = hb_vram_used_mib hb"
    "nm_vram_total_mib metric = hb_vram_total_mib hb" and hb: "heartbeat_ok hb"
    and go: "pause_reason_of was (p_max_concurrent p) (p_gpu_temp_limit_c p) (p_vram_reserve_mib p) hb = None"
    by (rule heartbeat_inversion [OF assms(1,2,5,3)])
  have latest: "latest_metric node_id ?d = Some (NodeMetric.truncate metric)"
    by (rule latest_metric_registered [OF metric(1-3) assms(4)])
  obtain pol where pol: "accounting_policy p = Inr pol" "NodePolicy_validate pol = Inr ()"
    "set (reject_tags pol) = set (p_reject_tags p)" "int (unat (max_concurrent pol)) = sint (p_max_concurrent p)"
    "int (unat (vram_reserve_mib pol)) = sint (p_vram_reserve_mib p)"
    "case p_gpu_temp_limit_c p of None \<Rightarrow> gpu_temp_limit_c pol = None
      | Some l \<Rightarrow> \<exists>k. gpu_temp_limit_c pol = Some k \<and> int (unat k) = sint l"
    by (rule accounting_policy_of_row [OF p]) (use assms(6) in auto)
  define active where "active = active_leases later node_id excluded ?d"
  have "int active < int (unat (max_concurrent pol))" using assms(8) pol(4) by (simp add: active_def)
  then have few: "active < unat (max_concurrent pol)" "active < 4294967296"
    using unat_u32_less [of "max_concurrent pol"] by (simp_all only: of_nat_less_iff)
  let ?run = "\<lparr>task_tags = btree_set tags, current_concurrent = word_of_nat active,
     gpu_temp_c = map_option f64_from_i32 (hb_gpu_temp_c hb), available_vram_mib = available_vram (NodeMetric.truncate metric),
     paused_for_temperature = False\<rparr>"
  have limit: "30 \<le> sint l" if "p_gpu_temp_limit_c p = Some l" for l using p that by (simp add: policy_row_check_def)
  have "\<not> tags_clash pol ?run" using assms(6) pol(3) by (auto simp: tags_clash_def)
  moreover have "current_concurrent ?run < max_concurrent pol" using few by (simp add: word_less_nat_alt unsigned_of_nat take_bit_nat_eq_self)
  moreover have "temperature_ok pol ?run"
  proof (cases "p_gpu_temp_limit_c p")
    case (Some l)
    then obtain k where k: "gpu_temp_limit_c pol = Some k" "int (unat k) = sint l" using pol(6) by auto
    obtain t where t: "hb_gpu_temp_c hb = Some t" "0 \<le> sint t" "sint t < sint l"
      using not_paused(2) [OF go hb limit Some] by auto
    have "(of_nat (unat k) :: rat) = of_int (sint l)" using k(2) by (metis of_int_of_nat_eq)
    with k(1) t show ?thesis by (simp add: temperature_ok_def f64_from_i32_value del: of_nat_unat of_int_sint)
  qed (use pol(6) in \<open>simp add: temperature_ok_def\<close>)
  moreover have "vram_ok pol ?run"
  proof (cases "sint (p_vram_reserve_mib p) = 0")
    case True
    then have "unat (vram_reserve_mib pol) = 0" using pol(5) by linarith
    then show ?thesis by (simp add: vram_ok_def unat_eq_0)
  next
    case False
    then obtain in_use total where v: "hb_vram_used_mib hb = Some in_use" "hb_vram_total_mib hb = Some total"
      using assms(7) by auto
    let ?free = "i64_saturating_sub total in_use"
    have free: "0 \<le> sint ?free" "sint (p_vram_reserve_mib p) \<le> sint ?free"
      using not_paused(3) [OF go hb limit v] by simp_all
    have "int (unat (vram_reserve_mib pol)) \<le> int (unat (word_of_int (sint ?free) :: u64))"
      using pol(5) free(2) unsigned_reading(2) [OF free(1)] by linarith
    then have "vram_reserve_mib pol \<le> word_of_int (sint ?free)" by (simp only: of_nat_le_iff word_le_nat_alt)
    moreover have "available_vram (NodeMetric.truncate metric) = Some (word_of_int (sint ?free))"
      using v metric(5,6) free(1) by (simp add: available_vram_def u64_try_from_i64_def truncated)
    ultimately show ?thesis by (simp add: vram_ok_def)
  qed
  ultimately have "evaluate_policy pol ?run = Inr (Accept False)" using pol(2) by (simp add: evaluate_Accept)
  then show ?thesis
    using pol(1) few(2) latest metric(4)
    by (simp add: enforce_current_policy_def Let_def flip: active_def add: u32_try_from_nat_def truncated)
qed

lemma blank_tag_policy:
  assumes "t \<in> set (p_reject_tags p)" "\<not> valid_tag t"
  shows "accounting_policy p = Inl InternalError \<or> (\<exists>pol. accounting_policy p = Inr pol \<and> (\<exists>e. NodePolicy_validate pol = Inl e))"
proof (cases "accounting_policy p")
  case (Inl e)
  then show ?thesis by (auto simp: accounting_policy_def ok_or_def and_then_eq_Inl split: option.splits if_splits)
next
  case (Inr pol)
  then have "reject_tags pol = btree_set (p_reject_tags p)" by (auto simp: accounting_policy_def result_simps)
  then have "NodePolicy_validate pol \<noteq> Inr ()" using assms by (auto simp: NodePolicy_validate_def list_ex_iff split: if_splits)
  with Inr show ?thesis by (cases "NodePolicy_validate pol") auto
qed

text \<open>C21. A node whose policy holds one reject tag that is blank or has a control character in it, which registration
  and heartbeats accept, can claim nothing: the check of the policy ends in an internal error for every task, whatever
  the node reports.\<close>

theorem blank_reject_tag_blocks_claims:
  assumes "t \<in> set (p_reject_tags p)" "\<not> valid_tag t"
  shows "enforce_current_policy now node_id p excluded tags d = Inl InternalError"
  using blank_tag_policy [OF assms]
  by (auto simp: enforce_current_policy_def Let_def evaluate_policy_def ok_or_def u32_try_from_nat_def)

section \<open>Publishing\<close>

definition published_model :: "OffsetDateTime \<Rightarrow> Principal \<Rightarrow> ModelEntry \<Rightarrow> ModelEntry \<Rightarrow> bool" where
  "published_model now prin m m' \<longleftrightarrow>
     m' = m \<or> m_owner_user_id m = pr_user_id prin \<and> m' = m\<lparr>m_enabled := True, m_updated_at := now\<rparr>"

definition fresh_entry :: "Principal \<Rightarrow> ModelEntry \<Rightarrow> bool" where
  "fresh_entry prin m \<longleftrightarrow> m_owner_user_id m = pr_user_id prin \<and> m_base_cost_per_1k_micro m = V1_BASE_COST_PER_1K_MICRO \<and>
     m_tier m = Medium \<and> m_benchmark_normalized m = 0 \<and> m_glicko_normalized m = 500000 \<and> m_evaluation_samples m = 0"

lemma upsert_model_entries:
  assumes "upsert_model now fresh prin pm rows = Inr (m, rows')"
  shows "\<exists>olds news. rows' = olds @ news \<and> list_all2 (published_model now prin) rows olds \<and> list_all (fresh_entry prin) news"
proof (cases "fetch_optional (\<lambda>m. m_name m = trim (pm_name pm) \<and> m_weights_hash m = to_ascii_lowercase (pm_weights_hash pm)) rows")
  case None
  then obtain row where "rows' = rows @ [row]" "fresh_entry prin row"
    using assms by (auto simp: upsert_model_def Let_def fresh_entry_def split: if_splits)
  then show ?thesis
    by (intro exI [of _ rows] exI [of _ "[row]"]) (simp add: published_model_def list_all2_refl)
next
  case (Some existing)
  then show ?thesis
    using assms
    by (intro exI [of _ rows'] exI [of _ "[]"])
      (auto simp: upsert_model_def Let_def published_model_def sql_update_def list_all2_map2 intro!: list_all2_refl)
qed

text \<open>C22. Publishing sets no price and no quality: whatever the request says, every model that exists keeps its row, of
  which only the owner's own publication touches the enabled flag and the time, a new model belongs to the caller at the
  fixed price and in the middle tier with no evaluation behind it, and the instance runs on a node of the caller that is
  bound to the caller's device.\<close>

theorem publishing_sets_no_price:
  assumes "publish_model seeding now fresh fresh' prin pm rg = Inr (Inr a, rg')"
  shows "(\<exists>olds news. rg_models rg' = olds @ news \<and> list_all2 (published_model now prin) (rg_models rg) olds \<and>
      list_all (fresh_entry prin) news) \<and>
    (\<exists>n \<in> set (rg_nodes rg). n_id n = pm_node_id pm \<and> n_user_id n = pr_user_id prin \<and>
      n_device_key_id n = Some (pr_device_key_id prin)) \<and>
    rg_nodes rg' = rg_nodes rg \<and> (seeding = None \<longrightarrow> rg_profiles rg' = rg_profiles rg)"
proof -
  obtain m where "upsert_model now fresh prin pm (rg_models rg) = Inr (m, rg_models rg')"
    using assms by (auto simp: publish_model_def Let_def result_simps split: if_splits)
  moreover obtain n where "fetch_optional (\<lambda>n. n_id n = pm_node_id pm) (rg_nodes rg) = Some n"
    "require_node_device_binding prin (n_user_id n) (n_device_key_id n) = Inr ()"
    using assms by (auto simp: publish_model_def Let_def result_simps split: if_splits)
  moreover have "rg_nodes rg' = rg_nodes rg \<and> (seeding = None \<longrightarrow> rg_profiles rg' = rg_profiles rg)"
    using assms by (auto simp: publish_model_def Let_def result_simps split: if_splits)
  ultimately show ?thesis
    using upsert_model_entries by (fastforce dest: fetch_optional_Some simp: require_node_device_binding_def split: if_splits)
qed

end
