(* ===== verification/FleetSample.thy ===== *)
theory FleetSample
  imports Fleet Sample
begin

text \<open>
  A concrete registry: the worker of \<open>Sample\<close> registers a node whose policy has a blank reject tag, the first
  heartbeat replaces the policy and takes the node online, and the worker publishes a model on it. The witnesses of
  the properties of \<open>Fleet\<close> and \<open>Honor\<close> apply them here.
\<close>

section \<open>The registry\<close>

definition toy_hardware :: "unit HardwareProfile" where
  "toy_hardware = \<lparr>operating_system = lit ''Linux'', operating_system_version = lit ''6'', architecture = lit ''x'',
     cpu_model = lit ''c'', cpu_logical_cores = 8, ram_total_mib = 1000, gpus = [], cuda_available = False,
     metal_available = False, sandbox_mechanisms = [Namespaces, SeccompBpf, Landlock], extra = []\<rparr>"

definition toy_registration :: "unit RegisterNodeRequest" where
  "toy_registration = \<lparr>reg_alias = lit ''n'', hardware_profile = toy_hardware, reg_reject_tags = [lit '' ''],
     reg_max_concurrent = 2, reg_gpu_temp_limit_c = Some 80, reg_vram_reserve_mib = 0\<rparr>"

definition empty_registry :: registry where
  "empty_registry = \<lparr>rg_nodes = [], rg_policies = [], rg_metrics = [], rg_heartbeats = [], rg_models = [],
     rg_instances = [], rg_canary = [], rg_profiles = []\<rparr>"

definition blank_policy :: NodePolicyRow where
  "blank_policy = \<lparr>p_node_id = 20, p_reject_tags = [lit '' ''], p_max_concurrent = 2, p_gpu_temp_limit_c = Some 80,
     p_vram_reserve_mib = 0\<rparr>"

definition joined_node :: NodeRow where
  "joined_node = \<lparr>n_id = 20, n_user_id = 2, n_device_key_id = Some 102, n_status = Offline, n_last_seen_at = None,
     n_trust_level = TrustLevel.Standard, n_trust_expires_at = None, n_attestation_report_id = None,
     n_hardware_profile = [], n_alias = lit ''n'', n_pause_reason = Some (lit ''awaiting_first_heartbeat''),
     n_created_at = toy_now, n_updated_at = toy_now, n_verified_uptime_seconds = 0, n_verified_heartbeat_count = 0,
     n_last_verified_heartbeat_at = None\<rparr>"

definition rg_joined :: registry where
  "rg_joined = empty_registry\<lparr>rg_nodes := [joined_node], rg_policies := [blank_policy]\<rparr>"

definition toy_heartbeat :: HeartbeatRequest where
  "toy_heartbeat = \<lparr>hb_tps_milli = 1000, hb_ttft_ms = 10, hb_current_concurrent = 0, hb_gpu_temp_c = Some 60,
     hb_vram_used_mib = Some 100, hb_vram_total_mib = Some 900, hb_error_rate_ppm = 0, hb_coordinator_rtt_ms = None,
     hb_draining = False, hb_policy = Some \<lparr>dto_reject_tags = [lit ''adult''], dto_max_concurrent = 2,
       dto_gpu_temp_limit_c = Some 80, dto_vram_reserve_mib = 500\<rparr>\<rparr>"

definition toy_policy :: NodePolicyRow where
  "toy_policy = \<lparr>p_node_id = 20, p_reject_tags = [lit ''adult''], p_max_concurrent = 2, p_gpu_temp_limit_c = Some 80,
     p_vram_reserve_mib = 500\<rparr>"

definition toy_metric :: MetricRow where
  "toy_metric = \<lparr>nm_id = 500, nm_node_id = 20, nm_measured_at = toy_now + 7000000000, nm_tps_milli = 1000,
     nm_current_concurrent = 0, nm_gpu_temp_c = Some 60, nm_vram_used_mib = Some 100, nm_vram_total_mib = Some 900,
     nm_error_rate_ppm = 0, nm_coordinator_rtt_ms = None, nm_ttft_ms = 10\<rparr>"

definition rg_online :: registry where
  "rg_online = rg_joined\<lparr>rg_nodes := [joined_node\<lparr>n_status := Online, n_pause_reason := None,
       n_verified_heartbeat_count := 1, n_last_verified_heartbeat_at := Some (toy_now + 7000000000),
       n_last_seen_at := Some (toy_now + 7000000000), n_updated_at := toy_now + 7000000000\<rparr>],
     rg_policies := [toy_policy], rg_metrics := [toy_metric],
     rg_heartbeats := [\<lparr>hr_id = 600, hr_node_id = 20, hr_status = Online, hr_accepting_jobs = True,
       hr_received_at = toy_now + 7000000000\<rparr>]\<rparr>"

definition toy_repeat :: HeartbeatRequest where
  "toy_repeat = \<lparr>hb_tps_milli = 1000, hb_ttft_ms = 10, hb_current_concurrent = 0, hb_gpu_temp_c = Some 60,
     hb_vram_used_mib = Some 100, hb_vram_total_mib = Some 900, hb_error_rate_ppm = 0, hb_coordinator_rtt_ms = None,
     hb_draining = False, hb_policy = None\<rparr>"

text \<open>Evaluation of the handlers: the validators once and for all, then the statements on the rows.\<close>

lemma registration_valid: "RegisterNodeRequest_validate toy_registration = Inr ()"
  by code_simp

lemma heartbeats_valid: "HeartbeatRequest_validate toy_heartbeat = Inr ()" "HeartbeatRequest_validate toy_repeat = Inr ()"
  by code_simp+

lemmas toy_requests = toy_heartbeat_def toy_repeat_def toy_registration_def

lemmas toy_rows = empty_registry_def rg_joined_def rg_online_def joined_node_def blank_policy_def toy_policy_def
  toy_metric_def worker_login_def

lemmas toy_evaluation = registration_valid [unfolded toy_requests] heartbeats_valid [unfolded toy_requests]
  Let_def commit_def fetch_optional_def require_node_device_binding_def sql_policy_values_def i32_try_from_def
  i64_try_from_def policy_row_check_def pause_reason_of_def opt_zip_def sint_saturating_sub temperature_requires_pause_def
  metric_row_check_def heartbeat_row_def uptime_seconds_def s_checked_add_def node_row_check_def

lemma toy_trust: "software_trust_level toy_hardware = TrustLevel.Standard"
  by code_simp

lemma toy_name: "trim (lit ''n'') = lit ''n''"
  by code_simp

lemma joins: "register_node (\<lambda>_. Some []) toy_now 20 [] worker_login toy_registration empty_registry =
    Inr (Inr \<lparr>rn_node_id = 20, rn_status = Offline, rn_trust_level = TrustLevel.Standard\<rparr>, rg_joined)"
  by (simp add: register_node_def toy_requests toy_rows toy_evaluation upsert_node_def upsert_policy_def toy_trust toy_name
      cong: and_then_weak del: lit_simps)

lemma beats_once: "node_heartbeat (toy_now + 7000000000) 500 600 worker_login 20 toy_heartbeat rg_joined =
    Inr (Inr \<lparr>ha_node_id = 20, ha_status = Online, ha_accepting_jobs = True, ha_pause_reason = None,
      ha_policy_updated = True\<rparr>, rg_online)"
  by (simp add: node_heartbeat_def toy_requests toy_rows toy_evaluation cong: and_then_weak del: lit_simps)

text \<open>Half a minute later a second heartbeat, and a publication.\<close>

definition rg_later :: registry where
  "rg_later = rg_online\<lparr>rg_nodes := [joined_node\<lparr>n_status := Online, n_pause_reason := None,
       n_verified_uptime_seconds := 30, n_verified_heartbeat_count := 2,
       n_last_verified_heartbeat_at := Some (toy_now + 37000000000),
       n_last_seen_at := Some (toy_now + 37000000000), n_updated_at := toy_now + 37000000000\<rparr>],
     rg_metrics := [toy_metric, toy_metric\<lparr>nm_id := 501, nm_measured_at := toy_now + 37000000000\<rparr>],
     rg_heartbeats := [\<lparr>hr_id = 600, hr_node_id = 20, hr_status = Online, hr_accepting_jobs = True,
       hr_received_at = toy_now + 7000000000\<rparr>, \<lparr>hr_id = 601, hr_node_id = 20, hr_status = Online,
       hr_accepting_jobs = True, hr_received_at = toy_now + 37000000000\<rparr>]\<rparr>"

lemma beats_twice: "node_heartbeat (toy_now + 37000000000) 501 601 worker_login 20 toy_repeat rg_online =
    Inr (Inr \<lparr>ha_node_id = 20, ha_status = Online, ha_accepting_jobs = True, ha_pause_reason = None,
      ha_policy_updated = False\<rparr>, rg_later)"
  by (simp add: node_heartbeat_def toy_requests toy_rows rg_later_def toy_evaluation cong: and_then_weak del: lit_simps)

lemma toy_run: "registry_run (\<lambda>_ :: unit HardwareProfile. Some []) ({} :: unit db set) toy_now rg_joined (toy_now + 37000000000) rg_later"
  by (rule registry_run.continues [OF registry_run.continues [OF registry_run.starts _ registry_step.beats [OF beats_once]] _
      registry_step.beats [OF beats_twice]]) simp_all

definition toy_publication :: PublishRequest where
  "toy_publication = \<lparr>pm_node_id = 20, pm_name = lit ''auto'', pm_alias = lit ''a'', pm_format = lit ''GGUF'',
     pm_weights_hash = replicate 64 97, pm_size_bytes = 1, pm_context_length = 8192, pm_benchmark_normalized = 0,
     pm_glicko_normalized = 0, pm_evaluation_samples = 0, pm_base_cost_per_1k_micro = 1000000, pm_tags = []\<rparr>"

lemma publishes_once: "(case publish_model None (toy_now + 8000000000) 30 40 worker_login toy_publication rg_online of
    Inr (Inr a, rg) \<Rightarrow> pa_model_id a = 30 \<and> pa_model_instance_id a = 40 \<and> pa_status a = Published | _ \<Rightarrow> False)"
  by code_simp

section \<open>Five nodes that contributed\<close>

definition toy_receipt :: Receipt where
  "toy_receipt = \<lparr>rc_id = 0, rc_job_id = 0, rc_consumer_user_id = 1, rc_node_user_id = 2, rc_model_name = [], rc_tier = High,
     rc_trust_level = TrustLevel.Standard, rc_base_cost_micro = 0, rc_user_deduction_micro = 0, rc_node_quota_micro = 0,
     rc_contribution_micro = 0, rc_contribution_weight_ppm = 0, rc_reserve_micro = 0, rc_settlement_hash = [],
     rc_billing = billing_columns toy_snapshot\<rparr>"

definition honor_db :: "unit db" where
  "honor_db = (initial_db ())\<lparr>jobs := map (\<lambda>i. toy_leased\<lparr>j_id := i, j_leased_to_node_id := Some i\<rparr>) [1, 2, 3, 4, 5],
     receipts := map (\<lambda>i. toy_receipt\<lparr>rc_job_id := i, rc_contribution_micro := 1000 * ucast i\<rparr>) [1, 2, 3, 4, 5]\<rparr>"

lemma honor_contributions: "contributions honor_db = [(1, 1000), (2, 2000), (3, 3000), (4, 4000), (5, 5000)]"
  by (simp add: contributions_def node_receipts_def honor_db_def toy_receipt_def)

lemma honor_tables: "honor_tables_ok toy_now honor_db"
  by (simp add: honor_tables_ok_def honor_contributions utc_day_def toy_now_def) (simp add: honor_db_def initial_db_def)

lemma honor_earned: "earned honor_db 5 = 5000"
  by (simp add: earned_def contributed_by_def honor_contributions)

lemma honor_contributors: "contributors honor_db = [(1, 1000), (2, 2000), (3, 3000), (4, 4000), (5, 5000)]"
  by (simp add: contributors_def earned_def contributed_by_def honor_contributions)

lemma honor_attempts: "attempts_of honor_db n = []"
  by (simp add: attempts_of_def honor_db_def initial_db_def)

lemma honor_reliable: "reliable_contributors toy_now honor_db = {}"
  by (simp add: reliable_contributors_def honor_attempts reliable_def clean_day_def) presburger

lemma honor_published: "honor_entries (contributors honor_db) 0 = [\<lparr>he_label = Contributor, qualifying_nodes_lower_bound = 5\<rparr>]"
  by (simp add: honor_entries_def honor_contributors band_nodes_def in_band_def below_def level_def honor_entry_def)

theorem honor_always_computed_witness:
  "\<exists>st x. node_honor_stats toy_now 5 5000 honor_db = Some (Inr st) \<and> \<not> suppressed (network_leaderboard st) \<and>
     lb_entries (network_leaderboard st) = [\<lparr>he_label = Contributor, qualifying_nodes_lower_bound = 5\<rparr>] \<and>
     contribution_rank_percentile st = Some x \<and> rounds_to x 1 \<and> zero_failure_streak_days st = None"
proof -
  from honor_always_computed [OF honor_tables, of 5] obtain st where
    "node_honor_stats toy_now 5 5000 honor_db = Some (Inr st)" "\<not> suppressed (network_leaderboard st)"
    "lb_entries (network_leaderboard st) = honor_entries (contributors honor_db) 0"
    "\<exists>x. contribution_rank_percentile st = Some x \<and> rounds_to x 1" "zero_failure_streak_days st = None"
    by (auto simp: honor_earned honor_reliable honor_attempts honor_contributors below_def level_def exact_midrank_def)
  then show ?thesis unfolding honor_published by blast
qed

section \<open>Witnesses\<close>

theorem node_identity_permanent_witness: "nodes_follow same_identity (rg_nodes rg_joined) (rg_nodes rg_later)"
  by (rule node_identity_permanent [OF toy_run])

theorem uptime_follows_clock_witness:
  "nodes_follow (uptime_bounded toy_now (toy_now + 37000000000)) (rg_nodes rg_joined) (rg_nodes rg_later)"
  by (rule uptime_follows_clock [OF toy_run])

theorem registration_never_promotes_witness:
  "\<exists>n \<in> set (rg_nodes rg_joined). n_id n = 20 \<and> n_user_id n = 2 \<and> n_status n = Offline \<and> n_trust_level n = TrustLevel.Standard"
  using registration_never_promotes [OF joins] by (auto simp: worker_login_def)

theorem online_node_passes_policy_witness:
  "enforce_current_policy (toy_now + 8000000000) 20 toy_policy None [lit ''code''] (registered rg_online (initial_db ())) = Inr ()"
proof (rule online_node_passes_policy [OF beats_once])
  show "list_all policy_row_check (rg_policies rg_joined)" by code_simp
  show "\<forall>m \<in> set (rg_metrics rg_joined). nm_node_id m = 20 \<longrightarrow> nm_measured_at m < toy_now + 7000000000"
    by (simp add: rg_joined_def empty_registry_def)
  show "fetch_optional (\<lambda>p. p_node_id p = 20) (rg_policies rg_online) = Some toy_policy"
    by (simp add: fetch_optional_def rg_online_def toy_policy_def)
  have "valid_tag (lit ''adult'') \<and> normalize_tag (lit ''adult'') \<noteq> normalize_tag (lit ''code'')" by code_simp
  then show "\<forall>t \<in> set (p_reject_tags toy_policy). valid_tag t \<and>
      (\<forall>t' \<in> set [lit ''code'']. normalize_tag t \<noteq> normalize_tag t')" by (simp add: toy_policy_def)
  show "int (active_leases (toy_now + 8000000000) 20 None (registered rg_online (initial_db ()))) < sint (p_max_concurrent toy_policy)"
    by (simp add: active_leases_def registered_def initial_db_def rows_affected_def toy_policy_def)
qed (simp_all add: toy_heartbeat_def)

theorem blank_reject_tag_blocks_claims_witness:
  "enforce_current_policy toy_now 20 blank_policy None [] (registered rg_joined (initial_db ())) = Inl InternalError"
proof (rule blank_reject_tag_blocks_claims)
  show "lit '' '' \<in> set (p_reject_tags blank_policy)" by (simp add: blank_policy_def)
  show "\<not> valid_tag (lit '' '')" by code_simp
qed

theorem publishing_sets_no_price_witness:
  "\<exists>a rg. publish_model None (toy_now + 8000000000) 30 40 worker_login toy_publication rg_online = Inr (Inr a, rg) \<and>
     rg_nodes rg = rg_nodes rg_online \<and> rg_profiles rg = rg_profiles rg_online"
proof -
  obtain a rg where p: "publish_model None (toy_now + 8000000000) 30 40 worker_login toy_publication rg_online = Inr (Inr a, rg)"
    using publishes_once by (auto split: sum.splits)
  with publishing_sets_no_price [OF p] show ?thesis by auto
qed

end
