(* ===== verification/Spec2Isabelle.thy ===== *)
theory Spec2Isabelle
  imports Billing Reserve Ledger Tier Policy Optimize Routing Glicko2 JobWire Guarantees StreamSample FleetSample
begin

text \<open>
  A verification development for MindOne, a network that lends idle GPUs: consumers submit language
  model jobs, nodes claim and run them, and a coordinator keeps the accounts. It models the accounting
  library, the request messages, and the part of the coordinator that moves quota: the life of a job from
  its creation to its settlement, the ledgers, and the operator's commands, with the registration of the
  nodes and models that do the work.

  \<^bold>\<open>The program and its model.\<close> Paths are under \<open>crates/\<close>.

  \<^item> \<open>Prelude\<close>, \<open>MachInt\<close>, \<open>RustStr\<close>, \<open>Bytes\<close>, \<open>F64\<close>: what the code takes from the language. Results are
    sums (\<open>Inl\<close> the error) composed with \<open>and_then\<close>, which is \<open>?\<close>; integers are words of their width with
    Rust's checked and saturating operations; strings are lists of scalar values with \<open>char\<close> predicates
    and UTF-8; \<open>f64\<close> is binary64 with round to nearest even on exact rationals.
  \<^item> \<open>Fixed\<close>, \<open>Billing\<close>, \<open>Reserve\<close>, \<open>Ledger\<close>, \<open>Quality\<close>, \<open>Tier\<close>, \<open>Policy\<close>, \<open>Optimize\<close>, \<open>Routing\<close>, \<open>Contribution\<close>,
    \<open>Glicko2\<close>: the files of \<open>mindone-accounting/src\<close>, one theory each (\<open>routing.rs\<close> has two). Every public
    function is a definition of the same name; SHA-256 is a parameter of \<open>Ledger\<close>, the transcendental
    functions are parameters of \<open>Glicko2\<close>, of which C39 uses two facts about \<open>exp\<close> and \<open>sqrt\<close>.
  \<^item> \<open>Wire\<close>, \<open>JobWire\<close>: the validators of \<open>mindone-protocol/src\<close> (\<open>common.rs\<close>, \<open>openai.rs\<close>, \<open>models.rs\<close>, \<open>nodes.rs\<close>,
    \<open>api_keys.rs\<close>, \<open>jobs.rs\<close>) with the associated data of regulated envelopes. \<open>serde_json\<close>, base64 and hex
    decoding are parameters with their documented behaviour as hypotheses.
  \<^item> \<open>Db\<close>, \<open>Accounts\<close>: the coordinator's tables as lists of rows in a record \<open>db\<close>, the SQL statements as
    list functions, the check constraints, the reservation and release of quota, and the trigger of
    migration 0024 that advances the head of the three append-only ledgers.
  \<^item> \<open>StandardData\<close>: \<open>mindone-coordinator/src/standard_data.rs\<close>, encryption at rest. Key derivation, AEAD and
    MAC are a record of functions \<open>crypto\<close>; \<open>crypto_ok\<close> states what their crates document.
  \<^item> \<open>Jobs\<close>, \<open>Create\<close>: \<open>routes/jobs.rs\<close> and \<open>routes/regulated_jobs.rs\<close>: \<open>create_job\<close>, \<open>create_regulated_job\<close>,
    \<open>claim_job\<close> with both reapers and the policy check, \<open>get_job\<close>, which runs the reapers too, \<open>renew_job\<close>,
    \<open>job_fail\<close>, and \<open>cancel_timed_out_job\<close> of \<open>openai_gateway.rs\<close>.
  \<^item> \<open>Settle\<close>: \<open>settlement.rs\<close>, \<open>complete_job\<close> with its replay branch, the frozen quote, the four ledger
    postings and the receipt.
  \<^item> \<open>Stream\<close>, \<open>Submit\<close>: the rest of the worker's and reader's side of \<open>routes/jobs.rs\<close>: \<open>append_job_stream_event\<close>,
    \<open>get_job_stream\<close>, and \<open>job_result\<close> with the validation that stands in front of \<open>complete_job\<close>. The append-only
    table of stream events is a list of rows beside the database, which these handlers only read.
  \<^item> \<open>Operator\<close>: \<open>operator_grant.rs\<close>, \<open>release_reserve\<close> of \<open>settlement.rs\<close>, and the account a first login opens
    (\<open>auth_routes.rs\<close>).
  \<^item> \<open>Honor\<close>, \<open>Registry\<close>: \<open>routes/nodes_models.rs\<close>, from the honor statistics to \<open>register_node\<close>,
    \<open>node_heartbeat\<close>, \<open>node_stats\<close>, \<open>publish_model\<close>, \<open>unpublish_model\<close> and \<open>list_models\<close>. They act on a
    record \<open>registry\<close> of the rows with all columns.

  \<^bold>\<open>How the parts compose.\<close> A handler is a function from the database before its transaction to
  an answer with the database after its commit, or to an error, which leaves the database as it was. The
  code locks the rows it reads (\<open>FOR UPDATE\<close>, advisory locks), so transactions are run one after another.
  A committed refusal, such as a regulated job failed because its hardware report is gone, is an
  \<open>Inl\<close> answer with a changed database. \<open>Coordinator\<close> puts the handlers together: a \<open>call\<close> is one
  transaction, \<open>handle\<close> runs it, \<open>reachable\<close> are the databases any sequence of calls produces from an
  empty installation, and \<open>world\<close> fixes the parameters for a run. \<open>Elsewhere\<close> stands for every
  handler that writes no job, account or ledger and may put any rows into the other tables; the handlers
  of \<open>Registry\<close> are such calls, and \<open>registered\<close> says which rows of the database a registry stands for.

  \<^bold>\<open>Specification and refinement.\<close> \<open>Escrow\<close> states the contract as an abstract machine of funds, open
  jobs with their holds, and a reserve; \<open>escrow_of\<close> abstracts a database to it, and \<open>settled\<close>
  is what a settlement does to it. \<open>Lifecycle\<close> and \<open>Posting\<close> show for each handler that it is a run of the
  abstract machine, keeps the invariant \<open>money_ok\<close> (escrow, constraints and ledger books), leaves
  finished jobs alone and changes the circulation by a stated amount (\<open>money_flow\<close>, which composes by
  \<open>money_flow_trans\<close>). \<open>Leases\<close> follows one job through a claim. \<open>Guarantees\<close> reads the properties of the
  whole system off these lemmas, and \<open>Sample\<close> runs an account grant, a login, a job, its claim, its
  settlement and a repeated submission on concrete rows, which the witnesses use. \<open>Transcript\<close> specifies a stream
  as the list of its texts: \<open>stream_reachable\<close> are the event tables that appends produce, appending extends the
  transcript, reading returns a piece of it; \<open>StreamSample\<close> is its concrete run. \<open>Fleet\<close> does the same for the
  registry: \<open>registry_run\<close> are runs of its calls at times that do not go back, \<open>nodes_follow\<close> relates every node
  before a run to the same node after it, and the answer to a heartbeat is related to the policy check of the claim;
  \<open>FleetSample\<close> is the concrete run.

  \<^bold>\<open>Interfaces.\<close> The locales state what one part promises another and are interpreted on the
  definitions of the code: \<open>validated\<close> (a request validator accepts exactly the well-formed requests) on every
  message, \<open>comparator\<close> (a total order to sort by) on the rankings, \<open>checked_amount\<close> on \<open>MicroQuota\<close>,
  \<open>hash_chain\<close> on ledger entries, and \<open>ledger_book\<close> on the quota, contribution and reserve
  ledgers, from which all three get their hash-chain invariant.

  \<^bold>\<open>The properties.\<close> C1 to C11 are about every reachable database: refinement of the escrow,
  reservations equal the open jobs, settlement pays the frozen price and happens once, books agree with
  ledgers, quota is only minted by grants, an open job can be cancelled, a running lease is exclusive,
  finished jobs stay, a priced job pays its node, rows are well formed. C12 to C16 are about streams and
  submitted results, C17 to C23 about nodes, models and honor, C24 and C25 about encryption at rest, C26 to C33 about
  amounts, quotes, ledger and reserve, C34 to C39 about routing, contribution, policy and ratings, C40 about regulated
  messages.

  \<^bold>\<open>Bounds and termination.\<close> The code's own loop bounds are kept: a reaper takes 100 rows, the volatility
  searches of \<open>Glicko2\<close> stop after \<open>MAX_VOLATILITY_ITERATIONS\<close> steps as the code's do, so an
  update always returns. UTF-8 decoding recurses on the length of the rest. The two unbounded loops of the honor
  statistics are \<open>partial_function\<close>s into an option, and C23 shows that they return. No definition needs fuel.

  \<^bold>\<open>Choices.\<close> Text columns restricted by a constraint to fixed spellings are datatypes, so the error
  branches for other spellings cannot be taken and are left out. A failing statement, a violated constraint
  and a \<open>bigint\<close> overflow are \<open>InternalError\<close>, as \<open>ApiError::from\<close> makes them. Explanatory Chinese
  texts stored with a failed attempt are English literals, the texts of error responses are dropped, and a bad
  request or conflict keeps its machine-readable code. \<open>ClaimJobResponse\<close> leaves out the two columns
  copied from the attestation report and the constant policy flag. Times are nanoseconds; \<open>now()\<close>,
  \<open>now_utc()\<close>, nonces and fresh identifiers are arguments of a call. Nothing is assumed of fresh
  identifiers: a repeated one violates a key and the transaction fails.

  \<^bold>\<open>Not modelled.\<close> Parameters: the choice of a model and the candidate sub-query of the claim, hidden
  evaluation work, anti-abuse scoring and execution telemetry (on an abstract state \<open>risk\<close>), and request
  fingerprints. Left out: the branch of \<open>get_job\<close> for hidden work,
  preparation of regulated routes, migration of stored rows written before encryption, the billing profile that a test environment seeds when
  a model is published (a parameter), quota views, governance, authentication, hardware attestation, and all input and output (command line client,
  engine, sandbox, configuration, server start-up, scripts). Memory zeroing has no meaning in the model.
\<close>

end
